(* ===== verification/Prelude.thy ===== *)
theory Prelude
  imports "HOL-Library.Word"
begin

text \<open>
  Shared vocabulary of the development: the machine integers of the Rust sources as words,
  \<open>Result\<close> as a sum with the error on the left, a state-and-error monad for code that mutates
  its arguments and may return early (the mutations made before the error stay), and the generic
  lemmas on lists, sums and words that the component theories rely on.
\<close>

named_theorems result_simps
  \<open>unfolding of the Result combinators\<close>

named_theorems lower_defs
  \<open>definitions of the arms of the lowering loop\<close>

type_synonym u8 = "8 word"
type_synonym u16 = "16 word"
type_synonym u32 = "32 word"
type_synonym u64 = "64 word"

section \<open>Result\<close>

text \<open>
  \<open>rbind\<close> is the \<open>?\<close> operator: an error ends the computation, a value is passed on.
\<close>

definition rbind :: "'e + 'a \<Rightarrow> ('a \<Rightarrow> 'e + 'b) \<Rightarrow> 'e + 'b" where
  "rbind m f = (case m of Inl e \<Rightarrow> Inl e | Inr x \<Rightarrow> f x)"

definition ok_or :: "'e \<Rightarrow> 'a option \<Rightarrow> 'e + 'a" where
  "ok_or e x = (case x of None \<Rightarrow> Inl e | Some y \<Rightarrow> Inr y)"

definition map_err :: "('e \<Rightarrow> 'f) \<Rightarrow> 'e + 'a \<Rightarrow> 'f + 'a" where
  "map_err f m = (case m of Inl e \<Rightarrow> Inl (f e) | Inr x \<Rightarrow> Inr x)"

text \<open>A \<open>for\<close> loop whose body may leave with an error.\<close>

fun rfold :: "('a \<Rightarrow> 's \<Rightarrow> 'e + 's) \<Rightarrow> 'a list \<Rightarrow> 's \<Rightarrow> 'e + 's" where
  "rfold f [] s = Inr s"
| "rfold f (x # xs) s = rbind (f x s) (rfold f xs)"

lemma rbind_simps [simp, result_simps]:
  "rbind (Inl e) f = Inl e"
  "rbind (Inr x) f = f x"
  by (simp_all add: rbind_def)

lemma rbind_Inr_iff: "rbind m f = Inr y \<longleftrightarrow> (\<exists>x. m = Inr x \<and> f x = Inr y)"
  by (cases m) simp_all

lemma rbind_Inl_iff: "rbind m f = Inl e \<longleftrightarrow> m = Inl e \<or> (\<exists>x. m = Inr x \<and> f x = Inl e)"
  by (cases m) simp_all

lemma rbind_assoc: "rbind (rbind m f) g = rbind m (\<lambda>x. rbind (f x) g)"
  by (cases m) simp_all

lemma rbindE [elim!]:
  assumes "rbind m f = Inr y"
  obtains x where "m = Inr x" and "f x = Inr y"
  using assms by (auto simp: rbind_Inr_iff)

lemma ok_or_simps [simp, result_simps]:
  "ok_or e None = Inl e"
  "ok_or e (Some x) = Inr x"
  by (simp_all add: ok_or_def)

lemma ok_or_Inr_iff [simp]: "ok_or e x = Inr y \<longleftrightarrow> x = Some y"
  by (cases x) simp_all

lemma map_err_simps [simp, result_simps]:
  "map_err f (Inl e) = Inl (f e)"
  "map_err f (Inr x) = Inr x"
  by (simp_all add: map_err_def)

lemma map_err_Inr_iff [simp]: "map_err f m = Inr y \<longleftrightarrow> m = Inr y"
  by (cases m) simp_all

lemma rfold_append: "rfold f (xs @ ys) s = rbind (rfold f xs s) (rfold f ys)"
  by (induction xs arbitrary: s) (auto simp: rbind_def split: sum.split)

text \<open>An invariant of the loop body is an invariant of the loop.\<close>

lemma rfold_inv:
  assumes "rfold f xs s = Inr t" and "P s"
    and "\<And>x s t. x \<in> set xs \<Longrightarrow> P s \<Longrightarrow> f x s = Inr t \<Longrightarrow> P t"
  shows "P t"
  using assms
proof (induction xs arbitrary: s)
  case Nil
  then show ?case by simp
next
  case (Cons x xs)
  from Cons.prems(1) obtain u where "f x s = Inr u" "rfold f xs u = Inr t" by auto
  moreover from this(1) have "P u" using Cons.prems(2,3) by (meson list.set_intros(1))
  moreover have "\<And>y s t. y \<in> set xs \<Longrightarrow> P s \<Longrightarrow> f y s = Inr t \<Longrightarrow> P t"
    using Cons.prems(3) by (meson list.set_intros(2))
  ultimately show ?case using Cons.IH by blast
qed

section \<open>State and errors\<close>

text \<open>
  A computation that updates a state and may fail: the state it reached is returned in both
  cases, because Rust code that mutates \<open>&mut\<close> arguments and then returns \<open>Err\<close> leaves them
  mutated.
\<close>

type_synonym ('s, 'e, 'a) es = "'s \<Rightarrow> ('e + 'a) \<times> 's"

definition ret :: "'a \<Rightarrow> ('s, 'e, 'a) es" where
  "ret x s = (Inr x, s)"

definition fail :: "'e \<Rightarrow> ('s, 'e, 'a) es" where
  "fail e s = (Inl e, s)"

definition bindS :: "('s, 'e, 'a) es \<Rightarrow> ('a \<Rightarrow> ('s, 'e, 'b) es) \<Rightarrow> ('s, 'e, 'b) es" where
  "bindS m f s = (case m s of (Inl e, t) \<Rightarrow> (Inl e, t) | (Inr x, t) \<Rightarrow> f x t)"

definition thenS :: "('s, 'e, 'a) es \<Rightarrow> ('s, 'e, 'b) es \<Rightarrow> ('s, 'e, 'b) es" where
  "thenS m k = bindS m (\<lambda>_. k)"

definition liftS :: "'e + 'a \<Rightarrow> ('s, 'e, 'a) es" where
  "liftS r s = (r, s)"

definition getS :: "('s \<Rightarrow> 'a) \<Rightarrow> ('s, 'e, 'a) es" where
  "getS f s = (Inr (f s), s)"

definition modifyS :: "('s \<Rightarrow> 's) \<Rightarrow> ('s, 'e, unit) es" where
  "modifyS f s = (Inr (), f s)"

definition whenS :: "bool \<Rightarrow> ('s, 'e, unit) es \<Rightarrow> ('s, 'e, unit) es" where
  "whenS b m = (if b then m else ret ())"

fun forS :: "'a list \<Rightarrow> ('a \<Rightarrow> ('s, 'e, unit) es) \<Rightarrow> ('s, 'e, unit) es" where
  "forS [] f = ret ()"
| "forS (x # xs) f = thenS (f x) (forS xs f)"

lemma es_simps [simp]:
  "ret x s = (Inr x, s)"
  "fail e s = (Inl e, s)"
  "liftS r s = (r, s)"
  "getS f s = (Inr (f s), s)"
  "modifyS g s = (Inr (), g s)"
  by (simp_all add: ret_def fail_def liftS_def getS_def modifyS_def)

lemma bindS_Inr_iff:
  "bindS m f s = (Inr y, u) \<longleftrightarrow> (\<exists>x t. m s = (Inr x, t) \<and> f x t = (Inr y, u))"
  by (auto simp: bindS_def split: prod.splits sum.splits)

lemma bindS_Inl_iff:
  "bindS m f s = (Inl e, u) \<longleftrightarrow>
    m s = (Inl e, u) \<or> (\<exists>x t. m s = (Inr x, t) \<and> f x t = (Inl e, u))"
  by (auto simp: bindS_def split: prod.splits sum.splits)

lemma thenS_Inr_iff:
  "thenS m k s = (Inr y, u) \<longleftrightarrow> (\<exists>x t. m s = (Inr x, t) \<and> k t = (Inr y, u))"
  by (simp add: thenS_def bindS_Inr_iff)

lemma thenS_Inl_iff:
  "thenS m k s = (Inl e, u) \<longleftrightarrow>
    m s = (Inl e, u) \<or> (\<exists>x t. m s = (Inr x, t) \<and> k t = (Inl e, u))"
  by (simp add: thenS_def bindS_Inl_iff)

lemma bindS_run [simp]:
  "m s = (Inr x, t) \<Longrightarrow> bindS m f s = f x t"
  "m s = (Inl e, t) \<Longrightarrow> bindS m f s = (Inl e, t)"
  by (simp_all add: bindS_def)

lemma thenS_run [simp]:
  "m s = (Inr x, t) \<Longrightarrow> thenS m k s = k t"
  "m s = (Inl e, t) \<Longrightarrow> thenS m k s = (Inl e, t)"
  by (simp_all add: thenS_def)

text \<open>
  A relation between the state before and after (whatever the outcome) that is reflexive and
  transitive goes through the combinators.
\<close>

definition keeps :: "('s \<Rightarrow> 's \<Rightarrow> bool) \<Rightarrow> ('s, 'e, 'a) es \<Rightarrow> bool" where
  "keeps R m \<longleftrightarrow> (\<forall>s. R s (snd (m s)))"

lemma keepsI [intro?]: "(\<And>s. R s (snd (m s))) \<Longrightarrow> keeps R m"
  by (simp add: keeps_def)

lemma keepsD: "keeps R m \<Longrightarrow> m s = (r, t) \<Longrightarrow> R s t"
  by (metis keeps_def snd_conv)

lemma keeps_bindS:
  assumes "transp R" and "keeps R m" and "\<And>x. keeps R (f x)"
  shows "keeps R (bindS m f)"
proof
  fix s
  obtain r t where m: "m s = (r, t)" by fastforce
  have "R s t" using assms(2) m by (rule keepsD)
  moreover have "R t (snd (f x t))" for x using assms(3) by (simp add: keeps_def)
  ultimately show "R s (snd (bindS m f s))"
    using m assms(1) by (cases r) (auto dest: transpD)
qed

lemma keeps_thenS: "transp R \<Longrightarrow> keeps R m \<Longrightarrow> keeps R k \<Longrightarrow> keeps R (thenS m k)"
  by (simp add: thenS_def keeps_bindS)

lemma keeps_refl:
  assumes "reflp R"
  shows "keeps R (ret x)" and "keeps R (fail e)" and "keeps R (liftS r)" and "keeps R (getS f)"
  using assms by (auto simp: keeps_def reflp_def)

lemma keeps_forS:
  assumes "reflp R" and "transp R" and "\<And>x. x \<in> set xs \<Longrightarrow> keeps R (f x)"
  shows "keeps R (forS xs f)"
  using assms(3) by (induction xs) (simp_all add: keeps_refl keeps_thenS assms(1,2))

text \<open>
  Hoare triples: from a state with \<open>P\<close> the computation ends in \<open>Q\<close> with its value, or in \<open>E\<close> with
  its error.
\<close>

definition triple :: "('s \<Rightarrow> bool) \<Rightarrow> ('s, 'e, 'a) es \<Rightarrow> ('a \<Rightarrow> 's \<Rightarrow> bool) \<Rightarrow> ('e \<Rightarrow> 's \<Rightarrow> bool) \<Rightarrow> bool" where
  "triple P m Q E \<longleftrightarrow>
     (\<forall>s. P s \<longrightarrow> (case m s of (Inl e, t) \<Rightarrow> E e t | (Inr x, t) \<Rightarrow> Q x t))"

lemma tripleD:
  assumes "triple P m Q E" and "P s"
  shows "m s = (Inl e, t) \<Longrightarrow> E e t" and "m s = (Inr x, t) \<Longrightarrow> Q x t"
  using assms by (auto simp: triple_def split: prod.splits sum.splits)

lemma triple_bindS:
  assumes "triple P m R E" and "\<And>x. triple (R x) (f x) Q E"
  shows "triple P (bindS m f) Q E"
  using assms unfolding triple_def bindS_def by (fastforce split: prod.splits sum.splits)

lemma triple_thenS: "triple P m (\<lambda>_. R) E \<Longrightarrow> triple R k Q E \<Longrightarrow> triple P (thenS m k) Q E"
  unfolding thenS_def by (rule triple_bindS)

lemma triple_forS:
  assumes "\<And>x. x \<in> set xs \<Longrightarrow> triple P (f x) (\<lambda>_. P) E"
  shows "triple P (forS xs f) (\<lambda>_. P) E"
  using assms
proof (induction xs)
  case (Cons x xs)
  have "triple P (f x) (\<lambda>_. P) E" using Cons.prems by simp
  moreover have "triple P (forS xs f) (\<lambda>_. P) E" using Cons by simp
  ultimately show ?case by (simp add: triple_thenS)
qed (simp add: triple_def)

lemma triple_weaken:
  "triple P' m Q' E \<Longrightarrow> (\<And>s. P s \<Longrightarrow> P' s) \<Longrightarrow> (\<And>x s. Q' x s \<Longrightarrow> Q x s) \<Longrightarrow> triple P m Q E"
  unfolding triple_def by (fastforce split: prod.splits sum.splits)

lemma triple_if: "(b \<Longrightarrow> triple P m Q E) \<Longrightarrow> (\<not> b \<Longrightarrow> triple P k Q E) \<Longrightarrow> triple P (if b then m else k) Q E"
  by simp

section \<open>Decimal printing\<close>

text \<open>The bytes of a text.\<close>

definition bytes_of :: "string \<Rightarrow> u8 list" where
  "bytes_of s = map (\<lambda>c. of_nat (of_char c)) s"

text \<open>\<open>to_string\<close> of an unsigned integer.\<close>

fun dec :: "nat \<Rightarrow> string" where
  "dec n = (if n < 10 then [char_of (48 + n)] else dec (n div 10) @ [char_of (48 + n mod 10)])"

declare dec.simps [simp del]

lemma dec_numeral: "n < 10 \<Longrightarrow> dec n = [char_of (48 + n)]"
  by (simp add: dec.simps)

section \<open>Lists and words\<close>

lemma unat_of_nat_u32 [simp]: "n < 2 ^ 32 \<Longrightarrow> unat (of_nat n :: u32) = n"
  by (simp add: unat_of_nat take_bit_nat_eq_self)

lemma unat_of_nat_u16 [simp]: "n < 2 ^ 16 \<Longrightarrow> unat (of_nat n :: u16) = n"
  by (simp add: unat_of_nat take_bit_nat_eq_self)

lemma unat_of_int_u16: "0 \<le> k \<Longrightarrow> k < 2 ^ 16 \<Longrightarrow> int (unat (of_int k :: u16)) = k"
  by (simp add: uint_word_of_int take_bit_int_eq_self)

lemma list_all_update: "list_all P xs \<Longrightarrow> P y \<Longrightarrow> list_all P (xs[i := y])"
  by (auto simp: list_all_iff dest: set_update_subset_insert [THEN subsetD])

end
