(* ===== verification/Wasm_Types.thy ===== *)
theory Wasm_Types
  imports Prelude
begin

text \<open>
  The data that \<open>wasmparser\<close> hands to the translator: value types, block types, memory
  arguments, operators and section payloads, with the constructors the sources match on.
  \<open>wasmparser\<close> itself is not part of the repository; its parser is an argument of
  \<open>translate_wasm\<close>. The operators that the lowering treats alike are grouped by an outer
  constructor (\<open>I32Op\<close>, \<open>I64Op\<close>, \<open>LoadOp\<close>, \<open>StoreOp\<close>, \<open>ReinterpretOp\<close>); the inner constructors
  keep the names of \<open>wasmparser::Operator\<close>. Every operator no arm of the sources names is
  \<open>OtherOperator\<close>, and iterators over fallible items are lists of results.
\<close>

section \<open>Types and immediates\<close>

datatype ref_type = FuncRef | OtherRef string

datatype val_type = I32 | I64 | F32 | F64 | V128 | Ref ref_type

datatype block_type = BT_Empty | BT_Type val_type | BT_FuncType u32

type_synonym func_type = "val_type list \<times> val_type list"

record mem_arg =
  ma_offset :: u64
  ma_memory :: u32

section \<open>Operators\<close>

datatype i32_operator =
    I32Eqz | I32Eq | I32Ne | I32LtS | I32LtU | I32LeS | I32LeU | I32GtS | I32GtU | I32GeS | I32GeU
  | I32Add | I32Sub | I32Mul | I32And | I32Or | I32Xor | I32DivS | I32DivU | I32RemS | I32RemU
  | I32Shl | I32ShrS | I32ShrU | I32WrapI64 | I32Clz

datatype i64_operator =
    I64Ne | I64LtU | I64LeU | I64GtS | I64GtU | I64GeS | I64GeU
  | I64Mul | I64And | I64Or | I64Xor | I64DivS | I64DivU | I64RemS | I64RemU
  | I64Shl | I64ShrS | I64ShrU | I64Extend32S | I64ExtendI32S | I64ExtendI32U
  | I64MulWideS | I64MulWideU | I64Add128 | I64Sub128
  | I64Add | I64Sub | I64Eq | I64Eqz | I64LeS | I64LtS | I64Clz

datatype load_operator =
    I32Load | I64Load | I32Load8S | I32Load8U | I32Load16S | I32Load16U
  | I64Load8S | I64Load8U | I64Load16S | I64Load16U | I64Load32S | I64Load32U
  | F32Load | F64Load

datatype store_operator =
    I32Store | I64Store | I32Store8 | I32Store16 | I64Store8 | I64Store16 | I64Store32
  | F32Store | F64Store

datatype reinterpret_operator =
    I32ReinterpretF32 | F32ReinterpretI32 | I64ReinterpretF64 | F64ReinterpretI64

text \<open>
  Immediates are bit patterns: an \<open>i32\<close> is a \<^typ>\<open>u32\<close>, a float constant its IEEE bits.
  \<open>BrTable\<close> carries the results its target iterator yields and the default depth.
\<close>

datatype operator =
    Nop | Unreachable
  | I64Const u64 | I32Const u32 | F32Const u32 | F64Const u64
  | Drop | Select | TypedSelect val_type
  | I32Op i32_operator | I64Op i64_operator
  | GlobalGet u32 | GlobalSet u32 | LocalGet u32 | LocalSet u32 | LocalTee u32
  | Block block_type | Loop block_type | If block_type | Else | End
  | Br u32 | BrIf u32 | BrTable "(string + u32) list" u32
  | Return | Call u32 | ReturnCall u32 | CallIndirect u32 u32
  | LoadOp load_operator mem_arg | StoreOp store_operator mem_arg
  | MemorySize u32 | MemoryGrow u32 | MemoryCopy u32 u32 | MemoryFill u32
  | MemoryInit u32 u32 | DataDrop u32
  | ReinterpretOp reinterpret_operator
  | RefFunc u32 | RefNull ref_type
  | OtherOperator string

section \<open>Section payloads\<close>

datatype composite_type = CT_Func "val_type list" "val_type list" | CT_Other string

datatype type_ref = TR_Func u32 | TR_Other string

record import_entry =
  imp_module :: string
  imp_name :: string
  imp_ty :: type_ref

record memory_type =
  mt_memory64 :: bool
  mt_shared :: bool
  mt_initial :: u64
  mt_maximum :: "u64 option"
  mt_page_size_log2 :: "u32 option"

record table_type =
  tt_element_type :: ref_type
  tt_table64 :: bool
  tt_initial :: u64

type_synonym const_expr = "(string + operator) list"

datatype element_kind = EK_Active "u32 option" const_expr | EK_Passive | EK_Declared

datatype element_items = EI_Functions "(string + u32) list" | EI_Expressions "(string + const_expr) list"

datatype data_kind = DK_Active u32 const_expr | DK_Passive

datatype external_kind = EX_Func | EX_Other string

record export_entry =
  ex_name :: string
  ex_kind :: external_kind
  ex_index :: u32

text \<open>A function body: its local declarations (count and type) and its operators.\<close>

record function_body =
  fb_locals :: "string + (string + u32 \<times> val_type) list"
  fb_operators :: "string + (string + operator) list"

datatype payload =
    TypeSection "(string + composite_type list) list"
  | FunctionSection "(string + u32) list"
  | ImportSection "(string + import_entry) list"
  | MemorySection "(string + memory_type) list"
  | TableSection "(string + table_type) list"
  | ElementSection "(string + element_kind \<times> element_items) list"
  | DataSection "(string + data_kind \<times> u8 list) list"
  | DataCountSection
  | GlobalSection "(string + val_type \<times> const_expr) list"
  | ExportSection "(string + export_entry) list"
  | CodeSectionEntry function_body
  | StartSection
  | OtherPayload string

section \<open>Errors\<close>

text \<open>
  The \<open>Err(String)\<close> values of the translator. A message that embeds a value printed with
  \<open>{:?}\<close> keeps the value; \<open>Panic\<close> is a Rust panic, which no \<open>?\<close> and no \<open>Err(_)\<close> arm catches.
\<close>

datatype error =
    Msg string
  | MsgVal string val_type
  | MsgRef string ref_type
  | MsgOp string operator
  | MsgBrDepth u32
  | MsgImport type_ref string string
  | Panic string

fun is_panic :: "error \<Rightarrow> bool" where
  "is_panic (Panic _) = True"
| "is_panic _ = False"

end
