(* ===== verification/CuOp.thy ===== *)
theory CuOp
  imports Wasm_Types
begin

text \<open>
  The fixed-width instruction format that the translator emits (\<open>CuOpC\<close>, \<open>FuncMetaC\<close> and the
  opcode numbers of \<open>tools/src/lib.rs\<close>) and the two growing buffers of the translator: the code
  vector with \<open>emit\<close> and \<open>patch_b\<close>, and the constant pool with \<open>intern\<close>. What the lowering
  relies on from each buffer is a locale, interpreted here on the model of the code.
\<close>

section \<open>Opcodes\<close>

abbreviation OP_UNREACHABLE :: u16 where "OP_UNREACHABLE \<equiv> 0"
abbreviation OP_I64_CONST :: u16 where "OP_I64_CONST \<equiv> 1"
abbreviation OP_LOCAL_GET :: u16 where "OP_LOCAL_GET \<equiv> 2"
abbreviation OP_LOCAL_SET :: u16 where "OP_LOCAL_SET \<equiv> 3"
abbreviation OP_I64_ADD :: u16 where "OP_I64_ADD \<equiv> 4"
abbreviation OP_I64_SUB :: u16 where "OP_I64_SUB \<equiv> 5"
abbreviation OP_I64_EQ :: u16 where "OP_I64_EQ \<equiv> 6"
abbreviation OP_I64_EQZ :: u16 where "OP_I64_EQZ \<equiv> 7"
abbreviation OP_I64_LE_S :: u16 where "OP_I64_LE_S \<equiv> 8"
abbreviation OP_I64_LT_S :: u16 where "OP_I64_LT_S \<equiv> 9"
abbreviation OP_BR :: u16 where "OP_BR \<equiv> 10"
abbreviation OP_BR_IF_NOT :: u16 where "OP_BR_IF_NOT \<equiv> 11"
abbreviation OP_CALL :: u16 where "OP_CALL \<equiv> 12"
abbreviation OP_RETURN_CALL :: u16 where "OP_RETURN_CALL \<equiv> 13"
abbreviation OP_RETURN :: u16 where "OP_RETURN \<equiv> 14"
abbreviation OP_END_FUNC :: u16 where "OP_END_FUNC \<equiv> 15"
abbreviation OP_DROP :: u16 where "OP_DROP \<equiv> 16"
abbreviation OP_SELECT :: u16 where "OP_SELECT \<equiv> 17"
abbreviation OP_I32_EQZ :: u16 where "OP_I32_EQZ \<equiv> 18"
abbreviation OP_I32_EQ :: u16 where "OP_I32_EQ \<equiv> 19"
abbreviation OP_I32_NE :: u16 where "OP_I32_NE \<equiv> 20"
abbreviation OP_I32_LT_S :: u16 where "OP_I32_LT_S \<equiv> 21"
abbreviation OP_I32_LT_U :: u16 where "OP_I32_LT_U \<equiv> 22"
abbreviation OP_I32_LE_S :: u16 where "OP_I32_LE_S \<equiv> 23"
abbreviation OP_I32_LE_U :: u16 where "OP_I32_LE_U \<equiv> 24"
abbreviation OP_I32_GT_S :: u16 where "OP_I32_GT_S \<equiv> 25"
abbreviation OP_I32_GT_U :: u16 where "OP_I32_GT_U \<equiv> 26"
abbreviation OP_I32_GE_S :: u16 where "OP_I32_GE_S \<equiv> 27"
abbreviation OP_I32_GE_U :: u16 where "OP_I32_GE_U \<equiv> 28"
abbreviation OP_I32_ADD :: u16 where "OP_I32_ADD \<equiv> 29"
abbreviation OP_I32_SUB :: u16 where "OP_I32_SUB \<equiv> 30"
abbreviation OP_I32_MUL :: u16 where "OP_I32_MUL \<equiv> 31"
abbreviation OP_I32_AND :: u16 where "OP_I32_AND \<equiv> 32"
abbreviation OP_I32_OR :: u16 where "OP_I32_OR \<equiv> 33"
abbreviation OP_I32_XOR :: u16 where "OP_I32_XOR \<equiv> 34"
abbreviation OP_I32_DIV_S :: u16 where "OP_I32_DIV_S \<equiv> 35"
abbreviation OP_I32_DIV_U :: u16 where "OP_I32_DIV_U \<equiv> 36"
abbreviation OP_I32_REM_S :: u16 where "OP_I32_REM_S \<equiv> 37"
abbreviation OP_I32_REM_U :: u16 where "OP_I32_REM_U \<equiv> 38"
abbreviation OP_I32_SHL :: u16 where "OP_I32_SHL \<equiv> 39"
abbreviation OP_I32_SHR_S :: u16 where "OP_I32_SHR_S \<equiv> 40"
abbreviation OP_I32_SHR_U :: u16 where "OP_I32_SHR_U \<equiv> 41"
abbreviation OP_I32_WRAP_I64 :: u16 where "OP_I32_WRAP_I64 \<equiv> 42"
abbreviation OP_I64_NE :: u16 where "OP_I64_NE \<equiv> 43"
abbreviation OP_I64_LT_U :: u16 where "OP_I64_LT_U \<equiv> 44"
abbreviation OP_I64_LE_U :: u16 where "OP_I64_LE_U \<equiv> 45"
abbreviation OP_I64_GT_S :: u16 where "OP_I64_GT_S \<equiv> 46"
abbreviation OP_I64_GT_U :: u16 where "OP_I64_GT_U \<equiv> 47"
abbreviation OP_I64_GE_S :: u16 where "OP_I64_GE_S \<equiv> 48"
abbreviation OP_I64_GE_U :: u16 where "OP_I64_GE_U \<equiv> 49"
abbreviation OP_I64_MUL :: u16 where "OP_I64_MUL \<equiv> 50"
abbreviation OP_I64_AND :: u16 where "OP_I64_AND \<equiv> 51"
abbreviation OP_I64_OR :: u16 where "OP_I64_OR \<equiv> 52"
abbreviation OP_I64_XOR :: u16 where "OP_I64_XOR \<equiv> 53"
abbreviation OP_I64_DIV_S :: u16 where "OP_I64_DIV_S \<equiv> 54"
abbreviation OP_I64_DIV_U :: u16 where "OP_I64_DIV_U \<equiv> 55"
abbreviation OP_I64_REM_S :: u16 where "OP_I64_REM_S \<equiv> 56"
abbreviation OP_I64_REM_U :: u16 where "OP_I64_REM_U \<equiv> 57"
abbreviation OP_I64_SHL :: u16 where "OP_I64_SHL \<equiv> 58"
abbreviation OP_I64_SHR_S :: u16 where "OP_I64_SHR_S \<equiv> 59"
abbreviation OP_I64_SHR_U :: u16 where "OP_I64_SHR_U \<equiv> 60"
abbreviation OP_I64_EXTEND_I32_S :: u16 where "OP_I64_EXTEND_I32_S \<equiv> 61"
abbreviation OP_I64_EXTEND_I32_U :: u16 where "OP_I64_EXTEND_I32_U \<equiv> 62"
abbreviation OP_GLOBAL_GET :: u16 where "OP_GLOBAL_GET \<equiv> 63"
abbreviation OP_GLOBAL_SET :: u16 where "OP_GLOBAL_SET \<equiv> 64"
abbreviation OP_UNWIND :: u16 where "OP_UNWIND \<equiv> 65"
abbreviation OP_I64_MUL_WIDE_S :: u16 where "OP_I64_MUL_WIDE_S \<equiv> 66"
abbreviation OP_I64_MUL_WIDE_U :: u16 where "OP_I64_MUL_WIDE_U \<equiv> 67"
abbreviation OP_I64_ADD128 :: u16 where "OP_I64_ADD128 \<equiv> 68"
abbreviation OP_I64_SUB128 :: u16 where "OP_I64_SUB128 \<equiv> 69"
abbreviation OP_LOAD :: u16 where "OP_LOAD \<equiv> 70"
abbreviation OP_STORE :: u16 where "OP_STORE \<equiv> 71"
abbreviation OP_MEMORY_SIZE :: u16 where "OP_MEMORY_SIZE \<equiv> 72"
abbreviation OP_MEMORY_GROW :: u16 where "OP_MEMORY_GROW \<equiv> 73"
abbreviation OP_MEMORY_COPY :: u16 where "OP_MEMORY_COPY \<equiv> 74"
abbreviation OP_MEMORY_FILL :: u16 where "OP_MEMORY_FILL \<equiv> 75"
abbreviation OP_MEMORY_INIT :: u16 where "OP_MEMORY_INIT \<equiv> 76"
abbreviation OP_DATA_DROP :: u16 where "OP_DATA_DROP \<equiv> 77"
abbreviation OP_CALL_HOST :: u16 where "OP_CALL_HOST \<equiv> 78"
abbreviation OP_CALL_INDIRECT :: u16 where "OP_CALL_INDIRECT \<equiv> 79"
abbreviation OP_CLZ :: u16 where "OP_CLZ \<equiv> 80"

abbreviation WASM_PAGE :: u32 where "WASM_PAGE \<equiv> 65536"
abbreviation CUWASM_MEM_MAX_PAGES :: u64 where "CUWASM_MEM_MAX_PAGES \<equiv> 1024"
abbreviation TABLE_NULL :: u32 where "TABLE_NULL \<equiv> 0xFFFFFFFF"

section \<open>Instructions and function descriptors\<close>

record cuop =
  cu_op :: u16
  cu_a :: u16
  cu_b :: u32

record func_meta =
  fm_code_off :: u32
  fm_code_len :: u32
  fm_n_params :: u16
  fm_n_results :: u16
  fm_n_locals :: u16
  fm_max_stack :: u16

text \<open>The translated module (\<open>HostModule\<close>), as the translator returns it and the verifier reads it.\<close>

record host_module =
  hm_code :: "cuop list"
  hm_consts :: "u64 list"
  hm_funcs :: "func_meta list"
  hm_exports :: "(string \<times> u32) list"
  hm_globals :: "u64 list"
  hm_memory :: "u8 list"
  hm_mem_size :: u32
  hm_mem_max :: u32
  hm_data_blob :: "u8 list"
  hm_data_off :: "u32 list"
  hm_data_len :: "u32 list"
  hm_data_live :: "u8 list"
  hm_table :: "u32 list"
  hm_func_typeidx :: "u32 list"
  hm_type_fp :: "u64 list"
  hm_n_host_imports :: u32
  hm_host_fn_id :: "u32 list"
  hm_host_import_mod :: "string list"
  hm_host_import_name :: "string list"
  hm_host_import_env :: "string list"

abbreviation mk_op :: "u16 \<Rightarrow> u16 \<Rightarrow> u32 \<Rightarrow> cuop" where
  "mk_op x y z \<equiv> \<lparr>cu_op = x, cu_a = y, cu_b = z\<rparr>"

section \<open>The code vector\<close>

text \<open>\<open>emit\<close> returns the program counter of the instruction it appended.\<close>

definition emit :: "cuop list \<Rightarrow> u16 \<Rightarrow> u16 \<Rightarrow> u32 \<Rightarrow> u32 \<times> cuop list" where
  "emit code x y z = (of_nat (length code), code @ [mk_op x y z])"

text \<open>\<open>code[pc as usize].b = b\<close>: an index past the end panics.\<close>

definition patch_b :: "cuop list \<Rightarrow> u32 \<Rightarrow> u32 \<Rightarrow> error + cuop list" where
  "patch_b code pc z =
     (if unat pc < length code then Inr (code[unat pc := (code ! unat pc)\<lparr>cu_b := z\<rparr>])
      else Inl (Panic ''index out of bounds''))"

section \<open>The constant pool\<close>

fun position :: "('x \<Rightarrow> bool) \<Rightarrow> 'x list \<Rightarrow> nat option" where
  "position P [] = None"
| "position P (x # xs) = (if P x then Some 0 else map_option Suc (position P xs))"

definition intern :: "u64 list \<Rightarrow> u64 \<Rightarrow> u32 \<times> u64 list" where
  "intern consts v =
     (case position (\<lambda>x. x = v) consts of
        Some i \<Rightarrow> (of_nat i, consts)
      | None \<Rightarrow> (of_nat (length (consts @ [v]) - 1), consts @ [v]))"

section \<open>Laws of the code vector\<close>

text \<open>
  What the lowering relies on: an emitted instruction sits at the returned program counter and
  nothing before it changes; a patch changes the branch target at one program counter only. A
  buffer is in range while its length fits the 32-bit program counter.
\<close>

locale code_buffer =
  fixes emit_f :: "'buf \<Rightarrow> u16 \<Rightarrow> u16 \<Rightarrow> u32 \<Rightarrow> u32 \<times> 'buf"
    and patch_f :: "'buf \<Rightarrow> u32 \<Rightarrow> u32 \<Rightarrow> error + 'buf"
    and at :: "'buf \<Rightarrow> nat \<Rightarrow> cuop option"
    and len :: "'buf \<Rightarrow> nat"
  assumes at_in_range: "at c i \<noteq> None \<longleftrightarrow> i < len c"
    and len_emit: "emit_f c x y z = (pc, d) \<Longrightarrow> len d = Suc (len c)"
    and pc_emit: "emit_f c x y z = (pc, d) \<Longrightarrow> len c < 2 ^ 32 \<Longrightarrow> unat pc = len c"
    and at_emit: "emit_f c x y z = (pc, d) \<Longrightarrow>
          at d i = (if i = len c then Some (mk_op x y z) else at c i)"
    and patch_total: "unat pc < len c \<Longrightarrow> \<exists>d. patch_f c pc z = Inr d"
    and patch_in_range: "patch_f c pc z = Inr d \<Longrightarrow> unat pc < len c"
    and len_patch: "patch_f c pc z = Inr d \<Longrightarrow> len d = len c"
    and at_patch: "patch_f c pc z = Inr d \<Longrightarrow>
          at d i = (if i = unat pc then map_option (\<lambda>ins. ins\<lparr>cu_b := z\<rparr>) (at c i) else at c i)"
begin

text \<open>A forward branch emitted with a placeholder and patched later jumps where the patch says.\<close>

lemma emit_then_patch:
  assumes e: "emit_f c x y 0 = (pc, d)" and r: "len c < 2 ^ 32"
    and p: "patch_f d pc z = Inr d'"
  shows "at d' (len c) = Some (mk_op x y z)" and "i \<noteq> len c \<Longrightarrow> at d' i = at c i"
    and "len d' = Suc (len c)"
proof -
  have pc: "unat pc = len c" using e r by (rule pc_emit)
  show "at d' (len c) = Some (mk_op x y z)" by (simp add: at_patch [OF p] at_emit [OF e] pc)
  show "at d' i = at c i" if "i \<noteq> len c"
    using that by (simp add: at_patch [OF p] at_emit [OF e] pc)
  show "len d' = Suc (len c)" by (simp add: len_patch [OF p] len_emit [OF e])
qed

lemma patch_keeps_opcode:
  assumes "patch_f c pc z = Inr d" and "at c i = Some ins"
  shows "\<exists>ins'. at d i = Some ins' \<and> cu_op ins' = cu_op ins \<and> cu_a ins' = cu_a ins"
  using assms at_patch [OF assms(1), of i] by (cases "i = unat pc") auto

end

definition code_at :: "cuop list \<Rightarrow> nat \<Rightarrow> cuop option" where
  "code_at code i = (if i < length code then Some (code ! i) else None)"

lemma patch_b_Inr_iff:
  "patch_b code pc z = Inr d \<longleftrightarrow>
     unat pc < length code \<and> d = code[unat pc := (code ! unat pc)\<lparr>cu_b := z\<rparr>]"
  by (auto simp: patch_b_def)

interpretation code: code_buffer emit patch_b code_at length
  by unfold_locales
    (auto simp: emit_def patch_b_def code_at_def nth_append nth_list_update split: if_splits)

section \<open>Laws of the constant pool\<close>

text \<open>
  A pool is well formed while its length fits the 32-bit index. The locale states what users of
  the pool rely on: an interned value is found at the returned index and stays there.
\<close>

locale const_pool =
  fixes intern_f :: "'pool \<Rightarrow> 'v \<Rightarrow> u32 \<times> 'pool"
    and get :: "'pool \<Rightarrow> u32 \<Rightarrow> 'v option"
    and fits :: "'pool \<Rightarrow> bool"
  assumes get_intern: "intern_f p v = (i, q) \<Longrightarrow> fits q \<Longrightarrow> get q i = Some v"
    and get_stable: "intern_f p v = (i, q) \<Longrightarrow> get p j = Some w \<Longrightarrow> get q j = Some w"
    and fits_before: "intern_f p v = (i, q) \<Longrightarrow> fits q \<Longrightarrow> fits p"
    and intern_again: "intern_f p v = (i, q) \<Longrightarrow> fits q \<Longrightarrow> intern_f q v = (i, q)"
begin

fun intern_all :: "'pool \<Rightarrow> 'v list \<Rightarrow> u32 list \<times> 'pool" where
  "intern_all p [] = ([], p)"
| "intern_all p (v # vs) =
     (let (i, q) = intern_f p v; (is, r) = intern_all q vs in (i # is, r))"

lemma intern_all_fits: "intern_all p vs = (is, q) \<Longrightarrow> fits q \<Longrightarrow> fits p"
  by (induction vs arbitrary: p "is") (auto split: prod.splits dest: fits_before)

lemma intern_all_stable: "intern_all p vs = (is, q) \<Longrightarrow> get p j = Some w \<Longrightarrow> get q j = Some w"
  by (induction vs arbitrary: p "is") (auto split: prod.splits dest: get_stable)

lemma intern_all_decodes:
  "intern_all p vs = (is, q) \<Longrightarrow> fits q \<Longrightarrow> map (get q) is = map Some vs"
proof (induction vs arbitrary: p "is")
  case Nil
  then show ?case by simp
next
  case (Cons v vs)
  obtain i r where i: "intern_f p v = (i, r)" by fastforce
  obtain js where js: "intern_all r vs = (js, q)" "is = i # js"
    using Cons.prems(1) i by (auto split: prod.splits)
  have "fits r" using js(1) Cons.prems(2) by (rule intern_all_fits)
  with i have "get r i = Some v" by (rule get_intern)
  with js(1) have "get q i = Some v" by (rule intern_all_stable)
  then show ?case using Cons.IH [OF js(1) Cons.prems(2)] js(2) by simp
qed

end

definition pool_get :: "u64 list \<Rightarrow> u32 \<Rightarrow> u64 option" where
  "pool_get consts i = (if unat i < length consts then Some (consts ! unat i) else None)"

definition pool_fits :: "u64 list \<Rightarrow> bool" where
  "pool_fits consts \<longleftrightarrow> length consts \<le> 2 ^ 32"

lemma position_Some_iff:
  "position P xs = Some i \<longleftrightarrow> i < length xs \<and> P (xs ! i) \<and> (\<forall>j < i. \<not> P (xs ! j))"
proof (induction xs arbitrary: i)
  case Nil
  then show ?case by simp
next
  case (Cons x xs)
  show ?case
    by (cases i) (auto simp: Cons.IH less_Suc_eq_0_disj)
qed

lemma position_None_iff: "position P xs = None \<longleftrightarrow> (\<forall>x \<in> set xs. \<not> P x)"
  by (induction xs) auto

lemma position_append:
  "position P (xs @ ys) =
     (case position P xs of Some i \<Rightarrow> Some i | None \<Rightarrow> map_option ((+) (length xs)) (position P ys))"
proof (induction xs)
  case (Cons x xs)
  then show ?case by (cases "position P xs"; cases "position P ys") auto
qed (cases "position P ys"; simp)

text \<open>The two ways \<open>intern\<close> can end.\<close>

lemma intern_cases:
  assumes "intern consts v = (i, q)"
  obtains (found) k where "position (\<lambda>x. x = v) consts = Some k" "i = of_nat k" "q = consts"
  | (new) "v \<notin> set consts" "i = of_nat (length consts)" "q = consts @ [v]"
proof (cases "position (\<lambda>x. x = v) consts")
  case None
  then have "v \<notin> set consts" by (auto simp: position_None_iff)
  with None assms show ?thesis by (intro new) (simp_all add: intern_def)
next
  case (Some k)
  with assms show ?thesis by (intro found) (auto simp: intern_def)
qed

lemma intern_prefix: "intern consts v = (i, q) \<Longrightarrow> \<exists>ys. q = consts @ ys"
  by (erule intern_cases) auto

interpretation pool: const_pool intern pool_get pool_fits
proof unfold_locales
  fix p v i q j w
  assume int: "intern p v = (i, q)"
  show "pool_get q i = Some v" if "pool_fits q"
    using int that
    by (cases rule: intern_cases)
      (auto simp: pool_get_def pool_fits_def position_Some_iff nth_append)
  show "pool_get q j = Some w" if "pool_get p j = Some w"
    using int that
    by (cases rule: intern_cases) (auto simp: pool_get_def nth_append split: if_splits)
  show "pool_fits p" if "pool_fits q"
    using int that by (cases rule: intern_cases) (auto simp: pool_fits_def)
  show "intern q v = (i, q)" if "pool_fits q"
    using int
  proof (cases rule: intern_cases)
    case (found k)
    then show ?thesis by (simp add: intern_def)
  next
    case new
    then have "position (\<lambda>x. x = v) p = None" by (auto simp: position_None_iff)
    with new show ?thesis by (simp add: intern_def position_append)
  qed
qed

end
