(* ===== verification/Dataflow.thy ===== *)
theory Dataflow
  imports Prelude
begin

text \<open>
  The worklist algorithm of \<open>verify_cuop\<close> (\<open>src/verify.cpp\<close>) over an abstract instruction set.
  \<open>flow p h\<close> is what processing the instruction at \<open>p\<close> with stack height \<open>h\<close> yields: an error, or
  the joins it makes in order, each a failed range check or a target with the height it must have.
  \<open>peak p h\<close> is the largest height the instruction reaches. The locale proves what the verifier
  promises: it stops, what it accepts has one height per program counter, and it accepts every
  program that has such an assignment.
\<close>

type_synonym join_req = "string + nat \<times> int"

text \<open>
  The \<open>join\<close> lambda: the vector of heights (\<open>-1\<close> where none is known) and the worklist (its top
  first). The text of the mismatch error is a function of the program counter.
\<close>

definition join :: "nat \<Rightarrow> (nat \<Rightarrow> string) \<Rightarrow> nat \<Rightarrow> int \<Rightarrow> int list \<times> nat list \<Rightarrow> string + int list \<times> nat list" where
  "join n mismatch r h st =
     (case st of (height, work) \<Rightarrow>
        if r \<ge> n then Inl ''join target out of function''
        else if height ! r < 0 then Inr (height[r := h], r # work)
        else if height ! r \<noteq> h then Inl (mismatch r)
        else Inr (height, work))"

fun joins :: "nat \<Rightarrow> (nat \<Rightarrow> string) \<Rightarrow> join_req list \<Rightarrow> int list \<times> nat list \<Rightarrow> string + int list \<times> nat list" where
  "joins n mm [] st = Inr st"
| "joins n mm (Inl e # js) st = Inl e"
| "joins n mm (Inr (r, h) # js) st = rbind (join n mm r h st) (joins n mm js)"

text \<open>The \<open>while (!work.empty())\<close> loop, with fuel; \<open>None\<close> is running out of fuel.\<close>

fun worklist ::
  "nat \<Rightarrow> (nat \<Rightarrow> string) \<Rightarrow> (nat \<Rightarrow> int \<Rightarrow> string + join_req list) \<Rightarrow> (nat \<Rightarrow> int \<Rightarrow> int) \<Rightarrow> nat
     \<Rightarrow> int list \<times> nat list \<times> int \<Rightarrow> (string + int list \<times> int) option" where
  "worklist n mm flow peak fuel (height, [], max_h) = Some (Inr (height, max_h))"
| "worklist n mm flow peak 0 (height, p # work, max_h) = None"
| "worklist n mm flow peak (Suc fuel) (height, p # work, max_h) =
     (let h = height ! p in
      if h < 0 then Some (Inl ''uninitialized height'')
      else case flow p h of
        Inl e \<Rightarrow> Some (Inl e)
      | Inr js \<Rightarrow>
          (case joins n mm js (height, work) of
             Inl e \<Rightarrow> Some (Inl e)
           | Inr (height', work') \<Rightarrow>
               worklist n mm flow peak fuel (height', work', max max_h (max h (peak p h)))))"

definition unset :: "int list \<Rightarrow> nat" where
  "unset height = length (filter (\<lambda>h. h < 0) height)"

lemma unset_update:
  "r < length height \<Longrightarrow> height ! r < 0 \<Longrightarrow> 0 \<le> h \<Longrightarrow> Suc (unset (height[r := h])) = unset height"
proof (induction height arbitrary: r)
  case (Cons x xs)
  then show ?case by (cases r) (auto simp: unset_def)
qed simp

locale height_flow =
  fixes n :: nat
    and mm :: "nat \<Rightarrow> string"
    and flow :: "nat \<Rightarrow> int \<Rightarrow> string + join_req list"
    and peak :: "nat \<Rightarrow> int \<Rightarrow> int"
  assumes flow_nonneg: "flow p h = Inr js \<Longrightarrow> 0 \<le> h \<Longrightarrow> Inr (r, h') \<in> set js \<Longrightarrow> 0 \<le> h'"
begin

text \<open>
  An assignment of heights is consistent at a program counter if the instruction there can be
  processed with its height and every target has the height the join asks for.
\<close>

definition consistent_at :: "(nat \<Rightarrow> int option) \<Rightarrow> nat \<Rightarrow> bool" where
  "consistent_at H p \<longleftrightarrow>
     (\<forall>h. H p = Some h \<longrightarrow>
       (\<exists>js. flow p h = Inr js \<and>
         (\<forall>j \<in> set js. \<exists>r h'. j = Inr (r, h') \<and> r < n \<and> H r = Some h')))"

lemma consistent_atD:
  assumes "consistent_at H p" and "H p = Some h"
  obtains js where "flow p h = Inr js"
    and "\<And>j. j \<in> set js \<Longrightarrow> \<exists>r h'. j = Inr (r, h') \<and> r < n \<and> H r = Some h'"
  using assms unfolding consistent_at_def by meson

lemma consistent_at_mono:
  assumes "consistent_at H p" and "H' p = H p" and "\<And>q x. H q = Some x \<Longrightarrow> H' q = Some x"
  shows "consistent_at H' p"
  unfolding consistent_at_def
proof (intro allI impI)
  fix h
  assume "H' p = Some h"
  with assms(2) have "H p = Some h" by simp
  with assms(1) obtain js where "flow p h = Inr js"
    and "\<And>j. j \<in> set js \<Longrightarrow> \<exists>r h'. j = Inr (r, h') \<and> r < n \<and> H r = Some h'"
    by (rule consistent_atD) blast
  then show "\<exists>js. flow p h = Inr js \<and>
      (\<forall>j \<in> set js. \<exists>r h'. j = Inr (r, h') \<and> r < n \<and> H' r = Some h')"
    using assms(3) by meson
qed

definition consistent :: "(nat \<Rightarrow> int option) \<Rightarrow> bool" where
  "consistent H \<longleftrightarrow> H 0 = Some 0 \<and> (\<forall>p < n. consistent_at H p)"

definition known :: "int list \<Rightarrow> nat \<Rightarrow> int option" where
  "known height p = (if p < n \<and> 0 \<le> height ! p then Some (height ! p) else None)"

text \<open>Every entry of the worklist is in range and has a height.\<close>

definition work_ok :: "int list \<times> nat list \<Rightarrow> bool" where
  "work_ok st \<longleftrightarrow> length (fst st) = n \<and> (\<forall>p \<in> set (snd st). p < n \<and> 0 \<le> fst st ! p)"

lemma join_work_ok:
  assumes "join n mm r h st = Inr st'" and "work_ok st" and "0 \<le> h"
  shows "work_ok st'"
    and "2 * unset (fst st') + length (snd st') \<le> 2 * unset (fst st) + length (snd st)"
    and "known (fst st) p = Some x \<Longrightarrow> known (fst st') p = Some x"
    and "known (fst st') r = Some h"
    and "known (fst st') p \<noteq> known (fst st) p \<Longrightarrow> p = r \<and> p \<in> set (snd st')"
    and "set (snd st) \<subseteq> set (snd st')"
  using assms unset_update [of r "fst st" h]
  by (auto simp: join_def work_ok_def known_def nth_list_update split: prod.splits if_splits)

text \<open>What a sequence of joins did, relating the state before and after.\<close>

definition joined :: "join_req list \<Rightarrow> int list \<times> nat list \<Rightarrow> int list \<times> nat list \<Rightarrow> bool" where
  "joined js st st' \<longleftrightarrow>
     work_ok st' \<and>
     2 * unset (fst st') + length (snd st') \<le> 2 * unset (fst st) + length (snd st) \<and>
     (\<forall>p x. known (fst st) p = Some x \<longrightarrow> known (fst st') p = Some x) \<and>
     (\<forall>j \<in> set js. \<exists>r h. j = Inr (r, h) \<and> r < n \<and> known (fst st') r = Some h) \<and>
     (\<forall>p. known (fst st') p \<noteq> known (fst st) p \<longrightarrow> p \<in> set (snd st')) \<and>
     set (snd st) \<subseteq> set (snd st')"

lemma join_joined:
  assumes "join n mm r h st = Inr st'" and "work_ok st" and "0 \<le> h"
  shows "joined [Inr (r, h)] st st'"
proof -
  have "r < n" using assms(1) by (auto simp: join_def split: prod.splits if_splits)
  then show ?thesis using join_work_ok [OF assms] by (auto simp: joined_def)
qed

lemma joined_trans:
  assumes "joined js st u" and "joined ks u v"
  shows "joined (js @ ks) st v"
proof -
  have "p \<in> set (snd v)" if "known (fst v) p \<noteq> known (fst st) p" for p
    using that assms by (cases "known (fst u) p = known (fst st) p") (auto simp: joined_def)
  then show ?thesis using assms unfolding joined_def set_append ball_Un by (fastforce intro: order_trans)
qed

lemma joins_joined:
  assumes "joins n mm js st = Inr st'" and "work_ok st"
    and "\<And>r h. Inr (r, h) \<in> set js \<Longrightarrow> 0 \<le> h"
  shows "joined js st st'"
  using assms
proof (induction js arbitrary: st)
  case Nil
  then show ?case by (simp add: joined_def)
next
  case (Cons j js)
  obtain r h where j: "j = Inr (r, h)" using Cons.prems(1) by (cases j) auto
  from Cons.prems(1) j obtain u where u: "join n mm r h st = Inr u" "joins n mm js u = Inr st'"
    by auto
  have "0 \<le> h" using Cons.prems(3) j by auto
  with u(1) Cons.prems(2) have 1: "joined [j] st u" using j by (auto intro: join_joined)
  then have "work_ok u" by (simp add: joined_def)
  with u(2) have "joined js u st'" using Cons.prems(3) by (auto intro: Cons.IH)
  with 1 show ?case using joined_trans by fastforce
qed

text \<open>
  Termination: every push gives a height to a program counter that had none, so twice the number
  of unknown heights plus the length of the worklist decreases.
\<close>

theorem worklist_stops:
  assumes "work_ok (height, work)" and "2 * unset height + length work \<le> fuel"
  shows "worklist n mm flow peak fuel (height, work, max_h) \<noteq> None"
  using assms
proof (induction fuel arbitrary: height work max_h)
  case 0
  then show ?case by simp
next
  case (Suc fuel)
  show ?case
  proof (cases work)
    case (Cons p work')
    have ok: "work_ok (height, work')" using Suc.prems(1) Cons by (simp add: work_ok_def)
    have "worklist n mm flow peak fuel (height'', work'', m) \<noteq> None"
      if "flow p (height ! p) = Inr js" "joins n mm js (height, work') = Inr (height'', work'')"
        "0 \<le> height ! p" for js height'' work'' m
    proof -
      have "joined js (height, work') (height'', work'')"
        using that ok by (intro joins_joined) (auto intro: flow_nonneg)
      then show ?thesis using Suc.prems(2) Cons by (intro Suc.IH) (auto simp: joined_def)
    qed
    then show ?thesis using Cons by (auto simp: Let_def split: sum.splits)
  qed simp
qed

text \<open>
  Soundness. The invariant: every program counter with a height is on the worklist or has been
  processed, and then its targets have the heights it asks for.
\<close>

definition settled :: "int list \<times> nat list \<Rightarrow> bool" where
  "settled st \<longleftrightarrow>
     work_ok st \<and> known (fst st) 0 = Some 0 \<and>
     (\<forall>p < n. p \<notin> set (snd st) \<longrightarrow> consistent_at (known (fst st)) p)"

lemma settled_step:
  assumes st: "settled (height, p # work)" and f: "flow p (height ! p) = Inr js"
    and j: "joins n mm js (height, work) = Inr st'"
  shows "settled st'"
proof -
  have p: "p < n" "0 \<le> height ! p" and ok: "work_ok (height, work)"
    using st by (auto simp: settled_def work_ok_def)
  have J: "joined js (height, work) st'" using j ok f p(2) by (intro joins_joined) (auto intro: flow_nonneg)
  have keep: "known height q = Some x \<Longrightarrow> known (fst st') q = Some x" for q x
    using J by (simp add: joined_def)
  have "consistent_at (known (fst st')) q" if q: "q < n" "q \<notin> set (snd st')" for q
  proof (cases "q = p")
    case True
    have "known height p = Some (height ! p)" using p by (simp add: known_def)
    then have "known (fst st') p = Some (height ! p)" by (rule keep)
    then show ?thesis using True J f by (auto simp: consistent_at_def joined_def)
  next
    case False
    have same: "known (fst st') q = known height q" using J q(2) by (auto simp: joined_def)
    have "q \<notin> set work" using J q(2) by (auto simp: joined_def)
    then have "consistent_at (known height) q" using st q(1) False by (auto simp: settled_def)
    then show ?thesis using same keep by (rule consistent_at_mono)
  qed
  moreover have "work_ok st'" using J by (simp add: joined_def)
  moreover have "known (fst st') 0 = Some 0" using st by (intro keep) (simp add: settled_def)
  ultimately show ?thesis by (simp add: settled_def)
qed

theorem worklist_sound:
  assumes "worklist n mm flow peak fuel (height, work, max_h) = Some (Inr (height', m'))"
    and "settled (height, work)"
  shows "consistent (known height')"
  using assms
proof (induction fuel arbitrary: height work max_h)
  case 0
  then show ?case by (cases work) (auto simp: settled_def consistent_def)
next
  case (Suc fuel)
  show ?case
  proof (cases work)
    case Nil
    with Suc.prems show ?thesis by (auto simp: settled_def consistent_def)
  next
    case (Cons p work')
    from Suc.prems(1) obtain js height'' work'' m where
      f: "flow p (height ! p) = Inr js" and
      j: "joins n mm js (height, work') = Inr (height'', work'')" and
      w: "worklist n mm flow peak fuel (height'', work'', m) = Some (Inr (height', m'))"
      by (auto simp: Cons Let_def split: if_splits sum.splits)
    have "settled (height'', work'')" using Suc.prems(2) f j unfolding Cons by (rule settled_step)
    with w show ?thesis by (rule Suc.IH)
  qed
qed

text \<open>Every height that has left the worklist is counted in the maximum.\<close>

definition counted :: "int list \<times> nat list \<Rightarrow> int \<Rightarrow> bool" where
  "counted st m \<longleftrightarrow>
     work_ok st \<and> (\<forall>p x. p \<notin> set (snd st) \<longrightarrow> known (fst st) p = Some x \<longrightarrow> x \<le> m)"

lemma counted_step:
  assumes "counted (height, p # work) m" and f: "flow p (height ! p) = Inr js"
    and "joins n mm js (height, work) = Inr st'"
  shows "counted st' (max m (max (height ! p) (peak p (height ! p))))"
proof -
  have ok: "work_ok (height, work)" and p: "p < n" "0 \<le> height ! p"
    using assms(1) by (auto simp: counted_def work_ok_def)
  then have J: "joined js (height, work) st'"
    using assms f by (intro joins_joined) (auto intro: flow_nonneg)
  have "x \<le> max m (max (height ! p) (peak p (height ! p)))"
    if q: "q \<notin> set (snd st')" "known (fst st') q = Some x" for q x
  proof -
    have "known height q = Some x" using J q unfolding joined_def fst_conv by metis
    moreover have "q \<notin> set work" using J q by (auto simp: joined_def)
    ultimately show ?thesis
      using assms(1) by (cases "q = p") (auto simp: counted_def known_def le_max_iff_disj split: if_splits)
  qed
  then show ?thesis using J by (simp add: counted_def joined_def)
qed

theorem worklist_max:
  assumes "worklist n mm flow peak fuel (height, work, max_h) = Some (Inr (height', m'))"
    and "counted (height, work) max_h" and "known height' p = Some x"
  shows "x \<le> m'"
  using assms(1,2)
proof (induction fuel arbitrary: height work max_h)
  case 0
  then show ?case using assms(3) by (cases work) (auto simp: counted_def)
next
  case (Suc fuel)
  show ?case
  proof (cases work)
    case Nil
    with Suc.prems show ?thesis using assms(3) by (auto simp: counted_def)
  next
    case (Cons p work')
    from Suc.prems(1) obtain js height'' work'' where
      f: "flow p (height ! p) = Inr js" and
      j: "joins n mm js (height, work') = Inr (height'', work'')" and
      w: "worklist n mm flow peak fuel (height'', work'',
            max max_h (max (height ! p) (peak p (height ! p)))) = Some (Inr (height', m'))"
      by (auto simp: Cons Let_def split: if_splits sum.splits)
    show ?thesis using w counted_step [OF Suc.prems(2) [unfolded Cons] f j] by (rule Suc.IH)
  qed
qed

text \<open>
  Completeness: when some assignment of heights is consistent, the algorithm only ever finds the
  heights of that assignment, so no join fails.
\<close>

definition agrees :: "(nat \<Rightarrow> int option) \<Rightarrow> int list \<Rightarrow> bool" where
  "agrees H height \<longleftrightarrow> (\<forall>p x. known height p = Some x \<longrightarrow> H p = Some x)"

lemma joins_agree:
  assumes "work_ok st" and "agrees H (fst st)"
    and "\<forall>j \<in> set js. \<exists>r h. j = Inr (r, h) \<and> r < n \<and> 0 \<le> h \<and> H r = Some h"
  shows "\<exists>st'. joins n mm js st = Inr st' \<and> agrees H (fst st') \<and> work_ok st'"
  using assms
proof (induction js arbitrary: st)
  case Nil
  then show ?case by simp
next
  case (Cons j js)
  obtain r h where j: "j = Inr (r, h)" and r: "r < n" "0 \<le> h" "H r = Some h"
    using Cons.prems(3) by auto
  have known_r: "known (fst st) r = None \<or> known (fst st) r = Some h"
    using Cons.prems(2) r(3) by (cases "known (fst st) r") (auto simp: agrees_def)
  then obtain u where u: "join n mm r h st = Inr u"
    using r by (cases st) (auto simp: join_def known_def split: if_splits)
  have ok: "work_ok u" using u Cons.prems(1) r(2) by (rule join_work_ok)
  have "agrees H (fst u)"
    unfolding agrees_def
  proof (intro allI impI)
    fix p x
    assume x: "known (fst u) p = Some x"
    show "H p = Some x"
    proof (cases "p = r")
      case True
      with x join_work_ok(4) [OF u Cons.prems(1) r(2)] r(3) show ?thesis by simp
    next
      case False
      with join_work_ok(5) [OF u Cons.prems(1) r(2)] x have "known (fst st) p = Some x" by metis
      with Cons.prems(2) show ?thesis by (simp add: agrees_def)
    qed
  qed
  with ok Cons.IH [of u] Cons.prems(3) obtain v where
    "joins n mm js u = Inr v" "agrees H (fst v)" "work_ok v" by auto
  with j u show ?case by auto
qed

theorem worklist_complete:
  assumes "consistent H" and "work_ok (height, work)" and "agrees H height"
    and "2 * unset height + length work \<le> fuel"
  shows "\<exists>height' m'. worklist n mm flow peak fuel (height, work, max_h) = Some (Inr (height', m'))"
  using assms(2-4)
proof (induction fuel arbitrary: height work max_h)
  case 0
  then show ?case by simp
next
  case (Suc fuel)
  show ?case
  proof (cases work)
    case (Cons p work')
    let ?h = "height ! p"
    have p: "p < n" "0 \<le> ?h" and ok: "work_ok (height, work')"
      using Suc.prems(1) Cons by (auto simp: work_ok_def)
    have "H p = Some ?h" using Suc.prems(2) p by (simp add: agrees_def known_def)
    then obtain js where f: "flow p ?h = Inr js"
      and js: "\<And>j. j \<in> set js \<Longrightarrow> \<exists>r h'. j = Inr (r, h') \<and> r < n \<and> H r = Some h'"
      using assms(1) p(1) consistent_atD unfolding consistent_def by metis
    have nonneg: "0 \<le> h'" if "Inr (r, h') \<in> set js" for r h' using f p(2) that by (rule flow_nonneg)
    have "\<forall>j \<in> set js. \<exists>r h'. j = Inr (r, h') \<and> r < n \<and> 0 \<le> h' \<and> H r = Some h'"
      using js nonneg by fast
    with joins_agree [of "(height, work')" H js] ok Suc.prems(2)
    obtain height'' work'' where j: "joins n mm js (height, work') = Inr (height'', work'')"
      and a: "agrees H height''" and ok'': "work_ok (height'', work'')" by auto
    have "joined js (height, work') (height'', work'')" using j ok nonneg by (rule joins_joined)
    then have "2 * unset height'' + length work'' \<le> fuel"
      using Suc.prems(3) Cons by (auto simp: joined_def)
    then show ?thesis using Suc.IH [OF ok'' a] Cons f j p(2) by (simp add: Let_def)
  qed simp
qed

text \<open>The initial state of the verifier: only the entry has a height.\<close>

definition start_heights :: "int list" where
  "start_heights = (replicate n (-1))[0 := 0]"

lemma start_ok:
  assumes "0 < n"
  shows "work_ok (start_heights, [0])" and "settled (start_heights, [0])"
    and "2 * unset start_heights + 1 \<le> 2 * n"
    and "H 0 = Some 0 \<Longrightarrow> agrees H start_heights"
proof -
  have nth: "start_heights ! p = (if p = 0 then 0 else -1)" if "p < n" for p
    using that assms by (simp add: start_heights_def nth_list_update)
  have len: "length start_heights = n" by (simp add: start_heights_def)
  have known: "known start_heights p = (if p = 0 then Some 0 else None)" for p
    using assms by (cases "p = 0") (auto simp: known_def nth)
  show ok: "work_ok (start_heights, [0])" using assms by (simp add: work_ok_def len nth)
  show "settled (start_heights, [0])"
    using ok by (simp add: settled_def known consistent_at_def)
  have "unset (replicate n (-1)) = n" by (simp add: unset_def)
  then have "Suc (unset start_heights) = n"
    using unset_update [of 0 "replicate n (-1)" 0] assms by (simp add: start_heights_def)
  then show "2 * unset start_heights + 1 \<le> 2 * n" by simp
  show "H 0 = Some 0 \<Longrightarrow> agrees H start_heights" by (simp add: agrees_def known)
qed

lemmas start_work_ok = start_ok(1) and start_settled = start_ok(2)
  and start_fuel = start_ok(3) and start_agrees = start_ok(4)

text \<open>
  Acceptance is exactly the existence of a consistent assignment of heights.
\<close>

theorem accepts_iff_consistent:
  assumes "0 < n"
  shows "(\<exists>height m. worklist n mm flow peak (2 * n) (start_heights, [0], 0) = Some (Inr (height, m)))
     \<longleftrightarrow> (\<exists>H. consistent H)"
proof
  assume "\<exists>height m. worklist n mm flow peak (2 * n) (start_heights, [0], 0) = Some (Inr (height, m))"
  then show "\<exists>H. consistent H" using worklist_sound start_settled [OF assms] by blast
next
  assume "\<exists>H. consistent H"
  then obtain H where H: "consistent H" ..
  have "agrees H start_heights" using start_agrees [OF assms] H by (simp add: consistent_def)
  with worklist_complete [OF H start_work_ok [OF assms]] start_fuel [OF assms]
  show "\<exists>height m. worklist n mm flow peak (2 * n) (start_heights, [0], 0) = Some (Inr (height, m))"
    by simp
qed

theorem accepted_heights:
  assumes "0 < n"
    and "worklist n mm flow peak (2 * n) (start_heights, [0], 0) = Some (Inr (height, m))"
  shows "consistent (known height)" and "known height p = Some x \<Longrightarrow> 0 \<le> x \<and> x \<le> m"
proof -
  show "consistent (known height)" using assms(2) start_settled [OF assms(1)] by (rule worklist_sound)
  have "start_heights ! q < 0" if "q < n" "q \<noteq> 0" for q
    using that by (simp add: start_heights_def)
  then have "counted (start_heights, [0]) 0"
    using start_work_ok [OF assms(1)] by (force simp: counted_def known_def split: if_splits)
  then show "known height p = Some x \<Longrightarrow> 0 \<le> x \<and> x \<le> m"
    using worklist_max [OF assms(2)] by (auto simp: known_def split: if_splits)
qed

theorem start_stops:
  assumes "0 < n"
  shows "worklist n mm flow peak (2 * n) (start_heights, [0], m) \<noteq> None"
  using worklist_stops [OF start_work_ok [OF assms]] start_fuel [OF assms] by simp

end

end
