(* ===== verification/Verify.thy ===== *)
theory Verify
  imports CuOp Dataflow
begin

text \<open>
  The bytecode verifier \<open>verify_cuop\<close> (\<open>src/verify.cpp\<close>), which every translated module passes
  before it runs. \<open>cuop_effect\<close> is the \<open>switch\<close> on one instruction, \<open>cuop_flow\<close> adds the range
  checks and joins, \<open>verify_fn\<close> is the body of the loop over the functions. The height
  \<open>dest_h\<close> of an unwind is computed in \<open>int\<close>; the model reads \<open>in.b\<close> as a signed word.
\<close>

unbundle bit_operations_syntax

section \<open>One instruction\<close>

text \<open>
  What the switch needs of the module and the function: arities of the functions \<open>OP_CALL\<close> can
  name, arities recorded in the type fingerprints, the size of the constant pool.
\<close>

record verify_ctx =
  vx_n_params :: u16
  vx_n_results :: u16
  vx_n_locals :: u16
  vx_n_consts :: nat
  vx_call :: "u32 \<Rightarrow> (int \<times> int) option"
  vx_type :: "u32 \<Rightarrow> (int \<times> int) option"

definition binops :: "u16 set" where
  "binops =
     {OP_I64_ADD, OP_I64_SUB, OP_I64_EQ, OP_I64_LE_S, OP_I64_LT_S, OP_I32_EQ, OP_I32_NE,
      OP_I32_LT_S, OP_I32_LT_U, OP_I32_LE_S, OP_I32_LE_U, OP_I32_GT_S, OP_I32_GT_U, OP_I32_GE_S,
      OP_I32_GE_U, OP_I32_ADD, OP_I32_SUB, OP_I32_MUL, OP_I32_AND, OP_I32_OR, OP_I32_XOR,
      OP_I32_DIV_S, OP_I32_DIV_U, OP_I32_REM_S, OP_I32_REM_U, OP_I32_SHL, OP_I32_SHR_S,
      OP_I32_SHR_U, OP_I64_NE, OP_I64_LT_U, OP_I64_LE_U, OP_I64_GT_S, OP_I64_GT_U, OP_I64_GE_S,
      OP_I64_GE_U, OP_I64_MUL, OP_I64_AND, OP_I64_OR, OP_I64_XOR, OP_I64_DIV_S, OP_I64_DIV_U,
      OP_I64_REM_S, OP_I64_REM_U, OP_I64_SHL, OP_I64_SHR_S, OP_I64_SHR_U}"

text \<open>
  The instructions whose effect depends on the opcode only: the height they need, the change
  they make, and the error when the height is too small.
\<close>

definition fixed_effect :: "u16 \<Rightarrow> (int \<times> int \<times> string) option" where
  "fixed_effect x =
     (if x = OP_I64_CONST \<or> x = OP_LOCAL_GET then Some (0, 1, '''')
      else if x = OP_LOCAL_SET then Some (1, -1, ''local.set underflow'')
      else if x \<in> binops then Some (2, -1, ''binop underflow'')
      else if x \<in> {OP_I64_EQZ, OP_I32_EQZ, OP_I32_WRAP_I64, OP_I64_EXTEND_I32_S, OP_I64_EXTEND_I32_U}
        then Some (1, 0, ''unop underflow'')
      else if x = OP_I64_MUL_WIDE_S \<or> x = OP_I64_MUL_WIDE_U then Some (2, 0, ''mul_wide underflow'')
      else if x = OP_I64_ADD128 \<or> x = OP_I64_SUB128 then Some (4, -2, ''i64.xxx128 underflow'')
      else if x = OP_DROP then Some (1, -1, ''drop underflow'')
      else if x = OP_GLOBAL_GET then Some (0, 1, '''')
      else if x = OP_GLOBAL_SET then Some (1, -1, ''global.set underflow'')
      else if x = OP_SELECT then Some (3, -2, ''select underflow'')
      else if x = OP_LOAD then Some (1, 0, ''load underflow'')
      else if x = OP_STORE then Some (2, -2, ''store underflow'')
      else if x = OP_MEMORY_SIZE then Some (0, 1, '''')
      else if x = OP_MEMORY_GROW then Some (1, 0, ''memory.grow underflow'')
      else if x \<in> {OP_MEMORY_COPY, OP_MEMORY_FILL, OP_MEMORY_INIT}
        then Some (3, -3, ''bulk-memory underflow'')
      else if x = OP_DATA_DROP then Some (0, 0, '''')
      else if x = OP_CLZ then Some (1, 0, ''clz underflow'')
      else None)"

text \<open>
  The result of an instruction: whether it falls through, the height after it, and the branch
  target with the height the target gets.
\<close>

type_synonym effect = "bool \<times> int \<times> (u32 \<times> int) option"

definition call_effect :: "(int \<times> int) option \<Rightarrow> int \<Rightarrow> int \<Rightarrow> string \<Rightarrow> string \<Rightarrow> string + effect" where
  "call_effect sig extra h oob underflow =
     (case sig of
        None \<Rightarrow> Inl oob
      | Some (np, nr) \<Rightarrow>
          if h < extra + np then Inl underflow else Inr (True, h - extra - np + nr, None))"

definition switch_effect :: "verify_ctx \<Rightarrow> cuop \<Rightarrow> int \<Rightarrow> string + effect" where
  "switch_effect vx ins h =
     (case fixed_effect (cu_op ins) of
        Some (need, delta, e) \<Rightarrow> if h < need then Inl e else Inr (True, h + delta, None)
      | None \<Rightarrow>
          if cu_op ins = OP_UNWIND then
            (let dest_h = sint (cu_b ins) - int (unat (vx_n_params vx)) - int (unat (vx_n_locals vx)) in
             if dest_h < 0 then Inl ''unwind dest below locals''
             else if h < dest_h then Inl ''unwind underflow''
             else Inr (True, dest_h, None))
          else if cu_op ins = OP_BR then Inr (False, h, Some (cu_b ins, h))
          else if cu_op ins = OP_BR_IF_NOT then
            (if h < 1 then Inl ''br_if_not underflow'' else Inr (True, h - 1, Some (cu_b ins, h - 1)))
          else if cu_op ins = OP_CALL then
            call_effect (vx_call vx (cu_b ins)) 0 h ''call func oob'' ''call underflow''
          else if cu_op ins = OP_RETURN_CALL then
            (case vx_call vx (cu_b ins) of
               None \<Rightarrow> Inl ''return_call func oob''
             | Some (np, _) \<Rightarrow> if h < np then Inl ''return_call underflow'' else Inr (False, h, None))
          else if cu_op ins = OP_RETURN \<or> cu_op ins = OP_END_FUNC then
            (if h < int (unat (vx_n_results vx)) then Inl ''return underflow'' else Inr (False, h, None))
          else if cu_op ins = OP_UNREACHABLE then Inr (False, h, None)
          else if cu_op ins = OP_CALL_HOST then
            call_effect
              (Some (int (unat (cu_a ins AND 0xFF)), int (unat (drop_bit 8 (cu_a ins) AND 0xFF)))) 0 h
              '''' ''call_host underflow''
          else if cu_op ins = OP_CALL_INDIRECT then
            (if h < 1 then Inl ''call_indirect underflow''
             else call_effect (vx_type vx (cu_b ins)) 1 h ''call_indirect type oob'' ''call_indirect underflow'')
          else Inl ''unknown cuop in verify'')"

text \<open>The checks on indices after the switch.\<close>

definition index_checks :: "verify_ctx \<Rightarrow> cuop \<Rightarrow> string + unit" where
  "index_checks vx ins =
     (if cu_op ins = OP_LOCAL_GET \<and> cu_a ins \<ge> vx_n_params vx + vx_n_locals vx
        then Inl ''local.get index oob''
      else if cu_op ins = OP_LOCAL_SET \<and> cu_a ins \<ge> vx_n_params vx + vx_n_locals vx
        then Inl ''local.set index oob''
      else if cu_op ins = OP_I64_CONST \<and> unat (cu_b ins) \<ge> vx_n_consts vx
        then Inl ''const pool oob''
      else Inr ())"

definition cuop_effect :: "verify_ctx \<Rightarrow> cuop \<Rightarrow> int \<Rightarrow> string + effect" where
  "cuop_effect vx ins h =
     rbind (switch_effect vx ins h) (\<lambda>r. rbind (index_checks vx ins) (\<lambda>_. Inr r))"

section \<open>One function\<close>

text \<open>The branch check and the fall-through check, each with the join it guards.\<close>

definition branch_join :: "u32 \<Rightarrow> u32 \<Rightarrow> u16 \<Rightarrow> u32 \<times> int \<Rightarrow> join_req" where
  "branch_join code_off code_len x t =
     (if fst t < code_off \<or> fst t \<ge> code_off + code_len
      then Inl (if x = OP_BR then ''br target outside function''
                else ''br_if_not target outside function'')
      else Inr (unat (fst t - code_off), snd t))"

definition fall_join :: "u32 \<Rightarrow> nat \<Rightarrow> int \<Rightarrow> join_req" where
  "fall_join code_len p h =
     (if p + 1 \<ge> unat code_len then Inl ''fallthrough past end of function'' else Inr (p + 1, h))"

definition cuop_flow :: "verify_ctx \<Rightarrow> cuop list \<Rightarrow> func_meta \<Rightarrow> nat \<Rightarrow> int \<Rightarrow> string + join_req list" where
  "cuop_flow vx code f p h =
     (let ins = code ! (unat (fm_code_off f) + p) in
      rbind (cuop_effect vx ins h) (\<lambda>(fall, next_h, target).
        Inr ((case target of
                None \<Rightarrow> []
              | Some t \<Rightarrow> [branch_join (fm_code_off f) (fm_code_len f) (cu_op ins) t]) @
             (if fall then [fall_join (fm_code_len f) p next_h] else []))))"

definition cuop_peak :: "verify_ctx \<Rightarrow> cuop list \<Rightarrow> func_meta \<Rightarrow> nat \<Rightarrow> int \<Rightarrow> int" where
  "cuop_peak vx code f p h =
     (case cuop_effect vx (code ! (unat (fm_code_off f) + p)) h of
        Inl e \<Rightarrow> h
      | Inr (fall, next_h, target) \<Rightarrow> next_h)"

definition mismatch_at :: "u32 \<Rightarrow> nat \<Rightarrow> string" where
  "mismatch_at code_off p = ''stack height mismatch at pc '' @ dec (unat (code_off + of_nat p))"

definition ctx_of :: "host_module \<Rightarrow> func_meta \<Rightarrow> verify_ctx" where
  "ctx_of m f =
     \<lparr>vx_n_params = fm_n_params f, vx_n_results = fm_n_results f, vx_n_locals = fm_n_locals f,
      vx_n_consts = length (hm_consts m),
      vx_call = (\<lambda>i. if unat i < length (hm_funcs m)
                     then Some (int (unat (fm_n_params (hm_funcs m ! unat i))),
                                int (unat (fm_n_results (hm_funcs m ! unat i))))
                     else None),
      vx_type = (\<lambda>i. if unat i < length (hm_type_fp m)
                     then Some (uint (hm_type_fp m ! unat i AND 0xFF),
                                uint (drop_bit 8 (hm_type_fp m ! unat i) AND 0xFF))
                     else None)\<rparr>"

definition verify_fn :: "host_module \<Rightarrow> nat \<Rightarrow> func_meta \<Rightarrow> string + func_meta" where
  "verify_fn m fi f =
     (let off = unat (fm_code_off f); n = unat (fm_code_len f) in
      if off + n > length (hm_code m) then Inl ''function code out of bounds''
      else if n = 0 then
        (if fi < unat (hm_n_host_imports m) then Inr (f\<lparr>fm_max_stack := fm_n_params f\<rparr>)
         else Inl ''empty function'')
      else
        let lst = hm_code m ! (off + n - 1); vx = ctx_of m f in
        if cu_op lst \<noteq> OP_RETURN \<and> cu_op lst \<noteq> OP_END_FUNC
        then Inl ''function does not end in return/end_func''
        else case worklist n (mismatch_at (fm_code_off f)) (cuop_flow vx (hm_code m) f)
                    (cuop_peak vx (hm_code m) f) (2 * n) ((replicate n (-1))[0 := 0], [0], 0) of
          None \<Rightarrow> Inl ''fuel''
        | Some (Inl e) \<Rightarrow> Inl e
        | Some (Inr (height, max_h)) \<Rightarrow>
            let max_sp = max 0 (int (unat (fm_n_params f)) + int (unat (fm_n_locals f)) + max_h) in
            if max_sp > 65535 then Inl ''max_stack overflow''
            else Inr (f\<lparr>fm_max_stack := of_int max_sp\<rparr>))"

fun verify_fns :: "host_module \<Rightarrow> nat \<Rightarrow> func_meta list \<Rightarrow> string + func_meta list" where
  "verify_fns m fi [] = Inr []"
| "verify_fns m fi (f # fs) =
     rbind (verify_fn m fi f) (\<lambda>f'. rbind (verify_fns m (fi + 1) fs) (\<lambda>fs'. Inr (f' # fs')))"

definition verify_cuop :: "host_module \<Rightarrow> string + host_module" where
  "verify_cuop m =
     (if hm_funcs m = [] then Inl ''no functions''
      else if hm_code m = [] then Inl ''empty code''
      else rbind (verify_fns m 0 (hm_funcs m)) (\<lambda>fs. Inr (m\<lparr>hm_funcs := fs\<rparr>)))"

section \<open>What the verifier guarantees\<close>

text \<open>
  An assignment of stack heights to the program counters of a function: the entry has height 0,
  every instruction with a height can execute at that height, and every successor inside the
  function has exactly the height the instruction leaves.
\<close>

definition well_heighted :: "host_module \<Rightarrow> func_meta \<Rightarrow> (nat \<Rightarrow> int option) \<Rightarrow> bool" where
  "well_heighted m f H \<longleftrightarrow>
     H 0 = Some 0 \<and>
     (\<forall>p < unat (fm_code_len f). \<forall>h. H p = Some h \<longrightarrow>
       (\<exists>fall nh tgt.
          cuop_effect (ctx_of m f) (hm_code m ! (unat (fm_code_off f) + p)) h = Inr (fall, nh, tgt) \<and>
          (fall \<longrightarrow> p + 1 < unat (fm_code_len f) \<and> H (p + 1) = Some nh) \<and>
          (\<forall>t th. tgt = Some (t, th) \<longrightarrow>
             fm_code_off f \<le> t \<and> t < fm_code_off f + fm_code_len f \<and>
             H (unat (t - fm_code_off f)) = Some th)))"

definition ctx_ok :: "verify_ctx \<Rightarrow> bool" where
  "ctx_ok vx \<longleftrightarrow>
     (\<forall>i np nr. vx_call vx i = Some (np, nr) \<longrightarrow> 0 \<le> np \<and> 0 \<le> nr) \<and>
     (\<forall>i np nr. vx_type vx i = Some (np, nr) \<longrightarrow> 0 \<le> np \<and> 0 \<le> nr)"

lemma ctx_ok_ctx_of: "ctx_ok (ctx_of m f)"
  by (auto simp: ctx_ok_def ctx_of_def)

lemma fixed_effect_nonneg: "fixed_effect x = Some (need, delta, e) \<Longrightarrow> 0 \<le> need \<and> 0 \<le> need + delta"
  by (auto simp: fixed_effect_def split: if_splits)

lemma call_effect_nonneg:
  "call_effect sg extra h e1 e2 = Inr (fall, nh, tgt) \<Longrightarrow> (\<And>np nr. sg = Some (np, nr) \<Longrightarrow> 0 \<le> nr) \<Longrightarrow>
   0 \<le> nh \<and> tgt = None"
  by (auto simp: call_effect_def split: option.splits if_splits)

lemma switch_effect_nonneg:
  assumes "switch_effect vx ins h = Inr (fall, nh, tgt)" and "0 \<le> h" and "ctx_ok vx"
  shows "0 \<le> nh \<and> (\<forall>t th. tgt = Some (t, th) \<longrightarrow> 0 \<le> th)"
proof (cases "fixed_effect (cu_op ins)")
  case (Some r)
  then show ?thesis using assms
    by (cases r) (auto simp: switch_effect_def dest!: fixed_effect_nonneg split: if_splits)
next
  case None
  then show ?thesis using assms
    by (auto simp: switch_effect_def ctx_ok_def Let_def split: if_splits option.splits
        dest!: call_effect_nonneg)
qed

lemma cuop_effect_nonneg:
  "cuop_effect vx ins h = Inr (fall, nh, tgt) \<Longrightarrow> 0 \<le> h \<Longrightarrow> ctx_ok vx \<Longrightarrow>
   0 \<le> nh \<and> (\<forall>t th. tgt = Some (t, th) \<longrightarrow> 0 \<le> th)"
  by (auto simp: cuop_effect_def dest: switch_effect_nonneg)

interpretation vf: height_flow "unat (fm_code_len f)" "mismatch_at (fm_code_off f)"
  "cuop_flow (ctx_of m f) (hm_code m) f" "cuop_peak (ctx_of m f) (hm_code m) f" for m f
proof
  fix p h js r h'
  assume "cuop_flow (ctx_of m f) (hm_code m) f p h = Inr js" "0 \<le> h" "Inr (r, h') \<in> set js"
  then show "0 \<le> h'"
    using cuop_effect_nonneg [OF _ _ ctx_ok_ctx_of]
    by (fastforce simp: cuop_flow_def Let_def branch_join_def fall_join_def
        split: if_splits option.splits)
qed

lemma branch_join_Inr:
  "(\<exists>r h'. branch_join off n x t = Inr (r, h') \<and> r < unat n \<and> H r = Some h') \<longleftrightarrow>
     off \<le> fst t \<and> fst t < off + n \<and> unat (fst t - off) < unat n \<and> H (unat (fst t - off)) = Some (snd t)"
  by (auto simp: branch_join_def not_le not_less)

lemma fall_join_Inr:
  "(\<exists>r h'. fall_join n p h = Inr (r, h') \<and> r < unat n \<and> H r = Some h') \<longleftrightarrow>
     p + 1 < unat n \<and> H (p + 1) = Some h"
  by (auto simp: fall_join_def)

lemma in_window: "off \<le> t \<Longrightarrow> t < off + n \<Longrightarrow> unat (t - off) < unat (n :: u32)"
proof -
  assume "off \<le> t" "t < off + n"
  then have "unat off \<le> unat t" "unat t < unat (off + n)" by (simp_all add: word_le_nat_alt word_less_nat_alt)
  moreover have "unat (off + n) \<le> unat off + unat n" by (simp add: unat_word_ariths)
  ultimately show ?thesis using unat_sub [OF \<open>off \<le> t\<close>] by simp
qed

lemma flow_ok_iff:
  fixes m f
  defines "n \<equiv> unat (fm_code_len f)" and "vx \<equiv> ctx_of m f"
  shows "(\<exists>js. cuop_flow vx (hm_code m) f p h = Inr js \<and>
           (\<forall>j \<in> set js. \<exists>r h'. j = Inr (r, h') \<and> r < n \<and> H r = Some h')) \<longleftrightarrow>
         (\<exists>fall nh tgt.
            cuop_effect vx (hm_code m ! (unat (fm_code_off f) + p)) h = Inr (fall, nh, tgt) \<and>
            (fall \<longrightarrow> p + 1 < n \<and> H (p + 1) = Some nh) \<and>
            (\<forall>t th. tgt = Some (t, th) \<longrightarrow>
               fm_code_off f \<le> t \<and> t < fm_code_off f + fm_code_len f \<and>
               H (unat (t - fm_code_off f)) = Some th))"
proof (cases "cuop_effect vx (hm_code m ! (unat (fm_code_off f) + p)) h")
  case (Inl e)
  then show ?thesis by (simp add: cuop_flow_def Let_def)
next
  case (Inr r)
  obtain fall nh tgt where r: "r = (fall, nh, tgt)" by (cases r)
  let ?ok = "\<lambda>j. \<exists>r h'. j = Inr (r, h') \<and> r < n \<and> H r = Some h'"
  let ?ins = "hm_code m ! (unat (fm_code_off f) + p)"
  have flow: "cuop_flow vx (hm_code m) f p h =
      Inr ((case tgt of None \<Rightarrow> []
            | Some t \<Rightarrow> [branch_join (fm_code_off f) (fm_code_len f) (cu_op ?ins) t]) @
           (if fall then [fall_join (fm_code_len f) p nh] else []))"
    by (simp add: cuop_flow_def Let_def Inr r)
  define W where "W t th \<longleftrightarrow> fm_code_off f \<le> t \<and> t < fm_code_off f + fm_code_len f \<and>
      H (unat (t - fm_code_off f)) = Some th" for t th
  have br: "?ok (branch_join (fm_code_off f) (fm_code_len f) x t) \<longleftrightarrow> W (fst t) (snd t)" for x t
    using branch_join_Inr [of "fm_code_off f" "fm_code_len f" x t H] in_window n_def W_def by blast
  have fl: "?ok (fall_join (fm_code_len f) p nh) \<longleftrightarrow> p + 1 < n \<and> H (p + 1) = Some nh"
    using fall_join_Inr [of "fm_code_len f" p nh H] n_def by simp
  have ex: "(\<exists>a b c. (Inr (fall, nh, tgt) :: string + effect) = Inr (a, b, c) \<and> Q a b c) = Q fall nh tgt"
    for Q by auto
  have ex_js: "(\<exists>js. (Inr x :: string + join_req list) = Inr js \<and> Q js) = Q x" for x Q by auto
  have 1: "(\<forall>j \<in> set (case tgt of None \<Rightarrow> []
        | Some t \<Rightarrow> [branch_join (fm_code_off f) (fm_code_len f) (cu_op ?ins) t]). ?ok j) \<longleftrightarrow>
      (\<forall>t th. tgt = Some (t, th) \<longrightarrow> W t th)"
    by (cases tgt) (auto simp: br)
  have 2: "(\<forall>j \<in> set (if fall then [fall_join (fm_code_len f) p nh] else []). ?ok j) \<longleftrightarrow>
      (fall \<longrightarrow> p + 1 < n \<and> H (p + 1) = Some nh)"
    using fl by simp
  show ?thesis
    unfolding flow Inr r ex ex_js set_append ball_Un 1 2 W_def by (rule conj_commute)
qed

lemma well_heighted_iff: "well_heighted m f H \<longleftrightarrow> vf.consistent f m H"
  unfolding well_heighted_def vf.consistent_def vf.consistent_at_def flow_ok_iff ..

text \<open>The starting vector and the fuel of \<open>verify_fn\<close> are those of the locale.\<close>

lemma start_heights_eq: "(replicate (unat (fm_code_len f)) (-1))[0 := 0] = vf.start_heights f"
  by (simp add: vf.start_heights_def)

text \<open>The worklist of \<open>verify_fn\<close> on a function with code.\<close>

definition verify_work :: "host_module \<Rightarrow> func_meta \<Rightarrow> (string + int list \<times> int) option" where
  "verify_work m f =
     worklist (unat (fm_code_len f)) (mismatch_at (fm_code_off f)) (cuop_flow (ctx_of m f) (hm_code m) f)
       (cuop_peak (ctx_of m f) (hm_code m) f) (2 * unat (fm_code_len f)) (vf.start_heights f, [0], 0)"

definition fn_shape :: "host_module \<Rightarrow> func_meta \<Rightarrow> bool" where
  "fn_shape m f \<longleftrightarrow>
     fm_code_len f \<noteq> 0 \<and> unat (fm_code_off f) + unat (fm_code_len f) \<le> length (hm_code m) \<and>
     cu_op (hm_code m ! (unat (fm_code_off f) + unat (fm_code_len f) - 1)) \<in> {OP_RETURN, OP_END_FUNC}"

lemma verify_fn_shape:
  assumes "fn_shape m f"
  shows "verify_fn m fi f =
     (case verify_work m f of
        None \<Rightarrow> Inl ''fuel''
      | Some (Inl e) \<Rightarrow> Inl e
      | Some (Inr (height, max_h)) \<Rightarrow>
          let max_sp = max 0 (int (unat (fm_n_params f)) + int (unat (fm_n_locals f)) + max_h) in
          if max_sp > 65535 then Inl ''max_stack overflow'' else Inr (f\<lparr>fm_max_stack := of_int max_sp\<rparr>))"
  using assms unfolding fn_shape_def verify_fn_def verify_work_def
  by (auto simp: Let_def unat_eq_zero start_heights_eq)

lemma verify_work_iff:
  assumes "fn_shape m f"
  shows "verify_work m f \<noteq> None" and "(\<exists>H. well_heighted m f H) \<longleftrightarrow> (\<exists>r. verify_work m f = Some (Inr r))"
proof -
  have n: "0 < unat (fm_code_len f)" using assms by (simp add: fn_shape_def unat_gt_0)
  show "verify_work m f \<noteq> None" unfolding verify_work_def by (rule vf.start_stops [OF n])
  show "(\<exists>H. well_heighted m f H) \<longleftrightarrow> (\<exists>r. verify_work m f = Some (Inr r))"
    using vf.accepts_iff_consistent [OF n] unfolding verify_work_def well_heighted_iff by simp
qed

lemma verify_fn_accepts:
  assumes "fn_shape m f" and "well_heighted m f H"
  shows "(\<exists>f'. verify_fn m fi f = Inr f') \<or> verify_fn m fi f = Inl ''max_stack overflow''"
proof -
  obtain height mh where "verify_work m f = Some (Inr (height, mh))"
    using verify_work_iff(2) [OF assms(1)] assms(2) by (metis surj_pair)
  then show ?thesis unfolding verify_fn_shape [OF assms(1)] by (simp add: Let_def)
qed

lemma verify_fn_Inr_shape: "verify_fn m fi f = Inr f' \<Longrightarrow> fm_code_len f \<noteq> 0 \<Longrightarrow> fn_shape m f"
  by (auto simp: verify_fn_def fn_shape_def Let_def unat_eq_zero split: if_splits)

section \<open>Heights an execution can reach\<close>

text \<open>
  The control flow of a function as the interpreter follows it: a program counter, relative to
  the start of the function, with the number of operands on the stack.
\<close>

inductive reach :: "host_module \<Rightarrow> func_meta \<Rightarrow> nat \<Rightarrow> int \<Rightarrow> bool" for m f where
  entry: "reach m f 0 0"
| fall: "reach m f p h \<Longrightarrow>
    cuop_effect (ctx_of m f) (hm_code m ! (unat (fm_code_off f) + p)) h = Inr (True, nh, tgt) \<Longrightarrow>
    reach m f (p + 1) nh"
| jump: "reach m f p h \<Longrightarrow>
    cuop_effect (ctx_of m f) (hm_code m ! (unat (fm_code_off f) + p)) h = Inr (fall, nh, Some (t, th)) \<Longrightarrow>
    reach m f (unat (t - fm_code_off f)) th"

lemma well_heightedD:
  assumes "well_heighted m f H" and "p < unat (fm_code_len f)" and "H p = Some h"
  obtains fall nh tgt where
    "cuop_effect (ctx_of m f) (hm_code m ! (unat (fm_code_off f) + p)) h = Inr (fall, nh, tgt)"
    and "fall \<Longrightarrow> p + 1 < unat (fm_code_len f) \<and> H (p + 1) = Some nh"
    and "\<And>t th. tgt = Some (t, th) \<Longrightarrow>
           unat (t - fm_code_off f) < unat (fm_code_len f) \<and> H (unat (t - fm_code_off f)) = Some th"
proof -
  from assms obtain fall nh tgt where
    "cuop_effect (ctx_of m f) (hm_code m ! (unat (fm_code_off f) + p)) h = Inr (fall, nh, tgt)"
    and "fall \<longrightarrow> p + 1 < unat (fm_code_len f) \<and> H (p + 1) = Some nh"
    and "\<And>t th. tgt = Some (t, th) \<Longrightarrow> fm_code_off f \<le> t \<and> t < fm_code_off f + fm_code_len f \<and>
           H (unat (t - fm_code_off f)) = Some th"
    unfolding well_heighted_def by blast
  with in_window show ?thesis by (intro that) blast+
qed

lemma reach_height:
  assumes "well_heighted m f H" and "fm_code_len f \<noteq> 0" and "reach m f p h"
  shows "p < unat (fm_code_len f) \<and> H p = Some h"
  using assms(3)
proof (induction rule: reach.induct)
  case entry
  then show ?case using assms(1,2) by (simp add: well_heighted_def unat_gt_0)
next
  case (fall p h nh tgt)
  then show ?case by (elim conjE well_heightedD [OF assms(1)]) auto
next
  case (jump p h fall nh t th)
  then show ?case by (elim conjE well_heightedD [OF assms(1)]) auto
qed

section \<open>An example module\<close>

definition empty_module :: host_module where
  "empty_module =
     \<lparr>hm_code = [], hm_consts = [], hm_funcs = [], hm_exports = [], hm_globals = [], hm_memory = [],
      hm_mem_size = 0, hm_mem_max = 0, hm_data_blob = [], hm_data_off = [], hm_data_len = [],
      hm_data_live = [], hm_table = [], hm_func_typeidx = [], hm_type_fp = [], hm_n_host_imports = 0,
      hm_host_fn_id = [], hm_host_import_mod = [], hm_host_import_name = [], hm_host_import_env = []\<rparr>"

text \<open>One function of one parameter: \<open>local.get 0; i64.eqz; end\<close>.\<close>

definition tiny_fn :: func_meta where
  "tiny_fn =
     \<lparr>fm_code_off = 0, fm_code_len = 3, fm_n_params = 1, fm_n_results = 1, fm_n_locals = 0,
      fm_max_stack = 0\<rparr>"

definition tiny_module :: host_module where
  "tiny_module = empty_module
     \<lparr>hm_code := [mk_op OP_LOCAL_GET 0 0, mk_op OP_I64_EQZ 0 0, mk_op OP_END_FUNC 1 0],
      hm_funcs := [tiny_fn]\<rparr>"

lemma tiny_accepted: "verify_fn tiny_module 0 tiny_fn = Inr (tiny_fn\<lparr>fm_max_stack := 2\<rparr>)"
  by code_simp

lemma tiny_shape: "fn_shape tiny_module tiny_fn"
  by code_simp

lemma tiny_len: "fm_code_len tiny_fn \<noteq> 0"
  by code_simp

lemma tiny_reach: "reach tiny_module tiny_fn 1 1"
proof -
  have "cuop_effect (ctx_of tiny_module tiny_fn) (hm_code tiny_module ! (unat (fm_code_off tiny_fn) + 0)) 0 =
      Inr (True, 1, None)"
    by code_simp
  from reach.fall [OF reach.entry this] show ?thesis by simp
qed

section \<open>Properties\<close>



text \<open>
  C8. The verifier decides exactly the existence of consistent heights: with fuel for two steps
  per instruction its loop always ends, and it accepts a function of the right shape precisely when
  its program counters can be given consistent stack heights, unless the frame needs more than
  65535 slots.
\<close>

theorem verify_fn_decides:
  assumes "fn_shape m f"
  shows "verify_work m f \<noteq> None \<and>
    ((\<exists>H. well_heighted m f H) \<longleftrightarrow>
       (\<exists>f'. verify_fn m fi f = Inr f') \<or> verify_fn m fi f = Inl ''max_stack overflow'' \<and>
          (\<exists>r. verify_work m f = Some (Inr r)))"
  using verify_work_iff [OF assms] unfolding verify_fn_shape [OF assms]
  by (auto simp: Let_def split: sum.splits option.splits)

lemma verify_fn_decides_witness: "verify_work tiny_module tiny_fn \<noteq> None \<and> (\<exists>H. well_heighted tiny_module tiny_fn H)"
  using verify_fn_decides [OF tiny_shape, of 0] tiny_accepted by blast

end
