(* ===== verification/Lowering.thy ===== *)
theory Lowering
  imports CuOp
begin

text \<open>
  The lowering of a function body to CuOps: \<open>lower_operators\<close> of \<open>tools/src/lib.rs\<close> with the
  helpers it calls. The local variables \<open>h\<close>, \<open>dead\<close> and \<open>ctrl\<close> of the loop and the two vectors it
  mutates (\<open>code\<close>, \<open>consts\<close>) are the record \<open>lower_state\<close>; the arguments that stay fixed are
  \<open>lower_env\<close>. Every arm of the \<open>match\<close> is one definition in the state-and-error monad, because an
  arm that fails leaves in \<open>code\<close> and \<open>consts\<close> what it appended before.

  Program counters, indices and immediates keep their widths. Arithmetic on \<open>u16\<close> and \<open>u32\<close>
  wraps (the crate is built in release mode). The stack height \<open>h\<close>, an \<open>i32\<close>, is an \<open>int\<close>.
\<close>

unbundle bit_operations_syntax

section \<open>Helpers on types and constant expressions\<close>

fun type_tag :: "val_type \<Rightarrow> error + u64" where
  "type_tag I32 = Inr 0"
| "type_tag I64 = Inr 1"
| "type_tag F32 = Inr 2"
| "type_tag F64 = Inr 3"
| "type_tag t = Inl (MsgVal ''unsupported valtype '' t)"

text \<open>One of the two loops: the tag of the \<open>i\<close>-th type is put at bit \<open>sh + 2 * i\<close>.\<close>

fun fp_tags :: "nat \<Rightarrow> val_type list \<Rightarrow> u64 \<Rightarrow> error + u64" where
  "fp_tags sh [] fp = Inr fp"
| "fp_tags sh (t # ts) fp = rbind (type_tag t) (\<lambda>g. fp_tags (sh + 2) ts (fp OR push_bit sh g))"

definition type_fingerprint :: "val_type list \<Rightarrow> val_type list \<Rightarrow> error + u64" where
  "type_fingerprint params results =
     (if length params > 8 \<or> length results > 8
      then Inl (Msg ''too many params/results for type fingerprint'')
      else rbind (fp_tags 16 params (of_nat (length params) OR push_bit 8 (of_nat (length results))))
             (fp_tags 32 results))"

definition load_flags :: "u16 \<Rightarrow> bool \<Rightarrow> bool \<Rightarrow> u16" where
  "load_flags nbytes is_signed i64dest =
     nbytes OR (if is_signed then 0x10 else 0) OR (if i64dest then 0x20 else 0)"

definition check_memarg :: "mem_arg \<Rightarrow> error + u32" where
  "check_memarg m =
     (if ma_memory m \<noteq> 0 then Inl (Msg ''multi-memory not supported'')
      else if ma_offset m > 0xFFFFFFFF then Inl (Msg ''memory64 offset'')
      else Inr (ucast (ma_offset m)))"

text \<open>The evaluation stack \<open>st\<close>, with its top first.\<close>

definition pop2 :: "u32 list \<Rightarrow> error + u32 \<times> u32 \<times> u32 list" where
  "pop2 st = (case st of y # x # rest \<Rightarrow> Inr (x, y, rest) | _ \<Rightarrow> Inl (Msg ''constexpr underflow''))"

definition eval_i32_op :: "string + operator \<Rightarrow> u32 list \<Rightarrow> error + u32 list" where
  "eval_i32_op r st =
     rbind (map_err (\<lambda>e. Msg (''constexpr: '' @ e)) r) (\<lambda>x.
       case x of
         I32Const v \<Rightarrow> Inr (v # st)
       | I32Op I32Add \<Rightarrow> rbind (pop2 st) (\<lambda>(x, y, rest). Inr ((x + y) # rest))
       | I32Op I32Sub \<Rightarrow> rbind (pop2 st) (\<lambda>(x, y, rest). Inr ((x - y) # rest))
       | I32Op I32Mul \<Rightarrow> rbind (pop2 st) (\<lambda>(x, y, rest). Inr ((x * y) # rest))
       | End \<Rightarrow> Inr st
       | GlobalGet _ \<Rightarrow> Inl (Msg ''imported global in offset expr'')
       | other \<Rightarrow> Inl (MsgOp ''unsupported constexpr '' other))"

definition eval_i32_expr :: "const_expr \<Rightarrow> error + u32" where
  "eval_i32_expr ops =
     rbind (rfold eval_i32_op ops [])
       (\<lambda>st. case st of [] \<Rightarrow> Inl (Msg ''empty constexpr'') | v # _ \<Rightarrow> Inr v)"

fun only_int :: "val_type list \<Rightarrow> error + unit" where
  "only_int [] = Inr ()"
| "only_int (t # ts) =
     (if t \<in> {I32, I64, F32, F64} then only_int ts else Inl (MsgVal ''unsupported valtype '' t))"

section \<open>Control frames\<close>

datatype ctrl_kind = CK_Func | CK_Block | CK_Loop | CK_If

record ctrl =
  c_kind :: ctrl_kind
  c_start :: u32
  c_br_if_not :: "u32 option"
  c_else_br :: "u32 option"
  c_patches :: "u32 list"
  c_has_else :: bool
  c_base :: int
  c_n_params :: u16
  c_n_results :: u16
  c_dead_on_entry :: bool

definition resolve_br :: "ctrl list \<Rightarrow> u32 \<Rightarrow> error + nat" where
  "resolve_br ctrl depth =
     ok_or (MsgBrDepth depth)
       (if 1 + unat depth \<le> length ctrl then Some (length ctrl - (1 + unat depth)) else None)"

definition consume :: "int \<Rightarrow> bool \<Rightarrow> int \<Rightarrow> int \<Rightarrow> error + int" where
  "consume h dead pops pushes =
     (if dead then Inr h
      else if h < pops then Inl (Msg ''operand stack underflow'')
      else Inr (h - pops + pushes))"

definition block_arity :: "block_type \<Rightarrow> func_type list \<Rightarrow> error + u16 \<times> u16" where
  "block_arity ty func_types =
     (case ty of
        BT_Empty \<Rightarrow> Inr (0, 0)
      | BT_Type t \<Rightarrow>
          if t \<noteq> I32 \<and> t \<noteq> I64 then Inl (MsgVal ''unsupported block valtype '' t) else Inr (0, 1)
      | BT_FuncType idx \<Rightarrow>
          let i = unat idx in
          if i \<ge> length func_types then Inl (Msg ''block type index oob'')
          else Inr (of_nat (length (fst (func_types ! i))), of_nat (length (snd (func_types ! i)))))"

definition func_arity :: "u32 \<Rightarrow> func_type list \<Rightarrow> u32 list \<Rightarrow> error + u16 \<times> u16" where
  "func_arity function_index func_types func_typeidx =
     (let i = unat function_index in
      if i \<ge> length func_typeidx then Inl (Msg ''call function index oob'')
      else let t = unat (func_typeidx ! i) in
        if t \<ge> length func_types then Inl (Msg ''call type index oob'')
        else Inr (of_nat (length (fst (func_types ! t))), of_nat (length (snd (func_types ! t)))))"

definition label_arity :: "ctrl \<Rightarrow> int" where
  "label_arity c =
     (if c_kind c = CK_Loop then int (unat (c_n_params c)) else int (unat (c_n_results c)))"

definition emit_unwind ::
  "cuop list \<Rightarrow> int \<Rightarrow> ctrl \<Rightarrow> u16 \<Rightarrow> u16 \<Rightarrow> error + int \<times> cuop list" where
  "emit_unwind code h c fn_params fn_locals =
     (let dest_h = c_base c + label_arity c in
      if h < dest_h then Inl (Msg ''branch stack underflow'')
      else if h > dest_h then
        let n_keep = of_int (label_arity c) :: u16;
            dest_rel = ucast fn_params + ucast fn_locals + of_int dest_h :: u32
        in Inr (dest_h, snd (emit code OP_UNWIND n_keep dest_rel))
      else Inr (dest_h, code))"

definition push_ctrl ::
  "ctrl list \<Rightarrow> ctrl_kind \<Rightarrow> u32 \<Rightarrow> u16 \<Rightarrow> u16 \<Rightarrow> int \<Rightarrow> bool \<Rightarrow> error + ctrl list" where
  "push_ctrl ctrl kind start np nr h dead =
     (if \<not> dead \<and> h < int (unat np) then Inl (Msg ''block params underflow'')
      else
        let base = if dead then 0 else h - int (unat np) in
        Inr (ctrl @ [\<lparr>c_kind = kind, c_start = start, c_br_if_not = None, c_else_br = None,
                      c_patches = [], c_has_else = False, c_base = base, c_n_params = np,
                      c_n_results = nr, c_dead_on_entry = dead\<rparr>]))"

definition emit_jump :: "cuop list \<Rightarrow> ctrl list \<Rightarrow> nat \<Rightarrow> cuop list \<times> ctrl list" where
  "emit_jump code ctrl idx =
     (if c_kind (ctrl ! idx) = CK_Loop then
        (snd (emit code OP_BR 0 (c_start (ctrl ! idx))), ctrl)
      else
        let (pc, code') = emit code OP_BR 0 0 in
        (code', ctrl[idx := (ctrl ! idx)\<lparr>c_patches := c_patches (ctrl ! idx) @ [pc]\<rparr>]))"

section \<open>The state of the loop\<close>

record lower_state =
  ls_code :: "cuop list"
  ls_consts :: "u64 list"
  ls_h :: int
  ls_dead :: bool
  ls_ctrl :: "ctrl list"

record lower_env =
  le_n_params :: u16
  le_n_results :: u16
  le_n_locals :: u16
  le_func_types :: "func_type list"
  le_func_typeidx :: "u32 list"
  le_n_imports :: u32
  le_host_fn_ids :: "u32 list"
  le_scratch :: "u16 option"

type_synonym 'r lower = "(lower_state, error, 'r) es"

text \<open>The calls the arms make, on the components of the state they are passed.\<close>

definition emitL :: "u16 \<Rightarrow> u16 \<Rightarrow> u32 \<Rightarrow> u32 lower" where
  "emitL x y z s = (let (pc, code) = emit (ls_code s) x y z in (Inr pc, s\<lparr>ls_code := code\<rparr>))"

definition patchL :: "u32 \<Rightarrow> u32 \<Rightarrow> unit lower" where
  "patchL pc z s =
     (case patch_b (ls_code s) pc z of
        Inl e \<Rightarrow> (Inl e, s)
      | Inr code \<Rightarrow> (Inr (), s\<lparr>ls_code := code\<rparr>))"

definition internL :: "u64 \<Rightarrow> u32 lower" where
  "internL v s = (let (i, consts) = intern (ls_consts s) v in (Inr i, s\<lparr>ls_consts := consts\<rparr>))"

definition consumeL :: "int \<Rightarrow> int \<Rightarrow> unit lower" where
  "consumeL pops pushes s =
     (case consume (ls_h s) (ls_dead s) pops pushes of
        Inl e \<Rightarrow> (Inl e, s)
      | Inr h \<Rightarrow> (Inr (), s\<lparr>ls_h := h\<rparr>))"

definition code_lenL :: "u32 lower" where
  "code_lenL = getS (\<lambda>s. of_nat (length (ls_code s)))"

definition set_dead :: "unit lower" where
  "set_dead = modifyS (\<lambda>s. s\<lparr>ls_dead := True\<rparr>)"

definition resolveL :: "u32 \<Rightarrow> nat lower" where
  "resolveL depth s = (resolve_br (ls_ctrl s) depth, s)"

text \<open>\<open>if !dead { emit_unwind(code, h, &ctrl[idx], n_params, n_locals)?; }\<close>\<close>

definition unwindL :: "lower_env \<Rightarrow> nat \<Rightarrow> unit lower" where
  "unwindL env idx s =
     (if ls_dead s then (Inr (), s)
      else case emit_unwind (ls_code s) (ls_h s) (ls_ctrl s ! idx) (le_n_params env) (le_n_locals env) of
        Inl e \<Rightarrow> (Inl e, s)
      | Inr (_, code) \<Rightarrow> (Inr (), s\<lparr>ls_code := code\<rparr>))"

definition jumpL :: "nat \<Rightarrow> unit lower" where
  "jumpL idx s =
     (let (code, ctrl) = emit_jump (ls_code s) (ls_ctrl s) idx
      in (Inr (), s\<lparr>ls_code := code, ls_ctrl := ctrl\<rparr>))"

definition push_ctrlL :: "ctrl_kind \<Rightarrow> u16 \<Rightarrow> u16 \<Rightarrow> unit lower" where
  "push_ctrlL kind np nr s =
     (case push_ctrl (ls_ctrl s) kind (of_nat (length (ls_code s))) np nr (ls_h s) (ls_dead s) of
        Inl e \<Rightarrow> (Inl e, s)
      | Inr ctrl \<Rightarrow> (Inr (), s\<lparr>ls_ctrl := ctrl\<rparr>))"

definition last_ctrlL :: "string \<Rightarrow> ctrl lower" where
  "last_ctrlL e s =
     (if ls_ctrl s = [] then (Inl (Msg e), s) else (Inr (last (ls_ctrl s)), s))"

definition pop_ctrlL :: "string \<Rightarrow> ctrl lower" where
  "pop_ctrlL e s =
     (if ls_ctrl s = [] then (Inl (Msg e), s)
      else (Inr (last (ls_ctrl s)), s\<lparr>ls_ctrl := butlast (ls_ctrl s)\<rparr>))"

definition update_last :: "(ctrl \<Rightarrow> ctrl) \<Rightarrow> unit lower" where
  "update_last f =
     modifyS (\<lambda>s. s\<lparr>ls_ctrl :=
       (if ls_ctrl s = [] then [] else butlast (ls_ctrl s) @ [f (last (ls_ctrl s))])\<rparr>)"

section \<open>The arms of the match\<close>

definition emit_consume :: "u16 \<Rightarrow> u16 \<Rightarrow> u32 \<Rightarrow> int \<Rightarrow> int \<Rightarrow> unit lower" where
  [lower_defs]: "emit_consume x y z pops pushes = thenS (emitL x y z) (consumeL pops pushes)"

definition lower_unreachable :: "unit lower" where
  [lower_defs]: "lower_unreachable = thenS (emitL OP_UNREACHABLE 0 0) set_dead"

definition lower_const :: "u64 \<Rightarrow> unit lower" where
  [lower_defs]: "lower_const v = bindS (internL v) (\<lambda>idx. emit_consume OP_I64_CONST 0 idx 0 1)"

text \<open>The integer operators: opcode, \<open>a\<close> field, operands popped, results pushed.\<close>

fun i32_lowering :: "i32_operator \<Rightarrow> u16 \<times> u16 \<times> int \<times> int" where
  "i32_lowering I32Eqz = (OP_I32_EQZ, 0, 1, 1)"
| "i32_lowering I32Eq = (OP_I32_EQ, 0, 2, 1)"
| "i32_lowering I32Ne = (OP_I32_NE, 0, 2, 1)"
| "i32_lowering I32LtS = (OP_I32_LT_S, 0, 2, 1)"
| "i32_lowering I32LtU = (OP_I32_LT_U, 0, 2, 1)"
| "i32_lowering I32LeS = (OP_I32_LE_S, 0, 2, 1)"
| "i32_lowering I32LeU = (OP_I32_LE_U, 0, 2, 1)"
| "i32_lowering I32GtS = (OP_I32_GT_S, 0, 2, 1)"
| "i32_lowering I32GtU = (OP_I32_GT_U, 0, 2, 1)"
| "i32_lowering I32GeS = (OP_I32_GE_S, 0, 2, 1)"
| "i32_lowering I32GeU = (OP_I32_GE_U, 0, 2, 1)"
| "i32_lowering I32Add = (OP_I32_ADD, 0, 2, 1)"
| "i32_lowering I32Sub = (OP_I32_SUB, 0, 2, 1)"
| "i32_lowering I32Mul = (OP_I32_MUL, 0, 2, 1)"
| "i32_lowering I32And = (OP_I32_AND, 0, 2, 1)"
| "i32_lowering I32Or = (OP_I32_OR, 0, 2, 1)"
| "i32_lowering I32Xor = (OP_I32_XOR, 0, 2, 1)"
| "i32_lowering I32DivS = (OP_I32_DIV_S, 0, 2, 1)"
| "i32_lowering I32DivU = (OP_I32_DIV_U, 0, 2, 1)"
| "i32_lowering I32RemS = (OP_I32_REM_S, 0, 2, 1)"
| "i32_lowering I32RemU = (OP_I32_REM_U, 0, 2, 1)"
| "i32_lowering I32Shl = (OP_I32_SHL, 0, 2, 1)"
| "i32_lowering I32ShrS = (OP_I32_SHR_S, 0, 2, 1)"
| "i32_lowering I32ShrU = (OP_I32_SHR_U, 0, 2, 1)"
| "i32_lowering I32WrapI64 = (OP_I32_WRAP_I64, 0, 1, 1)"
| "i32_lowering I32Clz = (OP_CLZ, 32, 1, 1)"

fun i64_lowering :: "i64_operator \<Rightarrow> u16 \<times> u16 \<times> int \<times> int" where
  "i64_lowering I64Ne = (OP_I64_NE, 0, 2, 1)"
| "i64_lowering I64LtU = (OP_I64_LT_U, 0, 2, 1)"
| "i64_lowering I64LeU = (OP_I64_LE_U, 0, 2, 1)"
| "i64_lowering I64GtS = (OP_I64_GT_S, 0, 2, 1)"
| "i64_lowering I64GtU = (OP_I64_GT_U, 0, 2, 1)"
| "i64_lowering I64GeS = (OP_I64_GE_S, 0, 2, 1)"
| "i64_lowering I64GeU = (OP_I64_GE_U, 0, 2, 1)"
| "i64_lowering I64Mul = (OP_I64_MUL, 0, 2, 1)"
| "i64_lowering I64And = (OP_I64_AND, 0, 2, 1)"
| "i64_lowering I64Or = (OP_I64_OR, 0, 2, 1)"
| "i64_lowering I64Xor = (OP_I64_XOR, 0, 2, 1)"
| "i64_lowering I64DivS = (OP_I64_DIV_S, 0, 2, 1)"
| "i64_lowering I64DivU = (OP_I64_DIV_U, 0, 2, 1)"
| "i64_lowering I64RemS = (OP_I64_REM_S, 0, 2, 1)"
| "i64_lowering I64RemU = (OP_I64_REM_U, 0, 2, 1)"
| "i64_lowering I64Shl = (OP_I64_SHL, 0, 2, 1)"
| "i64_lowering I64ShrS = (OP_I64_SHR_S, 0, 2, 1)"
| "i64_lowering I64ShrU = (OP_I64_SHR_U, 0, 2, 1)"
| "i64_lowering I64Extend32S = (OP_I64_EXTEND_I32_S, 0, 1, 1)"
| "i64_lowering I64ExtendI32S = (OP_I64_EXTEND_I32_S, 0, 1, 1)"
| "i64_lowering I64ExtendI32U = (OP_I64_EXTEND_I32_U, 0, 1, 1)"
| "i64_lowering I64MulWideS = (OP_I64_MUL_WIDE_S, 0, 2, 2)"
| "i64_lowering I64MulWideU = (OP_I64_MUL_WIDE_U, 0, 2, 2)"
| "i64_lowering I64Add128 = (OP_I64_ADD128, 0, 4, 2)"
| "i64_lowering I64Sub128 = (OP_I64_SUB128, 0, 4, 2)"
| "i64_lowering I64Add = (OP_I64_ADD, 0, 2, 1)"
| "i64_lowering I64Sub = (OP_I64_SUB, 0, 2, 1)"
| "i64_lowering I64Eq = (OP_I64_EQ, 0, 2, 1)"
| "i64_lowering I64Eqz = (OP_I64_EQZ, 0, 1, 1)"
| "i64_lowering I64LeS = (OP_I64_LE_S, 0, 2, 1)"
| "i64_lowering I64LtS = (OP_I64_LT_S, 0, 2, 1)"
| "i64_lowering I64Clz = (OP_CLZ, 64, 1, 1)"

definition lower_numeric :: "u16 \<times> u16 \<times> int \<times> int \<Rightarrow> unit lower" where
  [lower_defs]: "lower_numeric r = (case r of (x, y, pops, pushes) \<Rightarrow> emit_consume x y 0 pops pushes)"

definition lower_local_tee :: "u32 \<Rightarrow> unit lower" where
  [lower_defs]: "lower_local_tee i =
     thenS (emitL OP_LOCAL_SET (ucast i) 0) (thenS (emitL OP_LOCAL_GET (ucast i) 0) (ret ()))"

definition lower_block :: "lower_env \<Rightarrow> block_type \<Rightarrow> unit lower" where
  [lower_defs]: "lower_block env ty =
     bindS (liftS (block_arity ty (le_func_types env))) (\<lambda>(np, nr). push_ctrlL CK_Block np nr)"

definition lower_loop :: "lower_env \<Rightarrow> block_type \<Rightarrow> unit lower" where
  [lower_defs]: "lower_loop env ty =
     bindS (liftS (block_arity ty (le_func_types env))) (\<lambda>(np, nr). push_ctrlL CK_Loop np nr)"

definition lower_if :: "lower_env \<Rightarrow> block_type \<Rightarrow> unit lower" where
  [lower_defs]: "lower_if env ty =
     bindS (liftS (block_arity ty (le_func_types env))) (\<lambda>(np, nr).
       thenS (consumeL 1 0)
      (bindS (emitL OP_BR_IF_NOT 0 0) (\<lambda>pc.
       thenS (push_ctrlL CK_If np nr)
             (update_last (\<lambda>c. c\<lparr>c_br_if_not := Some pc\<rparr>)))))"

definition lower_else :: "unit lower" where
  [lower_defs]: "lower_else =
     bindS (last_ctrlL ''else without if'') (\<lambda>c.
       if c_kind c \<noteq> CK_If then fail (Msg ''else not in if'')
       else
         bindS (emitL OP_BR 0 0) (\<lambda>br.
         thenS (update_last (\<lambda>c. c\<lparr>c_else_br := Some br, c_has_else := True\<rparr>))
        (thenS (case c_br_if_not c of
                  Some if_pc \<Rightarrow> bindS code_lenL (\<lambda>dest. patchL if_pc dest)
                | None \<Rightarrow> ret ())
               (modifyS (\<lambda>s. s\<lparr>ls_h := c_base c + int (unat (c_n_params c)), ls_dead := False\<rparr>)))))"

definition patch_if :: "ctrl \<Rightarrow> u32 \<Rightarrow> unit lower" where
  [lower_defs]: "patch_if c join_pc =
     (if c_kind c = CK_If then
        (if c_has_else c then
           (case c_else_br c of Some br \<Rightarrow> patchL br join_pc | None \<Rightarrow> ret ())
         else
           (case c_br_if_not c of Some if_pc \<Rightarrow> patchL if_pc join_pc | None \<Rightarrow> ret ()))
      else ret ())"

definition lower_end :: "lower_env \<Rightarrow> unit lower" where
  [lower_defs]: "lower_end env =
     bindS (pop_ctrlL ''unmatched end'') (\<lambda>c.
     bindS (if c_kind c = CK_Func then emitL OP_END_FUNC (le_n_results env) 0 else code_lenL) (\<lambda>join_pc.
       thenS (patch_if c join_pc)
      (thenS (forS (c_patches c) (\<lambda>p. patchL p join_pc))
             (modifyS (\<lambda>s. s\<lparr>ls_h := c_base c + int (unat (c_n_results c)),
                             ls_dead := c_dead_on_entry c\<rparr>)))))"

text \<open>The branch to a label: \<open>resolve_br\<close>, \<open>emit_unwind\<close> in live code, \<open>emit_jump\<close>.\<close>

definition branch_to :: "lower_env \<Rightarrow> u32 \<Rightarrow> unit lower" where
  [lower_defs]: "branch_to env depth = bindS (resolveL depth) (\<lambda>idx. thenS (unwindL env idx) (jumpL idx))"

definition lower_br :: "lower_env \<Rightarrow> u32 \<Rightarrow> unit lower" where
  [lower_defs]: "lower_br env depth = thenS (branch_to env depth) set_dead"

text \<open>
  \<open>BR_IF_NOT\<close> over the branch. \<open>emit_unwind\<close> gets \<open>h\<close> by value, so restoring \<open>saved_h\<close> changes
  nothing.
\<close>

definition branch_if :: "lower_env \<Rightarrow> u32 \<Rightarrow> unit lower" where
  [lower_defs]: "branch_if env depth =
     bindS (emitL OP_BR_IF_NOT 0 0) (\<lambda>skip_placeholder.
       thenS (branch_to env depth)
             (bindS code_lenL (\<lambda>dest. patchL skip_placeholder dest)))"

definition lower_br_if :: "lower_env \<Rightarrow> u32 \<Rightarrow> unit lower" where
  [lower_defs]: "lower_br_if env depth = thenS (consumeL 1 0) (branch_if env depth)"

fun collect_depths :: "(string + u32) list \<Rightarrow> error + u32 list" where
  "collect_depths [] = Inr []"
| "collect_depths (t # ts) =
     rbind (map_err (\<lambda>e. Msg (''br_table: '' @ e)) t) (\<lambda>d.
       rbind (collect_depths ts) (\<lambda>ds. Inr (d # ds)))"

definition br_table_case :: "lower_env \<Rightarrow> u16 \<Rightarrow> nat \<times> u32 \<Rightarrow> unit lower" where
  [lower_defs]: "br_table_case env scratch r = (case r of (i, depth) \<Rightarrow>
     bindS (internL (ucast (of_nat i :: u32))) (\<lambda>idxc.
       thenS (emit_consume OP_LOCAL_GET scratch 0 0 1)
      (thenS (emit_consume OP_I64_CONST 0 idxc 0 1)
      (thenS (emit_consume OP_I32_EQ 0 0 2 1)
      (thenS (consumeL 1 0)
             (branch_if env depth))))))"

definition lower_br_table :: "lower_env \<Rightarrow> (string + u32) list \<Rightarrow> u32 \<Rightarrow> unit lower" where
  [lower_defs]: "lower_br_table env targets dflt =
     bindS (liftS (ok_or (Msg ''br_table without scratch local'') (le_scratch env))) (\<lambda>scratch.
     bindS (liftS (collect_depths targets)) (\<lambda>depths.
       thenS (emit_consume OP_LOCAL_SET scratch 0 1 0)
      (thenS (forS (enumerate 0 depths) (br_table_case env scratch))
      (thenS (branch_to env dflt) set_dead))))"

definition lower_return :: "lower_env \<Rightarrow> unit lower" where
  [lower_defs]: "lower_return env = thenS (emitL OP_RETURN (le_n_results env) 0) set_dead"

definition lower_call :: "lower_env \<Rightarrow> u32 \<Rightarrow> unit lower" where
  [lower_defs]: "lower_call env function_index =
     bindS (liftS (func_arity function_index (le_func_types env) (le_func_typeidx env))) (\<lambda>(np, nr).
       thenS
        (if function_index < le_n_imports env then
           (if unat function_index < length (le_host_fn_ids env) then
              emitL OP_CALL_HOST (np OR push_bit 8 nr) (le_host_fn_ids env ! unat function_index)
            else fail (Msg ''host fn_id oob''))
         else emitL OP_CALL 0 function_index)
        (consumeL (int (unat np)) (int (unat nr))))"

definition lower_return_call :: "lower_env \<Rightarrow> u32 \<Rightarrow> unit lower" where
  [lower_defs]: "lower_return_call env function_index =
     (if function_index < le_n_imports env
      then fail (Msg ''tail call to host import not supported'')
      else thenS (emitL OP_RETURN_CALL 0 function_index) set_dead)"

definition lower_call_indirect :: "lower_env \<Rightarrow> u32 \<Rightarrow> u32 \<Rightarrow> unit lower" where
  [lower_defs]: "lower_call_indirect env type_index table_index =
     (if table_index \<noteq> 0 then fail (Msg ''multi-table not supported'')
      else
        let t = unat type_index in
        if t \<ge> length (le_func_types env) then fail (Msg ''call_indirect type oob'')
        else
          let np = int (length (fst (le_func_types env ! t)));
              nr = int (length (snd (le_func_types env ! t)))
          in emit_consume OP_CALL_INDIRECT 0 type_index (1 + np) nr)"

fun load_lowering :: "load_operator \<Rightarrow> u16" where
  "load_lowering I32Load = load_flags 4 False False"
| "load_lowering I64Load = load_flags 8 False True"
| "load_lowering I32Load8S = load_flags 1 True False"
| "load_lowering I32Load8U = load_flags 1 False False"
| "load_lowering I32Load16S = load_flags 2 True False"
| "load_lowering I32Load16U = load_flags 2 False False"
| "load_lowering I64Load8S = load_flags 1 True True"
| "load_lowering I64Load8U = load_flags 1 False True"
| "load_lowering I64Load16S = load_flags 2 True True"
| "load_lowering I64Load16U = load_flags 2 False True"
| "load_lowering I64Load32S = load_flags 4 True True"
| "load_lowering I64Load32U = load_flags 4 False True"
| "load_lowering F32Load = load_flags 4 False False"
| "load_lowering F64Load = load_flags 8 False True"

fun store_lowering :: "store_operator \<Rightarrow> u16" where
  "store_lowering I32Store = 4"
| "store_lowering I64Store = 8"
| "store_lowering I32Store8 = 1"
| "store_lowering I32Store16 = 2"
| "store_lowering I64Store8 = 1"
| "store_lowering I64Store16 = 2"
| "store_lowering I64Store32 = 4"
| "store_lowering F32Store = 4"
| "store_lowering F64Store = 8"

definition lower_load :: "load_operator \<Rightarrow> mem_arg \<Rightarrow> unit lower" where
  [lower_defs]: "lower_load l m =
     bindS (liftS (check_memarg m)) (\<lambda>off. emit_consume OP_LOAD (load_lowering l) off 1 1)"

definition lower_store :: "store_operator \<Rightarrow> mem_arg \<Rightarrow> unit lower" where
  [lower_defs]: "lower_store l m =
     bindS (liftS (check_memarg m)) (\<lambda>off. emit_consume OP_STORE (store_lowering l) off 2 0)"

text \<open>The memory operators that take a memory index: only memory 0 is supported.\<close>

definition lower_memory :: "bool \<Rightarrow> u16 \<Rightarrow> u16 \<Rightarrow> int \<Rightarrow> int \<Rightarrow> unit lower" where
  [lower_defs]: "lower_memory mem0 x y pops pushes =
     (if \<not> mem0 then fail (Msg ''multi-memory not supported'') else emit_consume x y 0 pops pushes)"

fun lower_operator :: "lower_env \<Rightarrow> operator \<Rightarrow> unit lower" where
  "lower_operator env Nop = ret ()"
| "lower_operator env Unreachable = lower_unreachable"
| "lower_operator env (I64Const v) = lower_const v"
| "lower_operator env (I32Const v) = lower_const (ucast v)"
| "lower_operator env (F32Const v) = lower_const (ucast v)"
| "lower_operator env (F64Const v) = lower_const v"
| "lower_operator env Drop = emit_consume OP_DROP 0 0 1 0"
| "lower_operator env Select = emit_consume OP_SELECT 0 0 3 1"
| "lower_operator env (TypedSelect t) = emit_consume OP_SELECT 0 0 3 1"
| "lower_operator env (I32Op p) = lower_numeric (i32_lowering p)"
| "lower_operator env (I64Op p) = lower_numeric (i64_lowering p)"
| "lower_operator env (GlobalGet i) = emit_consume OP_GLOBAL_GET 0 i 0 1"
| "lower_operator env (GlobalSet i) = emit_consume OP_GLOBAL_SET 0 i 1 0"
| "lower_operator env (LocalGet i) = emit_consume OP_LOCAL_GET (ucast i) 0 0 1"
| "lower_operator env (LocalSet i) = emit_consume OP_LOCAL_SET (ucast i) 0 1 0"
| "lower_operator env (LocalTee i) = lower_local_tee i"
| "lower_operator env (Block ty) = lower_block env ty"
| "lower_operator env (Loop ty) = lower_loop env ty"
| "lower_operator env (If ty) = lower_if env ty"
| "lower_operator env Else = lower_else"
| "lower_operator env End = lower_end env"
| "lower_operator env (Br d) = lower_br env d"
| "lower_operator env (BrIf d) = lower_br_if env d"
| "lower_operator env (BrTable ts d) = lower_br_table env ts d"
| "lower_operator env Return = lower_return env"
| "lower_operator env (Call i) = lower_call env i"
| "lower_operator env (ReturnCall i) = lower_return_call env i"
| "lower_operator env (CallIndirect ty t) = lower_call_indirect env ty t"
| "lower_operator env (LoadOp l m) = lower_load l m"
| "lower_operator env (StoreOp l m) = lower_store l m"
| "lower_operator env (MemorySize m) = lower_memory (m = 0) OP_MEMORY_SIZE 0 0 1"
| "lower_operator env (MemoryGrow m) = lower_memory (m = 0) OP_MEMORY_GROW 0 1 1"
| "lower_operator env (MemoryCopy d m) = lower_memory (d = 0 \<and> m = 0) OP_MEMORY_COPY 0 3 0"
| "lower_operator env (MemoryFill m) = lower_memory (m = 0) OP_MEMORY_FILL 0 3 0"
| "lower_operator env (MemoryInit i m) = lower_memory (m = 0) OP_MEMORY_INIT (ucast i) 3 0"
| "lower_operator env (DataDrop i) = thenS (emitL OP_DATA_DROP (ucast i) 0) (ret ())"
| "lower_operator env (ReinterpretOp r) = consumeL 1 1"
| "lower_operator env other = fail (MsgOp ''unsupported wasm opcode: '' other)"

section \<open>The whole function\<close>

fun is_br_table :: "operator \<Rightarrow> bool" where
  "is_br_table (BrTable _ _) = True"
| "is_br_table _ = False"

definition saturating_add1 :: "u16 \<Rightarrow> u16" where
  "saturating_add1 n = (if n = 0xFFFF then 0xFFFF else n + 1)"

text \<open>
  A body with a \<open>br_table\<close> gets one more local, in which the table index is kept.
\<close>

definition make_env ::
  "operator list \<Rightarrow> u16 \<Rightarrow> u16 \<Rightarrow> u16 \<Rightarrow> func_type list \<Rightarrow> u32 list \<Rightarrow> u32 \<Rightarrow> u32 list \<Rightarrow> lower_env" where
  "make_env ops n_params n_results n_locals func_types func_typeidx n_imports host_fn_ids =
     (let tbl = list_ex is_br_table ops;
          n_locals' = (if tbl then saturating_add1 n_locals else n_locals)
      in \<lparr>le_n_params = n_params, le_n_results = n_results, le_n_locals = n_locals',
          le_func_types = func_types, le_func_typeidx = func_typeidx,
          le_n_imports = n_imports, le_host_fn_ids = host_fn_ids,
          le_scratch = (if tbl then Some (n_params + n_locals' - 1) else None)\<rparr>)"

definition func_ctrl :: "u32 \<Rightarrow> u16 \<Rightarrow> ctrl" where
  "func_ctrl code_off n_results =
     \<lparr>c_kind = CK_Func, c_start = code_off, c_br_if_not = None, c_else_br = None, c_patches = [],
      c_has_else = False, c_base = 0, c_n_params = 0, c_n_results = n_results,
      c_dead_on_entry = False\<rparr>"

definition init_state :: "u16 \<Rightarrow> cuop list \<Rightarrow> u64 list \<Rightarrow> lower_state" where
  "init_state n_results code consts =
     \<lparr>ls_code = code, ls_consts = consts, ls_h = 0, ls_dead = False,
      ls_ctrl = [func_ctrl (of_nat (length code)) n_results]\<rparr>"

text \<open>The meta data of the lowered function, or the error; with the code and constants reached.\<close>

definition lower_operators ::
  "operator list \<Rightarrow> u16 \<Rightarrow> u16 \<Rightarrow> u16 \<Rightarrow> cuop list \<Rightarrow> u64 list \<Rightarrow> func_type list \<Rightarrow> u32 list
     \<Rightarrow> u32 \<Rightarrow> u32 list \<Rightarrow> (error + func_meta) \<times> cuop list \<times> u64 list" where
  "lower_operators ops n_params n_results n_locals code consts func_types func_typeidx n_imports
     host_fn_ids =
     (let code_off = of_nat (length code) :: u32;
          env = make_env ops n_params n_results n_locals func_types func_typeidx n_imports host_fn_ids;
          (r, s) = forS ops (lower_operator env) (init_state n_results code consts);
          result =
            rbind r (\<lambda>_.
              if ls_ctrl s \<noteq> [] then Inl (Msg ''unclosed control blocks'')
              else Inr \<lparr>fm_code_off = code_off,
                        fm_code_len = of_nat (length (ls_code s)) - code_off,
                        fm_n_params = n_params, fm_n_results = n_results,
                        fm_n_locals = le_n_locals env, fm_max_stack = 0\<rparr>)
      in (result, ls_code s, ls_consts s))"

end
