(* ===== verification/Heights.thy ===== *)
theory Heights
  imports Lowering Verify
begin

text \<open>
  Stack heights of lowered code. The lowering tracks one height \<open>h\<close> at the position it is
  writing; the verifier wants one height at every position. This theory carries the height of
  every emitted instruction through the lowering as a map \<open>H\<close> and shows that it stays consistent:
  every instruction can execute at its height, what falls through has the height of its successor,
  and a branch either has its final target, with the right height, or is still waiting to be
  patched. \<open>Inv\<close> is that invariant on the code, the constants and the control frames; a height
  is \<open>None\<close> where the translator knows the code to be unreachable.
\<close>

section \<open>The invariant\<close>

text \<open>What the verifier will know about calls and types, from the arguments of the lowering.\<close>

definition lower_ctx :: "lower_env \<Rightarrow> nat \<Rightarrow> verify_ctx" where
  "lower_ctx env nc =
     \<lparr>vx_n_params = le_n_params env, vx_n_results = le_n_results env,
      vx_n_locals = le_n_locals env, vx_n_consts = nc,
      vx_call = (\<lambda>i. case func_arity i (le_func_types env) (le_func_typeidx env) of
                       Inl _ \<Rightarrow> None | Inr (np, nr) \<Rightarrow> Some (int (unat np), int (unat nr))),
      vx_type = (\<lambda>i. if unat i < length (le_func_types env)
                     then Some (int (length (fst (le_func_types env ! unat i))),
                                int (length (snd (le_func_types env ! unat i))))
                     else None)\<rparr>"

lemma lower_ctx_simps [simp]:
  "vx_n_params (lower_ctx env nc) = le_n_params env"
  "vx_n_results (lower_ctx env nc) = le_n_results env"
  "vx_n_locals (lower_ctx env nc) = le_n_locals env"
  "vx_n_consts (lower_ctx env nc) = nc"
  "vx_call (lower_ctx env nc) i =
     (case func_arity i (le_func_types env) (le_func_typeidx env) of
        Inl _ \<Rightarrow> None | Inr (np, nr) \<Rightarrow> Some (int (unat np), int (unat nr)))"
  "vx_type (lower_ctx env nc) i =
     (if unat i < length (le_func_types env)
      then Some (int (length (fst (le_func_types env ! unat i))),
                 int (length (snd (le_func_types env ! unat i))))
      else None)"
  by (simp_all add: lower_ctx_def)

text \<open>The branches of a frame whose target is not known yet.\<close>

definition pend :: "ctrl \<Rightarrow> nat set" where
  "pend c = unat ` set (c_patches c) \<union> unat ` set_option (c_else_br c) \<union>
            (if c_has_else c then {} else unat ` set_option (c_br_if_not c))"

definition pending :: "ctrl list \<Rightarrow> nat set" where
  "pending cs = (\<Union>c \<in> set cs. pend c)"

definition target_ok :: "nat \<Rightarrow> (nat \<Rightarrow> int option) \<Rightarrow> nat \<Rightarrow> bool \<Rightarrow> nat \<Rightarrow> int \<Rightarrow> bool" where
  "target_ok off H len fin t th \<longleftrightarrow> off \<le> t \<and> t \<le> len \<and> (fin \<longrightarrow> t < len) \<and> H t = Some th"

definition ins_ok :: "verify_ctx \<Rightarrow> nat \<Rightarrow> (nat \<Rightarrow> int option) \<Rightarrow> nat \<Rightarrow> bool \<Rightarrow> nat set \<Rightarrow> cuop \<Rightarrow> nat \<Rightarrow> int \<Rightarrow> bool" where
  "ins_ok vx off H len fin P ins p x \<longleftrightarrow>
     (\<exists>fall nh tgt. cuop_effect vx ins x = Inr (fall, nh, tgt) \<and>
        (fall \<longrightarrow> H (Suc p) = Some nh) \<and>
        (\<forall>t th. tgt = Some (t, th) \<longrightarrow> p \<in> P \<or> target_ok off H len fin (unat t) th))"

text \<open>A recorded program counter holds a branch of the expected kind, at the expected height.\<close>

definition slot_ok :: "nat \<Rightarrow> (nat \<Rightarrow> int option) \<Rightarrow> cuop list \<Rightarrow> bool \<Rightarrow> u16 \<Rightarrow> int \<Rightarrow> nat \<Rightarrow> bool" where
  "slot_ok off H code lv opc hgt p \<longleftrightarrow>
     off \<le> p \<and> p < length code \<and> cu_op (code ! p) = opc \<and> (\<forall>x. H p = Some x \<longrightarrow> lv \<and> x = hgt)"

abbreviation params_h :: "ctrl \<Rightarrow> int" where "params_h c \<equiv> c_base c + int (unat (c_n_params c))"
abbreviation results_h :: "ctrl \<Rightarrow> int" where "results_h c \<equiv> c_base c + int (unat (c_n_results c))"

definition frame_ok :: "nat \<Rightarrow> (nat \<Rightarrow> int option) \<Rightarrow> cuop list \<Rightarrow> int \<Rightarrow> bool \<Rightarrow> ctrl \<Rightarrow> bool" where
  "frame_ok off H code B lv c \<longleftrightarrow>
     0 \<le> c_base c \<and> c_base c \<le> B \<and> int (unat (c_n_params c)) \<le> 8 \<and> int (unat (c_n_results c)) \<le> 8 \<and>
     (\<forall>p \<in> set (c_patches c). slot_ok off H code lv OP_BR (results_h c) (unat p)) \<and>
     (\<forall>p. c_else_br c = Some p \<longrightarrow> slot_ok off H code lv OP_BR (results_h c) (unat p)) \<and>
     (\<forall>p. c_br_if_not c = Some p \<longrightarrow> slot_ok off H code lv OP_BR_IF_NOT (params_h c + 1) (unat p)) \<and>
     (c_has_else c \<longleftrightarrow> c_else_br c \<noteq> None) \<and>
     (c_kind c \<noteq> CK_If \<longrightarrow> c_else_br c = None \<and> c_br_if_not c = None) \<and>
     (c_kind c = CK_Loop \<longrightarrow> c_patches c = [] \<and>
        (lv \<longrightarrow> off \<le> unat (c_start c) \<and> unat (c_start c) \<le> length code \<and>
                H (unat (c_start c)) = Some (params_h c)))"

definition live_upto :: "ctrl list \<Rightarrow> nat \<Rightarrow> bool" where
  "live_upto cs i \<longleftrightarrow> (\<forall>j \<le> i. \<not> c_dead_on_entry (cs ! j))"

definition heights_ok ::
  "lower_env \<Rightarrow> nat \<Rightarrow> nat set \<Rightarrow> (nat \<Rightarrow> int option) \<Rightarrow> cuop list \<Rightarrow> nat \<Rightarrow> ctrl list \<Rightarrow> bool" where
  "heights_ok env off X H code nc cs \<longleftrightarrow>
     (\<forall>p x. off \<le> p \<longrightarrow> p < length code \<longrightarrow> H p = Some x \<longrightarrow>
        ins_ok (lower_ctx env nc) off H (length code) (cs = []) (X \<union> pending cs) (code ! p) p x)"

definition frames_ok :: "nat \<Rightarrow> (nat \<Rightarrow> int option) \<Rightarrow> cuop list \<Rightarrow> int \<Rightarrow> ctrl list \<Rightarrow> bool" where
  "frames_ok off H code B cs \<longleftrightarrow> (\<forall>i < length cs. frame_ok off H code B (live_upto cs i) (cs ! i))"

definition func_frame :: "lower_env \<Rightarrow> ctrl list \<Rightarrow> bool" where
  "func_frame env cs \<longleftrightarrow>
     (\<forall>i < length cs. (c_kind (cs ! i) = CK_Func) = (i = 0)) \<and>
     (cs \<noteq> [] \<longrightarrow> c_base (cs ! 0) = 0 \<and> c_n_results (cs ! 0) = le_n_results env \<and>
        \<not> c_dead_on_entry (cs ! 0))"

definition cur_ok :: "int \<Rightarrow> ctrl list \<Rightarrow> int option \<Rightarrow> bool" where
  "cur_ok B cs cur \<longleftrightarrow> (\<forall>x. cur = Some x \<longrightarrow> 0 \<le> x \<and> x \<le> B \<and> (\<forall>c \<in> set cs. \<not> c_dead_on_entry c))"

definition ended :: "nat \<Rightarrow> cuop list \<Rightarrow> ctrl list \<Rightarrow> bool" where
  "ended off code cs \<longleftrightarrow>
     (cs = [] \<longrightarrow> off < length code \<and> cu_op (code ! (length code - 1)) = OP_END_FUNC)"

text \<open>
  \<open>X\<close> holds branches that no frame waits for and whose target is still open; \<open>cur\<close> is the height
  at the position being written.
\<close>

definition Inv ::
  "lower_env \<Rightarrow> nat \<Rightarrow> int \<Rightarrow> nat set \<Rightarrow> (nat \<Rightarrow> int option) \<Rightarrow> cuop list \<Rightarrow> nat \<Rightarrow> ctrl list \<Rightarrow> int option \<Rightarrow> bool" where
  "Inv env off B X H code nc cs cur \<longleftrightarrow>
     off \<le> length code \<and> length code < 2 ^ 32 \<and> H (length code) = cur \<and> H off = Some 0 \<and>
     cur_ok B cs cur \<and> heights_ok env off X H code nc cs \<and> frames_ok off H code B cs \<and>
     func_frame env cs \<and> ended off code cs"

lemma InvI:
  "off \<le> length code \<Longrightarrow> length code < 2 ^ 32 \<Longrightarrow> H (length code) = cur \<Longrightarrow> H off = Some 0 \<Longrightarrow>
   cur_ok B cs cur \<Longrightarrow> heights_ok env off X H code nc cs \<Longrightarrow> frames_ok off H code B cs \<Longrightarrow>
   func_frame env cs \<Longrightarrow> ended off code cs \<Longrightarrow> Inv env off B X H code nc cs cur"
  by (simp add: Inv_def)

lemma InvD:
  assumes "Inv env off B X H code nc cs cur"
  shows "off \<le> length code" and "length code < 2 ^ 32" and "H (length code) = cur" and "H off = Some 0"
    and "cur_ok B cs cur" and "heights_ok env off X H code nc cs" and "frames_ok off H code B cs"
    and "func_frame env cs" and "ended off code cs"
  using assms unfolding Inv_def by simp_all

lemma heights_okD:
  "heights_ok env off X H code nc cs \<Longrightarrow> off \<le> p \<Longrightarrow> p < length code \<Longrightarrow> H p = Some x \<Longrightarrow>
   ins_ok (lower_ctx env nc) off H (length code) (cs = []) (X \<union> pending cs) (code ! p) p x"
  by (simp add: heights_ok_def)

lemma frames_okD:
  "frames_ok off H code B cs \<Longrightarrow> i < length cs \<Longrightarrow> frame_ok off H code B (live_upto cs i) (cs ! i)"
  by (simp add: frames_ok_def)

lemma cur_okD: "cur_ok B cs (Some x) \<Longrightarrow> 0 \<le> x \<and> x \<le> B" and
  cur_ok_live: "cur_ok B cs (Some x) \<Longrightarrow> c \<in> set cs \<Longrightarrow> \<not> c_dead_on_entry c"
  by (simp_all add: cur_ok_def)

lemma cur_ok_None [simp]: "cur_ok B cs None"
  by (simp add: cur_ok_def)

lemma cur_ok_mono: "cur_ok B cs cur \<Longrightarrow> B \<le> B' \<Longrightarrow> cur_ok B' cs cur"
  by (auto simp: cur_ok_def)

lemma live_if_cur: "cur_ok B cs (Some x) \<Longrightarrow> i < length cs \<Longrightarrow> live_upto cs i"
  by (simp add: live_upto_def cur_ok_def)

section \<open>Monotonicity\<close>

lemma target_ok_mono:
  "target_ok off H len fin t th \<Longrightarrow> len \<le> len' \<Longrightarrow> (\<And>p. p \<le> len \<Longrightarrow> H p \<noteq> None \<Longrightarrow> H' p = H p) \<Longrightarrow>
   (fin' \<Longrightarrow> fin \<or> t < len') \<Longrightarrow> target_ok off H' len' fin' t th"
  by (auto simp: target_ok_def)

lemma slot_ok_append:
  "slot_ok off H code lv opc hgt p \<Longrightarrow> (\<And>q. q < length code \<Longrightarrow> H' q = H q) \<Longrightarrow>
   slot_ok off H' (code @ xs) lv opc hgt p"
  by (simp add: slot_ok_def nth_append)

lemma frame_ok_append:
  assumes "frame_ok off H code B lv c" and "B \<le> B'"
    and "\<And>q. q < length code \<Longrightarrow> H' q = H q"
    and "\<And>q x. q \<le> length code \<Longrightarrow> H q = Some x \<Longrightarrow> H' q = Some x"
  shows "frame_ok off H' (code @ xs) B' lv c"
  using assms slot_ok_append [OF _ assms(3)] unfolding frame_ok_def by auto

lemma cuop_effect_consts:
  assumes "cuop_effect (lower_ctx env nc) ins x = Inr r" and "nc \<le> nc'"
  shows "cuop_effect (lower_ctx env nc') ins x = Inr r"
proof -
  have "switch_effect (lower_ctx env nc') ins x = switch_effect (lower_ctx env nc) ins x"
    unfolding switch_effect_def lower_ctx_simps ..
  moreover have "index_checks (lower_ctx env nc) ins = Inr () \<Longrightarrow> index_checks (lower_ctx env nc') ins = Inr ()"
    using assms(2) by (auto simp: index_checks_def split: if_splits)
  ultimately show ?thesis using assms(1) by (auto simp: cuop_effect_def)
qed

lemma ins_ok_mono:
  assumes "ins_ok (lower_ctx env nc) off H len fin P ins p x" and "p < len"
    and "nc \<le> nc'" and "len \<le> len'" and "P \<subseteq> P'"
    and "\<And>q. q \<le> len \<Longrightarrow> H q \<noteq> None \<Longrightarrow> H' q = H q"
    and "fin' \<Longrightarrow> fin \<or> len < len'"
  shows "ins_ok (lower_ctx env nc') off H' len' fin' P' ins p x"
proof -
  from assms(1) obtain fall nh tgt where e: "cuop_effect (lower_ctx env nc) ins x = Inr (fall, nh, tgt)"
    and f: "fall \<Longrightarrow> H (Suc p) = Some nh"
    and t: "\<And>t th. tgt = Some (t, th) \<Longrightarrow> p \<in> P \<or> target_ok off H len fin (unat t) th"
    unfolding ins_ok_def by blast
  have "H' (Suc p) = Some nh" if fall
    using f [OF that] assms(2,6) by simp
  moreover have "p \<in> P' \<or> target_ok off H' len' fin' (unat t) th" if "tgt = Some (t, th)" for t th
    using t [OF that] assms(4-7) by (auto elim!: target_ok_mono simp: target_ok_def)
  ultimately show ?thesis using cuop_effect_consts [OF e assms(3)] unfolding ins_ok_def by blast
qed

lemma ins_ok_keep:
  assumes "ins_ok vx off H len fin P ins p x" and "\<And>q y. H q = Some y \<Longrightarrow> H' q = Some y"
    and "P \<subseteq> P'" and "fin' \<Longrightarrow> fin \<or> H len = None"
  shows "ins_ok vx off H' len fin' P' ins p x"
proof -
  have tgt: "target_ok off H len fin t th \<Longrightarrow> target_ok off H' len fin' t th" for t th
    using assms(2,4) by (cases "t = len") (auto simp: target_ok_def)
  from assms(1) obtain fall nh tg where "cuop_effect vx ins x = Inr (fall, nh, tg)"
    and "fall \<longrightarrow> H (Suc p) = Some nh"
    and "\<forall>t th. tg = Some (t, th) \<longrightarrow> p \<in> P \<or> target_ok off H len fin (unat t) th"
    unfolding ins_ok_def by blast
  moreover from this have "fall \<longrightarrow> H' (Suc p) = Some nh"
    and "\<forall>t th. tg = Some (t, th) \<longrightarrow> p \<in> P' \<or> target_ok off H' len fin' (unat t) th"
    using assms(2,3) tgt by blast+
  ultimately show ?thesis unfolding ins_ok_def by blast
qed

section \<open>Emitting, joining, patching\<close>

text \<open>
  An emitted instruction. If it branches, its target is either open, and then recorded in \<open>X'\<close>, or
  known.
\<close>

lemma heights_ok_emit:
  assumes hok: "heights_ok env off X H code nc cs" and "cs \<noteq> []" and "nc \<le> nc'" and "X \<subseteq> X'"
    and new: "\<And>x. H (length code) = Some x \<Longrightarrow>
          \<exists>fall nh tgt. cuop_effect (lower_ctx env nc') ins x = Inr (fall, nh, tgt) \<and>
            (fall \<longrightarrow> cur' = Some nh) \<and>
            (\<forall>t th. tgt = Some (t, th) \<longrightarrow> length code \<in> X' \<or>
               off \<le> unat t \<and> unat t \<le> length code \<and> H (unat t) = Some th)"
  shows "heights_ok env off X' (H(Suc (length code) := cur')) (code @ [ins]) nc' cs"
  unfolding heights_ok_def
proof (intro allI impI)
  fix p x
  let ?H = "H(Suc (length code) := cur')"
  assume p: "off \<le> p" "p < length (code @ [ins])" "?H p = Some x"
  show "ins_ok (lower_ctx env nc') off ?H (length (code @ [ins])) (cs = []) (X' \<union> pending cs) ((code @ [ins]) ! p) p x"
  proof (cases "p = length code")
    case True
    with p(3) new [of x] obtain fall nh tgt where
      e: "cuop_effect (lower_ctx env nc') ins x = Inr (fall, nh, tgt)" and f: "fall \<longrightarrow> cur' = Some nh"
      and t: "\<And>t th. tgt = Some (t, th) \<Longrightarrow> length code \<in> X' \<or>
               off \<le> unat t \<and> unat t \<le> length code \<and> H (unat t) = Some th"
      by auto
    have "p \<in> X' \<union> pending cs \<or> target_ok off ?H (length (code @ [ins])) (cs = []) (unat t) th"
      if "tgt = Some (t, th)" for t th
      using t [OF that] True assms(2) by (auto simp: target_ok_def)
    with e f show ?thesis unfolding ins_ok_def by (simp add: True)
  next
    case False
    then have "p < length code" "H p = Some x" using p by auto
    with heights_okD [OF hok p(1)]
    have "ins_ok (lower_ctx env nc) off H (length code) (cs = []) (X \<union> pending cs) (code ! p) p x" by simp
    then have "ins_ok (lower_ctx env nc') off ?H (length (code @ [ins])) (cs = []) (X' \<union> pending cs) (code ! p) p x"
      using \<open>p < length code\<close> assms(2-4) by (elim ins_ok_mono) auto
    with \<open>p < length code\<close> show ?thesis by (simp add: nth_append)
  qed
qed

lemma Inv_emit:
  assumes I: "Inv env off B X H code nc cs cur" and "cs \<noteq> []" and "Suc (length code) < 2 ^ 32"
    and "B \<le> B'" and "nc \<le> nc'" and "X \<subseteq> X'"
    and eff: "\<And>x. cur = Some x \<Longrightarrow>
          \<exists>tgt. cuop_effect (lower_ctx env nc') ins x = Inr (fall, nh, tgt) \<and> 0 \<le> nh \<and> nh \<le> B' \<and>
            (\<forall>t th. tgt = Some (t, th) \<longrightarrow> length code \<in> X' \<or>
               off \<le> unat t \<and> unat t \<le> length code \<and> H (unat t) = Some th)"
    and cur': "cur' = (if cur = None \<or> \<not> fall then None else Some nh)"
  shows "Inv env off B' X' (H(Suc (length code) := cur')) (code @ [ins]) nc' cs cur'"
proof (rule InvI)
  let ?H = "H(Suc (length code) := cur')"
  show "heights_ok env off X' ?H (code @ [ins]) nc' cs"
    using InvD(6) [OF I] assms(2,5,6)
  proof (rule heights_ok_emit)
    fix x assume "H (length code) = Some x"
    with InvD(3) [OF I] have "cur = Some x" by simp
    with eff [OF this] cur' show "\<exists>fall nh tgt. cuop_effect (lower_ctx env nc') ins x = Inr (fall, nh, tgt) \<and>
            (fall \<longrightarrow> cur' = Some nh) \<and>
            (\<forall>t th. tgt = Some (t, th) \<longrightarrow> length code \<in> X' \<or>
               off \<le> unat t \<and> unat t \<le> length code \<and> H (unat t) = Some th)" by auto
  qed
  show "frames_ok off ?H (code @ [ins]) B' cs"
    unfolding frames_ok_def
  proof (intro allI impI)
    fix i assume "i < length cs"
    then show "frame_ok off ?H (code @ [ins]) B' (live_upto cs i) (cs ! i)"
      using frame_ok_append [OF frames_okD [OF InvD(7) [OF I]] assms(4)] by simp
  qed
  show "?H off = Some 0" using InvD(1,4) [OF I] by auto
  show "cur_ok B' cs cur'" using InvD(5) [OF I] eff cur' by (auto simp: cur_ok_def)
  show "ended off (code @ [ins]) cs" using assms(2) by (simp add: ended_def)
qed (use InvD [OF I] assms(3) in simp_all)

text \<open>Code that was unreachable gets a height, because something branches to it or may.\<close>

lemma Inv_join:
  assumes I: "Inv env off B X H code nc cs cur" and "cur = None \<or> cur = Some x"
    and "0 \<le> x" and "x \<le> B" and live: "\<forall>c \<in> set cs. \<not> c_dead_on_entry c" and "cs \<noteq> []"
  shows "\<exists>H'. Inv env off B X H' code nc cs (Some x) \<and> (\<forall>p < length code. H' p = H p)"
proof (cases cur)
  case None
  let ?H = "H(length code := Some x)"
  have grow: "H q = Some y \<Longrightarrow> ?H q = Some y" for q y using InvD(3) [OF I] None by auto
  have "Inv env off B X ?H code nc cs (Some x)"
  proof (rule InvI)
    show "heights_ok env off X ?H code nc cs"
      unfolding heights_ok_def
    proof (intro allI impI)
      fix p y
      assume "off \<le> p" "p < length code" "?H p = Some y"
      with heights_okD [OF InvD(6) [OF I]]
      have "ins_ok (lower_ctx env nc) off H (length code) (cs = []) (X \<union> pending cs) (code ! p) p y" by simp
      then show "ins_ok (lower_ctx env nc) off ?H (length code) (cs = []) (X \<union> pending cs) (code ! p) p y"
        by (rule ins_ok_keep) (use grow in auto)
    qed
    show "frames_ok off ?H code B cs"
      unfolding frames_ok_def
    proof (intro allI impI)
      fix i assume "i < length cs"
      with frame_ok_append [OF frames_okD [OF InvD(7) [OF I]] order_refl, of i ?H "[]"] grow
      show "frame_ok off ?H code B (live_upto cs i) (cs ! i)" by simp
    qed
    show "?H off = Some 0" using InvD(4) [OF I] grow by simp
    show "cur_ok B cs (Some x)" using assms(3,4) live by (simp add: cur_ok_def)
  qed (use InvD [OF I] in simp_all)
  then show ?thesis by (intro exI [of _ ?H]) auto
next
  case (Some y)
  with assms show ?thesis by auto
qed

text \<open>Another list of frames for the same code.\<close>

lemma Inv_ctrl:
  assumes I: "Inv env off B X H code nc cs cur"
    and "X \<union> pending cs \<subseteq> X' \<union> pending cs'" and "cur_ok B' cs' cur"
    and "frames_ok off H code B' cs'" and "func_frame env cs'" and "ended off code cs'"
    and "cs' = [] \<Longrightarrow> cur = None"
  shows "Inv env off B' X' H code nc cs' cur"
proof (rule InvI)
  show "heights_ok env off X' H code nc cs'"
    unfolding heights_ok_def
  proof (intro allI impI)
    fix p y
    assume "off \<le> p" "p < length code" "H p = Some y"
    with heights_okD [OF InvD(6) [OF I]]
    have "ins_ok (lower_ctx env nc) off H (length code) (cs = []) (X \<union> pending cs) (code ! p) p y" by simp
    then show "ins_ok (lower_ctx env nc) off H (length code) (cs' = []) (X' \<union> pending cs') (code ! p) p y"
      by (rule ins_ok_keep) (use assms(2,7) InvD(3) [OF I] in auto)
  qed
qed (use InvD [OF I] assms in simp_all)

text \<open>A branch gets its target.\<close>

definition branch_height :: "u16 \<Rightarrow> int \<Rightarrow> int" where
  "branch_height opc x = (if opc = OP_BR then x else x - 1)"

lemma fixed_effect_branch:
  "fixed_effect OP_BR = None" "fixed_effect OP_BR_IF_NOT = None"
  by (simp_all add: fixed_effect_def binops_def)

lemma branch_effect:
  "cu_op ins = OP_BR \<Longrightarrow> cuop_effect vx ins x = Inr (False, x, Some (cu_b ins, x))"
  "cu_op ins = OP_BR_IF_NOT \<Longrightarrow> cuop_effect vx ins x =
     (if x < 1 then Inl ''br_if_not underflow'' else Inr (True, x - 1, Some (cu_b ins, x - 1)))"
  by (simp_all add: cuop_effect_def switch_effect_def index_checks_def fixed_effect_branch)

lemma patched_effect:
  assumes "cuop_effect vx ins x = Inr (fall, nh, tgt)" and "cu_op ins \<in> {OP_BR, OP_BR_IF_NOT}"
  shows "cuop_effect vx (ins\<lparr>cu_b := z\<rparr>) x = Inr (fall, nh, Some (z, branch_height (cu_op ins) x))"
  using assms by (auto simp: branch_effect branch_height_def split: if_splits)

lemma Inv_patch:
  assumes I: "Inv env off B X H code nc cs cur"
    and p: "off \<le> p" "p < length code" "cu_op (code ! p) \<in> {OP_BR, OP_BR_IF_NOT}"
    and t: "\<And>x. H p = Some x \<Longrightarrow>
        target_ok off H (length code) (cs = []) z (branch_height (cu_op (code ! p)) x)"
    and z: "z < 2 ^ 32"
  shows "Inv env off B (X - {p}) H (code[p := (code ! p)\<lparr>cu_b := of_nat z\<rparr>]) nc cs cur"
proof (rule InvI)
  let ?code = "code[p := (code ! p)\<lparr>cu_b := of_nat z\<rparr>]"
  have op: "cu_op (?code ! q) = cu_op (code ! q)" for q
    using p(2) by (cases "q = p") simp_all
  show "heights_ok env off (X - {p}) H ?code nc cs"
    unfolding heights_ok_def
  proof (intro allI impI)
    fix q y
    assume q: "off \<le> q" "q < length ?code" "H q = Some y"
    with heights_okD [OF InvD(6) [OF I]]
    have ok: "ins_ok (lower_ctx env nc) off H (length code) (cs = []) (X \<union> pending cs) (code ! q) q y" by simp
    show "ins_ok (lower_ctx env nc) off H (length ?code) (cs = []) (X - {p} \<union> pending cs) (?code ! q) q y"
    proof (cases "q = p")
      case True
      with ok obtain fall nh tgt where
        e: "cuop_effect (lower_ctx env nc) (code ! p) y = Inr (fall, nh, tgt)" and "fall \<longrightarrow> H (Suc p) = Some nh"
        unfolding ins_ok_def by blast
      with patched_effect [OF e p(3), of "of_nat z"] show ?thesis
        using t [of y] q True z p(2) unfolding ins_ok_def by (auto simp: unat_of_nat_u32)
    next
      case False
      with ok show ?thesis unfolding ins_ok_def by auto
    qed
  qed
  show "frames_ok off H ?code B cs"
    using InvD(7) [OF I] by (simp add: frames_ok_def frame_ok_def slot_ok_def op)
  show "ended off ?code cs" using InvD(9) [OF I] by (simp add: ended_def op)
qed (use InvD [OF I] in simp_all)

text \<open>Several branches get the same target.\<close>

abbreviation patched :: "cuop list \<Rightarrow> nat \<Rightarrow> nat \<Rightarrow> cuop list" where
  "patched code p z \<equiv> code[p := (code ! p)\<lparr>cu_b := of_nat z\<rparr>]"

definition open_branch :: "nat \<Rightarrow> (nat \<Rightarrow> int option) \<Rightarrow> cuop list \<Rightarrow> bool \<Rightarrow> nat \<Rightarrow> nat \<Rightarrow> bool" where
  "open_branch off H code fin z p \<longleftrightarrow>
     off \<le> p \<and> p < length code \<and> cu_op (code ! p) \<in> {OP_BR, OP_BR_IF_NOT} \<and>
     (\<forall>x. H p = Some x \<longrightarrow> target_ok off H (length code) fin z (branch_height (cu_op (code ! p)) x))"

lemma patched_op: "cu_op (patched code p z ! q) = cu_op (code ! q)"
  by (cases "q = p"; cases "p < length code") (simp_all add: list_update_beyond)

lemma open_branch_patched: "open_branch off H (patched code p y) fin z q = open_branch off H code fin z q"
  unfolding open_branch_def patched_op by simp

lemma Inv_patches:
  assumes "Inv env off B X H code nc cs cur" and "\<And>p. p \<in> set ps \<Longrightarrow> open_branch off H code (cs = []) z p"
    and "z < 2 ^ 32"
  shows "Inv env off B (X - set ps) H (foldl (\<lambda>code p. patched code p z) code ps) nc cs cur"
  using assms(1,2)
proof (induction ps arbitrary: code X)
  case Nil
  then show ?case by simp
next
  case (Cons p ps)
  have "open_branch off H code (cs = []) z p" using Cons.prems(2) by simp
  with Inv_patch [OF Cons.prems(1)] assms(3) have "Inv env off B (X - {p}) H (patched code p z) nc cs cur"
    unfolding open_branch_def by blast
  from Cons.IH [OF this] Cons.prems(2) show ?case
    by (simp add: open_branch_patched Diff_insert2 [of X p "set ps"])
qed

section \<open>Frames\<close>

lemma live_upto_cong:
  assumes "map c_dead_on_entry cs' = map c_dead_on_entry cs" and "i < length cs"
  shows "live_upto cs' i = live_upto cs i"
proof -
  have "c_dead_on_entry (cs' ! j) = c_dead_on_entry (cs ! j)" if "j \<le> i" for j
    using assms that by (metis length_map nth_map order.strict_trans1)
  then show ?thesis by (simp add: live_upto_def)
qed

lemma dead_set_cong:
  assumes "map c_dead_on_entry cs' = map c_dead_on_entry cs"
  shows "(\<exists>c \<in> set cs'. c_dead_on_entry c) = (\<exists>c \<in> set cs. c_dead_on_entry c)"
  using arg_cong [OF assms, of "\<lambda>xs. True \<in> set xs"] by auto

lemma nth_update_same: "f c' = f (cs ! i) \<Longrightarrow> f (cs[i := c'] ! j) = f (cs ! j)"
  by (cases "j = i"; cases "i < length cs") (simp_all add: list_update_beyond)

lemma map_update_same: "f c' = f (cs ! i) \<Longrightarrow> map f (cs[i := c']) = map f cs"
  by (rule nth_equalityI) (simp_all add: nth_update_same)

lemma frames_ok_update:
  assumes "frames_ok off H code B cs" and "B \<le> B'"
    and "frame_ok off H code B' (live_upto cs i) c'" and "c_dead_on_entry c' = c_dead_on_entry (cs ! i)"
  shows "frames_ok off H code B' (cs[i := c'])"
  unfolding frames_ok_def
proof (intro allI impI)
  fix j assume j: "j < length (cs[i := c'])"
  then have "frame_ok off H code B' (live_upto cs j) (cs ! j)"
    using frames_okD [OF assms(1), of j] frame_ok_append [of off H code B _ _ B' H "[]"] assms(2) by simp
  with j assms(3) show "frame_ok off H code B' (live_upto (cs[i := c']) j) (cs[i := c'] ! j)"
    using live_upto_cong [OF map_update_same [of c_dead_on_entry, OF assms(4)], of j] by (cases "j = i") simp_all
qed

lemma func_frame_update:
  assumes "func_frame env cs" and "c_kind c' = c_kind (cs ! i)" and "c_base c' = c_base (cs ! i)"
    and "c_n_results c' = c_n_results (cs ! i)" and "c_dead_on_entry c' = c_dead_on_entry (cs ! i)"
  shows "func_frame env (cs[i := c'])"
  using assms(1) unfolding func_frame_def
  by (simp add: nth_update_same [where f = c_kind, OF assms(2)] nth_update_same [where f = c_base, OF assms(3)]
      nth_update_same [where f = c_n_results, OF assms(4)] nth_update_same [where f = c_dead_on_entry, OF assms(5)])

lemma pending_update:
  assumes "i < length cs" and "pend (cs ! i) \<subseteq> P \<union> pend c'"
  shows "pending cs \<subseteq> P \<union> pending (cs[i := c'])" and "pend c' \<subseteq> pending (cs[i := c'])"
proof -
  show "pend c' \<subseteq> pending (cs[i := c'])" using set_update_memI [OF assms(1), of c'] by (auto simp: pending_def)
  have "pend (cs ! j) \<subseteq> P \<union> pending (cs[i := c'])" if "j < length cs" for j
  proof (cases "j = i")
    case True
    with assms(2) set_update_memI [OF assms(1), of c'] show ?thesis by (auto simp: pending_def)
  next
    case False
    with that have "cs ! j \<in> set (cs[i := c'])" by (metis length_list_update nth_list_update_neq nth_mem)
    then show ?thesis by (auto simp: pending_def)
  qed
  then show "pending cs \<subseteq> P \<union> pending (cs[i := c'])"
    by (fastforce simp: pending_def in_set_conv_nth)
qed

section \<open>Branches to a label\<close>

lemma label_arity_le: "frame_ok off H code B lv c \<Longrightarrow> 0 \<le> label_arity c \<and> label_arity c \<le> 8"
  by (auto simp: frame_ok_def label_arity_def)

lemma uint_u16_less: "uint (x :: u16) < 65536"
  using unsigned_less [of x, where ?'a = int] by simp

lemma sint_of_int_u32: "0 \<le> k \<Longrightarrow> k < 2 ^ 31 \<Longrightarrow> sint (of_int k :: u32) = k"
  by (simp add: signed_of_int signed_take_bit_int_eq_self)

lemma unwind_dest:
  assumes "0 \<le> d" and "d < 2 ^ 30"
  shows "sint (ucast (np :: u16) + ucast (nl :: u16) + of_int d :: u32) = int (unat np) + int (unat nl) + d"
proof -
  have r: "0 \<le> int (unat np) + int (unat nl) + d" "int (unat np) + int (unat nl) + d < 2 ^ 31"
    using uint_u16_less [of np] uint_u16_less [of nl] assms by simp_all
  have "ucast np + ucast nl + of_int d = (of_int (int (unat np) + int (unat nl) + d) :: u32)"
    by simp
  then show ?thesis using sint_of_int_u32 [OF r] by simp
qed

lemma Inv_unwind:
  assumes I: "Inv env off B X H code nc cs cur" and idx: "idx < length cs"
    and e: "emit_unwind code h (cs ! idx) (le_n_params env) (le_n_locals env) = Inr (d, code')"
    and cur: "cur = None \<or> cur = Some h" and len: "length code' < 2 ^ 32" and B: "B < 2 ^ 30"
  shows "\<exists>H'. Inv env off B X H' code' nc cs
                (map_option (\<lambda>_. c_base (cs ! idx) + label_arity (cs ! idx)) cur) \<and>
              (\<forall>p \<le> length code. H' p = H p)"
proof -
  define d' where "d' = c_base (cs ! idx) + label_arity (cs ! idx)"
  define ins where "ins = mk_op OP_UNWIND (of_int (label_arity (cs ! idx)))
               (ucast (le_n_params env) + ucast (le_n_locals env) + of_int d')"
  have fr: "0 \<le> d'"
    using frames_okD [OF InvD(7) [OF I] idx] by (simp add: frame_ok_def label_arity_def d'_def)
  consider "h = d'" "code' = code" | "h > d'" "code' = code @ [ins]"
    using e by (auto simp: emit_unwind_def emit_def Let_def d'_def ins_def split: if_splits)
  then have "\<exists>H'. Inv env off B X H' code' nc cs (map_option (\<lambda>_. d') cur) \<and> (\<forall>p \<le> length code. H' p = H p)"
  proof cases
    case 1
    with I cur show ?thesis by (intro exI [of _ H]) auto
  next
    case 2
    have eff: "cuop_effect (lower_ctx env nc) ins x = Inr (True, d', None) \<and> 0 \<le> d' \<and> d' \<le> B"
      if "cur = Some x" for x
    proof -
      have "x = h" "h \<le> B" using that cur cur_okD InvD(5) [OF I] by auto
      then show ?thesis using 2 fr B unwind_dest [of d' "le_n_params env" "le_n_locals env"]
        by (simp add: cuop_effect_def switch_effect_def index_checks_def fixed_effect_def binops_def ins_def)
    qed
    have "Inv env off B X (H(Suc (length code) := map_option (\<lambda>_. d') cur)) (code @ [ins]) nc cs (map_option (\<lambda>_. d') cur)"
      using I by (rule Inv_emit [where fall = True and nh = d']) (use eff idx len 2(2) in \<open>auto split: option.split\<close>)
    then show ?thesis unfolding 2(2)
      by (intro exI [of _ "H(Suc (length code) := map_option (\<lambda>_. d') cur)"]) simp
  qed
  then show ?thesis by (simp only: d'_def)
qed

text \<open>The jump itself: to the start of a loop, or to a place that is patched at the end of the block.\<close>

lemma Inv_jump:
  assumes I: "Inv env off B X H code nc cs cur" and idx: "idx < length cs"
    and e: "emit_jump code cs idx = (code', cs')"
    and cur: "\<And>x. cur = Some x \<Longrightarrow> x = c_base (cs ! idx) + label_arity (cs ! idx)"
    and len: "length code' < 2 ^ 32"
  shows "\<exists>H'. Inv env off B X H' code' nc cs' None \<and> (\<forall>p \<le> length code. H' p = H p) \<and>
              map c_dead_on_entry cs' = map c_dead_on_entry cs \<and> map c_base cs' = map c_base cs"
proof (cases "c_kind (cs ! idx) = CK_Loop")
  case True
  let ?ins = "mk_op OP_BR 0 (c_start (cs ! idx))"
  have c: "code' = code @ [?ins]" "cs' = cs" using e True by (auto simp: emit_jump_def emit_def)
  have tgt: "off \<le> unat (c_start (cs ! idx)) \<and> unat (c_start (cs ! idx)) \<le> length code \<and>
      H (unat (c_start (cs ! idx))) = Some x" if "cur = Some x" for x
    using frames_okD [OF InvD(7) [OF I] idx] live_if_cur [OF InvD(5) [OF I, unfolded that] idx] True cur [OF that]
    by (simp add: frame_ok_def label_arity_def)
  have "Inv env off B X (H(Suc (length code) := None)) (code @ [?ins]) nc cs None"
    using I by (rule Inv_emit [where fall = False and nh = "the cur"])
      (use tgt idx len c cur_okD InvD(5) [OF I] in \<open>auto simp: branch_effect\<close>)
  then show ?thesis unfolding c by (intro exI [of _ "H(Suc (length code) := None)"]) simp
next
  case False
  let ?ins = "mk_op OP_BR 0 0" and ?H = "H(Suc (length code) := None)"
    and ?c = "(cs ! idx)\<lparr>c_patches := c_patches (cs ! idx) @ [of_nat (length code)]\<rparr>"
  have c: "code' = code @ [?ins]" "cs' = cs[idx := ?c]" using e False by (auto simp: emit_jump_def emit_def)
  have l: "length code < 2 ^ 32" using len c by simp
  have J: "Inv env off B (insert (length code) X) ?H (code @ [?ins]) nc cs None"
    using I by (rule Inv_emit [where fall = False and nh = "the cur"])
      (use idx len c cur_okD InvD(5) [OF I] in \<open>auto simp: branch_effect\<close>)
  have slot: "slot_ok off ?H (code @ [?ins]) (live_upto cs idx) OP_BR (results_h (cs ! idx)) (length code)"
    using InvD(1,3) [OF I] live_if_cur [OF _ idx] InvD(5) [OF I] cur False
    by (auto simp: slot_ok_def label_arity_def)
  have fr: "frame_ok off ?H (code @ [?ins]) B (live_upto cs idx) (cs ! idx)"
    using frames_okD [OF InvD(7) [OF J] idx] by simp
  have "frame_ok off ?H (code @ [?ins]) B (live_upto cs idx) ?c"
    using fr slot False l by (simp add: frame_ok_def ball_Un)
  then have "frames_ok off ?H (code @ [?ins]) B (cs[idx := ?c])"
    using frames_ok_update [OF InvD(7) [OF J] order_refl] by simp
  moreover have "insert (length code) X \<union> pending cs \<subseteq> X \<union> pending (cs[idx := ?c])"
  proof -
    have "pend (cs ! idx) \<subseteq> pend ?c" "length code \<in> pend ?c" using l by (auto simp: pend_def)
    with pending_update [OF idx, of "{}" ?c] show ?thesis by auto
  qed
  moreover have "func_frame env (cs[idx := ?c])" using InvD(8) [OF J] by (rule func_frame_update) simp_all
  ultimately have "Inv env off B X ?H (code @ [?ins]) nc (cs[idx := ?c]) None"
    using idx by (intro Inv_ctrl [OF J]) (auto simp: ended_def)
  moreover have "map c_dead_on_entry (cs[idx := ?c]) = map c_dead_on_entry cs"
    and "map c_base (cs[idx := ?c]) = map c_base cs"
    by (simp_all add: map_update_same)
  ultimately show ?thesis unfolding c by (intro exI [of _ ?H]) simp
qed

end
