(* ===== verification/Lowered_Heights.thy ===== *)
theory Lowered_Heights
  imports Heights
begin

text \<open>
  The lowering keeps the height invariant. Each arm of \<open>lower_operators\<close> is shown to take a state
  with consistent heights to one with consistent heights, for an operator that meets \<open>op_typed\<close>:
  the part of WebAssembly validation that the translator takes for granted. The last section lifts
  this to a whole function: what the translator emits is accepted by the verifier.
\<close>

unbundle bit_operations_syntax

section \<open>The invariant on states\<close>

abbreviation max_height :: int where "max_height \<equiv> 2 ^ 29"

text \<open>
  The position being written is unreachable: the code marks it dead, or an enclosing block was
  entered in dead code (an \<open>else\<close> clears the mark in that case).
\<close>

definition rdead :: "lower_state \<Rightarrow> bool" where
  "rdead s \<longleftrightarrow> ls_dead s \<or> (\<exists>c \<in> set (ls_ctrl s). c_dead_on_entry c)"

definition cur_of :: "lower_state \<Rightarrow> int option" where
  "cur_of s = (if rdead s then None else Some (ls_h s))"

abbreviation inv_at :: "lower_env \<Rightarrow> nat \<Rightarrow> nat set \<Rightarrow> (nat \<Rightarrow> int option) \<Rightarrow> int option \<Rightarrow> lower_state \<Rightarrow> bool" where
  "inv_at env off X H cur s \<equiv> Inv env off max_height X H (ls_code s) (length (ls_consts s)) (ls_ctrl s) cur"

definition heights_below :: "int \<Rightarrow> lower_state \<Rightarrow> bool" where
  "heights_below b s \<longleftrightarrow> 0 \<le> ls_h s \<and> ls_h s \<le> b \<and> (\<forall>c \<in> set (ls_ctrl s). c_base c \<le> b)"

definition height_inv :: "lower_env \<Rightarrow> nat \<Rightarrow> int \<Rightarrow> lower_state \<Rightarrow> bool" where
  "height_inv env off b s \<longleftrightarrow>
     ls_ctrl s \<noteq> [] \<and> heights_below b s \<and> (\<exists>H. inv_at env off {} H (cur_of s) s)"

definition small :: "lower_state \<Rightarrow> bool" where
  "small s \<longleftrightarrow> length (ls_code s) < 2 ^ 32 \<and> length (ls_consts s) < 2 ^ 32"

lemma height_invI:
  "ls_ctrl s \<noteq> [] \<Longrightarrow> heights_below b s \<Longrightarrow> inv_at env off {} H (cur_of s) s \<Longrightarrow> height_inv env off b s"
  by (auto simp: height_inv_def)

lemma height_invE:
  assumes "height_inv env off b s"
  obtains H where "ls_ctrl s \<noteq> []" and "heights_below b s" and "inv_at env off {} H (cur_of s) s"
  using assms by (auto simp: height_inv_def)

lemma unchanged_simps [simp]:
  "cur_of (s\<lparr>ls_code := code\<rparr>) = cur_of s" "cur_of (s\<lparr>ls_consts := cts\<rparr>) = cur_of s"
  "heights_below b (s\<lparr>ls_code := code\<rparr>) = heights_below b s"
  "heights_below b (s\<lparr>ls_consts := cts\<rparr>) = heights_below b s"
  by (simp_all add: cur_of_def rdead_def heights_below_def)

lemma heights_below_mono: "heights_below b s \<Longrightarrow> b \<le> b' \<Longrightarrow> heights_below b' s"
  by (auto simp: heights_below_def)

lemma height_inv_mono: "height_inv env off b s \<Longrightarrow> b \<le> b' \<Longrightarrow> height_inv env off b' s"
  by (auto simp: height_inv_def heights_below_mono)

lemma Inv_consts:
  assumes I: "Inv env off B X H code nc cs cur" and "nc \<le> nc'"
  shows "Inv env off B X H code nc' cs cur"
proof (rule InvI)
  show "heights_ok env off X H code nc' cs"
    unfolding heights_ok_def
  proof (intro allI impI)
    fix p x assume "off \<le> p" "p < length code" "H p = Some x"
    with heights_okD [OF InvD(6) [OF I]]
    have "ins_ok (lower_ctx env nc) off H (length code) (cs = []) (X \<union> pending cs) (code ! p) p x" by simp
    then show "ins_ok (lower_ctx env nc') off H (length code) (cs = []) (X \<union> pending cs) (code ! p) p x"
      using \<open>p < length code\<close> assms(2) by (elim ins_ok_mono) auto
  qed
qed (use InvD [OF I] in simp_all)

section \<open>Running the primitives\<close>

lemma emitL_run [simp]:
  "emitL x y z s = (Inr (of_nat (length (ls_code s))), s\<lparr>ls_code := ls_code s @ [mk_op x y z]\<rparr>)"
  by (simp add: emitL_def emit_def)

lemma set_dead_run [simp]: "set_dead s = (Inr (), s\<lparr>ls_dead := True\<rparr>)"
  by (simp add: set_dead_def)

lemma code_lenL_run [simp]: "code_lenL s = (Inr (of_nat (length (ls_code s))), s)"
  by (simp add: code_lenL_def)

lemma consumeL_Inr:
  "consumeL pops pushes s = (Inr u, t) \<longleftrightarrow>
     (ls_dead s \<or> pops \<le> ls_h s) \<and>
     t = s\<lparr>ls_h := (if ls_dead s then ls_h s else ls_h s - pops + pushes)\<rparr>"
  by (auto simp: consumeL_def consume_def)

lemma internL_Inr:
  assumes "internL v s = (Inr i, t)"
  obtains ys where "t = s\<lparr>ls_consts := ls_consts s @ ys\<rparr>"
    and "length (ls_consts s @ ys) < 2 ^ 32 \<Longrightarrow> unat i < length (ls_consts s @ ys)"
proof -
  obtain j q where q: "intern (ls_consts s) v = (j, q)" by fastforce
  with assms have t: "t = s\<lparr>ls_consts := q\<rparr>" and "i = j" by (auto simp: internL_def)
  obtain ys where ys: "q = ls_consts s @ ys" using intern_prefix [OF q] by auto
  have "unat i < length q" if "length q < 2 ^ 32"
    using pool.get_intern [OF q] that \<open>i = j\<close> by (auto simp: pool_fits_def pool_get_def split: if_splits)
  with t ys show ?thesis by (intro that) auto
qed

section \<open>The vectors only grow\<close>

definition grows :: "lower_state \<Rightarrow> lower_state \<Rightarrow> bool" where
  "grows s t \<longleftrightarrow> length (ls_code s) \<le> length (ls_code t) \<and> length (ls_consts s) \<le> length (ls_consts t)"

lemma grows_refl: "reflp grows" and grows_trans: "transp grows"
  by (auto simp: grows_def reflp_def transp_def)

lemma small_before: "grows s t \<Longrightarrow> small t \<Longrightarrow> small s"
  by (auto simp: grows_def small_def)

lemma grows_primitives:
  "keeps grows (emitL x y z)" "keeps grows (patchL pc w)" "keeps grows (internL v)"
  "keeps grows (consumeL pops pushes)" "keeps grows code_lenL" "keeps grows set_dead"
  "keeps grows (resolveL d)" "keeps grows (unwindL env i)" "keeps grows (jumpL i)"
  "keeps grows (push_ctrlL k np nr)" "keeps grows (last_ctrlL e)" "keeps grows (pop_ctrlL e)"
  "keeps grows (update_last f)"
  "(\<And>s. grows s (g s)) \<Longrightarrow> keeps grows (modifyS g)"
  by (auto simp: keeps_def grows_def patchL_def patch_b_def internL_def intern_def consumeL_def
      resolveL_def unwindL_def emit_unwind_def emit_def jumpL_def emit_jump_def push_ctrlL_def
      last_ctrlL_def pop_ctrlL_def update_last_def Let_def
      split: sum.splits option.splits prod.splits)

lemmas grows_intros = keeps_bindS [OF grows_trans] keeps_thenS [OF grows_trans] keeps_refl [OF grows_refl]
  keeps_forS [OF grows_refl grows_trans] grows_primitives

lemma grows_if: "keeps grows m \<Longrightarrow> keeps grows k \<Longrightarrow> keeps grows (if b then m else k)"
  by simp

lemma grows_pair: "(\<And>x y. keeps grows (f x y)) \<Longrightarrow> keeps grows (case p of (x, y) \<Rightarrow> f x y)"
  by (cases p) simp

lemma grows_option:
  "keeps grows m \<Longrightarrow> (\<And>x. keeps grows (f x)) \<Longrightarrow> keeps grows (case p of None \<Rightarrow> m | Some x \<Rightarrow> f x)"
  by (cases p) simp_all

lemma grows_emit_consume: "keeps grows (emit_consume x y z pops pushes)"
  unfolding emit_consume_def by (intro grows_intros)

lemma grows_branch_to: "keeps grows (branch_to env d)"
  unfolding branch_to_def by (intro grows_intros)

lemma grows_branch_if: "keeps grows (branch_if env d)"
  unfolding branch_if_def by (intro grows_intros grows_branch_to)

lemma grows_br_table_case: "keeps grows (br_table_case env scratch r)"
  unfolding br_table_case_def by (intro grows_pair grows_intros grows_emit_consume grows_branch_if)

lemma grows_operator: "keeps grows (lower_operator env x)"
  by (cases x;
      (simp only: lower_operator.simps)?;
      (unfold lower_unreachable_def lower_const_def lower_numeric_def lower_local_tee_def lower_block_def
         lower_loop_def lower_if_def lower_else_def patch_if_def lower_end_def lower_br_def lower_br_if_def
         lower_br_table_def lower_return_def lower_call_def lower_return_call_def lower_call_indirect_def
         lower_load_def lower_store_def lower_memory_def Let_def)?;
      (intro grows_intros grows_emit_consume grows_branch_to grows_branch_if grows_br_table_case grows_if
         grows_pair grows_option)?;
      (simp add: grows_def)?)

section \<open>Straight-line code\<close>

definition effect_is :: "lower_env \<Rightarrow> lower_state \<Rightarrow> cuop \<Rightarrow> int \<Rightarrow> int \<Rightarrow> bool" where
  "effect_is env s ins pops pushes \<longleftrightarrow>
     (\<forall>k \<ge> pops. cuop_effect (lower_ctx env (length (ls_consts s))) ins k = Inr (True, k - pops + pushes, None))"

lemma emit_consume_inv:
  assumes I: "height_inv env off b s" and e: "emit_consume x y z pops pushes s = (Inr u, s')"
    and len: "small s'" and eff: "effect_is env s (mk_op x y z) pops pushes"
    and "0 \<le> pops" "0 \<le> pushes" "b \<le> b'" "b - pops + pushes \<le> b'" "b' \<le> max_height"
  shows "height_inv env off b' s'"
proof -
  from I obtain H where cs: "ls_ctrl s \<noteq> []" and hb: "heights_below b s"
    and J: "inv_at env off {} H (cur_of s) s" by (rule height_invE)
  from e have ok: "ls_dead s \<or> pops \<le> ls_h s"
    and s': "s' = s\<lparr>ls_code := ls_code s @ [mk_op x y z],
                  ls_h := (if ls_dead s then ls_h s else ls_h s - pops + pushes)\<rparr>"
    by (auto simp: emit_consume_def consumeL_Inr)
  have rd: "rdead s' = rdead s" by (simp add: rdead_def s')
  have "Inv env off max_height {} (H(Suc (length (ls_code s)) := cur_of s')) (ls_code s @ [mk_op x y z])
          (length (ls_consts s)) (ls_ctrl s) (cur_of s')"
    using J cs
  proof (rule Inv_emit [where fall = True and nh = "ls_h s - pops + pushes"])
    fix k assume "cur_of s = Some k"
    then have "k = ls_h s" "pops \<le> ls_h s" using ok by (auto simp: cur_of_def rdead_def split: if_splits)
    then show "\<exists>tgt. cuop_effect (lower_ctx env (length (ls_consts s))) (mk_op x y z) k =
          Inr (True, ls_h s - pops + pushes, tgt) \<and> 0 \<le> ls_h s - pops + pushes \<and>
          ls_h s - pops + pushes \<le> max_height \<and>
          (\<forall>t th. tgt = Some (t, th) \<longrightarrow> length (ls_code s) \<in> {} \<or>
             off \<le> unat t \<and> unat t \<le> length (ls_code s) \<and> H (unat t) = Some th)"
      using eff hb assms(5-) by (auto simp: effect_is_def heights_below_def)
  next
    show "cur_of s' = (if cur_of s = None \<or> \<not> True then None else Some (ls_h s - pops + pushes))"
      using rd by (auto simp: cur_of_def rdead_def s')
  qed (use len s' in \<open>auto simp: small_def\<close>)
  then show ?thesis
    using cs hb assms(5-) ok by (intro height_invI) (auto simp: s' heights_below_def)
qed

lemma fixed_effect_is:
  assumes "fixed_effect x = Some (pops, pushes - pops, e)" and "x \<notin> {OP_LOCAL_GET, OP_LOCAL_SET, OP_I64_CONST}"
  shows "effect_is env s (mk_op x y z) pops pushes"
  using assms by (auto simp: effect_is_def cuop_effect_def switch_effect_def index_checks_def)

lemma local_effect_is:
  assumes "y < le_n_params env + le_n_locals env"
  shows "effect_is env s (mk_op OP_LOCAL_GET y z) 0 1" and "effect_is env s (mk_op OP_LOCAL_SET y z) 1 0"
  using assms by (auto simp: effect_is_def cuop_effect_def switch_effect_def index_checks_def fixed_effect_def)

lemma const_effect_is:
  assumes "unat z < length (ls_consts s)"
  shows "effect_is env s (mk_op OP_I64_CONST y z) 0 1"
  using assms by (auto simp: effect_is_def cuop_effect_def switch_effect_def index_checks_def fixed_effect_def)

lemma i32_fixed:
  "i32_lowering p = (x, y, pops, pushes) \<Longrightarrow>
     (\<exists>e. fixed_effect x = Some (pops, pushes - pops, e)) \<and>
     x \<notin> {OP_LOCAL_GET, OP_LOCAL_SET, OP_I64_CONST} \<and> 0 \<le> pops \<and> 0 \<le> pushes \<and> pushes \<le> pops"
  by (cases p) (auto simp: fixed_effect_def binops_def)

lemma i64_fixed:
  "i64_lowering p = (x, y, pops, pushes) \<Longrightarrow>
     (\<exists>e. fixed_effect x = Some (pops, pushes - pops, e)) \<and>
     x \<notin> {OP_LOCAL_GET, OP_LOCAL_SET, OP_I64_CONST} \<and> 0 \<le> pops \<and> 0 \<le> pushes \<and> pushes \<le> pops"
  by (cases p) (auto simp: fixed_effect_def binops_def)

section \<open>Branches\<close>

definition same_shape :: "lower_state \<Rightarrow> lower_state \<Rightarrow> bool" where
  "same_shape s t \<longleftrightarrow>
     map c_dead_on_entry (ls_ctrl t) = map c_dead_on_entry (ls_ctrl s) \<and>
     map c_base (ls_ctrl t) = map c_base (ls_ctrl s) \<and>
     ls_h t = ls_h s \<and> ls_dead t = ls_dead s \<and> ls_consts t = ls_consts s \<and>
     length (ls_code s) \<le> length (ls_code t)"

lemma same_shapeD:
  assumes "same_shape s t"
  shows "rdead t = rdead s" and "heights_below b t = heights_below b s"
    and "ls_ctrl t = [] \<longleftrightarrow> ls_ctrl s = []"
proof -
  have m: "map c_base (ls_ctrl t) = map c_base (ls_ctrl s)" using assms by (simp add: same_shape_def)
  have "(\<forall>c \<in> set (ls_ctrl t). c_base c \<le> b) = (\<forall>c \<in> set (ls_ctrl s). c_base c \<le> b)"
    using arg_cong [OF m, of "\<lambda>xs. \<forall>x \<in> set xs. x \<le> b"] by simp
  then show "heights_below b t = heights_below b s" using assms by (simp add: heights_below_def same_shape_def)
  have "map c_dead_on_entry (ls_ctrl t) = map c_dead_on_entry (ls_ctrl s)" using assms by (simp add: same_shape_def)
  from dead_set_cong [OF this] show "rdead t = rdead s" using assms by (simp add: rdead_def same_shape_def)
  show "ls_ctrl t = [] \<longleftrightarrow> ls_ctrl s = []" using assms by (metis map_is_Nil_conv same_shape_def)
qed

lemma same_shape_cur: "same_shape s t \<Longrightarrow> cur_of t = cur_of s"
  using same_shapeD(1) [of s t] by (simp add: cur_of_def same_shape_def)

lemma branch_to_inv:
  assumes J: "inv_at env off X H cur s" and cur: "cur = None \<or> \<not> ls_dead s \<and> cur = Some (ls_h s)"
    and e: "branch_to env depth s = (Inr u, s')" and len: "length (ls_code s') < 2 ^ 32"
  shows "\<exists>H'. inv_at env off X H' None s' \<and> (\<forall>p \<le> length (ls_code s). H' p = H p) \<and> same_shape s s'"
proof -
  from e obtain idx t where r: "resolve_br (ls_ctrl s) depth = Inr idx"
    and u: "unwindL env idx s = (Inr (), t)" and j: "jumpL idx t = (Inr u, s')"
    by (auto simp: branch_to_def bindS_Inr_iff thenS_Inr_iff resolveL_def)
  have idx: "idx < length (ls_ctrl s)" using r by (auto simp: resolve_br_def split: if_splits)
  obtain code' cs' where ej: "emit_jump (ls_code t) (ls_ctrl t) idx = (code', cs')" by fastforce
  with j have s': "s' = t\<lparr>ls_code := code', ls_ctrl := cs'\<rparr>" by (simp add: jumpL_def)
  have "length (ls_code t) \<le> length code'" using ej by (auto simp: emit_jump_def emit_def split: if_splits)
  then have lent: "length (ls_code t) < 2 ^ 32" using len s' by simp
  let ?d = "c_base (ls_ctrl s ! idx) + label_arity (ls_ctrl s ! idx)"
  have "\<exists>H1. inv_at env off X H1 (map_option (\<lambda>_. ?d) cur) t \<and> (\<forall>p \<le> length (ls_code s). H1 p = H p) \<and>
      (\<exists>code1. t = s\<lparr>ls_code := code1\<rparr> \<and> length (ls_code s) \<le> length code1)"
  proof (cases "ls_dead s")
    case True
    with u cur J show ?thesis by (intro exI [of _ H]) (auto simp: unwindL_def intro: exI [of _ "ls_code s"])
  next
    case False
    with u obtain d code1 where
      eu: "emit_unwind (ls_code s) (ls_h s) (ls_ctrl s ! idx) (le_n_params env) (le_n_locals env) = Inr (d, code1)"
      and t: "t = s\<lparr>ls_code := code1\<rparr>"
      by (auto simp: unwindL_def split: sum.splits)
    have "length (ls_code s) \<le> length code1" using eu by (auto simp: emit_unwind_def emit_def Let_def split: if_splits)
    with Inv_unwind [OF J idx eu] cur lent t show ?thesis by auto
  qed
  then obtain H1 code1 where J1: "inv_at env off X H1 (map_option (\<lambda>_. ?d) cur) t"
    and H1: "\<forall>p \<le> length (ls_code s). H1 p = H p"
    and t: "t = s\<lparr>ls_code := code1\<rparr>" "length (ls_code s) \<le> length code1" by blast
  from Inv_jump [OF J1 _ ej] idx len s' t obtain H2 where
    "Inv env off max_height X H2 code' (length (ls_consts s)) cs' None"
    and "\<forall>p \<le> length (ls_code t). H2 p = H1 p"
    and "map c_dead_on_entry cs' = map c_dead_on_entry (ls_ctrl s)" "map c_base cs' = map c_base (ls_ctrl s)"
    by auto
  then show ?thesis using H1 t \<open>length (ls_code t) \<le> length code'\<close>
    by (intro exI [of _ H2]) (auto simp: s' same_shape_def)
qed

lemma branch_to_appends: "branch_to env depth s = (Inr u, s') \<Longrightarrow> \<exists>ys. ls_code s' = ls_code s @ ys"
  by (auto simp: branch_to_def bindS_Inr_iff thenS_Inr_iff resolveL_def unwindL_def jumpL_def emit_jump_def
      emit_unwind_def emit_def Let_def split: if_splits sum.splits prod.splits)

lemma cur_of_live: "cur_of s = Some x \<Longrightarrow> x = ls_h s \<and> \<not> ls_dead s \<and> (\<forall>c \<in> set (ls_ctrl s). \<not> c_dead_on_entry c)"
  by (auto simp: cur_of_def rdead_def split: if_splits)

text \<open>
  The conditional branch. The condition has been popped from \<open>h\<close> already, but is still on the
  stack where \<open>BR_IF_NOT\<close> stands.
\<close>

lemma branch_if_inv:
  assumes J: "inv_at env off {} H cur s" and cs: "ls_ctrl s \<noteq> []" and hb: "heights_below b s"
    and cur: "cur = map_option (\<lambda>h. h + 1) (cur_of s)" and b: "b < max_height"
    and e: "branch_if env depth s = (Inr u, s')" and len: "length (ls_code s') < 2 ^ 32"
  shows "height_inv env off b s' \<and> same_shape s s'"
proof -
  let ?p = "length (ls_code s)"
  define s1 where "s1 = s\<lparr>ls_code := ls_code s @ [mk_op OP_BR_IF_NOT 0 0]\<rparr>"
  from e obtain t where t: "branch_to env depth s1 = (Inr (), t)"
    and pt: "patchL (of_nat ?p) (of_nat (length (ls_code t))) t = (Inr u, s')"
    by (auto simp: branch_if_def bindS_Inr_iff thenS_Inr_iff s1_def)
  from pt have s': "s' = t\<lparr>ls_code := (ls_code t)[unat (of_nat ?p :: u32) :=
        (ls_code t ! unat (of_nat ?p :: u32))\<lparr>cu_b := of_nat (length (ls_code t))\<rparr>]\<rparr>"
    by (auto simp: patchL_def patch_b_Inr_iff split: sum.splits)
  have lent: "length (ls_code t) < 2 ^ 32" using len s' by simp
  have p32: "?p < 2 ^ 32" by (rule InvD(2) [OF J])
  have c1: "cur_of s1 = cur_of s" by (simp add: cur_of_def rdead_def s1_def)
  obtain ys where ys: "ls_code t = ls_code s1 @ ys" using branch_to_appends [OF t] by blast
  have "Inv env off max_height {?p} (H(Suc ?p := cur_of s)) (ls_code s @ [mk_op OP_BR_IF_NOT 0 0])
      (length (ls_consts s)) (ls_ctrl s) (cur_of s)"
    using J cs
  proof (rule Inv_emit [where fall = True and nh = "ls_h s"])
    show "Suc ?p < 2 ^ 32" using lent ys by (simp add: s1_def)
    show "cur_of s = (if cur = None \<or> \<not> True then None else Some (ls_h s))"
      using cur cur_of_live [of s] by (cases "cur_of s") auto
    show "\<exists>tgt. cuop_effect (lower_ctx env (length (ls_consts s))) (mk_op OP_BR_IF_NOT 0 0) x =
          Inr (True, ls_h s, tgt) \<and> 0 \<le> ls_h s \<and> ls_h s \<le> max_height \<and>
          (\<forall>t th. tgt = Some (t, th) \<longrightarrow> ?p \<in> {?p} \<or>
             off \<le> unat t \<and> unat t \<le> ?p \<and> H (unat t) = Some th)" if "cur = Some x" for x
      using that cur cur_of_live [of s] hb b by (auto simp: branch_effect heights_below_def)
  qed simp_all
  then have J1: "inv_at env off {?p} (H(Suc ?p := cur_of s)) (cur_of s1) s1" by (simp add: s1_def c1 [unfolded s1_def])
  have "cur_of s1 = None \<or> \<not> ls_dead s1 \<and> cur_of s1 = Some (ls_h s1)"
    using cur_of_live [of s1] by (cases "cur_of s1") auto
  from branch_to_inv [OF J1 this t lent] obtain H2 where J2: "inv_at env off {?p} H2 None t"
    and H2: "\<forall>q \<le> length (ls_code s1). H2 q = (H(Suc ?p := cur_of s)) q" and sh: "same_shape s1 t" by blast
  have shs: "same_shape s t" using sh by (simp add: same_shape_def s1_def)
  have ct: "cur_of t = cur_of s" using shs by (rule same_shape_cur)
  have "\<exists>H3. inv_at env off {?p} H3 (cur_of t) t \<and> (\<forall>q < length (ls_code t). H3 q = H2 q)"
  proof (cases "cur_of t")
    case None
    with J2 show ?thesis by auto
  next
    case (Some x)
    with cur_of_live [OF Some] hb b shs cs show ?thesis
      using Inv_join [OF J2, of x] same_shapeD(3) [OF shs] by (auto simp: same_shape_def heights_below_def)
  qed
  then obtain H3 where J3: "inv_at env off {?p} H3 (cur_of t) t" and H3: "\<forall>q < length (ls_code t). H3 q = H2 q" by blast
  have plt: "?p < length (ls_code t)" using ys by (simp add: s1_def)
  have Hp: "H3 ?p = cur" using H2 H3 plt InvD(3) [OF J] by (simp add: s1_def)
  have op: "ls_code t ! ?p = mk_op OP_BR_IF_NOT 0 0" using ys by (simp add: s1_def nth_append)
  have tgt: "target_ok off H3 (length (ls_code t)) (ls_ctrl t = []) (length (ls_code t))
      (branch_height (cu_op (ls_code t ! ?p)) x)" if "H3 ?p = Some x" for x
    using that InvD(1,3) [OF J3] Hp ct cur op same_shapeD(3) [OF shs] cs
    by (auto simp: target_ok_def branch_height_def)
  have "inv_at env off ({?p} - {?p}) H3 (cur_of t) s'"
    using Inv_patch [OF J3 InvD(1) [OF J] plt _ tgt lent] op p32 by (simp add: s')
  moreover have "same_shape s s'" using shs by (simp add: s' same_shape_def)
  moreover from this have "cur_of s' = cur_of t" using same_shape_cur ct by simp
  ultimately show ?thesis using same_shapeD [of s s'] hb cs by (auto intro: height_invI)
qed

text \<open>An unconditional branch ends the reachable code.\<close>

lemma branch_dead_inv:
  assumes I: "height_inv env off b s" and e: "branch_to env depth s = (Inr u, s')"
    and len: "length (ls_code s') < 2 ^ 32"
  shows "height_inv env off b (s'\<lparr>ls_dead := True\<rparr>)"
proof -
  from I obtain H where cs: "ls_ctrl s \<noteq> []" and hb: "heights_below b s"
    and J: "inv_at env off {} H (cur_of s) s" by (rule height_invE)
  have "cur_of s = None \<or> \<not> ls_dead s \<and> cur_of s = Some (ls_h s)"
    using cur_of_live [of s] by (cases "cur_of s") auto
  from branch_to_inv [OF J this e len] obtain H' where "inv_at env off {} H' None s'" "same_shape s s'" by blast
  with same_shapeD [OF this(2)] cs hb show ?thesis
    by (intro height_invI [of _ b env off H']) (simp_all add: heights_below_def cur_of_def rdead_def)
qed

text \<open>One instruction that ends the reachable code.\<close>

lemma emit_dead_inv:
  assumes I: "height_inv env off b s" and len: "Suc (length (ls_code s)) < 2 ^ 32" and b: "b \<le> max_height"
    and eff: "\<And>k. cur_of s = Some k \<Longrightarrow> cuop_effect (lower_ctx env (length (ls_consts s))) ins k = Inr (False, k, None)"
  shows "height_inv env off b (s\<lparr>ls_code := ls_code s @ [ins], ls_dead := True\<rparr>)"
proof -
  from I obtain H where cs: "ls_ctrl s \<noteq> []" and hb: "heights_below b s"
    and J: "inv_at env off {} H (cur_of s) s" by (rule height_invE)
  have "Inv env off max_height {} (H(Suc (length (ls_code s)) := None)) (ls_code s @ [ins]) (length (ls_consts s)) (ls_ctrl s) None"
    using J cs len
  proof (rule Inv_emit [where fall = False and nh = "ls_h s"])
    fix x assume "cur_of s = Some x"
    with eff cur_of_live [OF this] hb b show "\<exists>tgt. cuop_effect (lower_ctx env (length (ls_consts s))) ins x =
          Inr (False, ls_h s, tgt) \<and> 0 \<le> ls_h s \<and> ls_h s \<le> max_height \<and>
          (\<forall>t th. tgt = Some (t, th) \<longrightarrow> length (ls_code s) \<in> {} \<or>
             off \<le> unat t \<and> unat t \<le> length (ls_code s) \<and> H (unat t) = Some th)"
      by (auto simp: heights_below_def)
  qed simp_all
  with cs hb show ?thesis
    by (intro height_invI [of _ b env off "H(Suc (length (ls_code s)) := None)"]) (simp_all add: heights_below_def cur_of_def rdead_def)
qed

lemma cond_branch_inv:
  assumes I: "height_inv env off b' s" and c: "consumeL 1 0 s = (Inr v, t)"
    and e: "branch_if env depth t = (Inr u, s')" and hb: "heights_below b t" and b: "b < max_height"
    and len: "length (ls_code s') < 2 ^ 32"
  shows "height_inv env off b s' \<and> same_shape t s'"
proof -
  from I obtain H where cs: "ls_ctrl s \<noteq> []" and J: "inv_at env off {} H (cur_of s) s" by (rule height_invE)
  from c have t: "t = s\<lparr>ls_h := (if ls_dead s then ls_h s else ls_h s - 1)\<rparr>" by (simp add: consumeL_Inr)
  have rd: "rdead t = rdead s" by (simp add: t rdead_def)
  have cur: "cur_of s = map_option (\<lambda>h. h + 1) (cur_of t)"
  proof (cases "rdead s")
    case True
    then show ?thesis by (simp add: cur_of_def rd)
  next
    case False
    then show ?thesis using rd by (simp add: cur_of_def rdead_def t)
  qed
  have "inv_at env off {} H (cur_of s) t" "ls_ctrl t \<noteq> []" using J cs by (simp_all add: t)
  from branch_if_inv [OF this hb cur b e len] show ?thesis .
qed

lemma heights_below_consume:
  "height_inv env off b s \<Longrightarrow> consumeL pops 0 s = (Inr v, t) \<Longrightarrow> 0 \<le> pops \<Longrightarrow> heights_below b t"
  by (auto simp: height_inv_def heights_below_def consumeL_Inr)

lemma lower_br_if_inv:
  assumes "height_inv env off b s" and "lower_br_if env d s = (Inr u, s')" and "small s'" and "b < max_height"
  shows "height_inv env off b s'"
  using assms(2) cond_branch_inv [OF assms(1)] heights_below_consume [OF assms(1)] assms(3,4)
  by (auto simp: lower_br_if_def thenS_Inr_iff small_def)

section \<open>Tables\<close>

lemma height_inv_consts:
  "height_inv env off b s \<Longrightarrow> height_inv env off b (s\<lparr>ls_consts := ls_consts s @ ys\<rparr>)"
proof (elim height_invE)
  fix H assume "ls_ctrl s \<noteq> []" "heights_below b s" and J: "inv_at env off {} H (cur_of s) s"
  then show ?thesis
    using Inv_consts [OF J, of "length (ls_consts s @ ys)"]
    by (intro height_invI [of _ b env off H]) simp_all
qed

definition scratch_ok :: "lower_env \<Rightarrow> bool" where
  "scratch_ok env \<longleftrightarrow> (\<forall>i. le_scratch env = Some i \<longrightarrow> i < le_n_params env + le_n_locals env)"

lemma br_table_case_inv:
  assumes I: "height_inv env off b s" and e: "br_table_case env scratch (i, depth) s = (Inr u, s')"
    and sc: "scratch < le_n_params env + le_n_locals env" and len: "small s'" and b: "b + 2 < max_height"
  shows "height_inv env off b s'"
proof -
  from e obtain idxc s1 s2 s3 s4 s5 where
    i1: "internL (ucast (of_nat i :: u32)) s = (Inr idxc, s1)" and
    i2: "emit_consume OP_LOCAL_GET scratch 0 0 1 s1 = (Inr (), s2)" and
    i3: "emit_consume OP_I64_CONST 0 idxc 0 1 s2 = (Inr (), s3)" and
    i4: "emit_consume OP_I32_EQ 0 0 2 1 s3 = (Inr (), s4)" and
    i5: "consumeL 1 0 s4 = (Inr (), s5)" and i6: "branch_if env depth s5 = (Inr u, s')"
    by (auto simp: br_table_case_def bindS_Inr_iff thenS_Inr_iff)
  have small5: "small s5" using keepsD [OF grows_branch_if i6] len by (rule small_before)
  have small4: "small s4" using keepsD [OF grows_primitives(4) i5] small5 by (rule small_before)
  have small3: "small s3" using keepsD [OF grows_emit_consume i4] small4 by (rule small_before)
  have small2: "small s2" using keepsD [OF grows_emit_consume i3] small3 by (rule small_before)
  have small1: "small s1" using keepsD [OF grows_emit_consume i2] small2 by (rule small_before)
  obtain ys where s1: "s1 = s\<lparr>ls_consts := ls_consts s @ ys\<rparr>" and idx: "unat idxc < length (ls_consts s1)"
    using internL_Inr [OF i1] small1 by (metis lower_state.select_convs(2) lower_state.surjective lower_state.update_convs(2) small_def)
  have I1: "height_inv env off b s1" unfolding s1 using I by (rule height_inv_consts)
  have I2: "height_inv env off (b + 1) s2"
    using emit_consume_inv [OF I1 i2 small2 local_effect_is(1) [OF sc]] b by simp
  have "ls_consts s2 = ls_consts s1" using i2 by (auto simp: emit_consume_def consumeL_Inr)
  then have "effect_is env s2 (mk_op OP_I64_CONST 0 idxc) 0 1" using idx by (simp add: const_effect_is)
  then have I3: "height_inv env off (b + 2) s3" using emit_consume_inv [OF I2 i3 small3] b by simp
  have "effect_is env s3 (mk_op OP_I32_EQ 0 0) 2 1"
    by (rule fixed_effect_is [where e = "''binop underflow''"]) (simp_all add: fixed_effect_def binops_def)
  then have I4: "height_inv env off (b + 2) s4" using emit_consume_inv [OF I3 i4 small4] b by simp
  have "heights_below b s5"
    using I i1 i2 i3 i4 i5 by (auto simp: height_inv_def heights_below_def s1 emit_consume_def consumeL_Inr)
  from cond_branch_inv [OF I4 i5 i6 this] b len show ?thesis by (simp add: small_def)
qed

lemma br_table_cases_inv:
  assumes "height_inv env off b s" and "forS xs (br_table_case env scratch) s = (Inr u, s')"
    and "scratch < le_n_params env + le_n_locals env" and "small s'" and "b + 2 < max_height"
  shows "height_inv env off b s'"
  using assms(1,2)
proof (induction xs arbitrary: s)
  case Nil
  then show ?case by simp
next
  case (Cons r rs)
  obtain i d where r: "r = (i, d)" by (cases r)
  from Cons.prems(2) obtain t where t: "br_table_case env scratch (i, d) s = (Inr (), t)"
    and rs: "forS rs (br_table_case env scratch) t = (Inr u, s')" by (auto simp: thenS_Inr_iff r)
  have "keeps grows (forS rs (br_table_case env scratch))" by (intro grows_intros grows_br_table_case)
  from keepsD [OF this rs] assms(4) have "small t" by (rule small_before)
  with br_table_case_inv [OF Cons.prems(1) t assms(3)] assms(5) have "height_inv env off b t" by simp
  then show ?case using rs by (rule Cons.IH)
qed

lemma lower_br_table_inv:
  assumes I: "height_inv env off b s" and e: "lower_br_table env targets dflt s = (Inr u, s')"
    and sc: "scratch_ok env" and len: "small s'" and b: "b + 2 < max_height"
  shows "height_inv env off b s'"
proof -
  from e obtain scratch depths s1 s2 s3 where
    s: "le_scratch env = Some scratch" and
    e1: "emit_consume OP_LOCAL_SET scratch 0 1 0 s = (Inr (), s1)" and
    e2: "forS (enumerate 0 depths) (br_table_case env scratch) s1 = (Inr (), s2)" and
    e3: "branch_to env dflt s2 = (Inr (), s3)" and s': "s' = s3\<lparr>ls_dead := True\<rparr>"
    by (auto simp: lower_br_table_def bindS_Inr_iff thenS_Inr_iff)
  have sc: "scratch < le_n_params env + le_n_locals env" using sc s by (simp add: scratch_ok_def)
  have small3: "small s3" using len s' by (simp add: small_def)
  have small2: "small s2" using keepsD [OF grows_branch_to e3] small3 by (rule small_before)
  have "keeps grows (forS (enumerate 0 depths) (br_table_case env scratch))"
    by (intro grows_intros grows_br_table_case)
  from keepsD [OF this e2] small2 have small1: "small s1" by (rule small_before)
  have "height_inv env off b s1" using emit_consume_inv [OF I e1 small1 local_effect_is(2) [OF sc]] b by simp
  then have "height_inv env off b s2" using e2 sc small2 b by (rule br_table_cases_inv)
  with branch_dead_inv [OF this e3] small3 s' show ?thesis by (simp add: small_def)
qed

section \<open>Blocks\<close>

text \<open>A frame for a block that starts here: nothing waits for it yet.\<close>

abbreviation new_frame :: "ctrl_kind \<Rightarrow> u16 \<Rightarrow> u16 \<Rightarrow> lower_state \<Rightarrow> ctrl" where
  "new_frame k np nr s \<equiv>
     \<lparr>c_kind = k, c_start = of_nat (length (ls_code s)), c_br_if_not = None, c_else_br = None, c_patches = [],
      c_has_else = False, c_base = (if ls_dead s then 0 else ls_h s - int (unat np)), c_n_params = np,
      c_n_results = nr, c_dead_on_entry = ls_dead s\<rparr>"

lemma push_ctrlL_Inr:
  "push_ctrlL k np nr s = (Inr u, t) \<longleftrightarrow>
     (ls_dead s \<or> int (unat np) \<le> ls_h s) \<and> t = s\<lparr>ls_ctrl := ls_ctrl s @ [new_frame k np nr s]\<rparr>"
  by (auto simp: push_ctrlL_def push_ctrl_def Let_def)

lemma pending_append: "pending (cs @ ds) = pending cs \<union> pending ds"
  by (auto simp: pending_def)

lemma live_upto_append: "i < length cs \<Longrightarrow> live_upto (cs @ ds) i = live_upto cs i"
  by (simp add: live_upto_def nth_append)

lemma live_upto_last: "live_upto (cs @ [c]) (length cs) \<longleftrightarrow> (\<forall>d \<in> set (cs @ [c]). \<not> c_dead_on_entry d)"
  by (auto simp: live_upto_def nth_append all_set_conv_all_nth less_Suc_eq_le)

lemma frames_ok_snoc:
  "frames_ok off H code B (cs @ [c]) \<longleftrightarrow>
     frames_ok off H code B cs \<and> frame_ok off H code B (\<forall>d \<in> set (cs @ [c]). \<not> c_dead_on_entry d) c"
  unfolding frames_ok_def live_upto_last [symmetric]
  by (auto simp: nth_append less_Suc_eq live_upto_append)

lemma func_frame_snoc:
  "cs \<noteq> [] \<Longrightarrow> func_frame env (cs @ [c]) \<longleftrightarrow> func_frame env cs \<and> c_kind c \<noteq> CK_Func"
  by (auto simp: func_frame_def nth_append less_Suc_eq)

lemma Inv_push:
  assumes J: "Inv env off B X H code nc cs cur" and cs: "cs \<noteq> []" and k: "c_kind c \<noteq> CK_Func"
    and f: "frame_ok off H code B (\<forall>d \<in> set (cs @ [c]). \<not> c_dead_on_entry d) c"
    and cur: "\<And>x. cur = Some x \<Longrightarrow> \<not> c_dead_on_entry c" and X: "X \<subseteq> X' \<union> pend c"
  shows "Inv env off B X' H code nc (cs @ [c]) cur"
proof (rule Inv_ctrl [OF J])
  show "X \<union> pending cs \<subseteq> X' \<union> pending (cs @ [c])" using X by (auto simp: pending_append pending_def)
  show "cur_ok B (cs @ [c]) cur" using InvD(5) [OF J] cur by (auto simp: cur_ok_def)
  show "frames_ok off H code B (cs @ [c])" using InvD(7) [OF J] f by (simp add: frames_ok_snoc)
  show "func_frame env (cs @ [c])" using InvD(8) [OF J] cs k by (simp add: func_frame_snoc)
qed (simp_all add: ended_def)

definition types_small :: "lower_env \<Rightarrow> bool" where
  "types_small env \<longleftrightarrow> (\<forall>t \<in> set (le_func_types env). length (fst t) \<le> 8 \<and> length (snd t) \<le> 8)"

lemma block_arity_le:
  assumes "block_arity ty (le_func_types env) = Inr (np, nr)" and "types_small env"
  shows "int (unat np) \<le> 8 \<and> int (unat nr) \<le> 8"
proof -
  have le: "unat (of_nat n :: u16) \<le> 8" if "n \<le> 8" for n
    using that unat_of_nat_u16 [of n] by simp
  have "length (fst (le_func_types env ! i)) \<le> 8 \<and> length (snd (le_func_types env ! i)) \<le> 8"
    if "i < length (le_func_types env)" for i
    using assms(2) nth_mem [OF that] by (auto simp: types_small_def)
  then show ?thesis
    using assms(1) by (auto simp: block_arity_def Let_def not_le simp del: of_nat_unat
        split: block_type.splits if_splits intro!: le)
qed

lemma push_inv:
  assumes I: "height_inv env off b s" and e: "push_ctrlL k np nr s = (Inr u, s')" and k: "k \<in> {CK_Block, CK_Loop}"
    and a: "int (unat np) \<le> 8" "int (unat nr) \<le> 8" and b: "b \<le> max_height"
  shows "height_inv env off b s'"
proof -
  from I obtain H where cs: "ls_ctrl s \<noteq> []" and hb: "heights_below b s"
    and J: "inv_at env off {} H (cur_of s) s" by (rule height_invE)
  let ?c = "new_frame k np nr s"
  from e have ok: "ls_dead s \<or> int (unat np) \<le> ls_h s" and s': "s' = s\<lparr>ls_ctrl := ls_ctrl s @ [?c]\<rparr>"
    by (simp_all add: push_ctrlL_Inr)
  have cur: "cur_of s' = cur_of s" by (auto simp: cur_of_def rdead_def s')
  have "0 \<le> b" using hb by (auto simp: heights_below_def)
  have "0 \<le> uint np" by simp
  moreover have "ls_h s \<le> b" using hb by (simp add: heights_below_def)
  ultimately have "ls_h s - uint np \<le> b" by linarith
  then have base: "0 \<le> c_base ?c" "c_base ?c \<le> b" using ok hb \<open>0 \<le> b\<close> by (auto simp: heights_below_def)
  have live: "H (length (ls_code s)) = Some (params_h ?c)" if "\<forall>d \<in> set (ls_ctrl s @ [?c]). \<not> c_dead_on_entry d"
    using that InvD(3) [OF J] by (auto simp: cur_of_def rdead_def)
  have "frame_ok off H (ls_code s) max_height (\<forall>d \<in> set (ls_ctrl s @ [?c]). \<not> c_dead_on_entry d) ?c"
    using base a b live InvD(1,2) [OF J] unfolding frame_ok_def by auto
  then have "Inv env off max_height {} H (ls_code s) (length (ls_consts s)) (ls_ctrl s @ [?c]) (cur_of s)"
    using cs k by (intro Inv_push [OF J]) (auto simp: cur_of_def rdead_def split: if_splits)
  then have "inv_at env off {} H (cur_of s') s'" unfolding cur by (simp add: s')
  with hb base cs show ?thesis by (intro height_invI [of _ b env off H]) (auto simp: s' heights_below_def)
qed

lemma lower_if_inv:
  assumes I: "height_inv env off b s" and e: "lower_if env ty s = (Inr u, s')" and ts: "types_small env"
    and len: "small s'" and b: "b < max_height"
  shows "height_inv env off b s'"
proof -
  from e obtain np nr s1 where a: "block_arity ty (le_func_types env) = Inr (np, nr)"
    and c: "consumeL 1 0 s = (Inr (), s1)"
    and p: "thenS (push_ctrlL CK_If np nr) (update_last (\<lambda>c. c\<lparr>c_br_if_not := Some (of_nat (length (ls_code s1)))\<rparr>))
              (s1\<lparr>ls_code := ls_code s1 @ [mk_op OP_BR_IF_NOT 0 0]\<rparr>) = (Inr u, s')"
    by (auto simp: lower_if_def bindS_Inr_iff thenS_Inr_iff)
  let ?p = "length (ls_code s)" and ?code = "ls_code s @ [mk_op OP_BR_IF_NOT 0 0]"
  define h where "h = (if ls_dead s then ls_h s else ls_h s - 1)"
  from c have s1: "s1 = s\<lparr>ls_h := h\<rparr>" and h1: "ls_dead s \<or> 1 \<le> ls_h s" by (auto simp: consumeL_Inr h_def)
  define c where "c = (new_frame CK_If np nr (s1\<lparr>ls_code := ?code\<rparr>))\<lparr>c_br_if_not := Some (of_nat ?p)\<rparr>"
  from p have ok: "ls_dead s \<or> int (unat np) \<le> h"
    and s': "s' = s\<lparr>ls_h := h, ls_code := ?code, ls_ctrl := ls_ctrl s @ [c]\<rparr>"
    by (auto simp: thenS_Inr_iff push_ctrlL_Inr update_last_def s1 c_def)
  from I obtain H where cs: "ls_ctrl s \<noteq> []" and hb: "heights_below b s"
    and J: "inv_at env off {} H (cur_of s) s" by (rule height_invE)
  have hb': "0 \<le> h" "h \<le> b" using hb h1 by (auto simp: heights_below_def h_def)
  have cur: "cur_of s' = (if cur_of s = None then None else Some h)" by (auto simp: cur_of_def rdead_def s' c_def s1)
  let ?H = "H(Suc ?p := cur_of s')"
  have J1: "Inv env off max_height {?p} ?H ?code (length (ls_consts s)) (ls_ctrl s) (cur_of s')"
    using J cs
  proof (rule Inv_emit [where fall = True and nh = h])
    show "\<exists>tgt. cuop_effect (lower_ctx env (length (ls_consts s))) (mk_op OP_BR_IF_NOT 0 0) x = Inr (True, h, tgt) \<and>
          0 \<le> h \<and> h \<le> max_height \<and>
          (\<forall>t th. tgt = Some (t, th) \<longrightarrow> ?p \<in> {?p} \<or> off \<le> unat t \<and> unat t \<le> ?p \<and> H (unat t) = Some th)"
      if "cur_of s = Some x" for x
      using cur_of_live [OF that] h1 hb' b by (auto simp: branch_effect h_def)
  qed (use cur len in \<open>auto simp: small_def s'\<close>)
  have p32: "?p < 2 ^ 32" using len by (simp add: small_def s')
  have "0 \<le> uint np" by simp
  then have "h - uint np \<le> b" using hb' by linarith
  then have base: "0 \<le> c_base c" "c_base c \<le> b" using ok hb' by (auto simp: c_def s1)
  have Hp: "?H ?p = cur_of s" using InvD(3) [OF J] by simp
  have slot: "slot_ok off ?H ?code (\<forall>d \<in> set (ls_ctrl s @ [c]). \<not> c_dead_on_entry d) OP_BR_IF_NOT (params_h c + 1) ?p"
    using Hp InvD(1) [OF J] cur_of_live [of s] by (auto simp: slot_ok_def c_def s1 h_def nth_append)
  have "frame_ok off ?H ?code max_height (\<forall>d \<in> set (ls_ctrl s @ [c]). \<not> c_dead_on_entry d) c"
    using base b slot block_arity_le [OF a ts] p32 unfolding frame_ok_def by (auto simp: c_def s1)
  then have "Inv env off max_height {} ?H ?code (length (ls_consts s)) (ls_ctrl s @ [c]) (cur_of s')"
    using p32 cs by (intro Inv_push [OF J1])
      (auto simp: pend_def c_def s1 cur_of_def rdead_def s' split: if_splits)
  with hb hb' base cs show ?thesis
    by (intro height_invI [of _ b env off ?H]) (auto simp: s' heights_below_def)
qed

lemma patchL_Inr:
  "patchL pc z s = (Inr u, t) \<longleftrightarrow>
     unat pc < length (ls_code s) \<and> t = s\<lparr>ls_code := (ls_code s)[unat pc := (ls_code s ! unat pc)\<lparr>cu_b := z\<rparr>]\<rparr>"
  by (auto simp: patchL_def patch_b_def)

lemma snoc_last: "cs \<noteq> [] \<Longrightarrow> cs = butlast cs @ [last cs]"
  by simp

text \<open>Swapping the innermost frame for one with the same shape.\<close>

lemma Inv_last:
  assumes J: "Inv env off B X H code nc (cs @ [c]) cur"
    and f: "frame_ok off H code B (\<forall>d \<in> set (cs @ [c']). \<not> c_dead_on_entry d) c'"
    and same: "c_kind c' = c_kind c" "c_base c' = c_base c" "c_n_results c' = c_n_results c"
      "c_dead_on_entry c' = c_dead_on_entry c"
    and X: "X \<union> pend c \<subseteq> X' \<union> pend c'"
  shows "Inv env off B X' H code nc (cs @ [c']) cur"
proof (rule Inv_ctrl [OF J])
  show "X \<union> pending (cs @ [c]) \<subseteq> X' \<union> pending (cs @ [c'])" using X by (auto simp: pending_append pending_def)
  show "cur_ok B (cs @ [c']) cur" using InvD(5) [OF J] same by (simp add: cur_ok_def)
  show "frames_ok off H code B (cs @ [c'])" using InvD(7) [OF J] f by (simp add: frames_ok_snoc)
  show "func_frame env (cs @ [c'])"
    using func_frame_update [OF InvD(8) [OF J], of c' "length cs"] same by simp
qed (simp_all add: ended_def)

lemma Inv_else:
  assumes J: "Inv env off B {} H code nc (cs @ [c]) cur" and k: "c_kind c = CK_If" "\<not> c_has_else c"
    and cur: "\<And>x. cur = Some x \<Longrightarrow> x = results_h c" and len: "Suc (length code) < 2 ^ 32" and B: "params_h c \<le> B"
  defines "c' \<equiv> c\<lparr>c_else_br := Some (of_nat (length code)), c_has_else := True\<rparr>"
  defines "cur' \<equiv> if \<forall>d \<in> set (cs @ [c]). \<not> c_dead_on_entry d then Some (params_h c) else None"
  shows "\<exists>H'. Inv env off B (unat ` set_option (c_br_if_not c)) H' (code @ [mk_op OP_BR 0 0]) nc (cs @ [c']) cur' \<and>
     (\<forall>p. c_br_if_not c = Some p \<longrightarrow> open_branch off H' (code @ [mk_op OP_BR 0 0]) False (Suc (length code)) (unat p))"
proof -
  let ?p = "length code" and ?code = "code @ [mk_op OP_BR 0 0]" and ?X = "unat ` set_option (c_br_if_not c)"
  let ?lv = "\<forall>d \<in> set (cs @ [c]). \<not> c_dead_on_entry d" and ?H = "H(Suc (length code) := None)"
  have lv': "(\<forall>d \<in> set (cs @ [c']). \<not> c_dead_on_entry d) = ?lv" by (simp add: c'_def)
  have J1: "Inv env off B {?p} ?H ?code nc (cs @ [c]) None"
    using J by (rule Inv_emit [where fall = False and nh = "the cur"])
      (use len cur_okD InvD(5) [OF J] in \<open>auto simp: branch_effect\<close>)
  have fr: "frame_ok off ?H ?code B ?lv c" using InvD(7) [OF J1] by (simp add: frames_ok_snoc)
  have slot: "slot_ok off ?H ?code ?lv OP_BR (results_h c) ?p"
    using InvD(1,3) [OF J] cur cur_ok_live [of B "cs @ [c]"] InvD(5) [OF J] by (auto simp: slot_ok_def)
  have else_None: "c_else_br c = None" using fr k(2) by (simp add: frame_ok_def)
  have "frame_ok off ?H ?code B (\<forall>d \<in> set (cs @ [c']). \<not> c_dead_on_entry d) c'"
    unfolding lv' using fr slot k len by (simp add: frame_ok_def c'_def)
  then have J2: "Inv env off B ?X ?H ?code nc (cs @ [c']) None"
    by (rule Inv_last [OF J1]) (use k else_None len in \<open>auto simp: pend_def c'_def\<close>)
  have "\<exists>H'. Inv env off B ?X H' ?code nc (cs @ [c']) cur' \<and> (\<forall>p < length ?code. H' p = ?H p)"
  proof (cases ?lv)
    case True
    have "0 \<le> params_h c" using fr by (simp add: frame_ok_def)
    with Inv_join [OF J2, of "params_h c"] B True show ?thesis by (auto simp: cur'_def c'_def)
  next
    case False
    then have "cur' = None" unfolding cur'_def by (simp only: if_False)
    with J2 show ?thesis by blast
  qed
  then obtain H' where J3: "Inv env off B ?X H' ?code nc (cs @ [c']) cur'" and H': "\<forall>p < length ?code. H' p = ?H p" by blast
  have "open_branch off H' ?code False (Suc ?p) (unat p)" if "c_br_if_not c = Some p" for p
  proof -
    have sl: "slot_ok off ?H ?code ?lv OP_BR_IF_NOT (params_h c + 1) (unat p)" using fr that by (simp add: frame_ok_def)
    then have "H' (unat p) = Some x \<Longrightarrow> ?lv \<and> x = params_h c + 1" for x using H' by (auto simp: slot_ok_def)
    then have "H' (unat p) = Some x \<Longrightarrow> target_ok off H' (length ?code) False (Suc ?p) (branch_height OP_BR_IF_NOT x)" for x
      using InvD(1,3) [OF J3] by (auto simp: target_ok_def branch_height_def cur'_def)
    with sl show ?thesis by (simp add: open_branch_def slot_ok_def)
  qed
  with J3 show ?thesis by blast
qed

lemma lower_else_inv:
  assumes I: "height_inv env off b s" and e: "lower_else s = (Inr u, s')" and len: "small s'" and b: "b + 8 \<le> max_height"
    and ne: "\<not> c_has_else (last (ls_ctrl s))" and h: "rdead s \<or> ls_h s = results_h (last (ls_ctrl s))"
  shows "height_inv env off (b + 8) s'"
proof -
  from I obtain H where cs: "ls_ctrl s \<noteq> []" and hb: "heights_below b s"
    and J: "inv_at env off {} H (cur_of s) s" by (rule height_invE)
  define cs0 c where "cs0 = butlast (ls_ctrl s)" and "c = last (ls_ctrl s)"
  have ctrl: "ls_ctrl s = cs0 @ [c]" using cs by (simp add: cs0_def c_def)
  let ?code = "ls_code s @ [mk_op OP_BR 0 0]"
  define c' where "c' = c\<lparr>c_else_br := Some (of_nat (length (ls_code s))), c_has_else := True\<rparr>"
  from e have k: "c_kind c = CK_If" by (auto simp: lower_else_def bindS_Inr_iff last_ctrlL_def c_def split: if_splits)
  have s': "s' = s\<lparr>ls_code := (case c_br_if_not c of None \<Rightarrow> ?code | Some p \<Rightarrow> patched ?code (unat p) (Suc (length (ls_code s)))),
      ls_ctrl := cs0 @ [c'], ls_h := params_h c, ls_dead := False\<rparr>"
    using e cs by (auto simp: lower_else_def bindS_Inr_iff thenS_Inr_iff last_ctrlL_def c_def cs0_def c'_def
        update_last_def patchL_Inr split: if_splits option.splits)
  have len1: "Suc (length (ls_code s)) < 2 ^ 32" using len by (auto simp: small_def s' split: option.splits)
  have fr: "frame_ok off H (ls_code s) max_height (live_upto (ls_ctrl s) (length cs0)) c"
    using frames_okD [OF InvD(7) [OF J], of "length cs0"] ctrl by simp
  then have "uint (c_n_params c) \<le> 8" by (simp add: frame_ok_def)
  moreover have "c_base c \<le> b" using hb ctrl by (simp add: heights_below_def)
  ultimately have pb: "params_h c \<le> b + 8" "0 \<le> params_h c" using fr by (simp_all add: frame_ok_def)
  have cur: "x = results_h c" if "cur_of s = Some x" for x
    using that h unfolding c_def by (simp add: cur_of_def split: if_splits)
  have cur': "cur_of s' = (if \<forall>d \<in> set (cs0 @ [c]). \<not> c_dead_on_entry d then Some (params_h c) else None)"
    by (auto simp: cur_of_def rdead_def s' c'_def)
  from Inv_else [OF J [unfolded ctrl] k ne [folded c_def] cur len1] pb b obtain H' where
    J': "Inv env off max_height (unat ` set_option (c_br_if_not c)) H' ?code (length (ls_consts s)) (cs0 @ [c']) (cur_of s')"
    and ob: "\<And>p. c_br_if_not c = Some p \<Longrightarrow> open_branch off H' ?code False (Suc (length (ls_code s))) (unat p)"
    unfolding cur' c'_def by auto
  have "inv_at env off {} H' (cur_of s') s'"
  proof (cases "c_br_if_not c")
    case None
    with J' show ?thesis by (simp add: s')
  next
    case (Some p)
    have "open_branch off H' ?code (cs0 @ [c'] = []) (Suc (length (ls_code s))) q" if "q \<in> set [unat p]" for q
      using ob [OF Some] that by simp
    from Inv_patches [where ps = "[unat p]", OF J' this len1] Some show ?thesis by (simp add: s')
  qed
  moreover have "heights_below (b + 8) s'" using hb pb ctrl by (auto simp: heights_below_def s' c'_def)
  ultimately show ?thesis by (intro height_invI [of _ _ env off H']) (simp_all add: s')
qed

section \<open>The end of a block\<close>

text \<open>The branches \<open>End\<close> patches, in order.\<close>

definition end_patches :: "ctrl \<Rightarrow> u32 list" where
  "end_patches c =
     (if c_kind c = CK_If
      then (case if c_has_else c then c_else_br c else c_br_if_not c of None \<Rightarrow> [] | Some p \<Rightarrow> [p]) else []) @
     c_patches c"

lemma end_patches_pend: "frame_ok off H code B lv c \<Longrightarrow> set (map unat (end_patches c)) = pend c"
  by (cases "c_kind c = CK_If"; cases "c_has_else c"; cases "c_else_br c"; cases "c_br_if_not c")
    (simp_all add: frame_ok_def end_patches_def pend_def)

lemma forS_patchL:
  "forS ps (\<lambda>p. patchL p (of_nat z)) s = (Inr u, t) \<Longrightarrow>
     t = s\<lparr>ls_code := foldl (\<lambda>code p. patched code p z) (ls_code s) (map unat ps)\<rparr>"
proof (induction ps arbitrary: s)
  case (Cons p ps)
  from Cons.prems obtain s1 where p: "patchL p (of_nat z) s = (Inr (), s1)"
    and rs: "forS ps (\<lambda>p. patchL p (of_nat z)) s1 = (Inr u, t)" by (auto simp: thenS_Inr_iff)
  from Cons.IH [OF rs] p show ?case by (simp add: patchL_Inr)
qed simp

lemma foldl_patched_length: "length (foldl (\<lambda>co p. patched co p z) code ps) = length code"
  by (induction ps arbitrary: code) simp_all

lemma end_patches_run:
  assumes "thenS (patch_if c (of_nat z)) (forS (c_patches c) (\<lambda>p. patchL p (of_nat z))) s = (Inr u, t)"
  shows "t = s\<lparr>ls_code := foldl (\<lambda>code p. patched code p z) (ls_code s) (map unat (end_patches c))\<rparr>"
  using assms
  by (auto simp: thenS_Inr_iff patch_if_def patchL_Inr end_patches_def split: if_splits option.splits
      dest!: forS_patchL)

definition end_typed :: "ctrl \<Rightarrow> bool" where
  "end_typed c \<longleftrightarrow> (c_kind c = CK_If \<and> \<not> c_has_else c \<longrightarrow> c_n_params c = c_n_results c)"

lemma slot_heights:
  assumes f: "frame_ok off H code B lv c" and p: "p \<in> pend c" and "end_typed c"
  shows "off \<le> p \<and> p < length code \<and> cu_op (code ! p) \<in> {OP_BR, OP_BR_IF_NOT} \<and>
    (\<forall>x. H p = Some x \<longrightarrow> lv \<and> branch_height (cu_op (code ! p)) x = results_h c)"
proof -
  consider "slot_ok off H code lv OP_BR (results_h c) p"
    | "slot_ok off H code lv OP_BR_IF_NOT (params_h c + 1) p" "c_kind c = CK_If" "\<not> c_has_else c"
    using f p by (auto simp: frame_ok_def pend_def split: if_splits)
  then show ?thesis
    using assms(3) by cases (auto simp: slot_ok_def branch_height_def end_typed_def)
qed

text \<open>
  A frame with all its branches is closed at height \<open>results_h\<close>: first the position gets that
  height, then the frame goes and its branches are patched.
\<close>

lemma Inv_raise:
  assumes J: "Inv env off B X H code nc (cs @ [c]) cur" and cur: "\<And>x. cur = Some x \<Longrightarrow> x = results_h c"
    and B: "results_h c \<le> B"
  defines "lv \<equiv> \<forall>d \<in> set (cs @ [c]). \<not> c_dead_on_entry d"
  shows "\<exists>H'. Inv env off B X H' code nc (cs @ [c]) (if lv then Some (results_h c) else None)"
proof (cases lv)
  case True
  have "0 \<le> results_h c" using InvD(7) [OF J] by (simp add: frames_ok_snoc frame_ok_def)
  moreover have "cur = None \<or> cur = Some (results_h c)" using cur by (cases cur) auto
  ultimately show ?thesis using Inv_join [OF J, of "results_h c"] B True by (auto simp: lv_def)
next
  case False
  then have "cur = None" using InvD(5) [OF J] by (cases cur) (auto simp: lv_def cur_ok_def)
  with J False show ?thesis by auto
qed

lemma cur_ok_butlast: "cur_ok B (cs @ [c]) cur \<Longrightarrow> cur_ok B cs cur"
  by (auto simp: cur_ok_def)

lemma Inv_end_block:
  assumes J: "Inv env off B {} H code nc (cs @ [c]) cur" and cs: "cs \<noteq> []"
    and cur: "\<And>x. cur = Some x \<Longrightarrow> x = results_h c" and B: "results_h c \<le> B" and t: "end_typed c"
  shows "\<exists>H'. Inv env off B {} H' (foldl (\<lambda>co p. patched co p (length code)) code (map unat (end_patches c))) nc cs
     (if \<forall>d \<in> set (cs @ [c]). \<not> c_dead_on_entry d then Some (results_h c) else None)"
proof -
  let ?lv = "\<forall>d \<in> set (cs @ [c]). \<not> c_dead_on_entry d"
  from Inv_raise [OF J cur B] obtain H' where
    J': "Inv env off B {} H' code nc (cs @ [c]) (if ?lv then Some (results_h c) else None)" by blast
  have fr: "frame_ok off H' code B ?lv c" using InvD(7) [OF J'] by (simp add: frames_ok_snoc)
  have "Inv env off B (pend c) H' code nc cs (if ?lv then Some (results_h c) else None)"
  proof (rule Inv_ctrl [OF J'])
    show "{} \<union> pending (cs @ [c]) \<subseteq> pend c \<union> pending cs" by (auto simp: pending_def)
    show "frames_ok off H' code B cs" using InvD(7) [OF J'] by (simp add: frames_ok_snoc)
    show "func_frame env cs" using InvD(8) [OF J'] cs by (simp add: func_frame_snoc)
    show "cur_ok B cs (if ?lv then Some (results_h c) else None)" using InvD(5) [OF J'] by (rule cur_ok_butlast)
  qed (use cs in \<open>simp_all add: ended_def\<close>)
  moreover have "open_branch off H' code (cs = []) (length code) p" if "p \<in> set (map unat (end_patches c))" for p
    using slot_heights [OF fr _ t] that InvD(1,3) [OF J'] cs
    unfolding end_patches_pend [OF fr] open_branch_def target_ok_def by fastforce
  ultimately have "Inv env off B (pend c - set (map unat (end_patches c))) H'
      (foldl (\<lambda>co p. patched co p (length code)) code (map unat (end_patches c))) nc cs
      (if ?lv then Some (results_h c) else None)"
    using InvD(2) [OF J'] by (rule Inv_patches)
  then show ?thesis unfolding end_patches_pend [OF fr] Diff_cancel by blast
qed

lemma end_func_effect:
  "cuop_effect (lower_ctx env nc) (mk_op OP_END_FUNC y z) x =
     (if x < int (unat (le_n_results env)) then Inl ''return underflow'' else Inr (False, x, None))"
  "cuop_effect (lower_ctx env nc) (mk_op OP_RETURN y z) x =
     (if x < int (unat (le_n_results env)) then Inl ''return underflow'' else Inr (False, x, None))"
  by (simp_all add: cuop_effect_def switch_effect_def index_checks_def fixed_effect_def binops_def)

lemma Inv_end_func:
  assumes J: "Inv env off B {} H code nc [c] cur"
    and cur: "\<And>x. cur = Some x \<Longrightarrow> x = results_h c" and B: "results_h c \<le> B" and len: "Suc (length code) < 2 ^ 32"
  shows "\<exists>H'. Inv env off B {} H'
     (foldl (\<lambda>co p. patched co p (length code)) (code @ [mk_op OP_END_FUNC (le_n_results env) 0])
        (map unat (end_patches c))) nc [] None"
proof -
  let ?ins = "mk_op OP_END_FUNC (le_n_results env) 0"
  have k: "c_kind c = CK_Func" "c_base c = 0" "c_n_results c = le_n_results env" "\<not> c_dead_on_entry c"
    using InvD(8) [OF J] by (simp_all add: func_frame_def)
  from Inv_raise [of env off B "{}" H code nc "[]" c cur] J cur B k(4) obtain H' where
    J': "Inv env off B {} H' code nc [c] (Some (results_h c))" by auto
  let ?H = "H'(Suc (length code) := None)"
  have J1: "Inv env off B {} ?H (code @ [?ins]) nc [c] None"
    using J' by (rule Inv_emit [where fall = False and nh = "results_h c"])
      (use len cur_okD [OF InvD(5) [OF J']] k in \<open>auto simp: end_func_effect\<close>)
  have fr: "frame_ok off ?H (code @ [?ins]) B True c"
    using frames_okD [OF InvD(7) [OF J1], of 0] k by (simp add: live_upto_def)
  have J2: "Inv env off B (pend c) ?H (code @ [?ins]) nc [] None"
    by (rule Inv_ctrl [OF J1])
      (use InvD(1) [OF J] in \<open>auto simp: pending_def frames_ok_def func_frame_def ended_def nth_append\<close>)
  have "open_branch off ?H (code @ [?ins]) ([] = ([] :: ctrl list)) (length code) p"
    if "p \<in> set (map unat (end_patches c))" for p
    using slot_heights [OF fr] that InvD(1,3) [OF J'] k
    unfolding end_patches_pend [OF fr] by (auto simp: open_branch_def target_ok_def end_typed_def)
  from Inv_patches [where ps = "map unat (end_patches c)", OF J2 this] len
  have "Inv env off B (pend c - set (map unat (end_patches c))) ?H
      (foldl (\<lambda>co p. patched co p (length code)) (code @ [?ins]) (map unat (end_patches c))) nc [] None"
    by simp
  then show ?thesis unfolding end_patches_pend [OF fr] by auto
qed

text \<open>After the last \<open>End\<close> no frame is left and the code is complete.\<close>

definition done_inv :: "lower_env \<Rightarrow> nat \<Rightarrow> lower_state \<Rightarrow> bool" where
  "done_inv env off s \<longleftrightarrow> ls_ctrl s = [] \<and> (\<exists>H. inv_at env off {} H None s)"

lemma lower_end_inv:
  assumes I: "height_inv env off b s" and e: "lower_end env s = (Inr u, s')" and len: "small s'" and b: "b + 8 \<le> max_height"
    and t: "end_typed (last (ls_ctrl s))" and h: "rdead s \<or> ls_h s = results_h (last (ls_ctrl s))"
  shows "height_inv env off (b + 8) s' \<or> done_inv env off s'"
proof -
  from I obtain H where cs: "ls_ctrl s \<noteq> []" and hb: "heights_below b s"
    and J: "inv_at env off {} H (cur_of s) s" by (rule height_invE)
  define cs0 c where "cs0 = butlast (ls_ctrl s)" and "c = last (ls_ctrl s)"
  have ctrl: "ls_ctrl s = cs0 @ [c]" using cs by (simp add: cs0_def c_def)
  have kf: "c_kind c = CK_Func \<longleftrightarrow> cs0 = []"
    using InvD(8) [OF J] ctrl unfolding func_frame_def by (metis length_0_conv length_append_singleton lessI nth_append_length)
  define code1 where "code1 = (if cs0 = [] then ls_code s @ [mk_op OP_END_FUNC (le_n_results env) 0] else ls_code s)"
  let ?code = "foldl (\<lambda>co p. patched co p (length (ls_code s))) code1 (map unat (end_patches c))"
  from e obtain s1 where
    r: "thenS (patch_if c (of_nat (length (ls_code s)))) (forS (c_patches c) (\<lambda>p. patchL p (of_nat (length (ls_code s)))))
          (s\<lparr>ls_ctrl := cs0, ls_code := code1\<rparr>) = (Inr (), s1)"
    and s1: "s' = s1\<lparr>ls_h := results_h c, ls_dead := c_dead_on_entry c\<rparr>"
    using cs by (auto simp: lower_end_def bindS_Inr_iff thenS_Inr_iff pop_ctrlL_def code1_def kf [symmetric]
        cs0_def [symmetric] c_def [symmetric] split: if_splits)
  from end_patches_run [OF r] s1
  have s': "s' = s\<lparr>ls_ctrl := cs0, ls_code := ?code, ls_h := results_h c, ls_dead := c_dead_on_entry c\<rparr>" by simp
  have lenc: "length ?code = length code1" by (rule foldl_patched_length)
  have fr: "frame_ok off H (ls_code s) max_height (live_upto (ls_ctrl s) (length cs0)) c"
    using frames_okD [OF InvD(7) [OF J], of "length cs0"] ctrl by simp
  then have "uint (c_n_results c) \<le> 8" by (simp add: frame_ok_def)
  moreover have "c_base c \<le> b" using hb ctrl by (simp add: heights_below_def)
  ultimately have rb: "results_h c \<le> b + 8" "0 \<le> results_h c" using fr by (simp_all add: frame_ok_def)
  have cur: "x = results_h c" if "cur_of s = Some x" for x
    using that h unfolding c_def by (simp add: cur_of_def split: if_splits)
  show ?thesis
  proof (cases "cs0 = []")
    case True
    then have "Suc (length (ls_code s)) < 2 ^ 32" using len lenc by (simp add: small_def s' code1_def)
    with Inv_end_func [of env off max_height H "ls_code s" "length (ls_consts s)" c "cur_of s"] J ctrl True cur rb b
    show ?thesis by (auto simp: done_inv_def s' code1_def)
  next
    case False
    have cur': "cur_of s' = (if \<forall>d \<in> set (cs0 @ [c]). \<not> c_dead_on_entry d then Some (results_h c) else None)"
      by (auto simp: cur_of_def rdead_def s')
    from Inv_end_block [OF J [unfolded ctrl] False cur _ t [folded c_def]] rb b
    have "\<exists>H'. inv_at env off {} H' (cur_of s') s'" unfolding cur' using False by (simp add: s' code1_def)
    moreover have "heights_below (b + 8) s'" using hb rb ctrl by (auto simp: heights_below_def s')
    ultimately show ?thesis using False by (simp add: height_inv_def s')
  qed
qed

end
