(* ===== verification/Lowered_Function.thy ===== *)
theory Lowered_Function
  imports Lowered_Heights
begin

text \<open>
  Whole functions: every operator keeps the height invariant, so a function that the translator
  lowers without error, and whose operators meet \<open>op_typed\<close>, is accepted by the verifier.
\<close>

unbundle bit_operations_syntax

section \<open>Calls\<close>

lemma small_u16:
  assumes "int (unat (n :: u16)) \<le> 8"
  shows "n \<in> {0, 1, 2, 3, 4, 5, 6, 7, 8}"
proof -
  have "uint n \<in> {k. 0 \<le> k \<and> k \<le> 8}" using assms by simp
  also have "{k :: int. 0 \<le> k \<and> k \<le> 8} = {0, 1, 2, 3, 4, 5, 6, 7, 8}" by auto
  finally have "(of_int (uint n) :: u16) \<in> of_int ` {0, 1, 2, 3, 4, 5, 6, 7, 8 :: int}" by (rule imageI)
  then show ?thesis by simp
qed

lemma packed_arity:
  assumes "int (unat np) \<le> 8" and "int (unat nr) \<le> 8"
  shows "(np OR push_bit 8 nr) AND 0xFF = (np :: u16)" and "drop_bit 8 (np OR push_bit 8 nr) AND 0xFF = nr"
  using small_u16 [OF assms(1)] small_u16 [OF assms(2)] unfolding insert_iff empty_iff
  by (elim disjE; simp)+

lemma func_arity_le:
  assumes "func_arity i (le_func_types env) (le_func_typeidx env) = Inr (np, nr)" and "types_small env"
  shows "int (unat np) \<le> 8 \<and> int (unat nr) \<le> 8"
proof -
  have le: "unat (of_nat n :: u16) \<le> 8" if "n \<le> 8" for n
    using that unat_of_nat_u16 [of n] by simp
  have "length (fst (le_func_types env ! i)) \<le> 8 \<and> length (snd (le_func_types env ! i)) \<le> 8"
    if "i < length (le_func_types env)" for i
    using assms(2) nth_mem [OF that] by (auto simp: types_small_def)
  then show ?thesis
    using assms(1) by (auto simp: func_arity_def Let_def not_le simp del: of_nat_unat
        split: if_splits intro!: le)
qed

lemma call_effect_is:
  assumes "func_arity i (le_func_types env) (le_func_typeidx env) = Inr (np, nr)"
  shows "effect_is env s (mk_op OP_CALL y i) (int (unat np)) (int (unat nr))"
  using assms
  by (auto simp: effect_is_def cuop_effect_def switch_effect_def index_checks_def fixed_effect_def binops_def call_effect_def)

lemma host_call_effect_is:
  assumes "int (unat np) \<le> 8" and "int (unat nr) \<le> 8"
  shows "effect_is env s (mk_op OP_CALL_HOST (np OR push_bit 8 nr) z) (int (unat np)) (int (unat nr))"
  using packed_arity [OF assms]
  by (auto simp: effect_is_def cuop_effect_def switch_effect_def index_checks_def fixed_effect_def binops_def call_effect_def)

lemma call_indirect_effect_is:
  assumes "unat i < length (le_func_types env)"
  shows "effect_is env s (mk_op OP_CALL_INDIRECT y i)
           (1 + int (length (fst (le_func_types env ! unat i)))) (int (length (snd (le_func_types env ! unat i))))"
  using assms
  by (auto simp: effect_is_def cuop_effect_def switch_effect_def index_checks_def fixed_effect_def binops_def call_effect_def)

lemma lower_call_inv:
  assumes I: "height_inv env off b s" and e: "lower_call env i s = (Inr u, s')" and "small s'" "types_small env"
    "b + 8 \<le> max_height"
  shows "height_inv env off (b + 8) s'"
proof -
  from e obtain np nr where a: "func_arity i (le_func_types env) (le_func_typeidx env) = Inr (np, nr)"
    and c: "(if i < le_n_imports env
             then if unat i < length (le_host_fn_ids env)
                  then emit_consume OP_CALL_HOST (np OR push_bit 8 nr) (le_host_fn_ids env ! unat i) (int (unat np)) (int (unat nr)) s = (Inr u, s')
                  else False
             else emit_consume OP_CALL 0 i (int (unat np)) (int (unat nr)) s = (Inr u, s'))"
    by (auto simp: lower_call_def emit_consume_def bindS_Inr_iff thenS_Inr_iff split: if_splits)
  have le: "int (unat np) \<le> 8" "int (unat nr) \<le> 8" using func_arity_le [OF a assms(4)] by auto
  have "0 \<le> uint np" by simp
  moreover have "uint nr \<le> 8" using le by simp
  ultimately have "uint nr - uint np \<le> 8" by linarith
  then show ?thesis
    using c emit_consume_inv [OF I _ assms(3) call_effect_is [OF a], where b' = "b + 8"]
      emit_consume_inv [OF I _ assms(3) host_call_effect_is [OF le], where b' = "b + 8"] le assms(5)
    by (auto split: if_splits)
qed

section \<open>One operator\<close>

text \<open>
  What the lowering takes from validation and does not check itself: operators come inside the
  function body, \<open>else\<close> occurs once, a block ends with exactly its results on the stack, an \<open>if\<close>
  without \<open>else\<close> has as many results as parameters, \<open>local.tee\<close>, \<open>return\<close> and \<open>return_call\<close> find
  their operands, and local and function indices are in range.
\<close>

definition op_typed :: "lower_env \<Rightarrow> operator \<Rightarrow> lower_state \<Rightarrow> bool" where
  "op_typed env x s \<longleftrightarrow>
     ls_ctrl s \<noteq> [] \<and>
     (let n = unat (le_n_params env) + unat (le_n_locals env); c = last (ls_ctrl s) in
      case x of
        LocalGet i \<Rightarrow> unat i < n
      | LocalSet i \<Rightarrow> unat i < n
      | LocalTee i \<Rightarrow> unat i < n \<and> (rdead s \<or> 1 \<le> ls_h s)
      | Else \<Rightarrow> \<not> c_has_else c \<and> (rdead s \<or> ls_h s = results_h c)
      | End \<Rightarrow> end_typed c \<and> (rdead s \<or> ls_h s = results_h c)
      | Return \<Rightarrow> rdead s \<or> int (unat (le_n_results env)) \<le> ls_h s
      | ReturnCall i \<Rightarrow>
          (case func_arity i (le_func_types env) (le_func_typeidx env) of
             Inl _ \<Rightarrow> False
           | Inr (np, nr) \<Rightarrow> rdead s \<or> int (unat np) \<le> ls_h s)
      | _ \<Rightarrow> True)"

definition env_ok :: "lower_env \<Rightarrow> bool" where
  "env_ok env \<longleftrightarrow>
     types_small env \<and> scratch_ok env \<and> unat (le_n_params env) + unat (le_n_locals env) < 2 ^ 16"

lemma local_index:
  assumes "unat i < unat (le_n_params env) + unat (le_n_locals env)" and "env_ok env"
  shows "(ucast (i :: u32) :: u16) < le_n_params env + le_n_locals env"
proof -
  have "unat (le_n_params env + le_n_locals env) = unat (le_n_params env) + unat (le_n_locals env)"
    using assms(2) by (simp add: env_ok_def unat_word_ariths)
  moreover have "unat (ucast i :: u16) = unat i"
    using assms by (simp add: unsigned_ucast_eq env_ok_def take_bit_nat_eq_self)
  ultimately show ?thesis using assms(1) by (simp add: word_less_nat_alt)
qed

lemma fixed_inv:
  assumes "height_inv env off b s" and "emit_consume x y z pops pushes s = (Inr u, s')" and "small s'"
    and "fixed_effect x = Some (pops, pushes - pops, e)" and "x \<notin> {OP_LOCAL_GET, OP_LOCAL_SET, OP_I64_CONST}"
    and "0 \<le> pops" "0 \<le> pushes" "pushes \<le> pops + 8" "b + 8 \<le> max_height"
  shows "height_inv env off (b + 8) s'"
  using emit_consume_inv [OF assms(1-3) fixed_effect_is [OF assms(4,5)], of "b + 8"] assms(6-) by simp

lemma lower_const_inv:
  assumes I: "height_inv env off b s" and e: "lower_const v s = (Inr u, s')" and len: "small s'" and b: "b + 8 \<le> max_height"
  shows "height_inv env off (b + 8) s'"
proof -
  from e obtain idx s1 where i: "internL v s = (Inr idx, s1)"
    and c: "emit_consume OP_I64_CONST 0 idx 0 1 s1 = (Inr u, s')" by (auto simp: lower_const_def bindS_Inr_iff)
  have small1: "small s1" using keepsD [OF grows_emit_consume c] len by (rule small_before)
  from internL_Inr [OF i] obtain ys where s1: "s1 = s\<lparr>ls_consts := ls_consts s @ ys\<rparr>"
    and idx: "length (ls_consts s @ ys) < 2 ^ 32 \<Longrightarrow> unat idx < length (ls_consts s @ ys)" by blast
  have "unat idx < length (ls_consts s1)" using idx small1 by (simp add: s1 small_def)
  then have "effect_is env s1 (mk_op OP_I64_CONST 0 idx) 0 1" by (rule const_effect_is)
  moreover have "height_inv env off b s1" unfolding s1 using I by (rule height_inv_consts)
  ultimately show ?thesis using emit_consume_inv [OF _ c len] b by simp
qed

text \<open>An instruction without the bookkeeping on \<open>h\<close>.\<close>

lemma inv_at_emit:
  assumes "inv_at env off {} H cur s" and "ls_ctrl s \<noteq> []" and "Suc (length (ls_code s)) < 2 ^ 32"
    and "\<And>x. cur = Some x \<Longrightarrow> cuop_effect (lower_ctx env (length (ls_consts s))) ins x = Inr (True, f x, None) \<and>
           0 \<le> f x \<and> f x \<le> max_height"
  shows "\<exists>H'. inv_at env off {} H' (map_option f cur) (s\<lparr>ls_code := ls_code s @ [ins]\<rparr>)"
proof (cases cur)
  case None
  with Inv_emit [OF assms(1-3), of max_height "length (ls_consts s)" "{}" ins True 0 None] show ?thesis by auto
next
  case (Some x)
  with Inv_emit [OF assms(1-3), of max_height "length (ls_consts s)" "{}" ins True "f x" "Some (f x)"] assms(4)
  show ?thesis by auto
qed

lemma lower_local_tee_inv:
  assumes I: "height_inv env off b s" and e: "lower_local_tee i s = (Inr u, s')" and len: "small s'"
    and b: "b \<le> max_height" and i: "(ucast i :: u16) < le_n_params env + le_n_locals env" and h: "rdead s \<or> 1 \<le> ls_h s"
  shows "height_inv env off b s'"
proof -
  from I obtain H where cs: "ls_ctrl s \<noteq> []" and hb: "heights_below b s"
    and J: "inv_at env off {} H (cur_of s) s" by (rule height_invE)
  let ?s1 = "s\<lparr>ls_code := ls_code s @ [mk_op OP_LOCAL_SET (ucast i) 0]\<rparr>"
  have s': "s' = ?s1\<lparr>ls_code := ls_code ?s1 @ [mk_op OP_LOCAL_GET (ucast i) 0]\<rparr>"
    using e by (auto simp: lower_local_tee_def thenS_Inr_iff)
  have l: "Suc (length (ls_code ?s1)) < 2 ^ 32" "Suc (length (ls_code s)) < 2 ^ 32"
    using len by (simp_all add: small_def s')
  note eff = local_effect_is [OF i, unfolded effect_is_def]
  have live: "1 \<le> x \<and> x \<le> max_height" if "cur_of s = Some x" for x
    using that h hb b by (auto simp: cur_of_def heights_below_def split: if_splits)
  from inv_at_emit [OF J cs l(2), of "mk_op OP_LOCAL_SET (ucast i) 0" "\<lambda>x. x - 1"] eff(2) live
  obtain H1 where J1: "inv_at env off {} H1 (map_option (\<lambda>x. x - 1) (cur_of s)) ?s1" by fastforce
  have "\<exists>H2. inv_at env off {} H2 (map_option (\<lambda>x. x + 1) (map_option (\<lambda>x. x - 1) (cur_of s))) s'"
    unfolding s'
  proof (rule inv_at_emit [OF J1 _ l(1)])
    fix x assume "map_option (\<lambda>x. x - 1) (cur_of s) = Some x"
    then have "0 \<le> x \<and> x + 1 \<le> max_height" using live by auto
    with eff(1) [of ?s1] show "cuop_effect (lower_ctx env (length (ls_consts ?s1))) (mk_op OP_LOCAL_GET (ucast i) 0) x =
        Inr (True, x + 1, None) \<and> 0 \<le> x + 1 \<and> x + 1 \<le> max_height" by simp
  qed (use cs in simp)
  then obtain H2 where "inv_at env off {} H2 (map_option (\<lambda>x. x + 1) (map_option (\<lambda>x. x - 1) (cur_of s))) s'" by blast
  moreover have "map_option (\<lambda>x. x + 1) (map_option (\<lambda>x. x - 1) (cur_of s)) = cur_of s'"
    by (cases "cur_of s") (simp_all add: s')
  ultimately show ?thesis using cs hb by (intro height_invI [of _ b env off H2]) (simp_all add: s')
qed

lemma data_drop_inv:
  assumes I: "height_inv env off b s" and s': "s' = s\<lparr>ls_code := ls_code s @ [mk_op OP_DATA_DROP y z]\<rparr>"
    and len: "small s'" and b: "b \<le> max_height"
  shows "height_inv env off b s'"
proof -
  from I obtain H where cs: "ls_ctrl s \<noteq> []" and hb: "heights_below b s"
    and J: "inv_at env off {} H (cur_of s) s" by (rule height_invE)
  have "0 \<le> x \<and> x \<le> max_height" if "cur_of s = Some x" for x
    using that hb b by (auto simp: cur_of_def heights_below_def split: if_splits)
  then have "\<exists>H'. inv_at env off {} H' (map_option (\<lambda>x. x) (cur_of s)) s'"
    unfolding s' using J cs len
    by (intro inv_at_emit) (auto simp: small_def s' cuop_effect_def switch_effect_def index_checks_def
        fixed_effect_def binops_def)
  then show ?thesis using cs hb by (auto simp: s' option.map_ident intro: height_invI)
qed

text \<open>The arms made of one instruction with a fixed effect.\<close>

fun simple_arm :: "operator \<Rightarrow> (u16 \<times> u16 \<times> u32 \<times> int \<times> int) option" where
  "simple_arm Drop = Some (OP_DROP, 0, 0, 1, 0)"
| "simple_arm Select = Some (OP_SELECT, 0, 0, 3, 1)"
| "simple_arm (TypedSelect t) = Some (OP_SELECT, 0, 0, 3, 1)"
| "simple_arm (I32Op p) = (case i32_lowering p of (x, y, a, r) \<Rightarrow> Some (x, y, 0, a, r))"
| "simple_arm (I64Op p) = (case i64_lowering p of (x, y, a, r) \<Rightarrow> Some (x, y, 0, a, r))"
| "simple_arm (GlobalGet i) = Some (OP_GLOBAL_GET, 0, i, 0, 1)"
| "simple_arm (GlobalSet i) = Some (OP_GLOBAL_SET, 0, i, 1, 0)"
| "simple_arm (LoadOp l m) = Some (OP_LOAD, load_lowering l, ucast (ma_offset m), 1, 1)"
| "simple_arm (StoreOp l m) = Some (OP_STORE, store_lowering l, ucast (ma_offset m), 2, 0)"
| "simple_arm (MemorySize m) = Some (OP_MEMORY_SIZE, 0, 0, 0, 1)"
| "simple_arm (MemoryGrow m) = Some (OP_MEMORY_GROW, 0, 0, 1, 1)"
| "simple_arm (MemoryCopy d m) = Some (OP_MEMORY_COPY, 0, 0, 3, 0)"
| "simple_arm (MemoryFill m) = Some (OP_MEMORY_FILL, 0, 0, 3, 0)"
| "simple_arm (MemoryInit i m) = Some (OP_MEMORY_INIT, ucast i, 0, 3, 0)"
| "simple_arm _ = None"

lemma simple_arm_run:
  assumes "simple_arm x = Some (opc, y, z, pops, pushes)" and "lower_operator env x s = (Inr u, s')"
  shows "emit_consume opc y z pops pushes s = (Inr u, s')"
  using assms
  by (cases x) (auto simp: lower_numeric_def lower_load_def lower_store_def lower_memory_def check_memarg_def
      bindS_Inr_iff split: prod.splits if_splits)

lemma simple_arm_effect:
  assumes "simple_arm x = Some (opc, y, z, pops, pushes)"
  shows "(\<exists>e. fixed_effect opc = Some (pops, pushes - pops, e)) \<and>
     opc \<notin> {OP_LOCAL_GET, OP_LOCAL_SET, OP_I64_CONST} \<and> 0 \<le> pops \<and> 0 \<le> pushes \<and> pushes \<le> pops + 1"
proof (cases x)
  case (I32Op p)
  obtain a b c d where p: "i32_lowering p = (a, b, c, d)" by (metis prod_cases4)
  with assms I32Op have "opc = a" "pops = c" "pushes = d" by auto
  with i32_fixed [OF p] show ?thesis by auto
next
  case (I64Op p)
  obtain a b c d where p: "i64_lowering p = (a, b, c, d)" by (metis prod_cases4)
  with assms I64Op have "opc = a" "pops = c" "pushes = d" by auto
  with i64_fixed [OF p] show ?thesis by auto
qed (use assms in \<open>auto simp: fixed_effect_def binops_def\<close>)

lemma simple_arm_inv:
  assumes "height_inv env off b s" and "lower_operator env x s = (Inr u, s')" and "small s'"
    and "simple_arm x = Some (opc, y, z, pops, pushes)" and "b + 8 \<le> max_height"
  shows "height_inv env off (b + 8) s'"
  using fixed_inv [OF assms(1) simple_arm_run [OF assms(4,2)] assms(3)] simple_arm_effect [OF assms(4)] assms(5)
  by auto

lemma terminator_effects:
  "cuop_effect (lower_ctx env nc) (mk_op OP_UNREACHABLE 0 0) k = Inr (False, k, None)"
  "func_arity i (le_func_types env) (le_func_typeidx env) = Inr (np, nr) \<Longrightarrow> int (unat np) \<le> k \<Longrightarrow>
   cuop_effect (lower_ctx env nc) (mk_op OP_RETURN_CALL 0 i) k = Inr (False, k, None)"
  by (simp_all add: cuop_effect_def switch_effect_def index_checks_def fixed_effect_def binops_def)

theorem lower_operator_inv:
  assumes I: "height_inv env off b s" and e: "lower_operator env x s = (Inr u, s')" and t: "op_typed env x s"
    and env: "env_ok env" and len: "small s'" and b: "b + 8 \<le> max_height"
  shows "height_inv env off (b + 8) s' \<or> done_inv env off s'"
proof (cases "simple_arm x")
  case (Some r)
  then show ?thesis using simple_arm_inv [OF I e len _ b] by (cases r) auto
next
  case None
  have ts: "types_small env" and sc: "scratch_ok env" using env by (simp_all add: env_ok_def)
  have up: "height_inv env off b s' \<Longrightarrow> ?thesis" using height_inv_mono [of env off b s' "b + 8"] by simp
  have cur: "k = ls_h s \<and> \<not> rdead s" if "cur_of s = Some k" for k using that by (simp add: cur_of_def split: if_splits)
  note dead = emit_dead_inv [OF I]
  show ?thesis
  proof (cases x)
    case Nop
    with e up I show ?thesis by simp
  next
    case Unreachable
    with e dead len b terminator_effects(1) show ?thesis
      by (intro up) (auto simp: lower_unreachable_def thenS_Inr_iff small_def)
  next
    case (I64Const v)
    with e lower_const_inv [OF I _ len b] show ?thesis by simp
  next
    case (I32Const v)
    with e lower_const_inv [OF I _ len b] show ?thesis by simp
  next
    case (F32Const v)
    with e lower_const_inv [OF I _ len b] show ?thesis by simp
  next
    case (F64Const v)
    with e lower_const_inv [OF I _ len b] show ?thesis by simp
  next
    case (LocalGet i)
    with t have "(ucast i :: u16) < le_n_params env + le_n_locals env" by (intro local_index env) (simp add: op_typed_def)
    from emit_consume_inv [OF I _ len local_effect_is(1) [OF this]] LocalGet e b show ?thesis by simp
  next
    case (LocalSet i)
    with t have "(ucast i :: u16) < le_n_params env + le_n_locals env" by (intro local_index env) (simp add: op_typed_def)
    from emit_consume_inv [OF I _ len local_effect_is(2) [OF this]] LocalSet e b show ?thesis by simp
  next
    case (LocalTee i)
    with t have "(ucast i :: u16) < le_n_params env + le_n_locals env" by (intro local_index env) (simp add: op_typed_def)
    from lower_local_tee_inv [OF I _ len _ this] LocalTee e b t show ?thesis by (intro up) (simp add: op_typed_def)
  next
    case (Block ty)
    with e push_inv [OF I] block_arity_le [OF _ ts] b show ?thesis
      by (intro up) (auto simp: lower_block_def bindS_Inr_iff)
  next
    case (Loop ty)
    with e push_inv [OF I] block_arity_le [OF _ ts] b show ?thesis
      by (intro up) (auto simp: lower_loop_def bindS_Inr_iff)
  next
    case (If ty)
    with e lower_if_inv [OF I _ ts len] b show ?thesis by (intro up) simp
  next
    case Else
    with e lower_else_inv [OF I _ len b] t show ?thesis by (simp add: op_typed_def Let_def)
  next
    case End
    with e lower_end_inv [OF I _ len b] t show ?thesis by (simp add: op_typed_def Let_def)
  next
    case (Br d)
    with e branch_dead_inv [OF I] len show ?thesis
      by (intro up) (auto simp: lower_br_def thenS_Inr_iff small_def)
  next
    case (BrIf d)
    with e lower_br_if_inv [OF I _ len] b show ?thesis by (intro up) simp
  next
    case (BrTable ts d)
    with e lower_br_table_inv [OF I _ sc len] b show ?thesis by (intro up) simp
  next
    case Return
    have s': "s' = s\<lparr>ls_code := ls_code s @ [mk_op OP_RETURN (le_n_results env) 0], ls_dead := True\<rparr>"
      using e Return by (simp add: lower_return_def thenS_Inr_iff)
    have "cuop_effect (lower_ctx env nc) (mk_op OP_RETURN (le_n_results env) 0) k = Inr (False, k, None)"
      if "cur_of s = Some k" for k nc
      using cur [OF that] t Return by (simp add: end_func_effect op_typed_def)
    then have "height_inv env off b s'" unfolding s' using len b by (intro dead) (simp_all add: s' small_def)
    then show ?thesis by (rule up)
  next
    case (Call i)
    with e lower_call_inv [OF I _ len ts b] show ?thesis by simp
  next
    case (ReturnCall i)
    with t obtain np nr where a: "func_arity i (le_func_types env) (le_func_typeidx env) = Inr (np, nr)"
      and h: "rdead s \<or> int (unat np) \<le> ls_h s"
      using ReturnCall by (auto simp: op_typed_def split: sum.splits)
    have s': "s' = s\<lparr>ls_code := ls_code s @ [mk_op OP_RETURN_CALL 0 i], ls_dead := True\<rparr>"
      using e ReturnCall by (simp add: lower_return_call_def thenS_Inr_iff split: if_splits)
    have "cuop_effect (lower_ctx env nc) (mk_op OP_RETURN_CALL 0 i) k = Inr (False, k, None)"
      if "cur_of s = Some k" for k nc
      using cur [OF that] h by (intro terminator_effects(2) [OF a]) simp
    then have "height_inv env off b s'" unfolding s' using len b by (intro dead) (simp_all add: s' small_def)
    then show ?thesis by (rule up)
  next
    case (CallIndirect ty tb)
    have "length (snd (le_func_types env ! unat ty)) \<le> 8" if "unat ty < length (le_func_types env)"
      using ts nth_mem [OF that] by (simp add: types_small_def)
    with e emit_consume_inv [OF I _ len call_indirect_effect_is [of ty env], of 0 _ "b + 8"] b CallIndirect show ?thesis
      by (auto simp: lower_call_indirect_def Let_def not_le split: if_splits)
  next
    case (DataDrop i)
    with e data_drop_inv [OF I _ len] b show ?thesis by (intro up) (auto simp: thenS_Inr_iff)
  next
    case (ReinterpretOp r)
    with e I show ?thesis by (intro up) (auto simp: consumeL_Inr split: if_splits)
  qed (use e None in \<open>auto split: prod.splits\<close>)
qed

end
