(* ===== verification/Lowered_Verified.thy ===== *)
theory Lowered_Verified
  imports Lowered_Function
begin

text \<open>
  Lowered functions pass the verifier. The heights carried through the lowering become the heights
  the verifier computes, provided the module records the arities the lowering used: those of the
  function table and, for \<open>call_indirect\<close>, those packed in the type fingerprints.
\<close>

unbundle bit_operations_syntax

section \<open>Arities in a type fingerprint\<close>

lemma fp_tags_low:
  "fp_tags sh ts fp = Inr fp' \<Longrightarrow> 16 \<le> sh \<Longrightarrow> take_bit 16 fp' = take_bit 16 fp"
proof (induction ts arbitrary: sh fp)
  case (Cons t ts)
  then obtain g where "fp_tags (sh + 2) ts (fp OR push_bit sh g) = Inr fp'" by auto
  with Cons.IH [OF this] Cons.prems(2) show ?case by (simp add: take_bit_push_bit)
qed simp

lemma small_length:
  assumes "n \<le> 8"
  shows "take_bit 8 (of_nat n :: u64) = of_nat n" and "drop_bit 8 (of_nat n :: u64) = 0"
    and "take_bit 8 (drop_bit 8 (push_bit 8 (of_nat n :: u64))) = of_nat n"
proof -
  have "{n. n \<le> 8} = {0, 1, 2, 3, 4, 5, 6, 7, 8 :: nat}" by auto
  then have "n \<in> {0, 1, 2, 3, 4, 5, 6, 7, 8}" using assms by auto
  then show "take_bit 8 (of_nat n :: u64) = of_nat n" and "drop_bit 8 (of_nat n :: u64) = 0"
    and "take_bit 8 (drop_bit 8 (push_bit 8 (of_nat n :: u64))) = of_nat n"
    unfolding insert_iff empty_iff by (elim disjE; simp)+
qed

lemma packed_lengths:
  assumes "np \<le> 8" and "nr \<le> 8"
  shows "take_bit 8 (of_nat np OR push_bit 8 (of_nat nr) :: u64) = of_nat np"
    and "take_bit 8 (drop_bit 8 (of_nat np OR push_bit 8 (of_nat nr) :: u64)) = of_nat nr"
  using small_length [OF assms(1)] small_length [OF assms(2)] by (simp_all add: take_bit_push_bit)

lemma type_fingerprint_arity:
  assumes "type_fingerprint params results = Inr fp"
  shows "uint (fp AND 0xFF) = int (length params)" and "uint (drop_bit 8 fp AND 0xFF) = int (length results)"
proof -
  have len: "length params \<le> 8" "length results \<le> 8"
    using assms by (auto simp: type_fingerprint_def split: if_splits)
  have low: "take_bit 16 fp = take_bit 16 (of_nat (length params) OR push_bit 8 (of_nat (length results)))"
    using assms fp_tags_low by (auto simp: type_fingerprint_def split: if_splits)
  have and_take: "w AND 0xFF = take_bit 8 (w :: u64)" for w by (simp add: take_bit_eq_mask mask_numeral)
  have "take_bit 8 fp = take_bit 8 (take_bit 16 fp)" by simp
  also have "\<dots> = of_nat (length params)" unfolding low using packed_lengths(1) [OF len] by simp
  finally show "uint (fp AND 0xFF) = int (length params)"
    unfolding and_take using len by (simp add: unsigned_of_nat take_bit_nat_eq_self)
  have "take_bit 8 (drop_bit 8 fp) = drop_bit 8 (take_bit 16 fp)" by (simp add: drop_bit_take_bit)
  also have "\<dots> = of_nat (length results)"
    unfolding low using packed_lengths(2) [OF len] by (simp only: drop_bit_take_bit) simp
  finally show "uint (drop_bit 8 fp AND 0xFF) = int (length results)"
    unfolding and_take using len by (simp add: unsigned_of_nat take_bit_nat_eq_self)
qed

section \<open>The module around the function\<close>

text \<open>
  The finished module holds the code and constants reached after this function, and records the
  arities of every function and type known when it was lowered.
\<close>

definition module_agrees ::
  "host_module \<Rightarrow> cuop list \<Rightarrow> u64 list \<Rightarrow> func_type list \<Rightarrow> u32 list \<Rightarrow> bool" where
  "module_agrees m code consts func_types func_typeidx \<longleftrightarrow>
     take (length code) (hm_code m) = code \<and> length consts \<le> length (hm_consts m) \<and>
     length func_typeidx \<le> length (hm_funcs m) \<and>
     (\<forall>i < length func_typeidx. unat (func_typeidx ! i) < length func_types \<longrightarrow>
        int (unat (fm_n_params (hm_funcs m ! i))) = int (length (fst (func_types ! unat (func_typeidx ! i)))) \<and>
        int (unat (fm_n_results (hm_funcs m ! i))) = int (length (snd (func_types ! unat (func_typeidx ! i))))) \<and>
     length func_types \<le> length (hm_type_fp m) \<and>
     (\<forall>i < length func_types. type_fingerprint (fst (func_types ! i)) (snd (func_types ! i)) = Inr (hm_type_fp m ! i))"

lemma call_arity_agrees:
  assumes "module_agrees m code consts func_types func_typeidx"
    and "\<forall>t \<in> set func_types. length (fst t) \<le> 8 \<and> length (snd t) \<le> 8"
    and "func_arity i func_types func_typeidx = Inr (np, nr)"
  shows "unat i < length (hm_funcs m)"
    and "int (unat (fm_n_params (hm_funcs m ! unat i))) = int (unat np)"
    and "int (unat (fm_n_results (hm_funcs m ! unat i))) = int (unat nr)"
proof -
  have i: "unat i < length func_typeidx" and t: "unat (func_typeidx ! unat i) < length func_types"
    and n: "np = of_nat (length (fst (func_types ! unat (func_typeidx ! unat i))))"
      "nr = of_nat (length (snd (func_types ! unat (func_typeidx ! unat i))))"
    using assms(3) by (auto simp: func_arity_def Let_def split: if_splits)
  have le: "length (fst (func_types ! unat (func_typeidx ! unat i))) \<le> 8 \<and>
      length (snd (func_types ! unat (func_typeidx ! unat i))) \<le> 8" using assms(2) nth_mem [OF t] by auto
  then have u: "unat np = length (fst (func_types ! unat (func_typeidx ! unat i)))"
    "unat nr = length (snd (func_types ! unat (func_typeidx ! unat i)))" unfolding n by simp_all
  show "unat i < length (hm_funcs m)" using assms(1) i by (simp add: module_agrees_def)
  show "int (unat (fm_n_params (hm_funcs m ! unat i))) = int (unat np)"
    and "int (unat (fm_n_results (hm_funcs m ! unat i))) = int (unat nr)"
    unfolding u using assms(1) i t by (simp_all add: module_agrees_def)
qed

lemma effect_agrees:
  assumes ag: "module_agrees m code consts (le_func_types env) (le_func_typeidx env)" and ts: "types_small env"
    and f: "fm_n_params f = le_n_params env" "fm_n_results f = le_n_results env" "fm_n_locals f = le_n_locals env"
    and e: "cuop_effect (lower_ctx env (length consts)) ins x = Inr r"
  shows "cuop_effect (ctx_of m f) ins x = Inr r"
proof -
  let ?vx = "ctx_of m f" and ?lx = "lower_ctx env (length consts)"
  have ctx: "vx_n_params ?vx = vx_n_params ?lx" "vx_n_results ?vx = vx_n_results ?lx" "vx_n_locals ?vx = vx_n_locals ?lx"
    using f by (simp_all add: ctx_of_def)
  have call: "vx_call ?vx i = Some q" if "vx_call ?lx i = Some q" for i q
    using that call_arity_agrees [OF ag ts [unfolded types_small_def], of i]
    by (auto simp: ctx_of_def split: sum.splits)
  have type: "vx_type ?vx i = Some q" if "vx_type ?lx i = Some q" for i q
  proof -
    from that have i: "unat i < length (le_func_types env)" and q: "q = (int (length (fst (le_func_types env ! unat i))),
        int (length (snd (le_func_types env ! unat i))))" by (auto split: if_splits)
    have "type_fingerprint (fst (le_func_types env ! unat i)) (snd (le_func_types env ! unat i)) = Inr (hm_type_fp m ! unat i)"
      and "unat i < length (hm_type_fp m)" using ag i by (simp_all add: module_agrees_def)
    with i q type_fingerprint_arity show ?thesis by (simp add: ctx_of_def)
  qed
  have sw: "switch_effect ?vx ins x = Inr q" if "switch_effect ?lx ins x = Inr q" for q
  proof -
    consider (call) "cu_op ins = OP_CALL" | (ret) "cu_op ins = OP_RETURN_CALL" | (ind) "cu_op ins = OP_CALL_INDIRECT"
      | (other) "cu_op ins \<notin> {OP_CALL, OP_RETURN_CALL, OP_CALL_INDIRECT}" by auto
    then show ?thesis
    proof cases
      case other
      then have no: "(cu_op ins = OP_CALL) = False" "(cu_op ins = OP_RETURN_CALL) = False"
        "(cu_op ins = OP_CALL_INDIRECT) = False" by simp_all
      show ?thesis using that unfolding switch_effect_def ctx no if_False .
    qed (use that call [of "cu_b ins"] type [of "cu_b ins"] in
        \<open>auto simp: switch_effect_def fixed_effect_def binops_def call_effect_def simp del: lower_ctx_simps
          split: option.splits if_splits\<close>)
  qed
  have "length consts \<le> length (hm_consts m)" using ag by (simp add: module_agrees_def)
  then have ix: "index_checks ?vx ins = Inr ()" if "index_checks ?lx ins = Inr ()"
    using that ctx unfolding index_checks_def by (auto simp: ctx_of_def split: if_splits)
  from e sw ix show ?thesis by (auto simp: cuop_effect_def)
qed

section \<open>Whole functions\<close>

fun typed_run :: "lower_env \<Rightarrow> operator list \<Rightarrow> lower_state \<Rightarrow> bool" where
  "typed_run env [] s = True"
| "typed_run env (x # xs) s =
     (op_typed env x s \<and> (case lower_operator env x s of (Inl _, _) \<Rightarrow> True | (Inr _, t) \<Rightarrow> typed_run env xs t))"

lemma lower_loop_inv:
  assumes "forS ops (lower_operator env) s = (Inr u, s')" and "height_inv env off b s" and "typed_run env ops s"
    and "env_ok env" and "small s'" and "b + 8 * int (length ops) \<le> max_height" and "ls_ctrl s' = []"
  shows "done_inv env off s'"
  using assms(1-3,6)
proof (induction ops arbitrary: s b)
  case Nil
  with assms(7) show ?case by (auto simp: height_inv_def)
next
  case (Cons x xs)
  from Cons.prems(1) obtain t where t: "lower_operator env x s = (Inr (), t)"
    and rest: "forS xs (lower_operator env) t = (Inr u, s')" by (auto simp: thenS_Inr_iff)
  have "keeps grows (forS xs (lower_operator env))" by (intro grows_intros grows_operator)
  from keepsD [OF this rest] assms(5) have "small t" by (rule small_before)
  have ty: "op_typed env x s" "typed_run env xs t" using Cons.prems(3) t by simp_all
  have b: "b + 8 \<le> max_height" using Cons.prems(4) by simp
  from lower_operator_inv [OF Cons.prems(2) t ty(1) assms(4) \<open>small t\<close> b]
  show ?case
  proof
    assume "height_inv env off (b + 8) t"
    from Cons.IH [OF rest this ty(2)] Cons.prems(4) show ?thesis by simp
  next
    assume d: "done_inv env off t"
    show ?thesis
    proof (cases xs)
      case Nil
      with rest d show ?thesis by simp
    next
      case (Cons y ys)
      with ty(2) d show ?thesis by (simp add: op_typed_def done_inv_def)
    qed
  qed
qed

lemma init_height_inv:
  assumes "length code < 2 ^ 32" and "le_n_results env = n_results" and "int (unat n_results) \<le> 8"
  shows "height_inv env (length code) 0 (init_state n_results code consts)"
proof -
  let ?c = "func_ctrl (of_nat (length code)) n_results" and ?H = "\<lambda>p. if p = length code then Some (0 :: int) else None"
  have "frame_ok (length code) ?H code max_height (live_upto [?c] 0) ?c"
    using assms(3) by (simp add: frame_ok_def func_ctrl_def)
  then have "Inv env (length code) max_height {} ?H code (length consts) [?c] (Some 0)"
    using assms(1,2) by (intro InvI)
      (simp_all add: cur_ok_def heights_ok_def frames_ok_def func_frame_def ended_def func_ctrl_def)
  then show ?thesis
    by (intro height_invI [of _ _ _ _ ?H]) (simp_all add: init_state_def heights_below_def cur_of_def rdead_def func_ctrl_def)
qed

lemma done_well_heighted:
  assumes d: "done_inv env off s" and off: "off < 2 ^ 32"
    and ag: "module_agrees m (ls_code s) (ls_consts s) (le_func_types env) (le_func_typeidx env)" and ts: "types_small env"
    and f: "fm_n_params f = le_n_params env" "fm_n_results f = le_n_results env" "fm_n_locals f = le_n_locals env"
      "fm_code_off f = of_nat off" "fm_code_len f = of_nat (length (ls_code s)) - of_nat off"
  shows "fn_shape m f" and "\<exists>H. well_heighted m f H"
proof -
  from d obtain H where J: "inv_at env off {} H None s" and cs: "ls_ctrl s = []" by (auto simp: done_inv_def)
  let ?n = "length (ls_code s)"
  have n: "off < ?n" "?n < 2 ^ 32" using InvD(2,9) [OF J] cs by (simp_all add: ended_def)
  have le: "(of_nat off :: u32) \<le> of_nat ?n" using n by (simp add: word_le_nat_alt)
  have uo: "unat (fm_code_off f) = off" using off by (simp add: f)
  have ul: "unat (fm_code_len f) = ?n - off" unfolding f using unat_sub [OF le] n by simp
  have sum: "fm_code_off f + fm_code_len f = of_nat ?n" by (simp add: f)
  have tk: "take ?n (hm_code m) = ls_code s" using ag by (simp add: module_agrees_def)
  then have lm: "?n \<le> length (hm_code m)" by (metis length_take min.cobounded1 nat_le_linear take_all)
  have at: "hm_code m ! (off + p) = ls_code s ! (off + p)" if "p < ?n - off" for p
    using that tk n by (metis less_diff_conv add.commute nth_take)
  have "hm_code m ! (?n - 1) = ls_code s ! (?n - 1)" using at [of "?n - 1 - off"] n by simp
  then show "fn_shape m f"
    using n lm InvD(9) [OF J] cs ul by (auto simp: fn_shape_def uo ul ended_def unat_eq_zero [symmetric])
  have "well_heighted m f (\<lambda>p. H (off + p))"
    unfolding well_heighted_def
  proof (intro conjI allI impI)
    show "H (off + 0) = Some 0" using InvD(4) [OF J] by simp
  next
    fix p x assume p: "p < unat (fm_code_len f)" and x: "H (off + p) = Some x"
    have p': "p < ?n - off" using p ul by simp
    with heights_okD [OF InvD(6) [OF J], of "off + p" x] x cs
    have "ins_ok (lower_ctx env (length (ls_consts s))) off H ?n True {} (ls_code s ! (off + p)) (off + p) x"
      by (simp add: pending_def)
    then obtain fall nh tgt where
      e: "cuop_effect (lower_ctx env (length (ls_consts s))) (ls_code s ! (off + p)) x = Inr (fall, nh, tgt)"
      and fl: "fall \<longrightarrow> H (Suc (off + p)) = Some nh"
      and tg: "\<And>t th. tgt = Some (t, th) \<Longrightarrow> target_ok off H ?n True (unat t) th"
      unfolding ins_ok_def by auto
    have "cuop_effect (ctx_of m f) (hm_code m ! (unat (fm_code_off f) + p)) x = Inr (fall, nh, tgt)"
      using effect_agrees [OF ag ts f(1-3) e] at [OF p'] uo by simp
    moreover have "fall \<longrightarrow> p + 1 < unat (fm_code_len f) \<and> H (off + (p + 1)) = Some nh"
    proof
      assume fall
      then have h: "H (Suc (off + p)) = Some nh" using fl by simp
      moreover have "Suc (off + p) \<noteq> ?n" using h InvD(3) [OF J] by auto
      ultimately show "p + 1 < unat (fm_code_len f) \<and> H (off + (p + 1)) = Some nh" using p' ul by simp
    qed
    moreover have "fm_code_off f \<le> t \<and> t < fm_code_off f + fm_code_len f \<and> H (off + unat (t - fm_code_off f)) = Some th"
      if "tgt = Some (t, th)" for t th
    proof -
      have t: "off \<le> unat t" "unat t < ?n" "H (unat t) = Some th" using tg [OF that] by (simp_all add: target_ok_def)
      have "fm_code_off f \<le> t" using t uo by (simp add: word_le_nat_alt)
      moreover have "t < fm_code_off f + fm_code_len f" unfolding sum using t n by (simp add: word_less_nat_alt)
      moreover have "off + unat (t - fm_code_off f) = unat t" using unat_sub [OF \<open>fm_code_off f \<le> t\<close>] uo t by simp
      ultimately show ?thesis using t by simp
    qed
    ultimately show "\<exists>fall nh tgt.
       cuop_effect (ctx_of m f) (hm_code m ! (unat (fm_code_off f) + p)) x = Inr (fall, nh, tgt) \<and>
       (fall \<longrightarrow> p + 1 < unat (fm_code_len f) \<and> H (off + (p + 1)) = Some nh) \<and>
       (\<forall>t th. tgt = Some (t, th) \<longrightarrow>
          fm_code_off f \<le> t \<and> t < fm_code_off f + fm_code_len f \<and> H (off + unat (t - fm_code_off f)) = Some th)"
      by blast
  qed
  then show "\<exists>H. well_heighted m f H" by blast
qed

lemma make_env_ok:
  assumes "\<forall>t \<in> set func_types. length (fst t) \<le> 8 \<and> length (snd t) \<le> 8" and "unat n_params + unat n_locals < 65535"
  shows "env_ok (make_env ops n_params n_results n_locals func_types func_typeidx n_imports host_fn_ids)"
proof -
  let ?nl = "saturating_add1 n_locals"
  have nl: "?nl = n_locals + 1" and u: "unat ?nl = unat n_locals + 1"
  proof -
    have "n_locals \<noteq> 0xFFFF" using assms(2) by auto
    then show eq: "?nl = n_locals + 1" by (simp add: saturating_add1_def)
    show "unat ?nl = unat n_locals + 1" unfolding eq using assms(2) by (simp add: unat_word_ariths)
  qed
  have "unat (n_params + ?nl) = unat n_params + unat n_locals + 1" using assms(2) u by (simp add: unat_word_ariths)
  moreover have "unat (n_params + ?nl - 1) = unat n_params + unat n_locals" unfolding nl using assms(2)
    by (simp add: unat_word_ariths)
  ultimately have "n_params + ?nl - 1 < n_params + ?nl" by (simp add: word_less_nat_alt)
  then show ?thesis using assms u by (auto simp: env_ok_def make_env_def types_small_def scratch_ok_def Let_def)
qed

lemma lowered_function_accepted:
  assumes low: "lower_operators ops n_params n_results n_locals code consts func_types func_typeidx n_imports
      host_fn_ids = (Inr fm, code', consts')"
    and ty: "typed_run (make_env ops n_params n_results n_locals func_types func_typeidx n_imports host_fn_ids) ops
      (init_state n_results code consts)"
    and types: "\<forall>t \<in> set func_types. length (fst t) \<le> 8 \<and> length (snd t) \<le> 8" and res: "unat n_results \<le> 8"
    and locals: "unat n_params + unat n_locals < 65535" and ops: "length ops \<le> 2 ^ 26"
    and size: "length code' < 2 ^ 32" "length consts' < 2 ^ 32"
    and ag: "module_agrees m code' consts' func_types func_typeidx"
  shows "fn_shape m fm \<and> (\<exists>H. well_heighted m fm H) \<and>
    ((\<exists>f'. verify_fn m fi fm = Inr f') \<or> verify_fn m fi fm = Inl ''max_stack overflow'')"
proof -
  let ?env = "make_env ops n_params n_results n_locals func_types func_typeidx n_imports host_fn_ids"
  have proj: "le_n_params ?env = n_params" "le_n_results ?env = n_results" "le_func_types ?env = func_types"
    "le_func_typeidx ?env = func_typeidx" by (simp_all add: make_env_def Let_def)
  obtain r s where run: "forS ops (lower_operator ?env) (init_state n_results code consts) = (r, s)" by fastforce
  have ok: "r = Inr ()" "ls_ctrl s = []" and out: "code' = ls_code s" "consts' = ls_consts s"
    and fm: "fm = \<lparr>fm_code_off = of_nat (length code), fm_code_len = of_nat (length (ls_code s)) - of_nat (length code),
        fm_n_params = n_params, fm_n_results = n_results, fm_n_locals = le_n_locals ?env, fm_max_stack = 0\<rparr>"
    using low run by (auto simp: lower_operators_def Let_def split: if_splits)
  have env: "env_ok ?env" using types locals by (rule make_env_ok)
  have small: "small s" using size by (simp add: small_def out)
  have "keeps grows (forS ops (lower_operator ?env))" by (intro grows_intros grows_operator)
  from keepsD [OF this run] small have len: "length code < 2 ^ 32"
    by (simp add: grows_def small_def init_state_def)
  have "int (unat n_results) \<le> 8" using res by (simp del: of_nat_unat)
  then have "height_inv ?env (length code) 0 (init_state n_results code consts)"
    using len proj(2) by (intro init_height_inv)
  moreover have "0 + 8 * int (length ops) \<le> max_height" using ops by simp
  ultimately have "done_inv ?env (length code) s"
    using lower_loop_inv [OF run [unfolded ok(1)] _ ty env small _ ok(2)] by blast
  moreover have "types_small ?env" using env by (simp add: env_ok_def)
  ultimately have "fn_shape m fm" and H: "\<exists>H. well_heighted m fm H"
    using done_well_heighted [of ?env "length code" s m fm] len ag out proj by (simp_all add: fm)
  then show ?thesis using verify_fn_accepts by blast
qed

text \<open>
  C6. The verifier accepts what the translator emits. Take any function body that
  \<open>lower_operators\<close> lowers without error, whose operators are typed as validation guarantees, with
  types of at most eight parameters and results, fewer than 65535 parameters and locals, at most
  \<open>2 ^ 26\<close> operators and code and constants within the 32-bit indices. In every module that contains
  the lowered code and constants and records the arities the lowering used, the function has the
  shape the verifier wants, its program counters have consistent stack heights, and \<open>verify_fn\<close>
  accepts it, or rejects it only because its frame exceeds 65535 slots.
\<close>

theorem lowered_function_verified:
  assumes low: "lower_operators ops n_params n_results n_locals code consts func_types func_typeidx n_imports
      host_fn_ids = (Inr fm, code', consts')"
    and ty: "typed_run (make_env ops n_params n_results n_locals func_types func_typeidx n_imports host_fn_ids) ops
      (init_state n_results code consts)"
    and types: "\<forall>t \<in> set func_types. length (fst t) \<le> 8 \<and> length (snd t) \<le> 8" and res: "unat n_results \<le> 8"
    and locals: "unat n_params + unat n_locals < 65535" and ops: "length ops \<le> 2 ^ 26"
    and size: "length code' < 2 ^ 32" "length consts' < 2 ^ 32"
    and ag: "module_agrees m code' consts' func_types func_typeidx"
  shows "fn_shape m fm \<and> (\<exists>H. well_heighted m fm H) \<and>
    ((\<exists>f'. verify_fn m fi fm = Inr f') \<or> verify_fn m fi fm = Inl ''max_stack overflow'')"
  using assms by (rule lowered_function_accepted)

text \<open>A body with a two-armed \<open>if\<close>, a block and branches, in a module of one function.\<close>

definition sample_ops :: "operator list" where
  "sample_ops =
     [LocalGet 0, If (BT_Type I64), I64Const 5, Else, Block BT_Empty, LocalGet 0, BrIf 0, I64Const 9, Br 1, End,
      I64Const 7, End, End]"

definition sample_types :: "func_type list" where
  "sample_types = [([I64], [I64])]"

definition sample_lowered :: "(error + func_meta) \<times> cuop list \<times> u64 list" where
  "sample_lowered = lower_operators sample_ops 1 1 0 [] [] sample_types [0] 0 []"

definition sample_fn :: func_meta where
  "sample_fn = (case fst sample_lowered of Inl _ \<Rightarrow> tiny_fn | Inr fm \<Rightarrow> fm)"

definition sample_module :: host_module where
  "sample_module = empty_module
     \<lparr>hm_code := fst (snd sample_lowered), hm_consts := snd (snd sample_lowered), hm_funcs := [sample_fn],
      hm_type_fp := [(case type_fingerprint [I64] [I64] of Inl _ \<Rightarrow> 0 | Inr fp \<Rightarrow> fp)]\<rparr>"

lemma sample_low: "lower_operators sample_ops 1 1 0 [] [] sample_types [0] 0 [] =
    (Inr sample_fn, hm_code sample_module, hm_consts sample_module)"
  by code_simp

lemma sample_typed: "typed_run (make_env sample_ops 1 1 0 sample_types [0] 0 []) sample_ops (init_state 1 [] [])"
  by code_simp

lemma sample_agrees: "module_agrees sample_module (hm_code sample_module) (hm_consts sample_module) sample_types [0]"
  by code_simp

lemma sample_lengths: "length (hm_code sample_module) \<le> 20" "length (hm_consts sample_module) \<le> 20"
  by code_simp+

lemma sample_sizes:
  "\<forall>t \<in> set sample_types. length (fst t) \<le> 8 \<and> length (snd t) \<le> 8" "unat (1 :: u16) \<le> 8"
  "unat (1 :: u16) + unat (0 :: u16) < 65535" "length sample_ops \<le> 2 ^ 26"
  "length (hm_code sample_module) < 2 ^ 32" "length (hm_consts sample_module) < 2 ^ 32"
  using sample_lengths by (simp_all add: sample_types_def sample_ops_def)

lemma lowered_function_verified_witness:
  "fn_shape sample_module sample_fn \<and> (\<exists>H. well_heighted sample_module sample_fn H) \<and>
   ((\<exists>f'. verify_fn sample_module 0 sample_fn = Inr f') \<or>
    verify_fn sample_module 0 sample_fn = Inl ''max_stack overflow'')"
  by (rule lowered_function_verified [OF sample_low sample_typed sample_sizes sample_agrees])

end
