(* ===== verification/Lowering_Frame.thy ===== *)
theory Lowering_Frame
  imports Lowering
begin

text \<open>
  What lowering one function leaves alone, whatever the operators are and whether it succeeds:
  the code emitted for earlier functions, the constants already in the pool. And it never panics:
  every program counter it patches was recorded when the instruction was emitted.
\<close>

section \<open>Recorded program counters\<close>

definition pcs :: "ctrl \<Rightarrow> u32 set" where
  "pcs c = set (c_patches c) \<union> set_option (c_else_br c) \<union> set_option (c_br_if_not c)"

text \<open>
  A recorded program counter is in range; it is that of a branch of this function as long as the code
  has not outgrown the 32-bit program counter.
\<close>

abbreviation is_branch :: "cuop \<Rightarrow> bool" where
  "is_branch x \<equiv> cu_op x = OP_BR \<or> cu_op x = OP_BR_IF_NOT"

definition recorded :: "nat \<Rightarrow> cuop list \<Rightarrow> u32 \<Rightarrow> bool" where
  "recorded off code p \<longleftrightarrow>
     unat p < length code \<and> (length code < 2 ^ 32 \<longrightarrow> off \<le> unat p \<and> is_branch (code ! unat p))"

definition all_recorded :: "nat \<Rightarrow> cuop list \<Rightarrow> ctrl list \<Rightarrow> bool" where
  "all_recorded off code cs \<longleftrightarrow> (\<forall>c \<in> set cs. \<forall>p \<in> pcs c. recorded off code p)"

text \<open>
  What lowering promises of an instruction beyond the stack effects the verifier checks: the width of a
  count of leading zeros, that a call goes to a function of the module, and that the numbers of
  arguments and results in a host call are those of an import.
\<close>

definition call_ok :: "lower_env \<Rightarrow> cuop \<Rightarrow> bool" where
  "call_ok env x \<longleftrightarrow>
     (cu_op x = OP_CLZ \<longrightarrow> cu_a x = 32 \<or> cu_a x = 64) \<and>
     (cu_op x = OP_CALL \<or> cu_op x = OP_RETURN_CALL \<longrightarrow> le_n_imports env \<le> cu_b x) \<and>
     (cu_op x = OP_CALL_HOST \<longrightarrow>
        (\<exists>i < le_n_imports env. \<exists>np nr. func_arity i (le_func_types env) (le_func_typeidx env) = Inr (np, nr) \<and>
           cu_a x = np OR push_bit 8 nr))"

definition frame_inv :: "lower_env \<Rightarrow> cuop list \<Rightarrow> u64 list \<Rightarrow> lower_state \<Rightarrow> bool" where
  "frame_inv env code0 consts0 s \<longleftrightarrow>
     length code0 \<le> length (ls_code s) \<and>
     (length (ls_code s) < 2 ^ 32 \<longrightarrow> take (length code0) (ls_code s) = code0 \<and>
        list_all (call_ok env) (drop (length code0) (ls_code s))) \<and>
     (\<exists>ys. ls_consts s = consts0 @ ys \<and> (distinct consts0 \<longrightarrow> distinct (consts0 @ ys))) \<and>
     all_recorded (length code0) (ls_code s) (ls_ctrl s)"

text \<open>With additional program counters that no frame holds yet or any more.\<close>

definition frame_inv_with :: "lower_env \<Rightarrow> cuop list \<Rightarrow> u64 list \<Rightarrow> u32 set \<Rightarrow> lower_state \<Rightarrow> bool" where
  "frame_inv_with env code0 consts0 P s \<longleftrightarrow>
     frame_inv env code0 consts0 s \<and> (\<forall>p \<in> P. recorded (length code0) (ls_code s) p)"

lemma frame_inv_with_empty [simp]: "frame_inv_with env code0 consts0 {} = frame_inv env code0 consts0"
  by (simp add: frame_inv_with_def fun_eq_iff)

definition no_panic :: "lower_env \<Rightarrow> cuop list \<Rightarrow> u64 list \<Rightarrow> error \<Rightarrow> lower_state \<Rightarrow> bool" where
  "no_panic env code0 consts0 e s \<longleftrightarrow> \<not> is_panic e \<and> frame_inv env code0 consts0 s"

lemma recorded_append: "recorded off code p \<Longrightarrow> recorded off (code @ xs) p"
  by (auto simp: recorded_def nth_append)

lemma recorded_update: "cu_op x = cu_op (code ! i) \<Longrightarrow> recorded off (code[i := x]) p = recorded off code p"
  by (cases "i = unat p") (auto simp: recorded_def)

lemma recorded_new: "off \<le> length code \<Longrightarrow> is_branch x \<Longrightarrow> recorded off (code @ [x]) (of_nat (length code))"
proof -
  assume "off \<le> length code" "is_branch x"
  have "unat (of_nat (length code) :: u32) \<le> length code"
    by (simp add: unat_of_nat take_bit_nat_less_eq_self)
  then show ?thesis using \<open>off \<le> length code\<close> \<open>is_branch x\<close> by (auto simp: recorded_def)
qed

lemma all_recorded_append: "all_recorded off code cs \<Longrightarrow> all_recorded off (code @ xs) cs"
  by (auto simp: all_recorded_def intro: recorded_append)

lemma all_recorded_ctrl:
  "all_recorded off code cs \<Longrightarrow> (\<And>c. c \<in> set cs' \<Longrightarrow> c \<in> set cs \<or> (\<forall>p \<in> pcs c. recorded off code p)) \<Longrightarrow>
   all_recorded off code cs'"
  by (auto simp: all_recorded_def)

lemma frame_inv_append:
  "frame_inv env code0 consts0 s \<Longrightarrow> list_all (call_ok env) xs \<Longrightarrow> frame_inv env code0 consts0 (s\<lparr>ls_code := ls_code s @ xs\<rparr>)"
  by (auto simp: frame_inv_def intro: all_recorded_append)

lemma call_ok_simps [simp]:
  "x \<notin> {OP_CLZ, OP_CALL, OP_RETURN_CALL, OP_CALL_HOST} \<Longrightarrow> call_ok env (mk_op x y z)"
  "call_ok env (mk_op OP_CALL y z) \<longleftrightarrow> le_n_imports env \<le> z" "call_ok env (mk_op OP_RETURN_CALL y z) \<longleftrightarrow> le_n_imports env \<le> z"
  by (auto simp: call_ok_def)

lemma call_ok_i32: "i32_lowering p = (x, y, pops, pushes) \<Longrightarrow> call_ok env (mk_op x y z)"
  by (cases p) (auto simp: call_ok_def)

lemma call_ok_i64: "i64_lowering q = (x, y, pops, pushes) \<Longrightarrow> call_ok env (mk_op x y z)"
  by (cases q) (auto simp: call_ok_def)

lemma call_ok_branch: "is_branch x \<Longrightarrow> call_ok env x"
  by (auto simp: call_ok_def)

lemma frame_inv_ctrl:
  assumes "frame_inv env code0 consts0 s"
    and "\<And>c p. c \<in> set cs \<Longrightarrow> p \<in> pcs c \<Longrightarrow> (\<exists>d \<in> set (ls_ctrl s). p \<in> pcs d) \<or> recorded (length code0) (ls_code s) p"
  shows "frame_inv env code0 consts0 (s\<lparr>ls_ctrl := cs\<rparr>)"
  using assms unfolding frame_inv_def all_recorded_def lower_state.simps by (simp, blast)

section \<open>The primitives\<close>

abbreviation frame_ok_step :: "lower_env \<Rightarrow> cuop list \<Rightarrow> u64 list \<Rightarrow> u32 set \<Rightarrow> 'r lower \<Rightarrow> bool" where
  "frame_ok_step env code0 consts0 P m \<equiv>
     triple (frame_inv_with env code0 consts0 P) m (\<lambda>_. frame_inv_with env code0 consts0 P) (no_panic env code0 consts0)"

lemma step_emit:
  assumes "call_ok env (mk_op x y z)"
  shows "triple (frame_inv_with env code0 consts0 P) (emitL x y z)
    (\<lambda>pc. frame_inv_with env code0 consts0 (if x = OP_BR \<or> x = OP_BR_IF_NOT then insert pc P else P)) (no_panic env code0 consts0)"
proof -
  have new: "recorded (length code0) (ls_code s @ [mk_op x y z]) (of_nat (length (ls_code s)))"
    if "frame_inv env code0 consts0 s" "x = OP_BR \<or> x = OP_BR_IF_NOT" for s
    using that by (intro recorded_new) (auto simp: frame_inv_def)
  show ?thesis using assms new
    by (auto simp: triple_def emitL_def emit_def frame_inv_with_def intro: frame_inv_append recorded_append)
qed

lemma step_emit_branch:
  assumes "x = OP_BR \<or> x = OP_BR_IF_NOT"
  shows "triple (frame_inv_with env code0 consts0 P) (emitL x y z)
    (\<lambda>pc. frame_inv_with env code0 consts0 (insert pc P)) (no_panic env code0 consts0)"
  using step_emit [OF call_ok_branch, of x y z env code0 consts0 P] assms by simp

lemma with_mono: "frame_inv_with env code0 consts0 P s \<Longrightarrow> P' \<subseteq> P \<Longrightarrow> frame_inv_with env code0 consts0 P' s"
  by (auto simp: frame_inv_with_def)

lemma frame_inv_patch:
  assumes "frame_inv env code0 consts0 s" and "recorded (length code0) (ls_code s) pc"
  shows "frame_inv env code0 consts0 (s\<lparr>ls_code := (ls_code s)[unat pc := (ls_code s ! unat pc)\<lparr>cu_b := z\<rparr>]\<rparr>)"
proof -
  let ?x = "(ls_code s ! unat pc)\<lparr>cu_b := z\<rparr>"
  have "take (length code0) ((ls_code s)[unat pc := ?x]) = code0 \<and> list_all (call_ok env) (drop (length code0) ((ls_code s)[unat pc := ?x]))"
    if "length (ls_code s) < 2 ^ 32"
  proof -
    have "call_ok env ?x" using assms(2) that by (intro call_ok_branch) (simp add: recorded_def)
    moreover have "length code0 \<le> unat pc" using assms(2) that by (simp add: recorded_def)
    ultimately show ?thesis using assms(1) that
      by (simp add: frame_inv_def drop_update_swap list_all_update)
  qed
  then show ?thesis using assms(1) by (auto simp: frame_inv_def all_recorded_def recorded_update)
qed

lemma step_patch:
  assumes "pc \<in> P"
  shows "frame_ok_step env code0 consts0 P (patchL pc z)"
proof -
  have "unat pc < length (ls_code s)" if "frame_inv_with env code0 consts0 P s" for s
    using that assms by (auto simp: frame_inv_with_def recorded_def)
  then show ?thesis using assms
    by (auto simp: triple_def patchL_def patch_b_def frame_inv_with_def frame_inv_patch recorded_update split: sum.splits)
qed

lemma step_intern: "frame_ok_step env code0 consts0 P (internL v)"
proof -
  have "\<exists>ys. q = consts0 @ ys \<and> (distinct consts0 \<longrightarrow> distinct (consts0 @ ys))"
    if "intern (consts0 @ xs) v = (i, q)" "distinct consts0 \<longrightarrow> distinct (consts0 @ xs)" for xs i q
    using that by (cases rule: intern_cases) auto
  then show ?thesis
    by (fastforce simp: triple_def internL_def frame_inv_with_def frame_inv_def split: prod.splits)
qed

lemma step_consume: "frame_ok_step env code0 consts0 P (consumeL pops pushes)"
  by (auto simp: triple_def consumeL_def consume_def frame_inv_with_def frame_inv_def no_panic_def)

lemma step_unwind: "frame_ok_step env code0 consts0 P (unwindL env i)"
  by (auto simp: triple_def unwindL_def emit_unwind_def emit_def Let_def frame_inv_with_def no_panic_def
      call_ok_def recorded_append intro!: frame_inv_append)

lemma step_resolve: "triple (frame_inv_with env code0 consts0 P) (resolveL d)
    (\<lambda>i s. i < length (ls_ctrl s) \<and> frame_inv_with env code0 consts0 P s) (no_panic env code0 consts0)"
  by (auto simp: triple_def resolveL_def resolve_br_def frame_inv_with_def no_panic_def)

lemma step_jump: "triple (\<lambda>s. i < length (ls_ctrl s) \<and> frame_inv_with env code0 consts0 P s) (jumpL i)
    (\<lambda>_. frame_inv_with env code0 consts0 P) (no_panic env code0 consts0)"
proof -
  have "frame_inv env code0 consts0 (s\<lparr>ls_code := ls_code s @ [x],
      ls_ctrl := (ls_ctrl s)[i := (ls_ctrl s ! i)\<lparr>c_patches := c_patches (ls_ctrl s ! i) @ [of_nat (length (ls_code s))]\<rparr>]\<rparr>)"
    if "frame_inv env code0 consts0 s" "i < length (ls_ctrl s)" "is_branch x" for s x
  proof -
    have new: "recorded (length code0) (ls_code s @ [x]) (of_nat (length (ls_code s)))"
      using that by (intro recorded_new) (simp add: frame_inv_def)
    let ?c = "(ls_ctrl s ! i)\<lparr>c_patches := c_patches (ls_ctrl s ! i) @ [of_nat (length (ls_code s))]\<rparr>"
    have "pcs ?c = insert (of_nat (length (ls_code s))) (pcs (ls_ctrl s ! i))" by (auto simp: pcs_def)
    then have "(\<exists>d \<in> set (ls_ctrl s). p \<in> pcs d) \<or> recorded (length code0) (ls_code s @ [x]) p"
      if "c \<in> set ((ls_ctrl s)[i := ?c])" "p \<in> pcs c" for c p
      using that new \<open>i < length (ls_ctrl s)\<close> set_update_subset_insert [of "ls_ctrl s" i ?c] by (auto dest!: subsetD)
    then show ?thesis
      using frame_inv_ctrl [OF frame_inv_append [OF that(1), of "[x]"], of "(ls_ctrl s)[i := ?c]"] call_ok_branch [OF that(3)] by simp
  qed
  then show ?thesis
    by (auto simp: triple_def jumpL_def emit_jump_def emit_def frame_inv_with_def frame_inv_append recorded_append call_ok_branch)
qed

lemma step_emit_drop: "call_ok env (mk_op x y z) \<Longrightarrow> frame_ok_step env code0 consts0 P (emitL x y z)"
  by (rule triple_weaken [OF step_emit]) (auto intro: with_mono split: if_splits)

lemma step_pure:
  "\<not> is_panic e \<Longrightarrow> frame_ok_step env code0 consts0 P (fail e)" "frame_ok_step env code0 consts0 P (ret x)"
  "(\<And>e. r = Inl e \<Longrightarrow> \<not> is_panic e) \<Longrightarrow> frame_ok_step env code0 consts0 P (liftS r)"
  "frame_ok_step env code0 consts0 P code_lenL" "frame_ok_step env code0 consts0 P set_dead"
  "frame_ok_step env code0 consts0 P (modifyS (\<lambda>s. s\<lparr>ls_h := h, ls_dead := d\<rparr>))"
  by (auto simp: triple_def no_panic_def frame_inv_with_def frame_inv_def code_lenL_def set_dead_def split: sum.split)

lemma step_push: "frame_ok_step env code0 consts0 P (push_ctrlL k np nr)"
  by (auto simp: triple_def push_ctrlL_def push_ctrl_def Let_def no_panic_def frame_inv_with_def pcs_def
      intro!: frame_inv_ctrl)

lemma step_update_last:
  assumes "\<And>c. pcs (f c) \<subseteq> P \<union> pcs c"
  shows "frame_ok_step env code0 consts0 P (update_last f)"
proof -
  have "frame_inv env code0 consts0 (s\<lparr>ls_ctrl := if ls_ctrl s = [] then [] else butlast (ls_ctrl s) @ [f (last (ls_ctrl s))]\<rparr>)"
    if "frame_inv_with env code0 consts0 P s" for s
  proof (rule frame_inv_ctrl)
    show "frame_inv env code0 consts0 s" using that by (simp add: frame_inv_with_def)
    fix c p
    assume c: "c \<in> set (if ls_ctrl s = [] then [] else butlast (ls_ctrl s) @ [f (last (ls_ctrl s))])" "p \<in> pcs c"
    show "(\<exists>d \<in> set (ls_ctrl s). p \<in> pcs d) \<or> recorded (length code0) (ls_code s) p"
    proof -
      have "c \<in> set (ls_ctrl s) \<or> ls_ctrl s \<noteq> [] \<and> c = f (last (ls_ctrl s))"
        using c(1) by (auto dest: in_set_butlastD split: if_splits)
      then show ?thesis using c(2) that assms last_in_set unfolding frame_inv_with_def by blast
    qed
  qed
  then show ?thesis by (auto simp: triple_def update_last_def frame_inv_with_def)
qed

lemma step_last: "triple (frame_inv_with env code0 consts0 P) (last_ctrlL e)
    (\<lambda>c. frame_inv_with env code0 consts0 (pcs c \<union> P)) (no_panic env code0 consts0)"
  by (auto simp: triple_def last_ctrlL_def frame_inv_with_def no_panic_def frame_inv_def all_recorded_def)

lemma step_pop: "triple (frame_inv env code0 consts0) (pop_ctrlL e)
    (\<lambda>c. frame_inv_with env code0 consts0 (pcs c)) (no_panic env code0 consts0)"
  by (auto simp: triple_def pop_ctrlL_def frame_inv_with_def no_panic_def frame_inv_def all_recorded_def
      dest: in_set_butlastD)

section \<open>The arms\<close>

lemma step_bind:
  "frame_ok_step env code0 consts0 P m \<Longrightarrow> (\<And>x. frame_ok_step env code0 consts0 P (f x)) \<Longrightarrow> frame_ok_step env code0 consts0 P (bindS m f)"
  by (rule triple_bindS)

lemma step_then:
  "frame_ok_step env code0 consts0 P m \<Longrightarrow> frame_ok_step env code0 consts0 P k \<Longrightarrow> frame_ok_step env code0 consts0 P (thenS m k)"
  by (rule triple_thenS)

lemma step_pair: "(\<And>x y. frame_ok_step env code0 consts0 P (f x y)) \<Longrightarrow> frame_ok_step env code0 consts0 P (case p of (x, y) \<Rightarrow> f x y)"
  by (cases p) simp

lemma step_option:
  "frame_ok_step env code0 consts0 P m \<Longrightarrow> (\<And>x. r = Some x \<Longrightarrow> frame_ok_step env code0 consts0 P (f x)) \<Longrightarrow>
   frame_ok_step env code0 consts0 P (case r of None \<Rightarrow> m | Some x \<Rightarrow> f x)"
  by (cases r) simp_all

lemma step_lift:
  "(\<And>e. r = Inl e \<Longrightarrow> \<not> is_panic e) \<Longrightarrow> (\<And>x. r = Inr x \<Longrightarrow> frame_ok_step env code0 consts0 P (f x)) \<Longrightarrow>
   frame_ok_step env code0 consts0 P (bindS (liftS r) f)"
  by (cases r) (auto simp: triple_def no_panic_def frame_inv_with_def bindS_def)

lemma step_emit_consume:
  "call_ok env (mk_op x y z) \<Longrightarrow> frame_ok_step env code0 consts0 P (emit_consume x y z pops pushes)"
  unfolding emit_consume_def by (intro step_then step_emit_drop step_consume)

lemma step_branch_to: "frame_ok_step env code0 consts0 P (branch_to env d)"
  unfolding branch_to_def
proof (rule triple_bindS [OF step_resolve])
  fix i
  have u: "ls_ctrl (snd (unwindL env i s)) = ls_ctrl s" for s
    by (auto simp: unwindL_def split: sum.splits)
  have "triple (\<lambda>s. i < length (ls_ctrl s) \<and> frame_inv_with env code0 consts0 P s) (unwindL env i)
      (\<lambda>_ s. i < length (ls_ctrl s) \<and> frame_inv_with env code0 consts0 P s) (no_panic env code0 consts0)"
    using step_unwind [of env code0 consts0 P i] u unfolding triple_def
    by (fastforce split: prod.splits sum.splits dest: arg_cong [of _ _ snd])
  then show "triple (\<lambda>s. i < length (ls_ctrl s) \<and> frame_inv_with env code0 consts0 P s)
      (thenS (unwindL env i) (jumpL i)) (\<lambda>_. frame_inv_with env code0 consts0 P) (no_panic env code0 consts0)"
    using step_jump by (rule triple_thenS)
qed

lemma step_weaken: "frame_ok_step env code0 consts0 Q m \<Longrightarrow> P \<subseteq> Q \<Longrightarrow>
   triple (frame_inv_with env code0 consts0 Q) m (\<lambda>_. frame_inv_with env code0 consts0 P) (no_panic env code0 consts0)"
  by (erule triple_weaken) (auto intro: with_mono)

lemma step_branch_if: "frame_ok_step env code0 consts0 P (branch_if env d)"
  unfolding branch_if_def
  by (rule triple_bindS [OF step_emit_branch], simp, rule step_weaken, intro step_then step_bind step_branch_to step_pure step_patch)
    auto

lemma step_br_table_case: "frame_ok_step env code0 consts0 P (br_table_case env scratch r)"
  unfolding br_table_case_def
  by (intro step_pair step_bind step_then step_intern step_emit_consume step_consume step_branch_if) simp_all

lemma step_else: "frame_ok_step env code0 consts0 {} lower_else"
  unfolding lower_else_def
proof (rule triple_bindS [OF step_last])
  fix c :: ctrl
  let ?body = "\<lambda>br. thenS (update_last (\<lambda>c. c\<lparr>c_else_br := Some br, c_has_else := True\<rparr>))
       (thenS (case c_br_if_not c of Some if_pc \<Rightarrow> bindS code_lenL (\<lambda>dest. patchL if_pc dest) | None \<Rightarrow> ret ())
         (modifyS (\<lambda>s. s\<lparr>ls_h := c_base c + int (unat (c_n_params c)), ls_dead := False\<rparr>)))"
  have "frame_ok_step env code0 consts0 (insert br (pcs c \<union> {})) (?body br)" for br
    by (intro step_then step_update_last step_option step_bind step_pure step_patch) (auto simp: pcs_def)
  then have "frame_ok_step env code0 consts0 (pcs c \<union> {}) (bindS (emitL OP_BR 0 0) ?body)"
    by (intro triple_bindS [OF step_emit_branch]) (simp, rule step_weaken, auto)
  then have "frame_ok_step env code0 consts0 (pcs c \<union> {})
      (if c_kind c \<noteq> CK_If then fail (Msg ''else not in if'') else bindS (emitL OP_BR 0 0) ?body)"
    by (simp add: step_pure)
  from step_weaken [OF this, of "{}"] show "triple (frame_inv_with env code0 consts0 (pcs c \<union> {}))
      (if c_kind c \<noteq> CK_If then fail (Msg ''else not in if'') else bindS (emitL OP_BR 0 0) ?body)
      (\<lambda>_. frame_inv_with env code0 consts0 {}) (no_panic env code0 consts0)"
    by blast
qed

lemma step_end: "frame_ok_step env code0 consts0 {} (lower_end env)"
  unfolding lower_end_def frame_inv_with_empty
proof (rule triple_bindS [OF step_pop])
  fix c :: ctrl
  have "frame_ok_step env code0 consts0 (pcs c) (patch_if c j)" for j
    unfolding patch_if_def by (intro triple_if step_option step_pure step_patch) (auto simp: pcs_def)
  moreover have "frame_ok_step env code0 consts0 (pcs c) (forS (c_patches c) (\<lambda>p. patchL p j))" for j
    by (intro triple_forS step_patch) (auto simp: pcs_def)
  ultimately have "frame_ok_step env code0 consts0 (pcs c)
      (bindS (if c_kind c = CK_Func then emitL OP_END_FUNC (le_n_results env) 0 else code_lenL) (\<lambda>join_pc.
         thenS (patch_if c join_pc) (thenS (forS (c_patches c) (\<lambda>p. patchL p join_pc))
           (modifyS (\<lambda>s. s\<lparr>ls_h := c_base c + int (unat (c_n_results c)), ls_dead := c_dead_on_entry c\<rparr>)))))"
    by (intro step_bind step_then triple_if step_emit_drop step_pure) simp_all
  from step_weaken [OF this, of "{}"] show "triple (frame_inv_with env code0 consts0 (pcs c))
      (bindS (if c_kind c = CK_Func then emitL OP_END_FUNC (le_n_results env) 0 else code_lenL) (\<lambda>join_pc.
         thenS (patch_if c join_pc) (thenS (forS (c_patches c) (\<lambda>p. patchL p join_pc))
           (modifyS (\<lambda>s. s\<lparr>ls_h := c_base c + int (unat (c_n_results c)), ls_dead := c_dead_on_entry c\<rparr>)))))
      (\<lambda>_. frame_inv env code0 consts0) (no_panic env code0 consts0)"
    by simp
qed

lemma step_numeric:
  "frame_ok_step env code0 consts0 P (lower_numeric (i32_lowering p))" "frame_ok_step env code0 consts0 P (lower_numeric (i64_lowering q))"
  unfolding lower_numeric_def using call_ok_i32 call_ok_i64 by (auto intro!: step_emit_consume split: prod.split)

lemma not_panic:
  "block_arity ty ts = Inl e \<Longrightarrow> \<not> is_panic e" "func_arity i ts js = Inl e \<Longrightarrow> \<not> is_panic e"
  "check_memarg m = Inl e \<Longrightarrow> \<not> is_panic e" "ok_or (Msg a) r = Inl e \<Longrightarrow> \<not> is_panic e"
  by (auto simp: block_arity_def func_arity_def check_memarg_def Let_def ok_or_def
      split: block_type.splits if_splits option.splits)

lemma not_panic_depths: "collect_depths ts = Inl e \<Longrightarrow> \<not> is_panic e"
proof (induction ts)
  case (Cons t ts)
  then show ?case by (cases t) (auto simp: rbind_Inl_iff)
qed simp

lemma step_call: "frame_ok_step env code0 consts0 P (lower_call env i)"
proof -
  have "call_ok env (mk_op OP_CALL_HOST (np OR push_bit 8 nr) z)"
    if "func_arity i (le_func_types env) (le_func_typeidx env) = Inr (np, nr)" "i < le_n_imports env" for np nr z
    using that by (auto simp: call_ok_def)
  then show ?thesis unfolding lower_call_def
    by (auto intro!: step_lift step_then triple_if step_emit_drop step_consume step_pure dest: not_panic split: prod.split)
qed

theorem step_operator: "frame_ok_step env code0 consts0 {} (lower_operator env x)"
proof -
  have upd: "frame_ok_step env code0 consts0 {} (bindS (emitL OP_BR_IF_NOT 0 0) (\<lambda>pc.
       thenS (push_ctrlL CK_If np nr) (update_last (\<lambda>c. c\<lparr>c_br_if_not := Some pc\<rparr>))))" for np nr
    by (rule triple_bindS [OF step_emit_branch], simp, rule step_weaken, intro step_then step_push step_update_last)
      (auto simp: pcs_def)
  note steps = step_bind step_then step_pair triple_if step_pure step_intern step_consume step_emit_consume
    step_emit_drop step_branch_to step_branch_if step_br_table_case triple_forS step_push upd step_numeric step_call
  show ?thesis
    by (cases x;
      (simp only: lower_operator.simps)?;
      (rule step_else step_end)?;
      (unfold lower_unreachable_def lower_const_def lower_local_tee_def lower_block_def
         lower_loop_def lower_if_def lower_br_def lower_br_if_def
         lower_br_table_def lower_return_def lower_return_call_def lower_call_indirect_def
         lower_load_def lower_store_def lower_memory_def Let_def)?;
      (intro steps)?;
      (auto dest: not_panic not_panic_depths)?)
qed

lemma lower_operators_inv:
  assumes "lower_operators ops n_params n_results n_locals code consts func_types func_typeidx n_imports
      host_fn_ids = (r, code', consts')"
  obtains s where "frame_inv (make_env ops n_params n_results n_locals func_types func_typeidx n_imports host_fn_ids) code consts s"
    and "code' = ls_code s" and "consts' = ls_consts s" and "\<And>e. r = Inl e \<Longrightarrow> \<not> is_panic e"
proof -
  let ?env = "make_env ops n_params n_results n_locals func_types func_typeidx n_imports host_fn_ids"
  let ?s0 = "init_state n_results code consts"
  obtain q s where run: "forS ops (lower_operator ?env) ?s0 = (q, s)" by fastforce
  have "frame_inv ?env code consts ?s0"
    by (auto simp: frame_inv_def init_state_def all_recorded_def func_ctrl_def pcs_def)
  moreover have "triple (frame_inv ?env code consts) (forS ops (lower_operator ?env)) (\<lambda>_. frame_inv ?env code consts) (no_panic ?env code consts)"
    using step_operator [of ?env code "consts"] by (intro triple_forS) simp
  ultimately have "(\<forall>e. q = Inl e \<longrightarrow> \<not> is_panic e) \<and> frame_inv ?env code consts s"
    using run tripleD by (cases q) (fastforce simp: no_panic_def)+
  moreover have "code' = ls_code s" "consts' = ls_consts s" "\<And>e. r = Inl e \<Longrightarrow> q = Inl e \<or> \<not> is_panic e"
    using assms run by (auto simp: lower_operators_def Let_def rbind_Inl_iff split: if_splits)
  ultimately show thesis using that by blast
qed

lemma lower_operators_keeps:
  assumes "lower_operators ops n_params n_results n_locals code consts func_types func_typeidx n_imports
      host_fn_ids = (r, code', consts')"
  shows "(\<forall>e. r = Inl e \<longrightarrow> \<not> is_panic e) \<and>
    (\<exists>ys. consts' = consts @ ys \<and> (distinct consts \<longrightarrow> distinct consts')) \<and>
    length code \<le> length code' \<and> (length code' < 2 ^ 32 \<longrightarrow> take (length code) code' = code)"
  by (rule lower_operators_inv [OF assms]) (auto simp: frame_inv_def)

lemma lower_operators_calls:
  assumes "lower_operators ops n_params n_results n_locals code consts func_types func_typeidx n_imports
      host_fn_ids = (r, code', consts')" and "length code' < 2 ^ 32"
  shows "list_all (call_ok (make_env ops n_params n_results n_locals func_types func_typeidx n_imports host_fn_ids)) (drop (length code) code')"
  by (rule lower_operators_inv [OF assms(1)]) (use assms(2) in \<open>auto simp: frame_inv_def\<close>)


text \<open>A body that fails half way: the code before it and the constants it found are still there.\<close>

lemma failing_body:
  "lower_operators [I32Const 1, If BT_Empty, Else, Drop] 0 0 0 [mk_op OP_END_FUNC 0 0] [7] [] [] 0 [] =
     (Inl (Msg ''operand stack underflow''),
      [mk_op OP_END_FUNC 0 0, mk_op OP_I64_CONST 0 1, mk_op OP_BR_IF_NOT 0 4, mk_op OP_BR 0 0, mk_op OP_DROP 0 0],
      [7, 1])"
  by code_simp


end
