(* ===== verification/Env_Ids.thy ===== *)
theory Env_Ids
  imports Wasm_Types
begin

text \<open>
  The table of host function ids, built twice from the environment description
  \<open>docs/soroban-env.json\<close>: by the translator (\<open>tools/src/env_fn_id.rs\<close>), which maps an import to
  its id, and by the host dispatcher (\<open>tools/contract-tests/src/env_ids.rs\<close>), which maps the id
  back. The deserialised description is the parameter \<open>root\<close> of every definition. The locale
  states what both sides rely on; its interpretations are the two tables.
\<close>

section \<open>The description\<close>

record env_fn =
  ef_export :: string
  ef_name :: string

record env_mod =
  em_export :: string
  em_functions :: "env_fn list"

type_synonym env_root = "env_mod list"

section \<open>The translator's table\<close>

record fn_table =
  by_import :: "string \<times> string \<Rightarrow> u32 option"
  ft_labels :: "string list"

definition build_fn :: "string \<Rightarrow> env_fn \<Rightarrow> fn_table \<times> u32 \<Rightarrow> fn_table \<times> u32" where
  "build_fn mexp f st = (case st of (tbl, n) \<Rightarrow>
     (tbl\<lparr>by_import := (by_import tbl)((mexp, ef_export f) \<mapsto> n),
          ft_labels := ft_labels tbl @ [mexp @ ''::'' @ ef_export f @ '' ('' @ ef_name f @ '')'']\<rparr>,
      n + 1))"

definition build :: "env_root \<Rightarrow> fn_table" where
  "build root =
     fst (fold (\<lambda>m. fold (build_fn (em_export m)) (em_functions m)) root
            (\<lparr>by_import = (\<lambda>_. None), ft_labels = []\<rparr>, 0))"

definition lookup :: "env_root \<Rightarrow> string \<Rightarrow> string \<Rightarrow> error + u32" where
  "lookup root mod_export fn_export =
     ok_or (Msg (''unknown host import '' @ mod_export @ ''::'' @ fn_export))
       (by_import (build root) (mod_export, fn_export))"

definition label :: "env_root \<Rightarrow> u32 \<Rightarrow> string option" where
  "label root fn_id =
     (if unat fn_id < length (ft_labels (build root)) then Some (ft_labels (build root) ! unat fn_id) else None)"

definition n_functions :: "env_root \<Rightarrow> u32" where
  "n_functions root = of_nat (length (ft_labels (build root)))"

section \<open>The dispatcher's table\<close>

record id_table =
  it_by_import :: "string \<times> string \<Rightarrow> u32 option"
  it_by_id :: "(string \<times> string) list"

definition build_id :: "string \<Rightarrow> env_fn \<Rightarrow> id_table \<times> u32 \<Rightarrow> id_table \<times> u32" where
  "build_id mexp f st = (case st of (tbl, n) \<Rightarrow>
     (tbl\<lparr>it_by_import := (it_by_import tbl)((mexp, ef_export f) \<mapsto> n),
          it_by_id := it_by_id tbl @ [(mexp @ ''::'' @ ef_export f, ef_name f)]\<rparr>,
      n + 1))"

definition build_ids :: "env_root \<Rightarrow> id_table" where
  "build_ids root =
     fst (fold (\<lambda>m. fold (build_id (em_export m)) (em_functions m)) root
            (\<lparr>it_by_import = (\<lambda>_. None), it_by_id = []\<rparr>, 0))"

definition fn_name :: "env_root \<Rightarrow> u32 \<Rightarrow> string option" where
  "fn_name root fn_id =
     (if unat fn_id < length (it_by_id (build_ids root)) then Some (snd (it_by_id (build_ids root) ! unat fn_id)) else None)"

definition import_key :: "env_root \<Rightarrow> u32 \<Rightarrow> string option" where
  "import_key root fn_id =
     (if unat fn_id < length (it_by_id (build_ids root)) then Some (fst (it_by_id (build_ids root) ! unat fn_id)) else None)"

section \<open>The flattened description\<close>

text \<open>One entry per function, in the order of the ids.\<close>

definition flat :: "env_root \<Rightarrow> (string \<times> env_fn) list" where
  "flat root = concat (map (\<lambda>m. map (Pair (em_export m)) (em_functions m)) root)"

abbreviation entry_key :: "string \<times> env_fn \<Rightarrow> string \<times> string" where
  "entry_key x \<equiv> (fst x, ef_export (snd x))"

lemma fold_flat:
  "fold (\<lambda>m. fold (g (em_export m)) (em_functions m)) root st = fold (\<lambda>x. g (fst x) (snd x)) (flat root) st"
proof (induction root arbitrary: st)
  case (Cons m root)
  have "fold (\<lambda>x. g (fst x) (snd x)) (map (Pair e) fs) st = fold (g e) fs st" for e fs st
    by (induction fs arbitrary: st) simp_all
  with Cons show ?case by (simp add: flat_def)
qed (simp add: flat_def)

text \<open>The last entry with a key gives its id.\<close>

fun last_index :: "'k \<Rightarrow> 'k list \<Rightarrow> nat option" where
  "last_index k [] = None"
| "last_index k (x # xs) =
     (case last_index k xs of Some i \<Rightarrow> Some (Suc i) | None \<Rightarrow> if x = k then Some 0 else None)"

lemma last_index_snoc: "last_index k (xs @ [x]) = (if x = k then Some (length xs) else last_index k xs)"
  by (induction xs) (auto split: option.splits)

lemma last_index_Some: "last_index k xs = Some i \<Longrightarrow> i < length xs \<and> xs ! i = k"
  by (induction xs arbitrary: i) (auto split: option.splits if_splits)

lemma last_index_None: "last_index k xs = None \<longleftrightarrow> k \<notin> set xs"
  by (induction xs) (auto split: option.splits)

lemma last_index_distinct:
  assumes "distinct xs" and "i < length xs"
  shows "last_index (xs ! i) xs = Some i"
proof (cases "last_index (xs ! i) xs")
  case None
  then show ?thesis using nth_mem [OF assms(2)] by (simp add: last_index_None)
next
  case (Some j)
  then show ?thesis using last_index_Some [OF Some] assms by (auto simp: nth_eq_iff_index_eq)
qed

lemma build_flat:
  "fold (\<lambda>x. build_fn (fst x) (snd x)) xs (\<lparr>by_import = (\<lambda>_. None), ft_labels = []\<rparr>, 0) =
     (\<lparr>by_import = (\<lambda>k. map_option of_nat (last_index k (map entry_key xs))),
       ft_labels = map (\<lambda>x. fst x @ ''::'' @ ef_export (snd x) @ '' ('' @ ef_name (snd x) @ '')'') xs\<rparr>,
      of_nat (length xs))"
  by (induction xs rule: rev_induct) (auto simp: build_fn_def last_index_snoc fun_eq_iff)

lemma build_ids_flat:
  "fold (\<lambda>x. build_id (fst x) (snd x)) xs (\<lparr>it_by_import = (\<lambda>_. None), it_by_id = []\<rparr>, 0) =
     (\<lparr>it_by_import = (\<lambda>k. map_option of_nat (last_index k (map entry_key xs))),
       it_by_id = map (\<lambda>x. (fst x @ ''::'' @ ef_export (snd x), ef_name (snd x))) xs\<rparr>,
      of_nat (length xs))"
  by (induction xs rule: rev_induct) (auto simp: build_id_def last_index_snoc fun_eq_iff)

lemma build_eq:
  "by_import (build root) = (\<lambda>k. map_option of_nat (last_index k (map entry_key (flat root))))"
  "ft_labels (build root) = map (\<lambda>x. fst x @ ''::'' @ ef_export (snd x) @ '' ('' @ ef_name (snd x) @ '')'') (flat root)"
  "it_by_id (build_ids root) = map (\<lambda>x. (fst x @ ''::'' @ ef_export (snd x), ef_name (snd x))) (flat root)"
  by (simp_all add: build_def build_ids_def fold_flat build_flat build_ids_flat)

section \<open>What the two sides rely on\<close>

text \<open>
  \<open>find\<close> gives the id of an import, \<open>describe\<close> what the id stands for. As long as the table fits
  the 32-bit ids, an id handed out describes the import it was asked for, and every import of the
  description gets an id.
\<close>

locale import_ids =
  fixes fits :: bool
    and find :: "string \<Rightarrow> string \<Rightarrow> error + u32"
    and describe :: "u32 \<Rightarrow> 'd option"
    and entries :: "(string \<times> string \<times> 'd) list"
  assumes find_described: "fits \<Longrightarrow> find m f = Inr i \<Longrightarrow> \<exists>d. describe i = Some d \<and> (m, f, d) \<in> set entries"
    and find_total: "(m, f, d) \<in> set entries \<Longrightarrow> \<exists>i. find m f = Inr i"
begin

lemma find_iff:
  assumes fits
  shows "(\<exists>i. find m f = Inr i) \<longleftrightarrow> (\<exists>d. (m, f, d) \<in> set entries)"
proof
  assume "\<exists>i. find m f = Inr i"
  then obtain i where "find m f = Inr i" ..
  from find_described [OF assms this] show "\<exists>d. (m, f, d) \<in> set entries" by blast
next
  assume "\<exists>d. (m, f, d) \<in> set entries"
  then obtain d where "(m, f, d) \<in> set entries" ..
  from find_total [OF this] show "\<exists>i. find m f = Inr i" .
qed

text \<open>When a description determines the import, different imports get different ids.\<close>

lemma find_inj:
  assumes fits and "find m f = Inr i" and "find m' f' = Inr i"
    and "\<And>x y. x \<in> set entries \<Longrightarrow> y \<in> set entries \<Longrightarrow> snd (snd x) = snd (snd y) \<Longrightarrow> x = y"
  shows "m = m' \<and> f = f'"
proof -
  obtain d where d: "describe i = Some d" "(m, f, d) \<in> set entries" using find_described [OF assms(1,2)] by blast
  obtain d' where d': "describe i = Some d'" "(m', f', d') \<in> set entries" using find_described [OF assms(1,3)] by blast
  show ?thesis using assms(4) [OF d(2) d'(2)] d(1) d'(1) by simp
qed

end

definition fits_ids :: "env_root \<Rightarrow> bool" where
  "fits_ids root \<longleftrightarrow> length (flat root) \<le> 2 ^ 32"

lemma lookup_Inr:
  "lookup root m f = Inr i \<longleftrightarrow> (\<exists>n. last_index (m, f) (map entry_key (flat root)) = Some n \<and> i = of_nat n)"
  by (auto simp: lookup_def build_eq)

lemma lookup_entry:
  assumes "lookup root m f = Inr i" and "fits_ids root"
  obtains x where "unat i < length (flat root)" and "flat root ! unat i = x" and "fst x = m" and "ef_export (snd x) = f"
    and "x \<in> set (flat root)"
proof -
  from assms(1) obtain n where n: "last_index (m, f) (map entry_key (flat root)) = Some n" "i = of_nat n"
    by (auto simp: lookup_Inr)
  then have l: "n < length (flat root)" "entry_key (flat root ! n) = (m, f)" using last_index_Some [OF n(1)] by auto
  then have "unat i = n" using n(2) assms(2) by (simp add: fits_ids_def)
  with l show ?thesis by (intro that [of "flat root ! n"]) simp_all
qed

lemma lookup_total:
  assumes "x \<in> set (flat root)"
  shows "\<exists>i. lookup root (fst x) (ef_export (snd x)) = Inr i"
  using assms last_index_None [of "entry_key x" "map entry_key (flat root)"]
  by (cases "last_index (entry_key x) (map entry_key (flat root))") (auto simp: lookup_Inr)

text \<open>The entries as each table describes them.\<close>

definition label_entries :: "env_root \<Rightarrow> (string \<times> string \<times> string) list" where
  "label_entries root =
     map (\<lambda>x. (fst x, ef_export (snd x), fst x @ ''::'' @ ef_export (snd x) @ '' ('' @ ef_name (snd x) @ '')'')) (flat root)"

definition key_entries :: "env_root \<Rightarrow> (string \<times> string \<times> string) list" where
  "key_entries root = map (\<lambda>x. (fst x, ef_export (snd x), fst x @ ''::'' @ ef_export (snd x))) (flat root)"

definition name_entries :: "env_root \<Rightarrow> (string \<times> string \<times> string) list" where
  "name_entries root = map (\<lambda>x. (fst x, ef_export (snd x), ef_name (snd x))) (flat root)"

interpretation translator: import_ids "fits_ids root" "lookup root" "label root" "label_entries root" for root
proof
  show "\<exists>d. label root i = Some d \<and> (m, f, d) \<in> set (label_entries root)" if "fits_ids root" "lookup root m f = Inr i" for m f i
    using that by (elim lookup_entry) (auto simp: label_def build_eq label_entries_def intro: rev_image_eqI)
  show "\<exists>i. lookup root m f = Inr i" if "(m, f, d) \<in> set (label_entries root)" for m f d
    using that lookup_total by (auto simp: label_entries_def)
qed

interpretation dispatcher: import_ids "fits_ids root" "lookup root" "import_key root" "key_entries root" for root
proof
  show "\<exists>d. import_key root i = Some d \<and> (m, f, d) \<in> set (key_entries root)" if "fits_ids root" "lookup root m f = Inr i" for m f i
    using that by (elim lookup_entry) (auto simp: import_key_def build_eq key_entries_def intro: rev_image_eqI)
  show "\<exists>i. lookup root m f = Inr i" if "(m, f, d) \<in> set (key_entries root)" for m f d
    using that lookup_total by (auto simp: key_entries_def)
qed

interpretation names: import_ids "fits_ids root" "lookup root" "fn_name root" "name_entries root" for root
proof
  show "\<exists>d. fn_name root i = Some d \<and> (m, f, d) \<in> set (name_entries root)" if "fits_ids root" "lookup root m f = Inr i" for m f i
    using that by (elim lookup_entry) (auto simp: fn_name_def build_eq name_entries_def intro: rev_image_eqI)
  show "\<exists>i. lookup root m f = Inr i" if "(m, f, d) \<in> set (name_entries root)" for m f d
    using that lookup_total by (auto simp: name_entries_def)
qed

section \<open>Properties\<close>

text \<open>
  C24. The translator and the dispatcher agree on host function ids: an import is accepted exactly
  when the description lists it, and then the id the translator puts into the call instruction is
  the one under which the dispatcher finds the same import key, and under which the translator's
  own label starts with that key.
\<close>

theorem import_ids_agree:
  assumes "fits_ids root"
  shows "((\<exists>i. lookup root m f = Inr i) \<longleftrightarrow> (\<exists>x \<in> set (flat root). fst x = m \<and> ef_export (snd x) = f)) \<and>
    (\<forall>i. lookup root m f = Inr i \<longrightarrow>
       unat i < length (flat root) \<and> import_key root i = Some (m @ ''::'' @ f) \<and>
       (\<exists>nm. fn_name root i = Some nm \<and> label root i = Some (m @ ''::'' @ f @ '' ('' @ nm @ '')'')))"
proof (intro conjI allI impI)
  show "(\<exists>i. lookup root m f = Inr i) \<longleftrightarrow> (\<exists>x \<in> set (flat root). fst x = m \<and> ef_export (snd x) = f)"
    using dispatcher.find_iff [OF assms, of m f] by (auto simp: key_entries_def)
next
  fix i assume i: "lookup root m f = Inr i"
  from i assms show "unat i < length (flat root)" by (rule lookup_entry)
  from dispatcher.find_described [OF assms i] show "import_key root i = Some (m @ ''::'' @ f)"
    by (auto simp: key_entries_def)
  from i assms obtain x where "unat i < length (flat root)" "flat root ! unat i = x" "fst x = m" "ef_export (snd x) = f"
    by (rule lookup_entry)
  then show "\<exists>nm. fn_name root i = Some nm \<and> label root i = Some (m @ ''::'' @ f @ '' ('' @ nm @ '')'')"
    by (auto simp: fn_name_def label_def build_eq)
qed

text \<open>
  When no two functions of the description share an import key, ids are positions: the
  function at position \<open>n\<close> has id \<open>n\<close>, so each id below \<open>n_functions\<close> belongs to exactly one
  import and both tables hold the entry of that position.
\<close>

lemma ids_are_positions:
  assumes "fits_ids root" and "distinct (map entry_key (flat root))" and "n < length (flat root)"
  shows "lookup root (fst (flat root ! n)) (ef_export (snd (flat root ! n))) = Inr (of_nat n) \<and>
    unat (of_nat n :: u32) = n \<and> fn_name root (of_nat n) = Some (ef_name (snd (flat root ! n)))"
proof -
  have "last_index (map entry_key (flat root) ! n) (map entry_key (flat root)) = Some n"
    using assms(2,3) by (intro last_index_distinct) simp_all
  moreover have "unat (of_nat n :: u32) = n" using assms(1,3) by (simp add: fits_ids_def)
  ultimately show ?thesis using assms(3) by (simp add: lookup_Inr fn_name_def build_eq)
qed

text \<open>The head of the description: module \<open>x\<close> with its first two functions, and module \<open>i\<close>.\<close>

definition sample_root :: env_root where
  "sample_root =
     [\<lparr>em_export = ''x'', em_functions = [\<lparr>ef_export = ''_'', ef_name = ''log_from_linear_memory''\<rparr>,
        \<lparr>ef_export = ''0'', ef_name = ''obj_cmp''\<rparr>]\<rparr>,
      \<lparr>em_export = ''i'', em_functions = [\<lparr>ef_export = ''_'', ef_name = ''obj_from_u64''\<rparr>]\<rparr>]"

lemma sample_fits: "fits_ids sample_root"
  by (simp add: fits_ids_def flat_def sample_root_def)

lemma import_ids_agree_witness:
  "import_key sample_root 1 = Some ''x::0'' \<and> label sample_root 1 = Some ''x::0 (obj_cmp)''"
proof -
  have l: "lookup sample_root ''x'' ''0'' = Inr 1" by code_simp
  have n: "fn_name sample_root 1 = Some ''obj_cmp''" by code_simp
  show ?thesis using import_ids_agree [OF sample_fits, of "''x''" "''0''"] l n by simp
qed

lemma ids_are_positions_witness: "lookup sample_root ''i'' ''_'' = Inr 2 \<and> fn_name sample_root 2 = Some ''obj_from_u64''"
proof -
  have d: "distinct (map entry_key (flat sample_root))" "2 < length (flat sample_root)"
    by (simp_all add: flat_def sample_root_def)
  show ?thesis using ids_are_positions [OF sample_fits d] by (simp add: flat_def sample_root_def)
qed

end
