(* ===== verification/Translate.thy ===== *)
theory Translate
  imports Lowering_Frame Env_Ids
begin

text \<open>
  \<open>translate_wasm\<close> of \<open>tools/src/lib.rs\<close>: the loop over the payloads of the parser and the
  assembly of the module. The local vectors of the function are the record \<open>translate_state\<close>; each
  arm of the \<open>match\<close> on the payload is a definition. The parser (\<open>wasmparser\<close>) and the description
  of the host environment are parameters. An error returned by an arm ends the translation, so the
  state is only needed on success; \<open>lower_operators\<close> alone is allowed to fail, and then a stub
  replaces the function.
\<close>

section \<open>State\<close>

record translate_state =
  ts_func_types :: "func_type list"
  ts_func_typeidx :: "u32 list"
  ts_exports :: "(string \<times> u32) list"
  ts_code :: "cuop list"
  ts_consts :: "u64 list"
  ts_funcs :: "func_meta list"
  ts_globals :: "u64 list"
  ts_mem_min :: u64
  ts_mem_max_pages :: "u64 option"
  ts_has_memory :: bool
  ts_table :: "u32 list"
  ts_pending_data :: "(bool \<times> u32 \<times> u8 list) list"
  ts_pending_elem :: "(u32 \<times> u32 list) list"
  ts_host_fn_ids :: "u32 list"
  ts_host_import_mod :: "string list"
  ts_host_import_name :: "string list"
  ts_host_import_env :: "string list"

definition start_state :: translate_state where
  "start_state =
     \<lparr>ts_func_types = [], ts_func_typeidx = [], ts_exports = [], ts_code = [], ts_consts = [],
      ts_funcs = [], ts_globals = [], ts_mem_min = 0, ts_mem_max_pages = None,
      ts_has_memory = False, ts_table = [], ts_pending_data = [], ts_pending_elem = [],
      ts_host_fn_ids = [], ts_host_import_mod = [], ts_host_import_name = [],
      ts_host_import_env = []\<rparr>"

text \<open>\<open>x.map_err(|e| format!("<prefix>{e}"))\<close>\<close>

definition with_prefix :: "string \<Rightarrow> string + 'a \<Rightarrow> error + 'a" where
  "with_prefix p = map_err (\<lambda>e. Msg (p @ e))"

text \<open>A \<open>for\<close> loop over a section reader: every item is unwrapped with the prefix, then processed.\<close>

definition section_loop ::
  "string \<Rightarrow> ('a \<Rightarrow> translate_state \<Rightarrow> error + translate_state) \<Rightarrow> (string + 'a) list
     \<Rightarrow> translate_state \<Rightarrow> error + translate_state" where
  "section_loop p f = rfold (\<lambda>r s. rbind (with_prefix p r) (\<lambda>x. f x s))"

section \<open>Types, functions and imports\<close>

definition type_item :: "composite_type \<Rightarrow> translate_state \<Rightarrow> error + translate_state" where
  "type_item ct s =
     (case ct of
        CT_Func params results \<Rightarrow>
          rbind (only_int params) (\<lambda>_. rbind (only_int results) (\<lambda>_.
            Inr (s\<lparr>ts_func_types := ts_func_types s @ [(params, results)]\<rparr>)))
      | CT_Other _ \<Rightarrow> Inl (Msg ''non-func type in type section''))"

definition type_section :: "(string + composite_type list) list \<Rightarrow> translate_state \<Rightarrow> error + translate_state" where
  "type_section = section_loop ''type: '' (rfold type_item)"

definition function_section :: "(string + u32) list \<Rightarrow> translate_state \<Rightarrow> error + translate_state" where
  "function_section =
     section_loop ''funcsec: '' (\<lambda>idx s. Inr (s\<lparr>ts_func_typeidx := ts_func_typeidx s @ [idx]\<rparr>))"

definition import_stub :: "func_type \<Rightarrow> func_meta" where
  "import_stub ft =
     \<lparr>fm_code_off = 0, fm_code_len = 0, fm_n_params = of_nat (length (fst ft)),
      fm_n_results = of_nat (length (snd ft)), fm_n_locals = 0, fm_max_stack = 0\<rparr>"

definition import_item :: "env_root \<Rightarrow> import_entry \<Rightarrow> translate_state \<Rightarrow> error + translate_state" where
  "import_item root imp s =
     (case imp_ty imp of
        TR_Func type_idx \<Rightarrow>
          let t = unat type_idx in
          if t \<ge> length (ts_func_types s)
          then Inl (Msg (''import type oob: '' @ imp_module imp @ ''::'' @ imp_name imp))
          else
            rbind (only_int (fst (ts_func_types s ! t))) (\<lambda>_.
            rbind (only_int (snd (ts_func_types s ! t))) (\<lambda>_.
            rbind (lookup root (imp_module imp) (imp_name imp)) (\<lambda>fn_id.
              let env_label = (case label root fn_id of None \<Rightarrow> ''?'' | Some l \<Rightarrow> l) in
              Inr (s\<lparr>ts_func_typeidx := ts_func_typeidx s @ [type_idx],
                     ts_host_fn_ids := ts_host_fn_ids s @ [fn_id],
                     ts_host_import_mod := ts_host_import_mod s @ [imp_module imp],
                     ts_host_import_name := ts_host_import_name s @ [imp_name imp],
                     ts_host_import_env := ts_host_import_env s @ [env_label],
                     ts_funcs := ts_funcs s @ [import_stub (ts_func_types s ! t)]\<rparr>))))
      | other \<Rightarrow> Inl (MsgImport other (imp_module imp) (imp_name imp)))"

definition import_section ::
  "env_root \<Rightarrow> (string + import_entry) list \<Rightarrow> translate_state \<Rightarrow> error + translate_state" where
  "import_section root = section_loop ''import: '' (import_item root)"

section \<open>Memory and table\<close>

definition memory_item :: "memory_type \<Rightarrow> translate_state \<Rightarrow> error + translate_state" where
  "memory_item mt s =
     (if ts_has_memory s then Inl (Msg ''multiple memories not supported'')
      else if mt_memory64 mt then Inl (Msg ''memory64 not supported'')
      else if mt_shared mt then Inl (Msg ''shared memory not supported'')
      else if mt_page_size_log2 mt \<noteq> None then Inl (Msg ''custom page size not supported'')
      else Inr (s\<lparr>ts_mem_min := mt_initial mt, ts_mem_max_pages := mt_maximum mt, ts_has_memory := True\<rparr>))"

definition memory_section :: "(string + memory_type) list \<Rightarrow> translate_state \<Rightarrow> error + translate_state" where
  "memory_section = section_loop ''memory: '' memory_item"

definition table_item :: "table_type \<Rightarrow> translate_state \<Rightarrow> error + translate_state" where
  "table_item t s =
     (if ts_table s \<noteq> [] then Inl (Msg ''multiple tables not supported'')
      else if tt_table64 t then Inl (Msg ''table64 not supported'')
      else if tt_element_type t \<noteq> FuncRef then Inl (MsgRef ''unsupported table elem type '' (tt_element_type t))
      else if tt_initial t > 1024 then Inl (Msg ''table too large'')
      else Inr (s\<lparr>ts_table := replicate (unat (tt_initial t)) TABLE_NULL\<rparr>))"

definition table_section :: "(string + table_type) list \<Rightarrow> translate_state \<Rightarrow> error + translate_state" where
  "table_section = section_loop ''table: '' table_item"

section \<open>Element and data segments\<close>

definition elem_op :: "string + operator \<Rightarrow> u32 option \<Rightarrow> error + u32 option" where
  "elem_op r fidx =
     rbind (with_prefix ''elem op: '' r) (\<lambda>x.
       case x of
         RefFunc function_index \<Rightarrow> Inr (Some function_index)
       | RefNull _ \<Rightarrow> Inr (Some TABLE_NULL)
       | End \<Rightarrow> Inr fidx
       | other \<Rightarrow> Inl (MsgOp ''unsupported elem expr '' other))"

definition elem_expr :: "string + const_expr \<Rightarrow> u32 list \<Rightarrow> error + u32 list" where
  "elem_expr r idxs =
     rbind (with_prefix ''elem expr: '' r) (\<lambda>ops.
       rbind (rfold elem_op ops None) (\<lambda>fidx.
         rbind (ok_or (Msg ''empty elem expr'') fidx) (\<lambda>i. Inr (idxs @ [i]))))"

definition elem_items :: "element_items \<Rightarrow> error + u32 list" where
  "elem_items items =
     (case items of
        EI_Functions rs \<Rightarrow> rfold (\<lambda>r idxs. rbind (with_prefix ''elem func: '' r) (\<lambda>i. Inr (idxs @ [i]))) rs []
      | EI_Expressions rs \<Rightarrow> rfold elem_expr rs [])"

definition elem_offset :: "element_kind \<Rightarrow> error + u32" where
  "elem_offset kind =
     (case kind of
        EK_Active table_index offset_expr \<Rightarrow>
          if (case table_index of None \<Rightarrow> 0 | Some i \<Rightarrow> i) \<noteq> 0 then Inl (Msg ''elem to non-zero table'')
          else eval_i32_expr offset_expr
      | EK_Passive \<Rightarrow> Inl (Msg ''passive/declared elem not supported'')
      | EK_Declared \<Rightarrow> Inl (Msg ''passive/declared elem not supported''))"

definition element_item :: "element_kind \<times> element_items \<Rightarrow> translate_state \<Rightarrow> error + translate_state" where
  "element_item el s =
     rbind (elem_offset (fst el)) (\<lambda>off. rbind (elem_items (snd el)) (\<lambda>idxs.
       Inr (s\<lparr>ts_pending_elem := ts_pending_elem s @ [(off, idxs)]\<rparr>)))"

definition element_section ::
  "(string + element_kind \<times> element_items) list \<Rightarrow> translate_state \<Rightarrow> error + translate_state" where
  "element_section = section_loop ''elem: '' element_item"

definition data_item :: "data_kind \<times> u8 list \<Rightarrow> translate_state \<Rightarrow> error + translate_state" where
  "data_item d s =
     (case fst d of
        DK_Active memory_index offset_expr \<Rightarrow>
          if memory_index \<noteq> 0 then Inl (Msg ''data to non-zero memory'')
          else rbind (eval_i32_expr offset_expr) (\<lambda>off.
            Inr (s\<lparr>ts_pending_data := ts_pending_data s @ [(True, off, snd d)]\<rparr>))
      | DK_Passive \<Rightarrow> Inr (s\<lparr>ts_pending_data := ts_pending_data s @ [(False, 0, snd d)]\<rparr>))"

definition data_section :: "(string + data_kind \<times> u8 list) list \<Rightarrow> translate_state \<Rightarrow> error + translate_state" where
  "data_section = section_loop ''data: '' data_item"

section \<open>Globals and exports\<close>

definition global_op :: "string + operator \<Rightarrow> u64 option \<Rightarrow> error + u64 option" where
  "global_op r val =
     rbind (with_prefix ''global init: '' r) (\<lambda>x.
       case x of
         I32Const v \<Rightarrow> Inr (Some (ucast v))
       | I64Const v \<Rightarrow> Inr (Some v)
       | F32Const v \<Rightarrow> Inr (Some (ucast v))
       | F64Const v \<Rightarrow> Inr (Some v)
       | End \<Rightarrow> Inr val
       | other \<Rightarrow> Inl (MsgOp ''unsupported global init '' other))"

definition global_item :: "val_type \<times> const_expr \<Rightarrow> translate_state \<Rightarrow> error + translate_state" where
  "global_item g s =
     (if fst g \<notin> {I32, I64, F32, F64} then Inl (MsgVal ''unsupported global type '' (fst g))
      else rbind (rfold global_op (snd g) None) (\<lambda>val.
        rbind (ok_or (Msg ''empty global init'') val) (\<lambda>v.
          Inr (s\<lparr>ts_globals := ts_globals s @ [v]\<rparr>))))"

definition global_section :: "(string + val_type \<times> const_expr) list \<Rightarrow> translate_state \<Rightarrow> error + translate_state" where
  "global_section = section_loop ''global: '' global_item"

definition export_item :: "export_entry \<Rightarrow> translate_state \<Rightarrow> error + translate_state" where
  "export_item ex s =
     (if ex_kind ex = EX_Func then Inr (s\<lparr>ts_exports := ts_exports s @ [(ex_name ex, ex_index ex)]\<rparr>) else Inr s)"

definition export_section :: "(string + export_entry) list \<Rightarrow> translate_state \<Rightarrow> error + translate_state" where
  "export_section = section_loop ''export: '' export_item"

section \<open>Function bodies\<close>

definition checked_add :: "u32 \<Rightarrow> u32 \<Rightarrow> u32 option" where
  "checked_add x y = (if unat x + unat y < 2 ^ 32 then Some (x + y) else None)"

definition count_local :: "string + u32 \<times> val_type \<Rightarrow> u32 \<Rightarrow> error + u32" where
  "count_local r n_locals =
     rbind (with_prefix ''local: '' r) (\<lambda>(cnt, ty).
       if ty \<notin> {I64, I32, F32, F64} then Inl (MsgVal ''non-int local '' ty)
       else ok_or (Msg ''too many locals'') (checked_add n_locals cnt))"

fun collect_ops :: "(string + operator) list \<Rightarrow> error + operator list" where
  "collect_ops [] = Inr []"
| "collect_ops (r # rs) =
     rbind (with_prefix ''op: '' r) (\<lambda>x. rbind (collect_ops rs) (\<lambda>xs. Inr (x # xs)))"

text \<open>The function that replaces one the lowering rejected: it traps when called.\<close>

definition stub_meta :: "cuop list \<Rightarrow> u16 \<Rightarrow> u16 \<Rightarrow> func_meta" where
  "stub_meta code n_params n_results =
     \<lparr>fm_code_off = of_nat (length code), fm_code_len = 2, fm_n_params = n_params,
      fm_n_results = n_results, fm_n_locals = 0, fm_max_stack = 0\<rparr>"

definition stub_code :: "cuop list \<Rightarrow> u16 \<Rightarrow> cuop list" where
  "stub_code code n_results =
     snd (emit (snd (emit code OP_UNREACHABLE 0 0)) OP_END_FUNC n_results 0)"

definition lower_or_stub ::
  "operator list \<Rightarrow> u16 \<Rightarrow> u16 \<Rightarrow> u16 \<Rightarrow> translate_state \<Rightarrow> error + func_meta \<times> cuop list \<times> u64 list" where
  "lower_or_stub ops n_params n_results n_locals s =
     (case lower_operators ops n_params n_results n_locals (ts_code s) (ts_consts s) (ts_func_types s)
             (ts_func_typeidx s) (of_nat (length (ts_host_fn_ids s))) (ts_host_fn_ids s) of
        (Inr meta, code, consts) \<Rightarrow> Inr (meta, code, consts)
      | (Inl e, code, consts) \<Rightarrow>
          if is_panic e then Inl e
          else Inr (stub_meta code n_params n_results, stub_code code n_results, consts))"

definition code_entry :: "function_body \<Rightarrow> translate_state \<Rightarrow> error + translate_state" where
  "code_entry body s =
     (let fi = length (ts_funcs s) in
      if fi \<ge> length (ts_func_typeidx s) then Inl (Msg ''code/function section mismatch'')
      else
        let tidx = unat (ts_func_typeidx s ! fi) in
        if tidx \<ge> length (ts_func_types s) then Inl (Msg ''type index oob'')
        else
          let n_params = of_nat (length (fst (ts_func_types s ! tidx)));
              n_results = of_nat (length (snd (ts_func_types s ! tidx)))
          in
          rbind (with_prefix ''locals: '' (fb_locals body)) (\<lambda>locals.
          rbind (rfold count_local locals 0) (\<lambda>n_locals.
            if n_locals > 0xFFFF then Inl (Msg ''too many locals'')
            else
              rbind (with_prefix ''ops: '' (fb_operators body)) (\<lambda>rs.
              rbind (collect_ops rs) (\<lambda>ops.
              rbind (lower_or_stub ops n_params n_results (ucast n_locals) s) (\<lambda>(meta, code, consts).
                Inr (s\<lparr>ts_code := code, ts_consts := consts, ts_funcs := ts_funcs s @ [meta]\<rparr>)))))))"

section \<open>The loop over the payloads\<close>

definition payload_step :: "env_root \<Rightarrow> string + payload \<Rightarrow> translate_state \<Rightarrow> error + translate_state" where
  "payload_step root r s =
     rbind (with_prefix ''parse: '' r) (\<lambda>p.
       case p of
         TypeSection rs \<Rightarrow> type_section rs s
       | FunctionSection rs \<Rightarrow> function_section rs s
       | ImportSection rs \<Rightarrow> import_section root rs s
       | MemorySection rs \<Rightarrow> memory_section rs s
       | TableSection rs \<Rightarrow> table_section rs s
       | ElementSection rs \<Rightarrow> element_section rs s
       | DataSection rs \<Rightarrow> data_section rs s
       | DataCountSection \<Rightarrow> Inr s
       | GlobalSection rs \<Rightarrow> global_section rs s
       | ExportSection rs \<Rightarrow> export_section rs s
       | CodeSectionEntry body \<Rightarrow> code_entry body s
       | StartSection \<Rightarrow> Inl (Msg ''start section not supported'')
       | OtherPayload _ \<Rightarrow> Inr s)"

section \<open>Assembling the module\<close>

fun fingerprints :: "func_type list \<Rightarrow> error + u64 list" where
  "fingerprints [] = Inr []"
| "fingerprints (ft # fts) =
     rbind (type_fingerprint (fst ft) (snd ft)) (\<lambda>fp. rbind (fingerprints fts) (\<lambda>fps. Inr (fp # fps)))"

definition saturating_mul :: "u32 \<Rightarrow> u32 \<Rightarrow> u32" where
  "saturating_mul x y = (if unat x * unat y < 2 ^ 32 then x * y else 0xFFFFFFFF)"

definition cap_pages :: "translate_state \<Rightarrow> u64" where
  "cap_pages s =
     min (case ts_mem_max_pages s of None \<Rightarrow> CUWASM_MEM_MAX_PAGES | Some n \<Rightarrow> n) CUWASM_MEM_MAX_PAGES"

definition mem_max_of :: "translate_state \<Rightarrow> u32" where
  "mem_max_of s = (if ts_has_memory s then saturating_mul (ucast (cap_pages s)) WASM_PAGE else 0)"

definition mem_size_of :: "translate_state \<Rightarrow> u32" where
  "mem_size_of s = (if ts_has_memory s then saturating_mul (ucast (ts_mem_min s)) WASM_PAGE else 0)"

text \<open>\<open>memory[o..o + bytes.len()].copy_from_slice(&bytes)\<close>\<close>

definition copy_into :: "'a list \<Rightarrow> nat \<Rightarrow> 'a list \<Rightarrow> error + 'a list" where
  "copy_into mem start bytes =
     (if start + length bytes \<le> length mem
      then Inr (take start mem @ bytes @ drop (start + length bytes) mem)
      else Inl (Panic ''range end index out of range''))"

record data_state =
  ds_memory :: "u8 list"
  ds_blob :: "u8 list"
  ds_off :: "u32 list"
  ds_len :: "u32 list"
  ds_live :: "u8 list"

definition data_init :: "u32 \<Rightarrow> bool \<times> u32 \<times> u8 list \<Rightarrow> data_state \<Rightarrow> error + data_state" where
  "data_init mem_size seg d =
     (case seg of (active, off, bytes) \<Rightarrow>
        let d1 = d\<lparr>ds_blob := ds_blob d @ bytes,
                   ds_off := ds_off d @ [of_nat (length (ds_blob d))],
                   ds_len := ds_len d @ [of_nat (length bytes)]\<rparr>
        in
        if active then
          (if unat off + length bytes > unat mem_size then Inl (Msg ''data segment out of bounds'')
           else rbind (if bytes \<noteq> [] then copy_into (ds_memory d1) (unat off) bytes else Inr (ds_memory d1))
                  (\<lambda>mem. Inr (d1\<lparr>ds_memory := mem, ds_live := ds_live d1 @ [0]\<rparr>)))
        else Inr (d1\<lparr>ds_live := ds_live d1 @ [1]\<rparr>))"

definition elem_slot :: "u32 \<Rightarrow> nat \<times> u32 \<Rightarrow> u32 list \<Rightarrow> error + u32 list" where
  "elem_slot off r table =
     (case r of (i, fi) \<Rightarrow>
        let slot = unat off + i in
        if slot \<ge> length table then Inl (Msg ''elem segment out of bounds'') else Inr (table[slot := fi]))"

definition elem_init :: "u32 \<times> u32 list \<Rightarrow> u32 list \<Rightarrow> error + u32 list" where
  "elem_init seg table = (case seg of (off, idxs) \<Rightarrow> rfold (elem_slot off) (enumerate 0 idxs) table)"

definition finish :: "translate_state \<Rightarrow> error + host_module" where
  "finish s =
     rbind (fingerprints (ts_func_types s)) (\<lambda>type_fp.
       if ts_has_memory s \<and> ts_mem_min s > cap_pages s then Inl (Msg ''memory too large for host'')
       else
         rbind (rfold (data_init (mem_size_of s)) (ts_pending_data s)
                  \<lparr>ds_memory = replicate (unat (mem_max_of s)) 0, ds_blob = [], ds_off = [], ds_len = [],
                   ds_live = []\<rparr>) (\<lambda>d.
         rbind (rfold elem_init (ts_pending_elem s) (ts_table s)) (\<lambda>table.
           if ts_funcs s = [] then Inl (Msg ''no functions'')
           else Inr
             \<lparr>hm_code = ts_code s, hm_consts = ts_consts s, hm_funcs = ts_funcs s,
              hm_exports = ts_exports s, hm_globals = ts_globals s, hm_memory = ds_memory d,
              hm_mem_size = mem_size_of s, hm_mem_max = mem_max_of s, hm_data_blob = ds_blob d,
              hm_data_off = ds_off d, hm_data_len = ds_len d, hm_data_live = ds_live d,
              hm_table = table, hm_func_typeidx = ts_func_typeidx s, hm_type_fp = type_fp,
              hm_n_host_imports = of_nat (length (ts_host_fn_ids s)),
              hm_host_fn_id = ts_host_fn_ids s, hm_host_import_mod = ts_host_import_mod s,
              hm_host_import_name = ts_host_import_name s, hm_host_import_env = ts_host_import_env s\<rparr>)))"

text \<open>
  The parser and the host description are parameters: \<open>parse_all\<close> is \<open>Parser::parse_all\<close>.
\<close>

definition translate_wasm ::
  "env_root \<Rightarrow> (u8 list \<Rightarrow> (string + payload) list) \<Rightarrow> u8 list \<Rightarrow> error + host_module" where
  "translate_wasm root parse_all bytes = rbind (rfold (payload_step root) (parse_all bytes) start_state) finish"

end
