(* ===== verification/Translate_Safe.thy ===== *)
theory Translate_Safe
  imports Translate
begin

text \<open>
  Safety of the translation for arbitrary payloads: no branch panics, and a module that comes out
  is well formed (memory, segments, table and import vectors fit together).
\<close>

section \<open>Errors that are not panics\<close>

definition graceful :: "error + 'a \<Rightarrow> bool" where
  "graceful r \<longleftrightarrow> (\<forall>e. r = Inl e \<longrightarrow> \<not> is_panic e)"

lemma graceful_simps [simp]: "graceful (Inr x)" "graceful (Inl e) = (\<not> is_panic e)"
  by (simp_all add: graceful_def)

lemma graceful_rbind: "graceful m \<Longrightarrow> (\<And>x. m = Inr x \<Longrightarrow> graceful (f x)) \<Longrightarrow> graceful (rbind m f)"
  by (cases m) simp_all

lemma graceful_if: "(b \<Longrightarrow> graceful x) \<Longrightarrow> (\<not> b \<Longrightarrow> graceful y) \<Longrightarrow> graceful (if b then x else y)"
  by simp

lemma graceful_prefix [simp]: "graceful (with_prefix p r)"
  by (cases r) (simp_all add: with_prefix_def)

lemma graceful_ok_or [simp]: "graceful (ok_or (Msg e) r)"
  by (cases r) simp_all

lemma graceful_rfold:
  assumes "\<And>x s. x \<in> set xs \<Longrightarrow> graceful (f x s)"
  shows "graceful (rfold f xs s)"
  using assms by (induction xs arbitrary: s) (simp_all add: graceful_rbind)

lemma graceful_section: "(\<And>x s. graceful (f x s)) \<Longrightarrow> graceful (section_loop p f rs s)"
  unfolding section_loop_def by (intro graceful_rfold graceful_rbind) simp_all

lemma graceful_only_int [simp]: "graceful (only_int ts)"
  by (induction ts) simp_all

lemma graceful_fp: "graceful (type_fingerprint ps rs)"
proof -
  have tag: "graceful (type_tag t)" for t by (cases t) simp_all
  have "graceful (fp_tags sh ts fp)" for sh ts fp
    by (induction ts arbitrary: sh fp) (auto intro: graceful_rbind tag)
  then show ?thesis by (simp add: type_fingerprint_def graceful_rbind)
qed

lemma graceful_eval: "graceful (eval_i32_expr ops)"
proof -
  have pop: "graceful (pop2 st)" for st by (auto simp: pop2_def split: list.splits)
  have "graceful (eval_i32_op r st)" for r st
    unfolding eval_i32_op_def
    by (rule graceful_rbind, cases r, auto simp: pop graceful_rbind split: operator.splits i32_operator.splits prod.splits
        intro!: graceful_rbind pop)
  then show ?thesis unfolding eval_i32_expr_def
    by (intro graceful_rbind graceful_rfold) (auto split: list.splits)
qed

section \<open>The payloads\<close>

lemma graceful_code_entry: "graceful (code_entry body s)"
proof -
  have loc: "graceful (count_local r n)" for r n
    unfolding count_local_def by (intro graceful_rbind) (auto split: prod.splits)
  have ops: "graceful (collect_ops rs)" for rs
    by (induction rs) (simp_all add: graceful_rbind)
  have low: "graceful (lower_or_stub xs np nr nl s)" for xs np nr nl
    using lower_operators_keeps [of xs np nr nl "ts_code s" "ts_consts s" "ts_func_types s" "ts_func_typeidx s"
        "of_nat (length (ts_host_fn_ids s))" "ts_host_fn_ids s"]
    by (auto simp: lower_or_stub_def split: prod.splits sum.splits)
  show ?thesis unfolding code_entry_def Let_def
    by (intro graceful_if graceful_rbind graceful_rfold loc ops low) (auto split: prod.splits)
qed

lemma graceful_items:
  "graceful (type_item ct s)" "graceful (import_item root imp s)" "graceful (memory_item mt s)"
  "graceful (table_item t s)" "graceful (element_item el s)" "graceful (data_item d s)"
  "graceful (global_item g s)" "graceful (export_item ex s)"
proof -
  have e: "graceful (elem_op r x)" and g: "graceful (global_op r' y)" for r x r' y
    unfolding elem_op_def global_op_def by (rule graceful_rbind; simp split: operator.split)+
  have "graceful (elem_expr r xs)" for r xs
    unfolding elem_expr_def by (intro graceful_rbind graceful_rfold e) simp_all
  then have "graceful (elem_items it)" for it
    unfolding elem_items_def by (auto split: element_items.split intro!: graceful_rfold graceful_rbind)
  then show "graceful (element_item el s)"
    unfolding element_item_def elem_offset_def by (auto intro!: graceful_rbind graceful_eval split: element_kind.split)
  show "graceful (global_item g s)"
    unfolding global_item_def by (intro graceful_if graceful_rbind graceful_rfold g) simp_all
  show "graceful (type_item ct s)" "graceful (memory_item mt s)" "graceful (table_item t s)"
    "graceful (data_item d s)" "graceful (export_item ex s)"
    by (auto simp: type_item_def memory_item_def table_item_def data_item_def export_item_def
        intro!: graceful_rbind graceful_eval split: composite_type.split data_kind.split)
  show "graceful (import_item root imp s)"
    by (auto simp: import_item_def Let_def lookup_def intro!: graceful_rbind split: type_ref.split)
qed

lemma graceful_payload: "graceful (payload_step root r s)"
proof -
  have types: "graceful (rfold type_item cts t)" for cts t by (intro graceful_rfold graceful_items)
  show ?thesis
    unfolding payload_step_def type_section_def function_section_def import_section_def memory_section_def
      table_section_def element_section_def data_section_def global_section_def export_section_def
    by (intro graceful_rbind graceful_prefix)
      (auto split: payload.split intro!: graceful_section graceful_items graceful_code_entry types)
qed

section \<open>Memory sizes\<close>

lemma saturating_page:
  assumes "unat n \<le> 1024"
  shows "unat (saturating_mul n WASM_PAGE) = unat n * 65536"
proof -
  have "unat n * unat WASM_PAGE < 2 ^ 32" using assms by simp
  then show ?thesis by (simp add: saturating_mul_def unat_word_ariths)
qed

lemma unat_ucast_u32: "unat (x :: u64) < 2 ^ 32 \<Longrightarrow> unat (ucast x :: u32) = unat x"
  by (simp add: unsigned_ucast_eq take_bit_nat_eq_self)

lemma cap_pages_le: "unat (cap_pages s) \<le> 1024"
proof -
  have "cap_pages s \<le> 1024" by (simp add: cap_pages_def)
  then show ?thesis by (simp add: word_le_nat_alt)
qed

lemma mem_bounds:
  assumes "\<not> (ts_has_memory s \<and> ts_mem_min s > cap_pages s)"
  shows "unat (mem_size_of s) \<le> unat (mem_max_of s)" and "unat (mem_max_of s) \<le> 1024 * 65536"
    and "ts_has_memory s \<Longrightarrow> unat (mem_size_of s) = unat (ts_mem_min s) * 65536"
    and "ts_has_memory s \<Longrightarrow> unat (mem_max_of s) = unat (cap_pages s) * 65536"
proof -
  have cap: "unat (ucast (cap_pages s) :: u32) = unat (cap_pages s)" using cap_pages_le [of s] by (intro unat_ucast_u32) simp
  then have mx: "ts_has_memory s \<Longrightarrow> unat (mem_max_of s) = unat (cap_pages s) * 65536"
    using saturating_page [of "ucast (cap_pages s)"] cap_pages_le [of s] by (simp add: mem_max_of_def)
  have le: "unat (ts_mem_min s) \<le> unat (cap_pages s)" if "ts_has_memory s"
    using assms that by (simp add: word_le_nat_alt [symmetric])
  then have "unat (ucast (ts_mem_min s) :: u32) = unat (ts_mem_min s)" if "ts_has_memory s"
    using that cap_pages_le [of s] by (intro unat_ucast_u32) fastforce
  then have mn: "ts_has_memory s \<Longrightarrow> unat (mem_size_of s) = unat (ts_mem_min s) * 65536"
    using saturating_page [of "ucast (ts_mem_min s)"] le cap_pages_le [of s] by (simp add: mem_size_of_def)
  show "unat (mem_size_of s) \<le> unat (mem_max_of s)"
    using mx mn le by (cases "ts_has_memory s") (simp_all add: mem_size_of_def mem_max_of_def)
  show "unat (mem_max_of s) \<le> 1024 * 65536"
    using mx cap_pages_le [of s] by (cases "ts_has_memory s") (simp_all add: mem_max_of_def)
  show "ts_has_memory s \<Longrightarrow> unat (mem_size_of s) = unat (ts_mem_min s) * 65536" by (rule mn)
  show "ts_has_memory s \<Longrightarrow> unat (mem_max_of s) = unat (cap_pages s) * 65536" by (rule mx)
qed

section \<open>Data segments\<close>

text \<open>
  Segments written one after the other: at an index the value of the last active segment that
  covers it, or the default.
\<close>

fun last_write :: "'a \<Rightarrow> (bool \<times> u32 \<times> 'a list) list \<Rightarrow> nat \<Rightarrow> 'a" where
  "last_write z [] i = z"
| "last_write z ((active, off, xs) # segs) i =
     last_write (if active \<and> unat off \<le> i \<and> i < unat off + length xs then xs ! (i - unat off) else z) segs i"

definition covers :: "bool \<times> u32 \<times> 'a list \<Rightarrow> nat \<Rightarrow> bool" where
  "covers seg i = (case seg of (active, off, bytes) \<Rightarrow> active \<and> unat off \<le> i \<and> i < unat off + length bytes)"

lemma last_write_snoc:
  "last_write z (segs @ [seg]) i =
     (if covers seg i then snd (snd seg) ! (i - unat (fst (snd seg))) else last_write z segs i)"
  by (induction z segs i rule: last_write.induct) (auto simp: covers_def split: prod.splits)

text \<open>The initial memory, the blob and the vectors that describe the segments in it.\<close>

definition data_inv :: "nat \<Rightarrow> (bool \<times> u32 \<times> u8 list) list \<Rightarrow> data_state \<Rightarrow> bool" where
  "data_inv mem_max segs d \<longleftrightarrow>
     length (ds_memory d) = mem_max \<and> (\<forall>i < mem_max. ds_memory d ! i = last_write 0 segs i) \<and>
     ds_blob d = concat (map (snd \<circ> snd) segs) \<and>
     length (ds_off d) = length segs \<and> length (ds_len d) = length segs \<and> length (ds_live d) = length segs \<and>
     (\<forall>n < length segs.
        ds_off d ! n = of_nat (length (concat (map (snd \<circ> snd) (take n segs)))) \<and>
        ds_len d ! n = of_nat (length (snd (snd (segs ! n)))) \<and>
        ds_live d ! n = (if fst (segs ! n) then 0 else 1))"

lemma copy_into_Inr:
  "start + length bytes \<le> length mem \<Longrightarrow>
   copy_into mem start bytes = Inr (take start mem @ bytes @ drop (start + length bytes) mem)"
  by (simp add: copy_into_def)

lemma nth_copied:
  assumes "start + length bytes \<le> length mem" and "i < length mem"
  shows "(take start mem @ bytes @ drop (start + length bytes) mem) ! i =
     (if start \<le> i \<and> i < start + length bytes then bytes ! (i - start) else mem ! i)"
  using assms by (auto simp: nth_append)

lemma data_init_step:
  assumes I: "data_inv mem_max segs d" and le: "unat mem_size \<le> mem_max"
  shows "graceful (data_init mem_size seg d)"
    and "data_init mem_size seg d = Inr d' \<Longrightarrow> data_inv mem_max (segs @ [seg]) d'"
proof -
  obtain active off bytes where seg: "seg = (active, off, bytes)" by (cases seg)
  have len: "length (ds_memory d) = mem_max" using I by (simp add: data_inv_def)
  have fits: "unat off + length bytes \<le> length (ds_memory d)" if "unat off + length bytes \<le> unat mem_size"
    using that le len by simp
  show "graceful (data_init mem_size seg d)"
    using fits by (auto simp: data_init_def seg Let_def copy_into_def intro!: graceful_rbind)
  assume "data_init mem_size seg d = Inr d'"
  then have "active \<longrightarrow> unat off + length bytes \<le> unat mem_size"
    and d': "d' = \<lparr>ds_memory = (if active then take (unat off) (ds_memory d) @ bytes @ drop (unat off + length bytes) (ds_memory d)
             else ds_memory d),
        ds_blob = ds_blob d @ bytes, ds_off = ds_off d @ [of_nat (length (ds_blob d))],
        ds_len = ds_len d @ [of_nat (length bytes)], ds_live = ds_live d @ [if active then 0 else 1]\<rparr>"
    using fits by (auto simp: data_init_def seg Let_def copy_into_Inr split: if_splits)
  then show "data_inv mem_max (segs @ [seg]) d'"
    using I fits len nth_copied [of "unat off" bytes "ds_memory d"]
    by (auto simp: data_inv_def seg last_write_snoc covers_def nth_append less_Suc_eq)
qed

lemma data_inits:
  assumes "data_inv mem_max segs d" and "unat mem_size \<le> mem_max"
  shows "graceful (rfold (data_init mem_size) xs d) \<and>
    (\<forall>d'. rfold (data_init mem_size) xs d = Inr d' \<longrightarrow> data_inv mem_max (segs @ xs) d')"
  using assms(1)
proof (induction xs arbitrary: segs d)
  case (Cons x xs)
  note step = data_init_step [OF Cons.prems assms(2), of x]
  show ?case
  proof (cases "data_init mem_size x d")
    case (Inl e)
    with step(1) show ?thesis by simp
  next
    case (Inr d')
    from Cons.IH [OF step(2) [OF Inr]] Inr show ?thesis by simp
  qed
qed simp

lemma concat_slice:
  assumes "n < length xss"
  shows "take (length (xss ! n)) (drop (length (concat (take n xss))) (concat xss)) = xss ! n"
proof -
  have "concat xss = concat (take n xss) @ xss ! n @ concat (drop (Suc n) xss)"
    using id_take_nth_drop [OF assms] by (metis concat.simps(2) concat_append)
  then show ?thesis by (metis append_eq_conv_conj)
qed

text \<open>A segment lies inside the blob and can be read back from it.\<close>

lemma data_offsets:
  assumes "data_inv mem_max segs d" and "length (ds_blob d) < 2 ^ 32" and n: "n < length segs"
  shows "unat (ds_off d ! n) = length (concat (take n (map (snd \<circ> snd) segs)))" and "unat (ds_len d ! n) = length (snd (snd (segs ! n)))"
    and "unat (ds_off d ! n) + unat (ds_len d ! n) \<le> length (ds_blob d)"
proof -
  let ?xss = "map (snd \<circ> snd) segs"
  have blob: "ds_blob d = concat ?xss" using assms(1) by (simp add: data_inv_def)
  have n': "n < length ?xss" using n by simp
  have sum: "length (concat (take n ?xss)) + length (?xss ! n) \<le> length (concat ?xss)"
    using arg_cong [OF id_take_nth_drop [OF n'], of "length \<circ> concat"] by simp
  then have le: "length (concat (take n ?xss)) < 2 ^ 32" "length (?xss ! n) < 2 ^ 32"
    using assms(2) blob by simp_all
  have "ds_off d ! n = of_nat (length (concat (take n ?xss)))" "ds_len d ! n = of_nat (length (?xss ! n))"
    using assms(1) n by (simp_all add: data_inv_def take_map)
  then show off: "unat (ds_off d ! n) = length (concat (take n ?xss))" and len: "unat (ds_len d ! n) = length (snd (snd (segs ! n)))"
    using unat_of_nat_u32 [OF le(1)] unat_of_nat_u32 [OF le(2)] n by simp_all
  show "unat (ds_off d ! n) + unat (ds_len d ! n) \<le> length (ds_blob d)" using off len sum n blob by simp
qed

lemma data_slice:
  assumes "data_inv mem_max segs d" and "length (ds_blob d) < 2 ^ 32" and n: "n < length segs"
  shows "take (unat (ds_len d ! n)) (drop (unat (ds_off d ! n)) (ds_blob d)) = snd (snd (segs ! n))"
  using data_offsets [OF assms] concat_slice [of n "map (snd \<circ> snd) segs"] n assms(1) by (simp add: data_inv_def)

section \<open>Element segments\<close>

lemma elem_simps:
  "elem_slot off (i, fi) table =
     (if unat off + i \<ge> length table then Inl (Msg ''elem segment out of bounds'') else Inr (table[unat off + i := fi]))"
  "elem_init (off, idxs) table = rfold (elem_slot off) (enumerate 0 idxs) table"
  by (simp_all add: elem_slot_def elem_init_def Let_def)

lemma elem_slots:
  assumes "rfold (elem_slot off) (enumerate k idxs) table = Inr table'"
  shows "length table' = length table"
    and "i < length table \<Longrightarrow> table' ! i =
      (if unat off + k \<le> i \<and> i < unat off + k + length idxs then idxs ! (i - (unat off + k)) else table ! i)"
  using assms
proof (induction idxs arbitrary: k table)
  case (Cons x idxs)
  {
    case 1
    with Cons.IH(1) show ?case by (auto simp: elem_simps split: if_splits)
  next
    case 2
    then have "unat off + k < length table"
      and rest: "rfold (elem_slot off) (enumerate (Suc k) idxs) (table[unat off + k := x]) = Inr table'"
      by (auto simp: elem_simps split: if_splits)
    with Cons.IH(2) [OF _ rest] 2(1) show ?case by (auto simp: nth_Cons' nth_list_update)
  }
qed auto

lemma graceful_elems: "graceful (rfold elem_init segs table)"
  by (intro graceful_rfold) (auto simp: elem_init_def elem_slot_def Let_def split: prod.splits intro!: graceful_rfold)

abbreviation active_elems :: "(u32 \<times> u32 list) list \<Rightarrow> (bool \<times> u32 \<times> u32 list) list" where
  "active_elems segs \<equiv> map (\<lambda>(off, idxs). (True, off, idxs)) segs"

lemma elem_inits:
  assumes "rfold elem_init segs table = Inr table'"
  shows "length table' = length table \<and>
    (\<forall>i < length table. table' ! i = last_write (table ! i) (active_elems segs) i)"
  using assms
proof (induction segs arbitrary: table)
  case (Cons seg segs)
  obtain off idxs where seg: "seg = (off, idxs)" by (cases seg)
  from Cons.prems obtain t where t: "rfold (elem_slot off) (enumerate 0 idxs) table = Inr t"
    and rest: "rfold elem_init segs t = Inr table'" by (auto simp: seg elem_simps)
  from elem_slots [OF t] Cons.IH [OF rest] show ?case by (simp add: seg)
qed simp

section \<open>The finished module\<close>

lemma start_data_inv:
  "data_inv n [] \<lparr>ds_memory = replicate n 0, ds_blob = [], ds_off = [], ds_len = [], ds_live = []\<rparr>"
  by (simp add: data_inv_def)

lemma graceful_finish: "graceful (finish s)"
proof -
  have fp: "graceful (fingerprints fts)" for fts
    by (induction fts) (simp_all add: graceful_rbind graceful_fp)
  have "graceful (rfold (data_init (mem_size_of s)) (ts_pending_data s)
      \<lparr>ds_memory = replicate (unat (mem_max_of s)) 0, ds_blob = [], ds_off = [], ds_len = [], ds_live = []\<rparr>)"
    if "\<not> (ts_has_memory s \<and> ts_mem_min s > cap_pages s)"
    using data_inits [OF start_data_inv mem_bounds(1) [OF that]] by blast
  then show ?thesis unfolding finish_def
    by (intro graceful_rbind graceful_if graceful_elems fp) simp_all
qed

text \<open>The data segments of a finished module.\<close>

lemma finish_data:
  assumes "finish s = Inr m"
  obtains d where "\<not> (ts_has_memory s \<and> ts_mem_min s > cap_pages s)"
    and "data_inv (unat (mem_max_of s)) (ts_pending_data s) d"
    and "hm_memory m = ds_memory d" "hm_data_blob m = ds_blob d" "hm_data_off m = ds_off d" "hm_data_len m = ds_len d"
      "hm_data_live m = ds_live d" "hm_mem_size m = mem_size_of s" "hm_mem_max m = mem_max_of s"
proof -
  from assms have ok: "\<not> (ts_has_memory s \<and> ts_mem_min s > cap_pages s)" by (auto simp: finish_def)
  from assms obtain d where d: "rfold (data_init (mem_size_of s)) (ts_pending_data s)
      \<lparr>ds_memory = replicate (unat (mem_max_of s)) 0, ds_blob = [], ds_off = [], ds_len = [], ds_live = []\<rparr> = Inr d"
    and m: "hm_memory m = ds_memory d" "hm_data_blob m = ds_blob d" "hm_data_off m = ds_off d" "hm_data_len m = ds_len d"
      "hm_data_live m = ds_live d" "hm_mem_size m = mem_size_of s" "hm_mem_max m = mem_max_of s"
    by (auto simp: finish_def split: if_splits)
  have "data_inv (unat (mem_max_of s)) (ts_pending_data s) d"
    using data_inits [OF start_data_inv mem_bounds(1) [OF ok]] d by fastforce
  from that [OF ok this m] show ?thesis .
qed

section \<open>Parallel vectors\<close>

lemma section_inv:
  assumes "section_loop p f rs s = Inr t" and "P s" and "\<And>x s t. P s \<Longrightarrow> f x s = Inr t \<Longrightarrow> P t"
  shows "P t"
  using assms(1,2) unfolding section_loop_def by (rule rfold_inv) (auto intro: assms(3))

definition parallel :: "translate_state \<Rightarrow> bool" where
  "parallel s \<longleftrightarrow>
     length (ts_host_import_mod s) = length (ts_host_fn_ids s) \<and> length (ts_host_import_name s) = length (ts_host_fn_ids s) \<and>
     length (ts_host_import_env s) = length (ts_host_fn_ids s) \<and> length (ts_funcs s) \<le> length (ts_func_typeidx s)"

lemma parallel_items:
  "type_item ct s = Inr t \<Longrightarrow> parallel s \<Longrightarrow> parallel t" "import_item root imp s = Inr t \<Longrightarrow> parallel s \<Longrightarrow> parallel t"
  "memory_item mt s = Inr t \<Longrightarrow> parallel s \<Longrightarrow> parallel t" "table_item tt s = Inr t \<Longrightarrow> parallel s \<Longrightarrow> parallel t"
  "element_item el s = Inr t \<Longrightarrow> parallel s \<Longrightarrow> parallel t" "data_item d s = Inr t \<Longrightarrow> parallel s \<Longrightarrow> parallel t"
  "global_item g s = Inr t \<Longrightarrow> parallel s \<Longrightarrow> parallel t" "export_item ex s = Inr t \<Longrightarrow> parallel s \<Longrightarrow> parallel t"
  "code_entry body s = Inr t \<Longrightarrow> parallel s \<Longrightarrow> parallel t"
  by (auto simp: type_item_def import_item_def memory_item_def table_item_def element_item_def data_item_def global_item_def
      export_item_def code_entry_def parallel_def Let_def split: composite_type.splits type_ref.splits data_kind.splits if_splits)

lemma payload_parallel:
  assumes "payload_step root r s = Inr t" and "parallel s"
  shows "parallel t"
proof -
  have types: "rfold type_item x u = Inr v \<Longrightarrow> parallel u \<Longrightarrow> parallel v" for x u v
    by (erule rfold_inv) (auto intro: parallel_items)
  show ?thesis using assms
    by (cases r; simp add: payload_step_def with_prefix_def split: payload.splits)
      (auto simp: type_section_def function_section_def import_section_def memory_section_def table_section_def
        element_section_def data_section_def global_section_def export_section_def
        elim!: section_inv intro: parallel_items types, auto simp: parallel_def)
qed

section \<open>Properties\<close>

lemma translate_parallel:
  assumes "translate_wasm root parse_all bytes = Inr m"
  shows "length (hm_memory m) = unat (hm_mem_max m) \<and>
    length (hm_data_len m) = length (hm_data_off m) \<and> length (hm_data_live m) = length (hm_data_off m) \<and>
    length (hm_host_import_mod m) = length (hm_host_fn_id m) \<and> length (hm_host_import_name m) = length (hm_host_fn_id m) \<and>
    length (hm_host_import_env m) = length (hm_host_fn_id m) \<and> hm_n_host_imports m = of_nat (length (hm_host_fn_id m)) \<and>
    length (hm_funcs m) \<le> length (hm_func_typeidx m) \<and> hm_funcs m \<noteq> []"
proof -
  obtain s where run: "rfold (payload_step root) (parse_all bytes) start_state = Inr s" and fin: "finish s = Inr m"
    using assms by (auto simp: translate_wasm_def)
  have par: "parallel s" using run
  proof (rule rfold_inv)
    show "parallel start_state" by (simp add: parallel_def start_state_def)
  qed (rule payload_parallel)
  have f: "hm_host_fn_id m = ts_host_fn_ids s" "hm_host_import_mod m = ts_host_import_mod s"
    "hm_host_import_name m = ts_host_import_name s" "hm_host_import_env m = ts_host_import_env s"
    "hm_n_host_imports m = of_nat (length (ts_host_fn_ids s))" "hm_funcs m = ts_funcs s"
    "hm_func_typeidx m = ts_func_typeidx s" "hm_funcs m \<noteq> []"
    using fin by (auto simp: finish_def split: if_splits)
  from finish_data [OF fin] show ?thesis
  proof cases
    case (1 d)
    then show ?thesis using par f by (simp add: parallel_def data_inv_def)
  qed
qed


text \<open>
  C11. The initial memory of a module is exactly what its data segments say. The buffer has the
  maximal size, at most 64 MiB, of which the initial size is a prefix; every byte is the one of the
  last active segment that covers it, and zero elsewhere; and as long as the blob fits 32-bit
  offsets each segment, active or passive, reads back from the blob at its recorded offset and
  length, with the live flag set exactly for the passive ones.
\<close>

theorem finish_memory:
  assumes "finish s = Inr m"
  shows "length (hm_memory m) = unat (hm_mem_max m) \<and> unat (hm_mem_size m) \<le> unat (hm_mem_max m) \<and>
    unat (hm_mem_max m) \<le> 1024 * 65536 \<and>
    (\<forall>i < length (hm_memory m). hm_memory m ! i = last_write 0 (ts_pending_data s) i) \<and>
    length (hm_data_off m) = length (ts_pending_data s) \<and> length (hm_data_len m) = length (ts_pending_data s) \<and>
    length (hm_data_live m) = length (ts_pending_data s) \<and>
    (length (hm_data_blob m) < 2 ^ 32 \<longrightarrow>
      (\<forall>n < length (ts_pending_data s).
        take (unat (hm_data_len m ! n)) (drop (unat (hm_data_off m ! n)) (hm_data_blob m)) =
          snd (snd (ts_pending_data s ! n)) \<and>
        hm_data_live m ! n = (if fst (ts_pending_data s ! n) then 0 else 1)))"
proof -
  from finish_data [OF assms] show ?thesis
  proof cases
    case (1 d)
    then show ?thesis using mem_bounds(1,2) [OF 1(1)] data_slice [OF 1(2)] by (simp add: data_inv_def)
  qed
qed

text \<open>A memory of one page with an active segment at 8 and a passive one.\<close>

definition data_example :: translate_state where
  "data_example = start_state
     \<lparr>ts_has_memory := True, ts_mem_min := 1, ts_mem_max_pages := Some 1,
      ts_pending_data := [(True, 8, [1, 2, 3]), (False, 0, [4, 5])],
      ts_funcs := [import_stub ([], [])], ts_table := [TABLE_NULL, TABLE_NULL, TABLE_NULL],
      ts_pending_elem := [(0, [7, 8]), (1, [9])]\<rparr>"

lemma data_example_sizes: "mem_max_of data_example = 65536" "mem_size_of data_example = 65536"
  "\<not> ts_mem_min data_example > cap_pages data_example"
  by (simp_all add: mem_max_of_def mem_size_of_def saturating_mul_def cap_pages_def data_example_def)

lemma data_example_elems: "rfold elem_init (ts_pending_elem data_example) (ts_table data_example) = Inr [7, 9, TABLE_NULL]"
  by code_simp

lemma data_example_data:
  "11 \<le> length mem \<Longrightarrow> \<exists>d. rfold (data_init 65536) (ts_pending_data data_example)
     \<lparr>ds_memory = mem, ds_blob = [], ds_off = [], ds_len = [], ds_live = []\<rparr> = Inr d"
  by (simp add: data_example_def data_init_def copy_into_def)

lemma data_example_rest: "fingerprints (ts_func_types data_example) = Inr []" "ts_funcs data_example \<noteq> []"
  by code_simp+

lemma data_example_finish: "\<exists>m. finish data_example = Inr m"
proof -
  have "11 \<le> length (replicate (unat (65536 :: u32)) (0 :: u8))" by (simp only: length_replicate) simp
  from data_example_data [OF this] show ?thesis
    unfolding finish_def data_example_sizes data_example_elems data_example_rest(1)
    using data_example_sizes(3) data_example_rest(2) by (auto simp del: unat_numeral)
qed

lemma finish_memory_witness:
  "\<exists>m. finish data_example = Inr m \<and> hm_memory m ! 9 = 2 \<and> hm_memory m ! 11 = 0 \<and>
     length (hm_data_off m) = 2"
proof -
  obtain m where m: "finish data_example = Inr m" using data_example_finish ..
  then have "hm_mem_max m = 65536" using data_example_sizes by (auto simp: finish_def split: if_splits)
  with finish_memory [OF m] m show ?thesis by (auto simp: data_example_def)
qed

text \<open>
  C12. The function table of a module holds, at every index, the entry of the last element segment
  that covers the index, and otherwise the entry of the declared table, whose size it keeps.
\<close>

theorem finish_table:
  assumes "finish s = Inr m"
  shows "length (hm_table m) = length (ts_table s) \<and>
    (\<forall>i < length (ts_table s). hm_table m ! i = last_write (ts_table s ! i) (active_elems (ts_pending_elem s)) i)"
proof -
  from assms have "rfold elem_init (ts_pending_elem s) (ts_table s) = Inr (hm_table m)"
    by (auto simp: finish_def split: if_splits)
  then show ?thesis by (rule elem_inits)
qed

lemma finish_table_witness: "\<exists>m. finish data_example = Inr m \<and> length (hm_table m) = 3 \<and> hm_table m ! 1 = 9 \<and> hm_table m ! 0 = 7"
proof -
  obtain m where m: "finish data_example = Inr m" using data_example_finish ..
  with finish_table [OF m] show ?thesis by (auto simp: data_example_def)
qed

end
