(* ===== verification/Translate_Verified.thy ===== *)
theory Translate_Verified
  imports Translate_Safe Lowered_Verified
begin

text \<open>
  Translated modules pass the verifier: the end-to-end property of the translator. While the
  payloads are processed, the vectors only grow and the code of a finished function stays where it
  is, so what was proved about each function when it was lowered still holds in the module.
\<close>

section \<open>The state only grows\<close>

definition prefix_of :: "'a list \<Rightarrow> 'a list \<Rightarrow> bool" where
  "prefix_of xs ys \<longleftrightarrow> length xs \<le> length ys \<and> take (length xs) ys = xs"

lemma prefix_of_refl [simp]: "prefix_of xs xs"
  by (simp add: prefix_of_def)

lemma prefix_of_append [simp]: "prefix_of xs (xs @ ys)"
  by (simp add: prefix_of_def)

lemma prefix_of_trans: "prefix_of xs ys \<Longrightarrow> prefix_of ys zs \<Longrightarrow> prefix_of xs zs"
  unfolding prefix_of_def by (metis order_trans take_take min.absorb1)

lemma prefix_of_nth: "prefix_of xs ys \<Longrightarrow> i < length xs \<Longrightarrow> ys ! i = xs ! i"
  unfolding prefix_of_def by (metis nth_take)

definition grown :: "translate_state \<Rightarrow> translate_state \<Rightarrow> bool" where
  "grown s t \<longleftrightarrow>
     prefix_of (ts_func_types s) (ts_func_types t) \<and> prefix_of (ts_func_typeidx s) (ts_func_typeidx t) \<and>
     prefix_of (ts_funcs s) (ts_funcs t) \<and> length (ts_host_fn_ids s) \<le> length (ts_host_fn_ids t) \<and>
     length (ts_consts s) \<le> length (ts_consts t) \<and> length (ts_code s) \<le> length (ts_code t) \<and>
     (length (ts_code t) < 2 ^ 32 \<longrightarrow> prefix_of (ts_code s) (ts_code t))"

lemma grown_refl [simp]: "grown s s"
  by (simp add: grown_def)

lemma grown_trans: "grown s t \<Longrightarrow> grown t u \<Longrightarrow> grown s u"
  unfolding grown_def by (auto intro: prefix_of_trans)

lemma rfold_grown:
  assumes "rfold f xs s = Inr t" and "\<And>x s t. f x s = Inr t \<Longrightarrow> grown s t"
  shows "grown s t"
  by (rule rfold_inv [where P = "grown s", OF assms(1)]) (auto intro: grown_trans assms(2))

lemma section_grown:
  assumes "section_loop p f rs s = Inr t" and "\<And>x s t. f x s = Inr t \<Longrightarrow> grown s t"
  shows "grown s t"
  using assms(1) unfolding section_loop_def by (rule rfold_grown) (auto intro: assms(2))

lemma lower_or_stub_grown:
  assumes "lower_or_stub ops np nr nl s = Inr (meta, code, cts)"
  shows "length (ts_consts s) \<le> length cts" and "length (ts_code s) \<le> length code"
    and "length code < 2 ^ 32 \<Longrightarrow> prefix_of (ts_code s) code"
proof -
  obtain r code1 where l: "lower_operators ops np nr nl (ts_code s) (ts_consts s) (ts_func_types s)
      (ts_func_typeidx s) (of_nat (length (ts_host_fn_ids s))) (ts_host_fn_ids s) = (r, code1, cts)"
    and c: "code = code1 \<or> code = stub_code code1 nr"
    using assms by (auto simp: lower_or_stub_def split: prod.splits sum.splits if_splits)
  note k = lower_operators_keeps [OF l]
  have p: "prefix_of code1 code" using c by (auto simp: stub_code_def emit_def)
  then have le: "length code1 \<le> length code" by (simp add: prefix_of_def)
  show "length (ts_consts s) \<le> length cts" "length (ts_code s) \<le> length code" using k le by auto
  show "prefix_of (ts_code s) code" if "length code < 2 ^ 32"
  proof (rule prefix_of_trans [OF _ p])
    have "length code1 < 2 ^ 32" using that le by simp
    with k show "prefix_of (ts_code s) code1" by (simp add: prefix_of_def)
  qed
qed

lemma lower_or_stub_state:
  assumes "lower_or_stub ops np nr nl s = Inr (meta, code, cts)"
  shows "grown s (s\<lparr>ts_code := code, ts_consts := cts, ts_funcs := ts_funcs s @ [meta]\<rparr>)"
  using lower_or_stub_grown [OF assms] by (simp add: grown_def)

lemma payload_grown:
  assumes "payload_step root r s = Inr t"
  shows "grown s t"
proof -
  have ty: "type_item ct s = Inr t \<Longrightarrow> grown s t" for ct s t
    by (auto simp: type_item_def grown_def split: composite_type.splits)
  have im: "import_item root x s = Inr t \<Longrightarrow> grown s t" for x s t
    by (auto simp: import_item_def grown_def Let_def split: type_ref.splits if_splits)
  have me: "memory_item x s = Inr t \<Longrightarrow> grown s t" for x s t
    by (auto simp: memory_item_def grown_def split: if_splits)
  have ta: "table_item x s = Inr t \<Longrightarrow> grown s t" for x s t
    by (auto simp: table_item_def grown_def split: if_splits)
  have el: "element_item x s = Inr t \<Longrightarrow> grown s t" for x s t
    by (auto simp: element_item_def grown_def)
  have da: "data_item x s = Inr t \<Longrightarrow> grown s t" for x s t
    by (auto simp: data_item_def grown_def split: data_kind.splits if_splits)
  have gl: "global_item x s = Inr t \<Longrightarrow> grown s t" for x s t
    by (auto simp: global_item_def grown_def split: if_splits)
  have ex: "export_item x s = Inr t \<Longrightarrow> grown s t" for x s t
    by (auto simp: export_item_def grown_def split: if_splits)
  have co: "code_entry x s = Inr t \<Longrightarrow> grown s t" for x s t
    by (auto simp: code_entry_def Let_def split: if_splits elim: lower_or_stub_state)
  from assms show ?thesis
    by (auto simp: payload_step_def type_section_def function_section_def import_section_def memory_section_def
        table_section_def element_section_def data_section_def global_section_def export_section_def
        split: payload.splits dest!: section_grown
        dest: rfold_grown [OF _ ty] im me ta el da gl ex co simp: grown_def [of _ "_\<lparr>ts_func_typeidx := _\<rparr>"])
qed

section \<open>Where a function comes from\<close>

text \<open>
  Validation, as far as the lowering relies on it, for one body in the state it is translated in:
  its operators are typed, it has fewer than 65535 parameters and locals and at most \<open>2 ^ 26\<close>
  operators.
\<close>

definition body_typed :: "operator list \<Rightarrow> u16 \<Rightarrow> u16 \<Rightarrow> u16 \<Rightarrow> translate_state \<Rightarrow> bool" where
  "body_typed ops np nr nl s \<longleftrightarrow>
     typed_run (make_env ops np nr nl (ts_func_types s) (ts_func_typeidx s) (of_nat (length (ts_host_fn_ids s)))
         (ts_host_fn_ids s)) ops (init_state nr (ts_code s) (ts_consts s)) \<and>
     uint np + uint nl < 65535 \<and> int (length ops) \<le> 2 ^ 26"

definition entry_typed :: "function_body \<Rightarrow> translate_state \<Rightarrow> bool" where
  "entry_typed body s =
     (let ft = ts_func_types s ! unat (ts_func_typeidx s ! length (ts_funcs s)) in
      case rbind (with_prefix ''locals: '' (fb_locals body)) (\<lambda>ls. rfold count_local ls 0) of
        Inl _ \<Rightarrow> True
      | Inr n_locals \<Rightarrow>
          (case rbind (with_prefix ''ops: '' (fb_operators body)) collect_ops of
             Inl _ \<Rightarrow> True
           | Inr ops \<Rightarrow> body_typed ops (of_nat (length (fst ft))) (of_nat (length (snd ft))) (ucast n_locals) s))"

fun typed_payloads :: "env_root \<Rightarrow> (string + payload) list \<Rightarrow> translate_state \<Rightarrow> bool" where
  "typed_payloads root [] s = True"
| "typed_payloads root (r # rs) s =
     ((case r of Inr (CodeSectionEntry body) \<Rightarrow> entry_typed body s | _ \<Rightarrow> True) \<and>
      (case payload_step root r s of Inl _ \<Rightarrow> True | Inr t \<Rightarrow> typed_payloads root rs t))"

text \<open>The order of sections: no imports after a function section.\<close>

fun is_import :: "string + payload \<Rightarrow> bool" where
  "is_import (Inr (ImportSection _)) = True"
| "is_import _ = False"

fun is_function :: "string + payload \<Rightarrow> bool" where
  "is_function (Inr (FunctionSection _)) = True"
| "is_function _ = False"

fun imports_first :: "(string + payload) list \<Rightarrow> bool" where
  "imports_first [] = True"
| "imports_first (r # rs) = ((is_function r \<longrightarrow> list_all (\<lambda>q. \<not> is_import q) rs) \<and> imports_first rs)"

text \<open>A function of the module is an import, a lowered body, or the stub of a body that failed.\<close>

definition lowered_origin :: "translate_state \<Rightarrow> func_meta \<Rightarrow> bool" where
  "lowered_origin s f \<longleftrightarrow>
     (\<exists>u ops np nr nl code consts.
        lower_operators ops np nr nl (ts_code u) (ts_consts u) (ts_func_types u) (ts_func_typeidx u)
          (of_nat (length (ts_host_fn_ids u))) (ts_host_fn_ids u) = (Inr f, code, consts) \<and>
        body_typed ops np nr nl u \<and> (\<exists>t \<in> set (ts_func_types u). nr = of_nat (length (snd t))) \<and>
        prefix_of code (ts_code s) \<and> length consts \<le> length (ts_consts s) \<and>
        prefix_of (ts_func_types u) (ts_func_types s) \<and> prefix_of (ts_func_typeidx u) (ts_func_typeidx s))"

definition stub_origin :: "translate_state \<Rightarrow> func_meta \<Rightarrow> bool" where
  "stub_origin s f \<longleftrightarrow>
     (\<exists>code nr. prefix_of (stub_code code nr) (ts_code s) \<and> fm_code_off f = of_nat (length code) \<and> fm_code_len f = 2)"

definition fn_origin :: "translate_state \<Rightarrow> nat \<Rightarrow> func_meta \<Rightarrow> bool" where
  "fn_origin s i f \<longleftrightarrow>
     i < length (ts_host_fn_ids s) \<and> fm_code_off f = 0 \<and> fm_code_len f = 0 \<or> stub_origin s f \<or> lowered_origin s f"

definition arity_of :: "translate_state \<Rightarrow> nat \<Rightarrow> func_meta \<Rightarrow> bool" where
  "arity_of s i f \<longleftrightarrow>
     i < length (ts_func_typeidx s) \<and> unat (ts_func_typeidx s ! i) < length (ts_func_types s) \<and>
     fm_n_params f = of_nat (length (fst (ts_func_types s ! unat (ts_func_typeidx s ! i)))) \<and>
     fm_n_results f = of_nat (length (snd (ts_func_types s ! unat (ts_func_typeidx s ! i))))"

definition module_inv :: "translate_state \<Rightarrow> bool" where
  "module_inv s \<longleftrightarrow> (\<forall>i < length (ts_funcs s). fn_origin s i (ts_funcs s ! i) \<and> arity_of s i (ts_funcs s ! i))"

text \<open>While no function section has been seen, every function is an import.\<close>

definition only_imports :: "translate_state \<Rightarrow> bool" where
  "only_imports s \<longleftrightarrow>
     length (ts_funcs s) = length (ts_func_typeidx s) \<and> length (ts_host_fn_ids s) = length (ts_funcs s)"

section \<open>Each payload keeps the invariant\<close>

lemma fn_origin_mono:
  assumes "fn_origin s i f" and "grown s t" and "length (ts_code t) < 2 ^ 32"
  shows "fn_origin t i f"
proof -
  have p: "prefix_of (ts_code s) (ts_code t)" "prefix_of (ts_func_types s) (ts_func_types t)"
    "prefix_of (ts_func_typeidx s) (ts_func_typeidx t)" "length (ts_consts s) \<le> length (ts_consts t)"
    "length (ts_host_fn_ids s) \<le> length (ts_host_fn_ids t)"
    using assms(2,3) by (simp_all add: grown_def)
  have "stub_origin s f \<Longrightarrow> stub_origin t f"
    unfolding stub_origin_def using p(1) prefix_of_trans by blast
  moreover have "lowered_origin s f \<Longrightarrow> lowered_origin t f"
    unfolding lowered_origin_def using p prefix_of_trans by (meson order_trans)
  ultimately show ?thesis using assms(1) p(5) by (auto simp: fn_origin_def)
qed

lemma arity_of_mono: "arity_of s i f \<Longrightarrow> grown s t \<Longrightarrow> arity_of t i f"
  unfolding arity_of_def grown_def by (auto simp: prefix_of_nth prefix_of_def dest: order.strict_trans2)

lemma module_inv_step:
  assumes "module_inv s" and "grown s t" and "length (ts_code t) < 2 ^ 32"
    and "ts_funcs t = ts_funcs s @ fs" and "length fs \<le> 1"
    and "\<And>f. fs = [f] \<Longrightarrow> fn_origin t (length (ts_funcs s)) f \<and> arity_of t (length (ts_funcs s)) f"
  shows "module_inv t"
proof -
  have "fs = [] \<or> (\<exists>f. fs = [f])" using assms(5) by (cases fs) auto
  then show ?thesis using assms(1,4,6) fn_origin_mono [OF _ assms(2,3)] arity_of_mono [OF _ assms(2)]
    by (auto simp: module_inv_def nth_append less_Suc_eq)
qed

text \<open>Payloads other than imports and bodies add no function.\<close>

definition same_funcs :: "translate_state \<Rightarrow> translate_state \<Rightarrow> bool" where
  "same_funcs s t \<longleftrightarrow> ts_funcs t = ts_funcs s \<and> ts_host_fn_ids t = ts_host_fn_ids s \<and> ts_code t = ts_code s"

lemma same_funcs_items:
  "type_item ct s = Inr t \<Longrightarrow> same_funcs s t \<and> ts_func_typeidx t = ts_func_typeidx s"
  "memory_item mt s = Inr t \<Longrightarrow> same_funcs s t \<and> ts_func_typeidx t = ts_func_typeidx s"
  "table_item tt s = Inr t \<Longrightarrow> same_funcs s t \<and> ts_func_typeidx t = ts_func_typeidx s"
  "element_item el s = Inr t \<Longrightarrow> same_funcs s t \<and> ts_func_typeidx t = ts_func_typeidx s"
  "data_item d s = Inr t \<Longrightarrow> same_funcs s t \<and> ts_func_typeidx t = ts_func_typeidx s"
  "global_item g s = Inr t \<Longrightarrow> same_funcs s t \<and> ts_func_typeidx t = ts_func_typeidx s"
  "export_item ex s = Inr t \<Longrightarrow> same_funcs s t \<and> ts_func_typeidx t = ts_func_typeidx s"
  by (auto simp: type_item_def memory_item_def table_item_def element_item_def data_item_def global_item_def
      export_item_def same_funcs_def split: composite_type.splits data_kind.splits if_splits)

lemma same_funcs_section:
  assumes "section_loop p f rs s = Inr t"
    and "\<And>x s t. f x s = Inr t \<Longrightarrow> same_funcs s t \<and> ts_func_typeidx t = ts_func_typeidx s"
  shows "same_funcs s t \<and> ts_func_typeidx t = ts_func_typeidx s"
  by (rule section_inv [OF assms(1), of "\<lambda>t. same_funcs s t \<and> ts_func_typeidx t = ts_func_typeidx s"])
    (use assms(2) in \<open>auto simp: same_funcs_def\<close>)

lemma type_section_same:
  assumes "type_section rs s = Inr t"
  shows "same_funcs s t \<and> ts_func_typeidx t = ts_func_typeidx s"
  using assms unfolding type_section_def
proof (rule same_funcs_section)
  fix x s t assume "rfold type_item x s = Inr t"
  then show "same_funcs s t \<and> ts_func_typeidx t = ts_func_typeidx s"
    by (rule rfold_inv [where P = "\<lambda>t. same_funcs s t \<and> ts_func_typeidx t = ts_func_typeidx s"])
      (use same_funcs_items(1) in \<open>auto simp: same_funcs_def\<close>)
qed

lemma payload_same:
  assumes "payload_step root (Inr p) s = Inr t" and "\<not> is_import (Inr p)" and "\<And>b. p \<noteq> CodeSectionEntry b"
  shows "same_funcs s t \<and> (is_function (Inr p) \<or> ts_func_typeidx t = ts_func_typeidx s)"
proof (cases p)
  case (FunctionSection rs)
  have "same_funcs s t"
    using assms(1) unfolding FunctionSection payload_step_def function_section_def with_prefix_def
    by (simp, elim section_inv) (auto simp: same_funcs_def)
  with FunctionSection show ?thesis by simp
qed (use assms in \<open>simp_all add: payload_step_def with_prefix_def memory_section_def table_section_def element_section_def
      data_section_def global_section_def export_section_def type_section_same
      same_funcs_section [OF _ same_funcs_items(2)] same_funcs_section [OF _ same_funcs_items(3)]
      same_funcs_section [OF _ same_funcs_items(4)] same_funcs_section [OF _ same_funcs_items(5)]
      same_funcs_section [OF _ same_funcs_items(6)] same_funcs_section [OF _ same_funcs_items(7)]\<close>,
    auto simp: same_funcs_def)

text \<open>An import appends its stub, its type index and its id together.\<close>

lemma import_item_Inr:
  assumes "import_item root imp s = Inr t"
  obtains ti fid lab where "unat ti < length (ts_func_types s)"
    and "t = s\<lparr>ts_func_typeidx := ts_func_typeidx s @ [ti], ts_host_fn_ids := ts_host_fn_ids s @ [fid],
      ts_host_import_mod := ts_host_import_mod s @ [imp_module imp], ts_host_import_name := ts_host_import_name s @ [imp_name imp],
      ts_host_import_env := ts_host_import_env s @ [lab], ts_funcs := ts_funcs s @ [import_stub (ts_func_types s ! unat ti)]\<rparr>"
proof (cases "imp_ty imp")
  case (TR_Func ti)
  with assms show thesis by (auto simp: import_item_def Let_def not_le intro: that split: if_splits)
qed (use assms in \<open>simp_all add: import_item_def\<close>)

lemma import_inv:
  assumes "import_item root imp s = Inr t" and "module_inv s" and o: "only_imports s" and "length (ts_code s) < 2 ^ 32"
  shows "module_inv t" and "only_imports t"
proof -
  obtain ti fid lab where ti: "unat ti < length (ts_func_types s)"
    and t: "t = s\<lparr>ts_func_typeidx := ts_func_typeidx s @ [ti], ts_host_fn_ids := ts_host_fn_ids s @ [fid],
      ts_host_import_mod := ts_host_import_mod s @ [imp_module imp], ts_host_import_name := ts_host_import_name s @ [imp_name imp],
      ts_host_import_env := ts_host_import_env s @ [lab], ts_funcs := ts_funcs s @ [import_stub (ts_func_types s ! unat ti)]\<rparr>"
    using import_item_Inr [OF assms(1)] .
  have g: "grown s t" by (simp add: t grown_def)
  have c: "length (ts_code t) < 2 ^ 32" using assms(4) by (simp add: t)
  have "fn_origin t (length (ts_funcs s)) (import_stub (ts_func_types s ! unat ti))"
    and "arity_of t (length (ts_funcs s)) (import_stub (ts_func_types s ! unat ti))"
    using ti o by (simp_all add: t fn_origin_def import_stub_def only_imports_def arity_of_def)
  then show "module_inv t"
    using assms(2) by (intro module_inv_step [OF _ g c, of "[import_stub (ts_func_types s ! unat ti)]"]) (auto simp: t)
  show "only_imports t" using o by (simp add: t only_imports_def)
qed

lemma import_code: "import_item root imp s = Inr t \<Longrightarrow> ts_code t = ts_code s"
  by (auto simp: import_item_def Let_def split: type_ref.splits if_splits)

lemma import_section_inv:
  assumes "import_section root rs s = Inr t" and "module_inv s" "only_imports s" and "length (ts_code t) < 2 ^ 32"
  shows "module_inv t \<and> only_imports t"
proof -
  have c: "ts_code t = ts_code s"
    using assms(1) unfolding import_section_def
    by (rule section_inv [where P = "\<lambda>t. ts_code t = ts_code s"]) (auto dest: import_code)
  have "module_inv t \<and> only_imports t \<and> ts_code t = ts_code s"
    using assms(1) unfolding import_section_def
    by (rule section_inv) (use assms c in \<open>auto dest: import_code import_inv\<close>)
  then show ?thesis by simp
qed

text \<open>A body appends a lowered function or a stub, of the arity the function section announced.\<close>

lemma lower_or_stub_arity:
  assumes "lower_or_stub ops np nr nl s = Inr (meta, code, cts)"
  shows "fm_n_params meta = np \<and> fm_n_results meta = nr"
  using assms by (auto simp: lower_or_stub_def lower_operators_def stub_meta_def Let_def rbind_Inr_iff
      split: prod.splits sum.splits if_splits)

lemma lower_or_stub_origin:
  assumes "lower_or_stub ops np nr nl s = Inr (meta, code, cts)" and "body_typed ops np nr nl s"
    and "ft \<in> set (ts_func_types s)" and "nr = of_nat (length (snd ft))"
  shows "fm_n_params meta = np \<and> fm_n_results meta = nr"
    and "fn_origin (s\<lparr>ts_code := code, ts_consts := cts, ts_funcs := fs\<rparr>) i meta"
proof -
  let ?t = "s\<lparr>ts_code := code, ts_consts := cts, ts_funcs := fs\<rparr>"
  obtain r code1 where l: "lower_operators ops np nr nl (ts_code s) (ts_consts s) (ts_func_types s)
      (ts_func_typeidx s) (of_nat (length (ts_host_fn_ids s))) (ts_host_fn_ids s) = (r, code1, cts)"
    and c: "r = Inr meta \<and> code = code1 \<or> meta = stub_meta code1 np nr \<and> code = stub_code code1 nr"
    using assms(1) by (auto simp: lower_or_stub_def split: prod.splits sum.splits if_splits)
  show "fm_n_params meta = np \<and> fm_n_results meta = nr" by (rule lower_or_stub_arity [OF assms(1)])
  from c show "fn_origin ?t i meta"
  proof
    assume "r = Inr meta \<and> code = code1"
    then have "lowered_origin ?t meta"
      unfolding lowered_origin_def using l assms(2-4)
      by (intro exI [of _ s] exI [of _ ops] exI [of _ np] exI [of _ nr] exI [of _ nl] exI [of _ code] exI [of _ cts]) auto
    then show ?thesis by (simp add: fn_origin_def)
  next
    assume "meta = stub_meta code1 np nr \<and> code = stub_code code1 nr"
    then have "stub_origin ?t meta" unfolding stub_origin_def
      by (intro exI [of _ code1] exI [of _ nr]) (simp add: stub_meta_def)
    then show ?thesis by (simp add: fn_origin_def)
  qed
qed

lemma code_entry_Inr:
  fixes s :: translate_state
  defines "ft \<equiv> ts_func_types s ! unat (ts_func_typeidx s ! length (ts_funcs s))"
  assumes "code_entry body s = Inr t"
  obtains ls nl rs ops meta code cts where
    "length (ts_funcs s) < length (ts_func_typeidx s)" "unat (ts_func_typeidx s ! length (ts_funcs s)) < length (ts_func_types s)"
    "with_prefix ''locals: '' (fb_locals body) = Inr ls" "rfold count_local ls 0 = Inr nl"
    "with_prefix ''ops: '' (fb_operators body) = Inr rs" "collect_ops rs = Inr ops"
    "lower_or_stub ops (of_nat (length (fst ft))) (of_nat (length (snd ft))) (ucast nl) s = Inr (meta, code, cts)"
    "t = s\<lparr>ts_code := code, ts_consts := cts, ts_funcs := ts_funcs s @ [meta]\<rparr>"
  using assms(2) unfolding ft_def by (auto simp: code_entry_def Let_def not_le split: if_splits)

lemma code_entry_inv:
  assumes "code_entry body s = Inr t" and "entry_typed body s" and "module_inv s" and "length (ts_code t) < 2 ^ 32"
  shows "module_inv t" and "\<not> only_imports s"
proof -
  let ?fi = "length (ts_funcs s)"
  let ?ft = "ts_func_types s ! unat (ts_func_typeidx s ! ?fi)"
  obtain ls nl rs ops meta code cts where
    i: "?fi < length (ts_func_typeidx s)" "unat (ts_func_typeidx s ! ?fi) < length (ts_func_types s)"
    and b: "with_prefix ''locals: '' (fb_locals body) = Inr ls" "rfold count_local ls 0 = Inr nl"
      "with_prefix ''ops: '' (fb_operators body) = Inr rs" "collect_ops rs = Inr ops"
    and l: "lower_or_stub ops (of_nat (length (fst ?ft))) (of_nat (length (snd ?ft))) (ucast nl) s = Inr (meta, code, cts)"
    and t: "t = s\<lparr>ts_code := code, ts_consts := cts, ts_funcs := ts_funcs s @ [meta]\<rparr>"
    using code_entry_Inr [OF assms(1)] .
  show "\<not> only_imports s" using i by (simp add: only_imports_def)
  have g: "grown s t" unfolding t by (rule lower_or_stub_state [OF l])
  have "body_typed ops (of_nat (length (fst ?ft))) (of_nat (length (snd ?ft))) (ucast nl) s"
    using assms(2) b by (simp add: entry_typed_def Let_def)
  note lo = lower_or_stub_origin [OF l this nth_mem [OF i(2)] refl]
  have "fn_origin t ?fi meta" unfolding t by (rule lo(2))
  moreover have "arity_of t ?fi meta" using i lo(1) by (simp add: arity_of_def t)
  ultimately show "module_inv t" using module_inv_step [OF assms(3) g assms(4), of "[meta]"] by (simp add: t)
qed

lemma payload_inv:
  assumes "payload_step root r s = Inr t" and "module_inv s" and "is_import r \<Longrightarrow> only_imports s"
    and "\<And>b. r = Inr (CodeSectionEntry b) \<Longrightarrow> entry_typed b s" and "length (ts_code t) < 2 ^ 32"
  shows "module_inv t" and "only_imports s \<Longrightarrow> \<not> is_function r \<Longrightarrow> only_imports t"
proof -
  have g: "grown s t" using assms(1) by (rule payload_grown)
  obtain p where r: "r = Inr p" using assms(1) by (cases r) (auto simp: payload_step_def with_prefix_def)
  consider (code) b where "p = CodeSectionEntry b" | (imp) rs where "p = ImportSection rs"
    | (same) "\<not> is_import (Inr p)" "\<And>b. p \<noteq> CodeSectionEntry b" by (cases p) auto
  then have "module_inv t \<and> (only_imports s \<longrightarrow> \<not> is_function r \<longrightarrow> only_imports t)"
  proof cases
    case code
    then show ?thesis using assms r code_entry_inv [of b s t] by (simp add: payload_step_def with_prefix_def)
  next
    case imp
    then show ?thesis using assms r import_section_inv [of root rs s t] by (simp add: payload_step_def with_prefix_def)
  next
    case same
    from payload_same [OF assms(1) [unfolded r] same]
    have "same_funcs s t" "is_function r \<or> ts_func_typeidx t = ts_func_typeidx s" by (simp_all add: r)
    then show ?thesis using module_inv_step [OF assms(2) g assms(5), of "[]"]
      by (auto simp: same_funcs_def only_imports_def)
  qed
  then show "module_inv t" and "only_imports s \<Longrightarrow> \<not> is_function r \<Longrightarrow> only_imports t" by simp_all
qed

lemma payloads_inv:
  assumes "rfold (payload_step root) rs s = Inr t" and "module_inv s"
    and "only_imports s \<or> list_all (\<lambda>q. \<not> is_import q) rs" and "imports_first rs" and "typed_payloads root rs s"
    and "length (ts_code t) < 2 ^ 32"
  shows "module_inv t"
  using assms(1-5)
proof (induction rs arbitrary: s)
  case (Cons r rs)
  then obtain u where u: "payload_step root r s = Inr u" and rest: "rfold (payload_step root) rs u = Inr t" by auto
  have "grown u t" using rest by (rule rfold_grown) (rule payload_grown)
  then have len: "length (ts_code u) < 2 ^ 32" using assms(6) by (simp add: grown_def)
  have imp: "is_import r \<Longrightarrow> only_imports s" using Cons.prems(3) by auto
  have ty: "r = Inr (CodeSectionEntry b) \<Longrightarrow> entry_typed b s" for b using Cons.prems(5) by simp
  note inv = payload_inv [OF u Cons.prems(2) imp ty len]
  have "only_imports u \<or> list_all (\<lambda>q. \<not> is_import q) rs" using inv(2) Cons.prems(3,4) by auto
  with Cons.IH [OF rest inv(1)] Cons.prems(4,5) u show ?case by simp
qed simp

section \<open>The finished module\<close>

lemma fingerprints_nth:
  "fingerprints fts = Inr fps \<Longrightarrow>
     length fps = length fts \<and> (\<forall>i < length fts. type_fingerprint (fst (fts ! i)) (snd (fts ! i)) = Inr (fps ! i))"
  by (induction fts arbitrary: fps) (auto simp: nth_Cons split: nat.splits)

lemma type_fingerprint_small: "type_fingerprint ps rs = Inr fp \<Longrightarrow> length ps \<le> 8 \<and> length rs \<le> 8"
  by (auto simp: type_fingerprint_def split: if_splits)

lemma fingerprints_small:
  assumes "fingerprints fts = Inr fps" and "t \<in> set fts"
  shows "length (fst t) \<le> 8 \<and> length (snd t) \<le> 8"
proof -
  obtain i where "i < length fts" "t = fts ! i" using assms(2) by (auto simp: in_set_conv_nth)
  then show ?thesis using fingerprints_nth [OF assms(1)] type_fingerprint_small by blast
qed

lemma finish_fields:
  assumes "finish s = Inr m"
  shows "fingerprints (ts_func_types s) = Inr (hm_type_fp m)" and "hm_code m = ts_code s" and "hm_consts m = ts_consts s"
    and "hm_funcs m = ts_funcs s" and "hm_func_typeidx m = ts_func_typeidx s" and "hm_funcs m \<noteq> []"
    and "hm_n_host_imports m = of_nat (length (ts_host_fn_ids s))"
  using assms by (auto simp: finish_def split: if_splits)

lemma finished_agrees:
  assumes fin: "finish s = Inr m" and inv: "module_inv s" and len: "length (hm_func_typeidx m) = length (hm_funcs m)"
    and p: "prefix_of code (ts_code s)" "length cts \<le> length (ts_consts s)" "prefix_of types (ts_func_types s)"
      "prefix_of typeidx (ts_func_typeidx s)"
  shows "module_agrees m code cts types typeidx"
proof -
  note f = finish_fields [OF fin]
  note fp = fingerprints_nth [OF f(1)]
  have small: "length (fst (ts_func_types s ! j)) \<le> 8 \<and> length (snd (ts_func_types s ! j)) \<le> 8" if "j < length (ts_func_types s)" for j
    using fingerprints_small [OF f(1)] nth_mem [OF that] by blast
  have ar: "unat (fm_n_params (ts_funcs s ! i)) = length (fst (types ! unat (typeidx ! i))) \<and>
      unat (fm_n_results (ts_funcs s ! i)) = length (snd (types ! unat (typeidx ! i)))"
    if i: "i < length typeidx" and j: "unat (typeidx ! i) < length types" for i
  proof -
    have i': "i < length (ts_funcs s)" using p(4) i len f by (simp add: prefix_of_def)
    have eq: "ts_func_typeidx s ! i = typeidx ! i" "ts_func_types s ! unat (typeidx ! i) = types ! unat (typeidx ! i)"
      using prefix_of_nth [OF p(4) i] prefix_of_nth [OF p(3) j] by simp_all
    have "unat (typeidx ! i) < length (ts_func_types s)" using p(3) j by (simp add: prefix_of_def)
    from small [OF this] have "length (fst (types ! unat (typeidx ! i))) \<le> 8" "length (snd (types ! unat (typeidx ! i))) \<le> 8"
      by (simp_all add: eq)
    then show ?thesis using inv i' by (simp add: module_inv_def arity_of_def eq)
  qed
  have "type_fingerprint (fst (types ! i)) (snd (types ! i)) = Inr (hm_type_fp m ! i)" if "i < length types" for i
  proof -
    have "i < length (ts_func_types s)" using that p(3) by (simp add: prefix_of_def)
    then have "type_fingerprint (fst (ts_func_types s ! i)) (snd (ts_func_types s ! i)) = Inr (hm_type_fp m ! i)"
      using fp by blast
    then show ?thesis by (simp add: prefix_of_nth [OF p(3) that])
  qed
  then show ?thesis using p fp len f ar by (auto simp: module_agrees_def prefix_of_def)
qed

lemma stub_verified:
  assumes "prefix_of (stub_code code nr) (hm_code m)" and "fm_code_off f = of_nat (length code)" "fm_code_len f = 2"
    and "length (hm_code m) < 2 ^ 32"
  shows "fn_shape m f" and "well_heighted m f [0 \<mapsto> 0]"
proof -
  have sc: "stub_code code nr = code @ [mk_op OP_UNREACHABLE 0 0, mk_op OP_END_FUNC nr 0]"
    by (simp add: stub_code_def emit_def)
  have len: "length code + 2 \<le> length (hm_code m)" using assms(1) by (simp add: prefix_of_def sc)
  then have off: "unat (fm_code_off f) = length code" using assms(2,4) by simp
  have at: "hm_code m ! length code = mk_op OP_UNREACHABLE 0 0" "hm_code m ! Suc (length code) = mk_op OP_END_FUNC nr 0"
    using prefix_of_nth [OF assms(1), of "length code"] prefix_of_nth [OF assms(1), of "Suc (length code)"]
    by (simp_all add: sc nth_append)
  show "fn_shape m f" using off at len assms(3) by (simp add: fn_shape_def)
  have "cuop_effect vx (mk_op OP_UNREACHABLE 0 0) 0 = Inr (False, 0, None)" for vx
    by (simp add: cuop_effect_def switch_effect_def fixed_effect_def binops_def index_checks_def)
  then show "well_heighted m f [0 \<mapsto> 0]" using off at by (auto simp: well_heighted_def)
qed

lemma uint_nat_sum: "unat x + unat y < 65535 \<longleftrightarrow> uint x + uint y < 65535"
proof -
  have "uint x + uint y = int (unat x + unat y)" by simp
  then show ?thesis by (simp only:) linarith
qed

lemma origin_verified:
  assumes fin: "finish s = Inr m" and inv: "module_inv s" and len: "length (hm_func_typeidx m) = length (hm_funcs m)"
    and sz: "length (hm_code m) < 2 ^ 32" "length (hm_consts m) < 2 ^ 32" "length (hm_funcs m) < 2 ^ 32"
    and ids: "length (ts_host_fn_ids s) < 2 ^ 32" and i: "i < length (hm_funcs m)"
  shows "(\<exists>f'. verify_fn m i (hm_funcs m ! i) = Inr f') \<or> verify_fn m i (hm_funcs m ! i) = Inl ''max_stack overflow''"
proof -
  note f = finish_fields [OF fin]
  let ?f = "hm_funcs m ! i"
  have "fn_origin s i ?f" using inv i f by (simp add: module_inv_def)
  then consider (import) "i < length (ts_host_fn_ids s)" "fm_code_off ?f = 0" "fm_code_len ?f = 0"
    | (stub) "stub_origin s ?f" | (lowered) "lowered_origin s ?f" by (auto simp: fn_origin_def)
  then show ?thesis
  proof cases
    case import
    then show ?thesis using f(7) ids by (simp add: verify_fn_def Let_def)
  next
    case stub
    then show ?thesis using stub_verified [OF _ _ _ sz(1)] verify_fn_accepts f(2) unfolding stub_origin_def by metis
  next
    case lowered
    then obtain u ops np nr nl code cts t where
      low: "lower_operators ops np nr nl (ts_code u) (ts_consts u) (ts_func_types u) (ts_func_typeidx u)
          (of_nat (length (ts_host_fn_ids u))) (ts_host_fn_ids u) = (Inr ?f, code, cts)"
      and ty: "body_typed ops np nr nl u" and t: "t \<in> set (ts_func_types u)" "nr = of_nat (length (snd t))"
      and p: "prefix_of code (ts_code s)" "length cts \<le> length (ts_consts s)" "prefix_of (ts_func_types u) (ts_func_types s)"
        "prefix_of (ts_func_typeidx u) (ts_func_typeidx s)"
      unfolding lowered_origin_def by blast
    have "set (ts_func_types u) \<subseteq> set (ts_func_types s)" using p(3) unfolding prefix_of_def by (metis set_take_subset)
    then have types: "\<forall>t \<in> set (ts_func_types u). length (fst t) \<le> 8 \<and> length (snd t) \<le> 8"
      using fingerprints_small [OF f(1)] by blast
    then have res: "unat nr \<le> 8" using t by auto
    have "uint np + uint nl < 65535" "int (length ops) \<le> 2 ^ 26" using ty by (simp_all add: body_typed_def)
    then have nums: "unat np + unat nl < 65535" "length ops \<le> 2 ^ 26" by (simp_all add: uint_nat_sum)
    have out: "length code < 2 ^ 32" "length cts < 2 ^ 32" using p(1,2) sz(1,2) f(2,3) by (simp_all add: prefix_of_def)
    show ?thesis
      using lowered_function_accepted [OF low _ types res nums out finished_agrees [OF fin inv len p]] ty
      by (simp add: body_typed_def)
  qed
qed

lemma verify_fns_total:
  assumes "\<forall>i < length fs. (\<exists>f'. verify_fn m (k + i) (fs ! i) = Inr f') \<or> verify_fn m (k + i) (fs ! i) = Inl e"
  shows "(\<exists>fs'. verify_fns m k fs = Inr fs') \<or> verify_fns m k fs = Inl e"
  using assms
proof (induction fs arbitrary: k)
  case (Cons f fs)
  have "\<forall>i < length fs. (\<exists>f'. verify_fn m (k + 1 + i) (fs ! i) = Inr f') \<or> verify_fn m (k + 1 + i) (fs ! i) = Inl e"
    using Cons.prems by (auto dest: spec [of _ "Suc _"])
  from Cons.IH [OF this] Cons.prems show ?case by (auto dest: spec [of _ 0])
qed simp

lemma translated_verifies:
  assumes "translate_wasm root parse_all bytes = Inr m"
    and "imports_first (parse_all bytes)" and "typed_payloads root (parse_all bytes) start_state"
    and "length (hm_func_typeidx m) = length (hm_funcs m)" and "hm_code m \<noteq> []"
    and "length (hm_code m) < 2 ^ 32" and "length (hm_consts m) < 2 ^ 32" and "length (hm_funcs m) < 2 ^ 32"
    and "length (hm_host_fn_id m) < 2 ^ 32"
  shows "(\<exists>fs. verify_cuop m = Inr (m\<lparr>hm_funcs := fs\<rparr>)) \<or> verify_cuop m = Inl ''max_stack overflow''"
proof -
  obtain s where run: "rfold (payload_step root) (parse_all bytes) start_state = Inr s" and fin: "finish s = Inr m"
    using assms(1) by (auto simp: translate_wasm_def)
  note f = finish_fields [OF fin]
  have "module_inv start_state" "only_imports start_state" by (simp_all add: module_inv_def only_imports_def start_state_def)
  then have inv: "module_inv s" using payloads_inv [OF run] assms(2,3,6) f(2) by simp
  have "length (ts_host_fn_ids s) < 2 ^ 32" using assms(9) fin by (auto simp: finish_def split: if_splits)
  from origin_verified [OF fin inv assms(4,6-8) this]
  have "(\<exists>fs'. verify_fns m 0 (hm_funcs m) = Inr fs') \<or> verify_fns m 0 (hm_funcs m) = Inl ''max_stack overflow''"
    by (intro verify_fns_total) simp
  then show ?thesis using assms(5) f(6) by (auto simp: verify_cuop_def)
qed

section \<open>Properties\<close>

text \<open>
  C2. The verifier accepts what the translator produces. Take a module that \<open>translate_wasm\<close>
  translates: the parser delivers imports before function declarations, as the binary format
  demands, every function body is typed as validation guarantees, every declared function has its
  body, there is some code, and the vectors fit the 32-bit indices. Then \<open>verify_cuop\<close> accepts the
  module, changing nothing but the frame sizes, or rejects it for one reason only: some frame
  exceeds 65535 slots. Imports, lowered bodies and the trapping stubs of rejected bodies are all
  covered.
\<close>

theorem translated_module_verified:
  assumes "translate_wasm root parse_all bytes = Inr m"
    and "imports_first (parse_all bytes)" and "typed_payloads root (parse_all bytes) start_state"
    and "length (hm_func_typeidx m) = length (hm_funcs m)" and "hm_code m \<noteq> []"
    and "length (hm_code m) < 2 ^ 32" and "length (hm_consts m) < 2 ^ 32" and "length (hm_funcs m) < 2 ^ 32"
    and "length (hm_host_fn_id m) < 2 ^ 32"
  shows "(\<exists>fs. verify_cuop m = Inr (m\<lparr>hm_funcs := fs\<rparr>)) \<or> verify_cuop m = Inl ''max_stack overflow''"
  using assms by (rule translated_verifies)

text \<open>
  A module with an import, two functions and a body that cannot be lowered: the first function
  is the sample body, the second uses an unsupported operator and becomes a stub.
\<close>

definition sample_payloads :: "(string + payload) list" where
  "sample_payloads =
     [Inr (TypeSection [Inr [CT_Func [I64] [I64]], Inr [CT_Func [] []]]),
      Inr (ImportSection [Inr \<lparr>imp_module = ''x'', imp_name = ''0'', imp_ty = TR_Func 1\<rparr>]),
      Inr (FunctionSection [Inr 0, Inr 1]),
      Inr (ExportSection [Inr \<lparr>ex_name = ''run'', ex_kind = EX_Func, ex_index = 1\<rparr>]),
      Inr (CodeSectionEntry \<lparr>fb_locals = Inr [], fb_operators = Inr (map Inr sample_ops)\<rparr>),
      Inr (CodeSectionEntry \<lparr>fb_locals = Inr [], fb_operators = Inr [Inr (OtherOperator ''v128.const''), Inr End]\<rparr>)]"

definition sample_translated :: host_module where
  "sample_translated =
     (case translate_wasm sample_root (\<lambda>_. sample_payloads) [] of Inl _ \<Rightarrow> empty_module | Inr m \<Rightarrow> m)"

lemma sample_translation:
  "translate_wasm sample_root (\<lambda>_. sample_payloads) [] = Inr sample_translated"
  "imports_first sample_payloads" "typed_payloads sample_root sample_payloads start_state"
  "length (hm_func_typeidx sample_translated) = length (hm_funcs sample_translated)" "hm_code sample_translated \<noteq> []"
  by code_simp+

lemma sample_lens:
  "length (hm_code sample_translated) \<le> 20" "length (hm_consts sample_translated) \<le> 20"
  "length (hm_funcs sample_translated) \<le> 20" "length (hm_host_fn_id sample_translated) \<le> 20"
  by code_simp+

lemma translated_module_verified_witness:
  "(\<exists>fs. verify_cuop sample_translated = Inr (sample_translated\<lparr>hm_funcs := fs\<rparr>)) \<or>
   verify_cuop sample_translated = Inl ''max_stack overflow''"
  by (rule translated_module_verified [OF sample_translation]) (use sample_lens in simp_all)

end
