(* ===== verification/Translate_Linked.thy ===== *)
theory Translate_Linked
  imports Translate_Verified
begin

text \<open>
  What the translator promises to the interpreter beyond the verifier's checks: in a translated module
  every call goes past the imports, every host call carries the arity of an import, a count of leading
  zeros has width 32 or 64, and the record of every function has the arity of its type. This holds for
  arbitrary bodies, typed or not, as long as imports come before functions.
\<close>

section \<open>Linked states\<close>

abbreviation module_env :: "translate_state \<Rightarrow> lower_env" where
  "module_env s \<equiv> make_env [] 0 0 0 (ts_func_types s) (ts_func_typeidx s) (of_nat (length (ts_host_fn_ids s))) (ts_host_fn_ids s)"

definition linked :: "translate_state \<Rightarrow> bool" where
  "linked s \<longleftrightarrow>
     (\<forall>i < length (ts_funcs s). arity_of s i (ts_funcs s ! i)) \<and>
     (length (ts_code s) < 2 ^ 32 \<longrightarrow> list_all (call_ok (module_env s)) (ts_code s)) \<and>
     length (ts_host_fn_ids s) \<le> length (ts_funcs s) \<and> (length (ts_host_fn_ids s) = length (ts_funcs s) \<longrightarrow> ts_code s = [])"

lemma call_ok_env: "call_ok (make_env ops np nr nl types typeidx n ids) = call_ok (make_env [] 0 0 0 types typeidx n ids)"
  by (simp add: call_ok_def make_env_def Let_def fun_eq_iff)

lemma func_arity_mono:
  assumes "func_arity i types typeidx = Inr r" and "prefix_of types types'" and "prefix_of typeidx typeidx'"
  shows "func_arity i types' typeidx' = Inr r"
proof -
  have i: "unat i < length typeidx" "unat (typeidx ! unat i) < length types"
    using assms(1) by (auto simp: func_arity_def Let_def split: if_splits)
  then have "typeidx' ! unat i = typeidx ! unat i" "types' ! unat (typeidx ! unat i) = types ! unat (typeidx ! unat i)"
    using prefix_of_nth assms(2,3) by blast+
  moreover have "length typeidx \<le> length typeidx'" "length types \<le> length types'" using assms(2,3) by (simp_all add: prefix_of_def)
  ultimately show ?thesis using assms(1) i by (simp add: func_arity_def)
qed

lemma call_ok_mono:
  assumes "call_ok (module_env s) x" and "grown s t" and "length (ts_host_fn_ids t) = length (ts_host_fn_ids s)"
  shows "call_ok (module_env t) x"
proof -
  have "func_arity i (ts_func_types t) (ts_func_typeidx t) = Inr r" if "func_arity i (ts_func_types s) (ts_func_typeidx s) = Inr r" for i r
    using func_arity_mono [OF that] assms(2) by (simp add: grown_def)
  then show ?thesis using assms(1,3) by (auto simp: call_ok_def make_env_def Let_def)
qed

lemma arities_step:
  assumes "linked s" and "grown s t" and "ts_funcs t = ts_funcs s @ fs" and "length fs \<le> 1"
    and "\<And>f. fs = [f] \<Longrightarrow> arity_of t (length (ts_funcs s)) f"
  shows "\<forall>i < length (ts_funcs t). arity_of t i (ts_funcs t ! i)"
proof -
  have "fs = [] \<or> (\<exists>f. fs = [f])" using assms(4) by (cases fs) auto
  then show ?thesis using assms(1,3,5) arity_of_mono [OF _ assms(2)] by (auto simp: linked_def nth_append less_Suc_eq)
qed

section \<open>Every payload keeps a module linked\<close>

lemma import_linked:
  assumes "import_item root imp s = Inr t" and "linked s" and "only_imports s"
  shows "linked t" and "only_imports t"
proof -
  obtain ti fid lab where ti: "unat ti < length (ts_func_types s)"
    and t: "t = s\<lparr>ts_func_typeidx := ts_func_typeidx s @ [ti], ts_host_fn_ids := ts_host_fn_ids s @ [fid],
      ts_host_import_mod := ts_host_import_mod s @ [imp_module imp], ts_host_import_name := ts_host_import_name s @ [imp_name imp],
      ts_host_import_env := ts_host_import_env s @ [lab], ts_funcs := ts_funcs s @ [import_stub (ts_func_types s ! unat ti)]\<rparr>"
    using import_item_Inr [OF assms(1)] .
  have "arity_of t (length (ts_funcs s)) (import_stub (ts_func_types s ! unat ti))"
    using ti assms(3) by (simp add: t import_stub_def only_imports_def arity_of_def)
  moreover have "grown s t" by (simp add: t grown_def)
  ultimately have "\<forall>i < length (ts_funcs t). arity_of t i (ts_funcs t ! i)"
    using assms(2) by (intro arities_step [of s t "[import_stub (ts_func_types s ! unat ti)]"]) (auto simp: t)
  moreover have "ts_code s = []" using assms(2,3) by (simp add: linked_def only_imports_def)
  ultimately show "linked t" using assms(2) by (simp add: linked_def t)
  show "only_imports t" using assms(3) by (simp add: t only_imports_def)
qed

lemma import_section_linked:
  assumes "import_section root rs s = Inr t" and "linked s" and "only_imports s"
  shows "linked t \<and> only_imports t"
  using assms(1) unfolding import_section_def
  by (rule section_inv) (use assms import_linked in auto)

lemma same_funcs_linked:
  assumes "linked s" and "grown s t" and "same_funcs s t"
  shows "linked t"
proof -
  have "\<forall>i < length (ts_funcs t). arity_of t i (ts_funcs t ! i)"
    using assms(1,3) by (intro arities_step [OF assms(1,2), of "[]"]) (simp_all add: same_funcs_def)
  then show ?thesis using assms call_ok_mono [OF _ assms(2)]
    by (auto simp: linked_def same_funcs_def list_all_iff)
qed

text \<open>The code a body adds.\<close>

lemma lower_or_stub_calls:
  assumes "lower_or_stub ops np nr nl s = Inr (meta, code, cts)" and "length code < 2 ^ 32"
  shows "list_all (call_ok (module_env s)) (drop (length (ts_code s)) code)"
proof -
  obtain r code1 where l: "lower_operators ops np nr nl (ts_code s) (ts_consts s) (ts_func_types s)
      (ts_func_typeidx s) (of_nat (length (ts_host_fn_ids s))) (ts_host_fn_ids s) = (r, code1, cts)"
    and c: "code = code1 \<or> code = stub_code code1 nr"
    using assms(1) by (auto simp: lower_or_stub_def split: prod.splits sum.splits if_splits)
  have sc: "stub_code code1 nr = code1 @ [mk_op OP_UNREACHABLE 0 0, mk_op OP_END_FUNC nr 0]"
    by (simp add: stub_code_def emit_def)
  have "length code1 < 2 ^ 32" using c assms(2) sc by auto
  note k = lower_operators_calls [OF l this, unfolded call_ok_env [of ops np nr nl]]
  have "length (ts_code s) \<le> length code1" using lower_operators_keeps [OF l] by simp
  then show ?thesis using c k by (auto simp: sc)
qed

lemma code_entry_linked:
  assumes "code_entry body s = Inr t" and "linked s"
  shows "linked t" and "\<not> only_imports s"
proof -
  let ?fi = "length (ts_funcs s)"
  let ?ft = "ts_func_types s ! unat (ts_func_typeidx s ! ?fi)"
  obtain ls nl rs ops meta code cts where
    i: "?fi < length (ts_func_typeidx s)" "unat (ts_func_typeidx s ! ?fi) < length (ts_func_types s)"
    and b: "with_prefix ''locals: '' (fb_locals body) = Inr ls" "rfold count_local ls 0 = Inr nl"
      "with_prefix ''ops: '' (fb_operators body) = Inr rs" "collect_ops rs = Inr ops"
    and l: "lower_or_stub ops (of_nat (length (fst ?ft))) (of_nat (length (snd ?ft))) (ucast nl) s = Inr (meta, code, cts)"
    and t: "t = s\<lparr>ts_code := code, ts_consts := cts, ts_funcs := ts_funcs s @ [meta]\<rparr>"
    using code_entry_Inr [OF assms(1)] .
  show "\<not> only_imports s" using i by (simp add: only_imports_def)
  have g: "grown s t" unfolding t by (rule lower_or_stub_state [OF l])
  have "arity_of t ?fi meta" using i lower_or_stub_arity [OF l] by (simp add: arity_of_def t)
  then have "\<forall>i < length (ts_funcs t). arity_of t i (ts_funcs t ! i)"
    using assms(2) by (intro arities_step [OF assms(2) g, of "[meta]"]) (simp_all add: t)
  moreover have "list_all (call_ok (module_env t)) code" if c: "length code < 2 ^ 32"
  proof -
    have p: "prefix_of (ts_code s) code" using lower_or_stub_grown(3) [OF l c] .
    then have "list_all (call_ok (module_env s)) (ts_code s)" using assms(2) c by (simp add: linked_def prefix_of_def)
    then have "list_all (call_ok (module_env s)) (take (length (ts_code s)) code @ drop (length (ts_code s)) code)"
      unfolding list_all_append using lower_or_stub_calls [OF l c] p by (simp add: prefix_of_def)
    then show ?thesis by (simp add: t)
  qed
  ultimately show "linked t" using assms(2) by (simp add: linked_def t)
qed

lemma payload_linked:
  assumes "payload_step root r s = Inr t" and "linked s" and "is_import r \<Longrightarrow> only_imports s"
  shows "linked t \<and> (only_imports s \<longrightarrow> \<not> is_function r \<longrightarrow> only_imports t)"
proof -
  obtain p where r: "r = Inr p" using assms(1) by (cases r) (auto simp: payload_step_def with_prefix_def)
  consider (code) b where "p = CodeSectionEntry b" | (imp) rs where "p = ImportSection rs"
    | (same) "\<not> is_import (Inr p)" "\<And>b. p \<noteq> CodeSectionEntry b" by (cases p) auto
  then show ?thesis
  proof cases
    case code
    then show ?thesis using assms r code_entry_linked [of b s t] by (simp add: payload_step_def with_prefix_def)
  next
    case imp
    then show ?thesis using assms r import_section_linked [of root rs s t] by (simp add: payload_step_def with_prefix_def)
  next
    case same
    from payload_same [OF assms(1) [unfolded r] same]
    have "same_funcs s t" "is_function r \<or> ts_func_typeidx t = ts_func_typeidx s" by (simp_all add: r)
    then show ?thesis using same_funcs_linked [OF assms(2) payload_grown [OF assms(1)]] by (auto simp: same_funcs_def only_imports_def)
  qed
qed

lemma payloads_linked:
  assumes "rfold (payload_step root) rs s = Inr t" and "linked s"
    and "only_imports s \<or> list_all (\<lambda>q. \<not> is_import q) rs" and "imports_first rs"
  shows "linked t"
  using assms
proof (induction rs arbitrary: s)
  case (Cons r rs)
  then obtain u where u: "payload_step root r s = Inr u" and rest: "rfold (payload_step root) rs u = Inr t" by auto
  have "is_import r \<Longrightarrow> only_imports s" using Cons.prems(3) by auto
  note inv = payload_linked [OF u Cons.prems(2) this]
  have "only_imports u \<or> list_all (\<lambda>q. \<not> is_import q) rs" using inv Cons.prems(3,4) by auto
  with Cons.IH [OF rest] inv Cons.prems(4) show ?case by simp
qed simp

lemma translate_linked:
  assumes "translate_wasm root parse_all bytes = Inr m" and "imports_first (parse_all bytes)"
  obtains s where "linked s" and "finish s = Inr m"
proof -
  obtain s where run: "rfold (payload_step root) (parse_all bytes) start_state = Inr s" and fin: "finish s = Inr m"
    using assms(1) by (auto simp: translate_wasm_def rbind_Inr_iff)
  have "linked start_state" "only_imports start_state" by (simp_all add: linked_def only_imports_def start_state_def)
  then show thesis using that payloads_linked [OF run] assms(2) fin by blast
qed

section \<open>Linked modules\<close>

text \<open>The same on the finished module, on which the interpreter works.\<close>

definition linked_ins :: "host_module \<Rightarrow> cuop \<Rightarrow> bool" where
  "linked_ins m x \<longleftrightarrow>
     (cu_op x = OP_CLZ \<longrightarrow> cu_a x = 32 \<or> cu_a x = 64) \<and>
     (cu_op x = OP_CALL \<or> cu_op x = OP_RETURN_CALL \<longrightarrow> length (hm_host_fn_id m) \<le> unat (cu_b x)) \<and>
     (cu_op x = OP_CALL_HOST \<longrightarrow>
        (\<exists>i < length (hm_host_fn_id m). unat (fm_n_params (hm_funcs m ! i)) \<le> 8 \<and> unat (fm_n_results (hm_funcs m ! i)) \<le> 8 \<and>
           cu_a x = fm_n_params (hm_funcs m ! i) OR push_bit 8 (fm_n_results (hm_funcs m ! i))))"

definition typed_fn :: "host_module \<Rightarrow> nat \<Rightarrow> bool" where
  "typed_fn m i \<longleftrightarrow>
     i < length (hm_func_typeidx m) \<and> unat (hm_func_typeidx m ! i) < length (hm_type_fp m) \<and>
     unat (fm_n_params (hm_funcs m ! i)) \<le> 8 \<and> unat (fm_n_results (hm_funcs m ! i)) \<le> 8 \<and>
     uint (hm_type_fp m ! unat (hm_func_typeidx m ! i) AND 0xFF) = int (unat (fm_n_params (hm_funcs m ! i))) \<and>
     uint (drop_bit 8 (hm_type_fp m ! unat (hm_func_typeidx m ! i)) AND 0xFF) = int (unat (fm_n_results (hm_funcs m ! i)))"

lemma translated_linked:
  assumes t: "translate_wasm root parse_all bytes = Inr m" and i: "imports_first (parse_all bytes)"
    and c: "length (hm_code m) < 2 ^ 32" "length (hm_host_fn_id m) < 2 ^ 32"
  shows "list_all (linked_ins m) (hm_code m)" and "\<And>i. i < length (hm_funcs m) \<Longrightarrow> typed_fn m i"
    and "length (hm_host_fn_id m) \<le> length (hm_funcs m)"
proof -
  obtain s where s: "linked s" and fin: "finish s = Inr m" using translate_linked [OF t i] .
  note f = finish_fields [OF fin]
  have ids: "hm_host_fn_id m = ts_host_fn_ids s" using fin by (auto simp: finish_def split: if_splits)
  show "length (hm_host_fn_id m) \<le> length (hm_funcs m)" using s by (simp add: linked_def f(4) ids)
  show ty: "typed_fn m i" if "i < length (hm_funcs m)" for i
  proof -
    have a: "arity_of s i (hm_funcs m ! i)" using s that by (simp add: linked_def f(4))
    let ?t = "ts_func_types s ! unat (ts_func_typeidx s ! i)"
    have "unat (ts_func_typeidx s ! i) < length (ts_func_types s)" using a by (simp add: arity_of_def)
    moreover from this have fp: "type_fingerprint (fst ?t) (snd ?t) = Inr (hm_type_fp m ! unat (ts_func_typeidx s ! i))"
      using fingerprints_nth [OF f(1)] by blast
    moreover note type_fingerprint_small [OF fp]
    ultimately show ?thesis using a fingerprints_nth [OF f(1)] type_fingerprint_arity [OF fp]
      by (simp add: typed_fn_def arity_of_def f(5))
  qed
  have "linked_ins m x" if "x \<in> set (hm_code m)" for x
  proof -
    have x: "call_ok (module_env s) x" using that s c(1) by (auto simp: linked_def f(2) list_all_iff)
    have n: "unat (of_nat (length (ts_host_fn_ids s)) :: u32) = length (ts_host_fn_ids s)" using c(2) by (simp add: ids)
    have "\<exists>i < length (hm_host_fn_id m). unat (fm_n_params (hm_funcs m ! i)) \<le> 8 \<and> unat (fm_n_results (hm_funcs m ! i)) \<le> 8 \<and>
        cu_a x = fm_n_params (hm_funcs m ! i) OR push_bit 8 (fm_n_results (hm_funcs m ! i))" if h: "cu_op x = OP_CALL_HOST"
    proof -
      obtain i np nr where i: "i < of_nat (length (ts_host_fn_ids s))" "func_arity i (ts_func_types s) (ts_func_typeidx s) = Inr (np, nr)"
        "cu_a x = np OR push_bit 8 nr" using x h by (auto simp: call_ok_def make_env_def Let_def)
      have lt: "unat i < length (hm_host_fn_id m)" using i(1) n by (simp add: word_less_nat_alt ids)
      then have lf: "unat i < length (hm_funcs m)" using \<open>length (hm_host_fn_id m) \<le> length (hm_funcs m)\<close> by simp
      have "arity_of s (unat i) (hm_funcs m ! unat i)" using s lf by (simp add: linked_def f(4))
      then have "np = fm_n_params (hm_funcs m ! unat i)" "nr = fm_n_results (hm_funcs m ! unat i)"
        using i(2) by (auto simp: arity_of_def func_arity_def Let_def split: if_splits)
      then show ?thesis using lt ty [OF lf] i(3) by (auto simp: typed_fn_def)
    qed
    then show ?thesis using x n by (auto simp: linked_ins_def call_ok_def make_env_def Let_def word_le_nat_alt ids)
  qed
  then show "list_all (linked_ins m) (hm_code m)" by (simp add: list_all_iff)
qed

section \<open>Properties\<close>

text \<open>
  C4. A translated module is linked, whatever its bodies are and whether they were lowered or replaced by
  stubs. If imports come before function declarations and the vectors fit 32 bits, then every call and
  tail call in the code names a function past the imports, every host call carries the numbers of
  arguments and results of one of the imports, every count of leading zeros has width 32 or 64, and every
  function record has the numbers of parameters and results that the fingerprint of its type says.
\<close>

theorem translated_module_linked:
  assumes "translate_wasm root parse_all bytes = Inr m" and "imports_first (parse_all bytes)"
    and "length (hm_code m) < 2 ^ 32" and "length (hm_host_fn_id m) < 2 ^ 32"
  shows "(\<forall>x \<in> set (hm_code m). linked_ins m x) \<and> (\<forall>i < length (hm_funcs m). typed_fn m i) \<and>
    length (hm_host_fn_id m) \<le> length (hm_funcs m)"
  using translated_linked [OF assms] by (simp add: list_all_iff)

theorem translated_module_linked_witness:
  "list_all (linked_ins sample_translated) (hm_code sample_translated) \<and>
   list_all (typed_fn sample_translated) [0..<length (hm_funcs sample_translated)] \<and>
   length (hm_host_fn_id sample_translated) \<le> length (hm_funcs sample_translated)"
  using translated_module_linked [OF sample_translation(1,2)] sample_lens by (simp add: list_all_iff)

end
