(* ===== verification/Fingerprint.thy ===== *)
theory Fingerprint
  imports Lowered_Verified
begin

text \<open>
  Type fingerprints (\<open>type_fingerprint\<close> in \<open>tools/src/lib.rs\<close>). \<open>call_indirect\<close> compares the
  fingerprints of the expected and the actual type and nothing else, so that a fingerprint must
  determine the type. A decoder shows that it does.
\<close>

unbundle bit_operations_syntax

section \<open>Tags\<close>

definition tag_of :: "val_type \<Rightarrow> u64" where
  "tag_of t = (case type_tag t of Inl _ \<Rightarrow> 0 | Inr g \<Rightarrow> g)"

definition untag :: "u64 \<Rightarrow> val_type" where
  "untag g = (if g = 0 then I32 else if g = 1 then I64 else if g = 2 then F32 else F64)"

lemma type_tag_Inr: "type_tag t = Inr g \<Longrightarrow> tag_of t = g \<and> take_bit 2 g = g \<and> untag g = t"
  by (cases t) (auto simp: tag_of_def untag_def)

lemma bit_tag:
  assumes "take_bit 2 g = g" and "bit g k"
  shows "k < 2"
proof -
  have "bit (take_bit 2 g) k" using assms by simp
  then show ?thesis by (simp add: bit_take_bit_iff)
qed

section \<open>The bits of a fingerprint\<close>

lemma fp_tags_bit:
  assumes "fp_tags sh ts fp = Inr fp'" and "n < 64"
  shows "bit fp' n \<longleftrightarrow> bit fp n \<or> sh \<le> n \<and> n < sh + 2 * length ts \<and> bit (tag_of (ts ! ((n - sh) div 2))) ((n - sh) mod 2)"
  using assms(1)
proof (induction ts arbitrary: sh fp)
  case (Cons t ts)
  obtain g where g: "type_tag t = Inr g" and rest: "fp_tags (sh + 2) ts (fp OR push_bit sh g) = Inr fp'"
    using Cons.prems by auto
  note tg = type_tag_Inr [OF g]
  have "bit fp' n \<longleftrightarrow> bit fp n \<or> sh \<le> n \<and> bit g (n - sh) \<or>
      sh + 2 \<le> n \<and> n < sh + 2 + 2 * length ts \<and> bit (tag_of (ts ! ((n - (sh + 2)) div 2))) ((n - (sh + 2)) mod 2)"
    unfolding Cons.IH [OF rest] using assms(2) by (auto simp: bit_or_iff bit_push_bit_iff)
  moreover have "sh \<le> n \<and> bit g (n - sh) \<longleftrightarrow> sh \<le> n \<and> n < sh + 2 \<and> bit (tag_of t) ((n - sh) mod 2)"
  proof -
    have "(n - sh) mod 2 = n - sh" if "n < sh + 2" "sh \<le> n" using that by simp
    then show ?thesis using bit_tag [of g "n - sh"] tg by auto
  qed
  moreover have "((n - sh) div 2) = Suc ((n - (sh + 2)) div 2) \<and> (n - sh) mod 2 = (n - (sh + 2)) mod 2" if "sh + 2 \<le> n"
  proof -
    have "n - sh = (n - (sh + 2)) + 2" using that by simp
    then show ?thesis by simp
  qed
  moreover have "(n - sh) div 2 = 0" if "sh \<le> n" "n < sh + 2" using that by simp
  ultimately show ?case by (cases "sh + 2 \<le> n"; cases "sh \<le> n") (simp_all add: not_le)
qed auto

lemma fp_tags_tagged: "fp_tags sh ts fp = Inr fp' \<Longrightarrow> i < length ts \<Longrightarrow> \<exists>g. type_tag (ts ! i) = Inr g"
  by (induction ts arbitrary: sh fp i) (auto simp: nth_Cons split: nat.splits)

lemma packed_bit:
  assumes "np \<le> 8" "nr \<le> 8" "16 \<le> n" "n < 64"
  shows "\<not> bit (of_nat np OR push_bit 8 (of_nat nr) :: u64) n"
proof -
  have "k < 8" if "bit (of_nat m :: u64) k" "m \<le> 8" for m k
    using that small_length(1) [OF that(2)] by (metis bit_take_bit_iff)
  from this [of np n] this [of nr "n - 8"] assms show ?thesis by (auto simp: bit_or_iff bit_push_bit_iff)
qed

section \<open>Decoding\<close>

definition decode_types :: "nat \<Rightarrow> nat \<Rightarrow> u64 \<Rightarrow> val_type list" where
  "decode_types sh n fp = map (\<lambda>i. untag (take_bit 2 (drop_bit (sh + 2 * i) fp))) [0..<n]"

definition decode_fingerprint :: "u64 \<Rightarrow> func_type" where
  "decode_fingerprint fp =
     (decode_types 16 (unat (fp AND 0xFF)) fp, decode_types 32 (unat (drop_bit 8 fp AND 0xFF)) fp)"

lemma decode_types_eq:
  assumes "\<And>i. i < length ts \<Longrightarrow> \<exists>g. type_tag (ts ! i) = Inr g" and "sh + 2 * length ts \<le> 64"
    and "\<And>n. sh \<le> n \<Longrightarrow> n < sh + 2 * length ts \<Longrightarrow> bit fp n \<longleftrightarrow> bit (tag_of (ts ! ((n - sh) div 2))) ((n - sh) mod 2)"
  shows "decode_types sh (length ts) fp = ts"
proof (rule nth_equalityI)
  show "decode_types sh (length ts) fp ! i = ts ! i" if "i < length (decode_types sh (length ts) fp)" for i
  proof -
    from that have i: "i < length ts" by (simp add: decode_types_def)
    then obtain g where g: "tag_of (ts ! i) = g" "take_bit 2 g = g" "untag g = ts ! i" using assms(1) type_tag_Inr by blast
    have "take_bit 2 (drop_bit (sh + 2 * i) fp) = g"
    proof (rule bit_word_eqI)
      fix k assume "k < LENGTH(64)"
      show "bit (take_bit 2 (drop_bit (sh + 2 * i) fp)) k = bit g k"
      proof (cases "k < 2")
        case True
        then have "(sh + 2 * i + k - sh) div 2 = i" "(sh + 2 * i + k - sh) mod 2 = k" by auto
        then show ?thesis using assms(3) [of "sh + 2 * i + k"] True i g(1) by (simp add: bit_take_bit_iff bit_drop_bit_eq)
      next
        case False
        then show ?thesis using bit_tag [OF g(2), of k] by (auto simp: bit_take_bit_iff)
      qed
    qed
    then show ?thesis using i g(3) by (simp add: decode_types_def)
  qed
qed (simp add: decode_types_def)

text \<open>
  C18. A fingerprint determines its type: decoding what \<open>type_fingerprint\<close> encodes gives the
  parameter and result types back. So the comparison of fingerprints in \<open>call_indirect\<close> accepts a
  function exactly when it has the expected type.
\<close>

theorem fingerprint_round_trip:
  assumes "type_fingerprint params results = Inr fp"
  shows "decode_fingerprint fp = (params, results)"
proof -
  let ?w = "of_nat (length params) OR push_bit 8 (of_nat (length results)) :: u64"
  obtain fp1 where 1: "fp_tags 16 params ?w = Inr fp1" and 2: "fp_tags 32 results fp1 = Inr fp"
    and len: "length params \<le> 8" "length results \<le> 8"
    using assms by (auto simp: type_fingerprint_def split: if_splits)
  have n: "unat (fp AND 0xFF) = length params" "unat (drop_bit 8 fp AND 0xFF) = length results"
    using type_fingerprint_arity [OF assms] by (simp_all add: unat_eq_nat_uint)
  have "decode_types 16 (length params) fp = params"
  proof (rule decode_types_eq)
    fix n :: nat assume n: "16 \<le> n" "n < 16 + 2 * length params"
    then show "bit fp n \<longleftrightarrow> bit (tag_of (params ! ((n - 16) div 2))) ((n - 16) mod 2)"
      using fp_tags_bit [OF 1, of n] fp_tags_bit [OF 2, of n] packed_bit [OF len, of n] len by simp
  qed (use fp_tags_tagged [OF 1] len in auto)
  moreover have "decode_types 32 (length results) fp = results"
  proof (rule decode_types_eq)
    fix n :: nat assume n: "32 \<le> n" "n < 32 + 2 * length results"
    then show "bit fp n \<longleftrightarrow> bit (tag_of (results ! ((n - 32) div 2))) ((n - 32) mod 2)"
      using fp_tags_bit [OF 1, of n] fp_tags_bit [OF 2, of n] packed_bit [OF len, of n] len by simp
  qed (use fp_tags_tagged [OF 2] len in auto)
  ultimately show ?thesis by (simp add: decode_fingerprint_def n)
qed

lemma fingerprint_round_trip_witness:
  "type_fingerprint [I64, F32] [I32] = Inr 0x90102 \<and> decode_fingerprint 0x90102 = ([I64, F32], [I32])"
proof -
  have "type_fingerprint [I64, F32] [I32] = Inr 0x90102" by code_simp
  with fingerprint_round_trip [OF this] show ?thesis by simp
qed

end
