(* ===== verification/Ffi.thy ===== *)
theory Ffi
  imports Translate_Safe "HOL-Library.Multiset"
begin

text \<open>
  The C interface of the translator (\<open>vec_to_raw\<close>, \<open>free_vec\<close>, \<open>cstring_err\<close>,
  \<open>cuwasm_translate_wasm\<close>, \<open>cuwasm_translate_free\<close> in \<open>tools/src/lib.rs\<close>): the vectors of a module
  are handed to C as raw pointers with a 32-bit length, and handed back to be freed. The heap is
  explicit: a block per allocation, addresses never reused, so that a double free, a free with the
  wrong length and a leak all show. A vector or string leaves Rust's ownership when it is turned into
  a raw pointer; that is when its block enters the model's heap.
\<close>

section \<open>The heap\<close>

text \<open>The pointer of an empty vector is not null and points to no allocation.\<close>

datatype ptr = Null | Dangling | Addr nat

datatype block =
    Code_Block "cuop list" | Funcs_Block "func_meta list" | U64_Block "u64 list" | U32_Block "u32 list"
  | U8_Block "u8 list" | Ptr_Block "ptr list" | Str_Block string

datatype block_kind = K_Code | K_Funcs | K_U64 | K_U32 | K_U8 | K_Ptr | K_Str

fun kind_of :: "block \<Rightarrow> block_kind" where
  "kind_of (Code_Block _) = K_Code"
| "kind_of (Funcs_Block _) = K_Funcs"
| "kind_of (U64_Block _) = K_U64"
| "kind_of (U32_Block _) = K_U32"
| "kind_of (U8_Block _) = K_U8"
| "kind_of (Ptr_Block _) = K_Ptr"
| "kind_of (Str_Block _) = K_Str"

text \<open>The length in elements; a C string has its terminator.\<close>

fun block_len :: "block \<Rightarrow> nat" where
  "block_len (Code_Block xs) = length xs"
| "block_len (Funcs_Block xs) = length xs"
| "block_len (U64_Block xs) = length xs"
| "block_len (U32_Block xs) = length xs"
| "block_len (U8_Block xs) = length xs"
| "block_len (Ptr_Block xs) = length xs"
| "block_len (Str_Block s) = Suc (length s)"

record heap =
  hp_next :: nat
  hp_blocks :: "nat \<Rightarrow> block option"

text \<open>A panic that reaches C aborts; undefined behaviour is an outcome of its own.\<close>

datatype ffi_error = FPanic string | Undefined string

type_synonym 'a ffi = "(heap, ffi_error, 'a) es"

definition alloc :: "block \<Rightarrow> ptr ffi" where
  "alloc b h =
     (if block_len b = 0 then (Inr Dangling, h)
      else (Inr (Addr (hp_next h)), \<lparr>hp_next = Suc (hp_next h), hp_blocks = (hp_blocks h)(hp_next h \<mapsto> b)\<rparr>))"

text \<open>Dropping a vector rebuilt from raw parts: its allocation must have that element type and capacity.\<close>

definition drop_raw :: "block_kind \<Rightarrow> ptr \<Rightarrow> nat \<Rightarrow> unit ffi" where
  "drop_raw k p n h =
     (case p of
        Null \<Rightarrow> (Inl (Undefined ''null pointer''), h)
      | Dangling \<Rightarrow> if n = 0 then (Inr (), h) else (Inl (Undefined ''dangling pointer''), h)
      | Addr a \<Rightarrow>
          if n = 0 then (Inr (), h)
          else case hp_blocks h a of
            None \<Rightarrow> (Inl (Undefined ''double free''), h)
          | Some b \<Rightarrow>
              if kind_of b = k \<and> block_len b = n then (Inr (), h\<lparr>hp_blocks := (hp_blocks h)(a := None)\<rparr>)
              else (Inl (Undefined ''layout mismatch''), h))"

text \<open>The elements of a vector of pointers rebuilt from raw parts.\<close>

definition raw_ptrs :: "ptr \<Rightarrow> nat \<Rightarrow> ptr list ffi" where
  "raw_ptrs p n h =
     (case p of
        Null \<Rightarrow> (Inl (Undefined ''null pointer''), h)
      | Dangling \<Rightarrow> if n = 0 then (Inr [], h) else (Inl (Undefined ''dangling pointer''), h)
      | Addr a \<Rightarrow>
          (case hp_blocks h a of
             Some (Ptr_Block ps) \<Rightarrow>
               if n \<le> length ps then (Inr (take n ps), h) else (Inl (Undefined ''out of bounds''), h)
           | _ \<Rightarrow> (Inl (Undefined ''use after free''), h)))"

fun mapS :: "('a \<Rightarrow> ('s, 'e, 'b) es) \<Rightarrow> 'a list \<Rightarrow> ('s, 'e, 'b list) es" where
  "mapS f [] = ret []"
| "mapS f (x # xs) = bindS (f x) (\<lambda>y. bindS (mapS f xs) (\<lambda>ys. ret (y # ys)))"

section \<open>Vectors and strings\<close>

definition vec_to_raw :: "block \<Rightarrow> (ptr \<times> u32) ffi" where
  "vec_to_raw b = bindS (alloc b) (\<lambda>p. ret (p, of_nat (block_len b)))"

definition free_vec :: "block_kind \<Rightarrow> ptr \<Rightarrow> u32 \<Rightarrow> unit ffi" where
  "free_vec k p n = (if p \<noteq> Null then drop_raw k p (unat n) else ret ())"

text \<open>\<open>CString::new(s).unwrap().into_raw()\<close>\<close>

definition cstring_raw :: "string \<Rightarrow> ptr ffi" where
  "cstring_raw s = (if CHR 0x00 \<in> set s then fail (FPanic ''NulError'') else alloc (Str_Block s))"

text \<open>\<open>CString::from_raw(p)\<close>, dropped: the length is found again by looking for the terminator.\<close>

definition cstring_free :: "ptr \<Rightarrow> unit ffi" where
  "cstring_free p h =
     (case p of
        Addr a \<Rightarrow>
          (case hp_blocks h a of
             Some (Str_Block s) \<Rightarrow> (Inr (), h\<lparr>hp_blocks := (hp_blocks h)(a := None)\<rparr>)
           | _ \<Rightarrow> (Inl (Undefined ''not a string''), h))
      | _ \<Rightarrow> (Inl (Undefined ''not a string''), h))"

definition cstring_err :: "string \<Rightarrow> ptr ffi" where
  "cstring_err msg = cstring_raw (filter (\<lambda>c. c \<noteq> CHR 0x00) msg)"

section \<open>The result structure\<close>

record translate_out =
  o_code :: ptr
  o_n_code :: u32
  o_consts :: ptr
  o_n_consts :: u32
  o_funcs :: ptr
  o_n_funcs :: u32
  o_export_names :: ptr
  o_export_idxs :: ptr
  o_n_exports :: u32
  o_globals :: ptr
  o_n_globals :: u32
  o_memory :: ptr
  o_mem_size :: u32
  o_mem_max :: u32
  o_data_blob :: ptr
  o_data_blob_len :: u32
  o_data_off :: ptr
  o_data_len :: ptr
  o_data_live :: ptr
  o_n_data :: u32
  o_table :: ptr
  o_table_len :: u32
  o_func_typeidx :: ptr
  o_type_fp :: ptr
  o_n_types :: u32
  o_n_host_imports :: u32
  o_host_fn_id :: ptr
  o_host_import_mod :: ptr
  o_host_import_name :: ptr
  o_host_import_env :: ptr
  o_err :: ptr

definition default_out :: translate_out where
  "default_out =
     \<lparr>o_code = Null, o_n_code = 0, o_consts = Null, o_n_consts = 0, o_funcs = Null, o_n_funcs = 0,
      o_export_names = Null, o_export_idxs = Null, o_n_exports = 0, o_globals = Null, o_n_globals = 0,
      o_memory = Null, o_mem_size = 0, o_mem_max = 0, o_data_blob = Null, o_data_blob_len = 0,
      o_data_off = Null, o_data_len = Null, o_data_live = Null, o_n_data = 0, o_table = Null,
      o_table_len = 0, o_func_typeidx = Null, o_type_fp = Null, o_n_types = 0, o_n_host_imports = 0,
      o_host_fn_id = Null, o_host_import_mod = Null, o_host_import_name = Null,
      o_host_import_env = Null, o_err = Null\<rparr>"

text \<open>\<open>debug_assert_eq!\<close>: compiled in only when \<open>debug\<close>.\<close>

definition debug_assert_eq :: "bool \<Rightarrow> 'a \<Rightarrow> 'a \<Rightarrow> unit ffi" where
  "debug_assert_eq debug x y = (if debug \<and> x \<noteq> y then fail (FPanic ''assertion failed'') else ret ())"

definition index_str :: "string list \<Rightarrow> nat \<Rightarrow> string ffi" where
  "index_str xs i = (if i < length xs then ret (xs ! i) else fail (FPanic ''index out of bounds''))"

text \<open>One round of the loop over the host imports.\<close>

definition host_strings :: "host_module \<Rightarrow> nat \<Rightarrow> (ptr \<times> ptr \<times> ptr) ffi" where
  "host_strings m i =
     bindS (bindS (index_str (hm_host_import_mod m) i) cstring_raw) (\<lambda>p.
     bindS (bindS (index_str (hm_host_import_name m) i) cstring_raw) (\<lambda>q.
     bindS (bindS (index_str (hm_host_import_env m) i) cstring_raw) (\<lambda>r. ret (p, q, r))))"

definition export_module :: "bool \<Rightarrow> host_module \<Rightarrow> translate_out ffi" where
  "export_module debug m =
     bindS (vec_to_raw (Code_Block (hm_code m))) (\<lambda>(code, n_code).
     bindS (vec_to_raw (U64_Block (hm_consts m))) (\<lambda>(consts, n_consts).
     bindS (vec_to_raw (Funcs_Block (hm_funcs m))) (\<lambda>(funcs, n_funcs).
     bindS (mapS cstring_raw (map fst (hm_exports m))) (\<lambda>names.
     bindS (vec_to_raw (Ptr_Block names)) (\<lambda>(export_names, n_exports1).
     bindS (vec_to_raw (U32_Block (map snd (hm_exports m)))) (\<lambda>(export_idxs, n_exports2).
     thenS (debug_assert_eq debug n_exports1 n_exports2) (
     bindS (vec_to_raw (U64_Block (hm_globals m))) (\<lambda>(globals, n_globals).
     bindS (vec_to_raw (U8_Block (hm_memory m))) (\<lambda>(memory, mem_max_chk).
     thenS (debug_assert_eq debug (hm_mem_max m) mem_max_chk) (
     bindS (vec_to_raw (U8_Block (hm_data_blob m))) (\<lambda>(data_blob, data_blob_len).
     thenS (debug_assert_eq debug (of_nat (length (hm_data_blob m))) data_blob_len) (
     let n_data = of_nat (length (hm_data_live m)) in
     bindS (vec_to_raw (U32_Block (hm_data_off m))) (\<lambda>(data_off, n1).
     bindS (vec_to_raw (U32_Block (hm_data_len m))) (\<lambda>(data_len, n2).
     bindS (vec_to_raw (U8_Block (hm_data_live m))) (\<lambda>(data_live, n3).
     thenS (debug_assert_eq debug n_data n1) (
     thenS (debug_assert_eq debug n_data n2) (
     thenS (debug_assert_eq debug n_data n3) (
     bindS (vec_to_raw (U32_Block (hm_table m))) (\<lambda>(table, table_len).
     bindS (vec_to_raw (U32_Block (hm_func_typeidx m))) (\<lambda>(func_typeidx, n_tidx).
     thenS (debug_assert_eq debug n_tidx n_funcs) (
     bindS (vec_to_raw (U64_Block (hm_type_fp m))) (\<lambda>(type_fp, n_types).
     bindS (vec_to_raw (U32_Block (hm_host_fn_id m))) (\<lambda>(host_fn_id, n_host1).
     thenS (debug_assert_eq debug (hm_n_host_imports m) n_host1) (
     bindS (mapS (host_strings m) [0..<unat (hm_n_host_imports m)]) (\<lambda>strs.
     bindS (vec_to_raw (Ptr_Block (map fst strs))) (\<lambda>(host_import_mod, n_host2).
     bindS (vec_to_raw (Ptr_Block (map (fst \<circ> snd) strs))) (\<lambda>(host_import_name, n_host3).
     bindS (vec_to_raw (Ptr_Block (map (snd \<circ> snd) strs))) (\<lambda>(host_import_env, n_host4).
     thenS (debug_assert_eq debug (hm_n_host_imports m) n_host2) (
     thenS (debug_assert_eq debug (hm_n_host_imports m) n_host3) (
     thenS (debug_assert_eq debug (hm_n_host_imports m) n_host4) (
     ret \<lparr>o_code = code, o_n_code = n_code, o_consts = consts, o_n_consts = n_consts, o_funcs = funcs,
          o_n_funcs = n_funcs, o_export_names = export_names, o_export_idxs = export_idxs,
          o_n_exports = n_exports1, o_globals = globals, o_n_globals = n_globals, o_memory = memory,
          o_mem_size = hm_mem_size m, o_mem_max = hm_mem_max m, o_data_blob = data_blob,
          o_data_blob_len = data_blob_len, o_data_off = data_off, o_data_len = data_len,
          o_data_live = data_live, o_n_data = n_data, o_table = table, o_table_len = table_len,
          o_func_typeidx = func_typeidx, o_type_fp = type_fp, o_n_types = n_types,
          o_n_host_imports = hm_n_host_imports m, o_host_fn_id = host_fn_id,
          o_host_import_mod = host_import_mod, o_host_import_name = host_import_name,
          o_host_import_env = host_import_env, o_err = Null\<rparr>)))))))))))))))))))))))))))))))"

text \<open>
  \<open>data\<close> is the buffer at the pointer, or \<open>None\<close> for null; \<open>out_null\<close> says that \<open>out\<close> is null. The
  result is the return value with the structure written to \<open>out\<close>. \<open>render\<close> prints an error.
\<close>

definition cuwasm_translate_wasm ::
  "bool \<Rightarrow> (error \<Rightarrow> string) \<Rightarrow> env_root \<Rightarrow> (u8 list \<Rightarrow> (string + payload) list) \<Rightarrow> u8 list option \<Rightarrow> nat \<Rightarrow> bool
     \<Rightarrow> (int \<times> translate_out option) ffi" where
  "cuwasm_translate_wasm debug render root parse_all data len out_null =
     (if out_null then ret (-1, None)
      else if data = None \<and> len \<noteq> 0 then
        bindS (cstring_err ''null data'') (\<lambda>e. ret (-1, Some (default_out\<lparr>o_err := e\<rparr>)))
      else
        let buf = (case data of None \<Rightarrow> [] | Some bs \<Rightarrow> bs) in
        if len > length buf then fail (Undefined ''slice out of bounds'')
        else case translate_wasm root parse_all (take len buf) of
          Inr m \<Rightarrow> bindS (export_module debug m) (\<lambda>out. ret (0, Some out))
        | Inl e \<Rightarrow>
            if is_panic e then fail (FPanic (render e))
            else bindS (cstring_err (render e)) (\<lambda>p. ret (-1, Some (default_out\<lparr>o_err := p\<rparr>))))"

text \<open>A vector of strings: every string, then the vector.\<close>

definition free_strings :: "ptr \<Rightarrow> u32 \<Rightarrow> unit ffi" where
  "free_strings p n =
     (if p \<noteq> Null then
        bindS (raw_ptrs p (unat n)) (\<lambda>ps.
          thenS (forS ps (\<lambda>q. if q \<noteq> Null then cstring_free q else ret ())) (drop_raw K_Ptr p (unat n)))
      else ret ())"

definition cuwasm_translate_free :: "translate_out option \<Rightarrow> translate_out option ffi" where
  "cuwasm_translate_free out =
     (case out of
        None \<Rightarrow> ret None
      | Some x \<Rightarrow>
          thenS (free_vec K_Code (o_code x) (o_n_code x)) (
          thenS (free_vec K_U64 (o_consts x) (o_n_consts x)) (
          thenS (free_vec K_Funcs (o_funcs x) (o_n_funcs x)) (
          thenS (free_strings (o_export_names x) (o_n_exports x)) (
          thenS (free_vec K_U32 (o_export_idxs x) (o_n_exports x)) (
          thenS (free_vec K_U64 (o_globals x) (o_n_globals x)) (
          thenS (free_vec K_U8 (o_memory x) (o_mem_max x)) (
          thenS (free_vec K_U8 (o_data_blob x) (o_data_blob_len x)) (
          thenS (free_vec K_U32 (o_data_off x) (o_n_data x)) (
          thenS (free_vec K_U32 (o_data_len x) (o_n_data x)) (
          thenS (free_vec K_U8 (o_data_live x) (o_n_data x)) (
          thenS (free_vec K_U32 (o_table x) (o_table_len x)) (
          thenS (free_vec K_U32 (o_func_typeidx x) (o_n_funcs x)) (
          thenS (free_vec K_U64 (o_type_fp x) (o_n_types x)) (
          thenS (free_vec K_U32 (o_host_fn_id x) (o_n_host_imports x)) (
          thenS (forS [o_host_import_mod x, o_host_import_name x, o_host_import_env x]
                   (\<lambda>names. free_strings names (o_n_host_imports x))) (
          thenS (if o_err x \<noteq> Null then cstring_free (o_err x) else ret ()) (
            ret (Some default_out)))))))))))))))))))"

section \<open>The C++ side\<close>

text \<open>
  \<open>translate_wasm\<close> of \<open>src/translate.cpp\<close> copies the result into a \<open>HostModule\<close> of its own and frees
  it. \<open>read_raw\<close> reads \<open>n\<close> elements behind a pointer; \<open>read_guarded\<close> is the same behind
  \<open>if (n && p)\<close>. The C++ structure has no \<open>mem_max\<close>: it is the size of \<open>memory\<close>.
\<close>

fun as_code :: "block \<Rightarrow> cuop list option" where
  "as_code (Code_Block xs) = Some xs" | "as_code _ = None"

fun as_funcs :: "block \<Rightarrow> func_meta list option" where
  "as_funcs (Funcs_Block xs) = Some xs" | "as_funcs _ = None"

fun as_u64 :: "block \<Rightarrow> u64 list option" where
  "as_u64 (U64_Block xs) = Some xs" | "as_u64 _ = None"

fun as_u32 :: "block \<Rightarrow> u32 list option" where
  "as_u32 (U32_Block xs) = Some xs" | "as_u32 _ = None"

fun as_u8 :: "block \<Rightarrow> u8 list option" where
  "as_u8 (U8_Block xs) = Some xs" | "as_u8 _ = None"

fun as_ptr :: "block \<Rightarrow> ptr list option" where
  "as_ptr (Ptr_Block xs) = Some xs" | "as_ptr _ = None"

definition read_raw :: "(block \<Rightarrow> 'a list option) \<Rightarrow> ptr \<Rightarrow> u32 \<Rightarrow> 'a list ffi" where
  "read_raw proj p n h =
     (if n = 0 then (Inr [], h)
      else case p of
        Addr a \<Rightarrow>
          (case Option.bind (hp_blocks h a) proj of
             Some xs \<Rightarrow> if unat n \<le> length xs then (Inr (take (unat n) xs), h) else (Inl (Undefined ''out of bounds''), h)
           | None \<Rightarrow> (Inl (Undefined ''use after free''), h))
      | _ \<Rightarrow> (Inl (Undefined ''invalid pointer''), h))"

definition read_guarded :: "(block \<Rightarrow> 'a list option) \<Rightarrow> ptr \<Rightarrow> u32 \<Rightarrow> 'a list ffi" where
  "read_guarded proj p n = (if n \<noteq> 0 \<and> p \<noteq> Null then read_raw proj p n else ret [])"

text \<open>\<open>p ? p : ""\<close>: the characters up to the terminator.\<close>

definition read_cstr :: "ptr \<Rightarrow> string ffi" where
  "read_cstr p h =
     (case p of
        Null \<Rightarrow> (Inr [], h)
      | Addr a \<Rightarrow>
          (case hp_blocks h a of
             Some (Str_Block s) \<Rightarrow> (Inr (takeWhile (\<lambda>c. c \<noteq> CHR 0x00) s), h)
           | _ \<Rightarrow> (Inl (Undefined ''not a string''), h))
      | Dangling \<Rightarrow> (Inl (Undefined ''not a string''), h))"

definition read_names :: "ptr \<Rightarrow> u32 \<Rightarrow> string list ffi" where
  "read_names p n = bindS (read_raw as_ptr p n) (mapS read_cstr)"

text \<open>\<open>p && p[i] ? p[i] : ""\<close> for every import.\<close>

definition read_names_guarded :: "ptr \<Rightarrow> u32 \<Rightarrow> string list ffi" where
  "read_names_guarded p n = (if p \<noteq> Null then read_names p n else ret (replicate (unat n) []))"

definition import_module :: "translate_out \<Rightarrow> host_module ffi" where
  "import_module t =
     bindS (read_raw as_code (o_code t) (o_n_code t)) (\<lambda>code.
     bindS (read_raw as_u64 (o_consts t) (o_n_consts t)) (\<lambda>consts.
     bindS (read_raw as_funcs (o_funcs t) (o_n_funcs t)) (\<lambda>funcs.
     bindS (read_names (o_export_names t) (o_n_exports t)) (\<lambda>names.
     bindS (read_raw as_u32 (o_export_idxs t) (o_n_exports t)) (\<lambda>idxs.
     bindS (read_guarded as_u64 (o_globals t) (o_n_globals t)) (\<lambda>globals.
     bindS (read_guarded as_u8 (o_memory t) (o_mem_max t)) (\<lambda>memory.
     bindS (read_guarded as_u8 (o_data_blob t) (o_data_blob_len t)) (\<lambda>data_blob.
     bindS (read_guarded as_u32 (o_data_off t) (o_n_data t)) (\<lambda>data_off.
     bindS (read_guarded as_u32 (o_data_len t) (o_n_data t)) (\<lambda>data_len.
     bindS (read_guarded as_u8 (o_data_live t) (o_n_data t)) (\<lambda>data_live.
     bindS (read_guarded as_u32 (o_table t) (o_table_len t)) (\<lambda>table.
     bindS (read_guarded as_u32 (o_func_typeidx t) (o_n_funcs t)) (\<lambda>func_typeidx.
     bindS (read_guarded as_u64 (o_type_fp t) (o_n_types t)) (\<lambda>type_fp.
     bindS (read_guarded as_u32 (o_host_fn_id t) (o_n_host_imports t)) (\<lambda>host_fn_id.
     bindS (read_names_guarded (o_host_import_mod t) (o_n_host_imports t)) (\<lambda>mods.
     bindS (read_names_guarded (o_host_import_name t) (o_n_host_imports t)) (\<lambda>inames.
     bindS (read_names_guarded (o_host_import_env t) (o_n_host_imports t)) (\<lambda>envs.
     ret \<lparr>hm_code = code, hm_consts = consts, hm_funcs = funcs, hm_exports = zip names idxs,
          hm_globals = globals, hm_memory = memory, hm_mem_size = o_mem_size t,
          hm_mem_max = of_nat (length memory), hm_data_blob = data_blob, hm_data_off = data_off,
          hm_data_len = data_len, hm_data_live = data_live, hm_table = table,
          hm_func_typeidx = func_typeidx, hm_type_fp = type_fp,
          hm_n_host_imports = o_n_host_imports t, hm_host_fn_id = host_fn_id,
          hm_host_import_mod = mods, hm_host_import_name = inames, hm_host_import_env = envs\<rparr>))))))))))))))))))"

definition load_wasm ::
  "bool \<Rightarrow> (error \<Rightarrow> string) \<Rightarrow> env_root \<Rightarrow> (u8 list \<Rightarrow> (string + payload) list) \<Rightarrow> u8 list option \<Rightarrow> nat
     \<Rightarrow> (string + host_module) ffi" where
  "load_wasm debug render root parse_all data len =
     bindS (cuwasm_translate_wasm debug render root parse_all data len False) (\<lambda>(rc, out).
       case out of
         None \<Rightarrow> fail (Undefined ''uninitialised'')
       | Some t \<Rightarrow>
           if rc \<noteq> 0 then
             bindS (if o_err t \<noteq> Null then read_cstr (o_err t) else ret ''translate failed'') (\<lambda>err.
               thenS (cuwasm_translate_free (Some t)) (ret (Inl err)))
           else
             bindS (import_module t) (\<lambda>m.
               thenS (cuwasm_translate_free (Some t)) (ret (Inr m))))"

end
