(* ===== verification/Ffi_Safe.thy ===== *)
theory Ffi_Safe
  imports Ffi
begin

text \<open>
  Ownership across the C interface. The blocks a caller owns are a multiset next to the rest of the
  heap; turning a value into raw parts adds its block, reclaiming it removes the block again. This
  contract is a locale, interpreted for vectors and for strings; from it follow the properties of
  \<open>cuwasm_translate_wasm\<close> and \<open>cuwasm_translate_free\<close>.
\<close>

section \<open>Ownership\<close>

definition holds :: "(nat \<Rightarrow> block option) \<Rightarrow> (nat \<times> block) multiset \<Rightarrow> heap \<Rightarrow> bool" where
  "holds base A h \<longleftrightarrow>
     (\<exists>bs. mset bs = A \<and> distinct (map fst bs) \<and> hp_blocks h = base ++ map_of bs \<and>
        (\<forall>a \<in> fst ` set bs. base a = None \<and> a < hp_next h) \<and> (\<forall>a \<ge> hp_next h. base a = None))"

definition own :: "ptr \<Rightarrow> block \<Rightarrow> (nat \<times> block) multiset" where
  "own p b = (case p of Addr a \<Rightarrow> {#(a, b)#} | _ \<Rightarrow> {#})"

definition points :: "ptr \<Rightarrow> block \<Rightarrow> bool" where
  "points p b \<longleftrightarrow> (if block_len b = 0 then p = Dangling else \<exists>a. p = Addr a)"

lemma holds_start: "(\<And>a. hp_next h \<le> a \<Longrightarrow> hp_blocks h a = None) \<Longrightarrow> holds (hp_blocks h) {#} h"
  by (simp add: holds_def)

lemma holds_empty: "holds base {#} h \<Longrightarrow> hp_blocks h = base"
  by (simp add: holds_def)

lemma holds_at:
  assumes "holds base (add_mset (a, b) A) h"
  shows "hp_blocks h a = Some b"
proof -
  obtain bs where bs: "mset bs = add_mset (a, b) A" "distinct (map fst bs)" "hp_blocks h = base ++ map_of bs"
    using assms by (auto simp: holds_def)
  have "(a, b) \<in> set bs" using bs(1) by (metis set_mset_mset union_single_eq_member)
  then have "map_of bs a = Some b" using bs(2) by simp
  then show ?thesis by (simp add: bs(3))
qed

lemma holds_push:
  assumes "holds base A h"
  shows "holds base (add_mset (hp_next h, b) A) \<lparr>hp_next = Suc (hp_next h), hp_blocks = (hp_blocks h)(hp_next h \<mapsto> b)\<rparr>"
proof -
  obtain bs where bs: "mset bs = A" "distinct (map fst bs)" "hp_blocks h = base ++ map_of bs"
    "\<forall>a \<in> fst ` set bs. base a = None \<and> a < hp_next h" "\<forall>a \<ge> hp_next h. base a = None"
    using assms by (auto simp: holds_def)
  show ?thesis unfolding holds_def
    by (rule exI [of _ "(hp_next h, b) # bs"]) (use bs in auto)
qed

lemma holds_pop:
  assumes "holds base (add_mset (a, b) A) h"
  shows "holds base A (h\<lparr>hp_blocks := (hp_blocks h)(a := None)\<rparr>)"
proof -
  obtain bs where bs: "mset bs = add_mset (a, b) A" "distinct (map fst bs)" "hp_blocks h = base ++ map_of bs"
    "\<forall>a \<in> fst ` set bs. base a = None \<and> a < hp_next h" "\<forall>a \<ge> hp_next h. base a = None"
    using assms by (auto simp: holds_def)
  have mem: "(a, b) \<in> set bs" using bs(1) by (metis set_mset_mset union_single_eq_member)
  then obtain us vs where split: "bs = us @ (a, b) # vs" by (auto simp: in_set_conv_decomp)
  have "base a = None" using bs(4) mem by force
  then have "(base ++ map_of bs)(a := None) = base ++ map_of (us @ vs)"
    using bs(2) unfolding split by (auto simp: fun_eq_iff map_add_def map_of_eq_None_iff image_iff split: option.splits
        dest: eq_key_imp_eq_value)
  then show ?thesis unfolding holds_def
    using bs unfolding split by (intro exI [of _ "us @ vs"]) auto
qed

section \<open>The contract of raw parts\<close>

locale raw_parts =
  fixes holds :: "'k multiset \<Rightarrow> 's \<Rightarrow> bool"
    and own :: "'r \<Rightarrow> 'v \<Rightarrow> 'k multiset"
    and valid :: "'r \<Rightarrow> 'v \<Rightarrow> bool"
    and fits :: "'v \<Rightarrow> bool"
    and into_raw :: "'v \<Rightarrow> ('s, 'e, 'r) es"
    and from_raw :: "'r \<Rightarrow> ('s, 'e, unit) es"
  assumes into_raw: "fits v \<Longrightarrow> triple (holds A) (into_raw v) (\<lambda>r h. valid r v \<and> holds (own r v + A) h) (\<lambda>_ _. False)"
    and from_raw: "fits v \<Longrightarrow> valid r v \<Longrightarrow> triple (holds (own r v + A)) (from_raw r) (\<lambda>_. holds A) (\<lambda>_ _. False)"
begin

definition own_all :: "'r list \<Rightarrow> 'v list \<Rightarrow> 'k multiset" where
  "own_all rs vs = sum_list (map2 own rs vs)"

lemma own_all_simps [simp]: "own_all [] [] = {#}" "own_all (r # rs) (v # vs) = own r v + own_all rs vs"
  by (simp_all add: own_all_def)

lemma into_raw_all:
  assumes "\<forall>v \<in> set vs. fits v"
  shows "triple (holds A) (mapS into_raw vs) (\<lambda>rs h. list_all2 valid rs vs \<and> holds (own_all rs vs + A) h) (\<lambda>_ _. False)"
  using assms
proof (induction vs arbitrary: A)
  case Nil
  then show ?case by (simp add: triple_def)
next
  case (Cons v vs)
  have v: "fits v" and vs: "\<forall>v \<in> set vs. fits v" using Cons.prems by simp_all
  have "triple (holds (own r v + A)) (mapS into_raw vs)
      (\<lambda>rs h. list_all2 valid rs vs \<and> holds (own_all rs vs + (own r v + A)) h) (\<lambda>_ _. False)" for r
    using Cons.IH [OF vs] .
  with into_raw [OF v, of A] show ?case
    unfolding triple_def mapS.simps bindS_def
    by (fastforce simp: ac_simps split: prod.splits sum.splits)
qed

lemma from_raw_all:
  assumes "\<forall>v \<in> set vs. fits v" and "list_all2 valid rs vs"
  shows "triple (holds (own_all rs vs + A)) (forS rs from_raw) (\<lambda>_. holds A) (\<lambda>_ _. False)"
  using assms(2,1)
proof (induction rule: list_all2_induct)
  case Nil
  then show ?case by (simp add: triple_def)
next
  case (Cons r rs v vs)
  have "triple (holds (own r v + (own_all rs vs + A))) (from_raw r) (\<lambda>_. holds (own_all rs vs + A)) (\<lambda>_ _. False)"
    using Cons.prems Cons.hyps by (intro from_raw) simp_all
  with Cons.IH Cons.prems show ?case by (auto simp: ac_simps intro: triple_thenS)
qed

text \<open>Whatever was turned into raw parts can be reclaimed, and then nothing of it is left.\<close>

lemma round_trip:
  assumes "\<forall>v \<in> set vs. fits v" and "holds A h" and "mapS into_raw vs h = (Inr rs, h1)"
  shows "\<exists>h2. forS rs from_raw h1 = (Inr (), h2) \<and> holds A h2"
proof -
  have "list_all2 valid rs vs \<and> holds (own_all rs vs + A) h1"
    using tripleD(2) [OF into_raw_all [OF assms(1)] assms(2,3)] .
  then have t: "triple (holds (own_all rs vs + A)) (forS rs from_raw) (\<lambda>_. holds A) (\<lambda>_ _. False)"
    and o: "holds (own_all rs vs + A) h1" using from_raw_all [OF assms(1)] by simp_all
  obtain r h2 where run: "forS rs from_raw h1 = (r, h2)" by fastforce
  then show ?thesis using tripleD [OF t o] by (cases r) auto
qed

end

text \<open>Vectors of one element type, and strings.\<close>

lemma alloc_triple:
  "triple (holds base A) (alloc b) (\<lambda>p h. points p b \<and> holds base (own p b + A) h) (\<lambda>_ _. False)"
  using holds_push [of base A _ b] by (auto simp: triple_def alloc_def points_def own_def)

lemma drop_raw_triple:
  assumes "points p b"
  shows "triple (holds base (own p b + A)) (drop_raw (kind_of b) p (block_len b)) (\<lambda>_. holds base A) (\<lambda>_ _. False)"
  using assms holds_at [of base _ b A] holds_pop [of base _ b A]
  by (auto simp: triple_def drop_raw_def points_def own_def split: if_splits)

interpretation vec: raw_parts "holds base" "\<lambda>r. own (fst r)" "\<lambda>r b. points (fst r) b \<and> snd r = of_nat (block_len b)"
  "\<lambda>b. kind_of b = k \<and> block_len b < 2 ^ 32" vec_to_raw "\<lambda>r. free_vec k (fst r) (snd r)" for base k
proof
  show "triple (holds base A) (vec_to_raw b)
      (\<lambda>r h. (points (fst r) b \<and> snd r = of_nat (block_len b)) \<and> holds base (own (fst r) b + A) h) (\<lambda>_ _. False)"
    if "kind_of b = k \<and> block_len b < 2 ^ 32" for b A
    unfolding vec_to_raw_def by (rule triple_bindS [OF alloc_triple]) (simp add: triple_def)
next
  fix b and r :: "ptr \<times> u32" and A assume b: "kind_of b = k \<and> block_len b < 2 ^ 32" and r: "points (fst r) b \<and> snd r = of_nat (block_len b)"
  have "fst r \<noteq> Null" using r by (auto simp: points_def split: if_splits)
  moreover have "unat (snd r) = block_len b" using b r by simp
  ultimately show "triple (holds base (own (fst r) b + A)) (free_vec k (fst r) (snd r)) (\<lambda>_. holds base A) (\<lambda>_ _. False)"
    using drop_raw_triple b r by (auto simp: free_vec_def)
qed

interpretation str: raw_parts "holds base" "\<lambda>p s. own p (Str_Block s)" "\<lambda>p s. points p (Str_Block s)"
  "\<lambda>s. CHR 0x00 \<notin> set s" cstring_raw "\<lambda>q. if q \<noteq> Null then cstring_free q else ret ()" for base
proof
  show "triple (holds base A) (cstring_raw s) (\<lambda>p h. points p (Str_Block s) \<and> holds base (own p (Str_Block s) + A) h) (\<lambda>_ _. False)"
    if "CHR 0x00 \<notin> set s" for s A
    using alloc_triple [of base A "Str_Block s"] that by (simp add: cstring_raw_def)
next
  fix s p A assume p: "points p (Str_Block s)"
  then show "triple (holds base (own p (Str_Block s) + A)) (if p \<noteq> Null then cstring_free p else ret ()) (\<lambda>_. holds base A) (\<lambda>_ _. False)"
    using holds_at [of base _ "Str_Block s" A] holds_pop [of base _ "Str_Block s" A]
    by (auto simp: triple_def cstring_free_def points_def own_def)
qed

section \<open>A module in C's hands\<close>

text \<open>
  What an export needs: no NUL in a name, lengths within 32 bits, and parallel vectors of equal
  length.
\<close>

definition exportable :: "host_module \<Rightarrow> bool" where
  "exportable m \<longleftrightarrow>
     (\<forall>s \<in> set (map fst (hm_exports m) @ hm_host_import_mod m @ hm_host_import_name m @ hm_host_import_env m).
        CHR 0x00 \<notin> set s) \<and>
     (\<forall>n \<in> {length (hm_code m), length (hm_consts m), length (hm_funcs m), length (hm_exports m), length (hm_globals m),
        length (hm_data_blob m), length (hm_data_off m), length (hm_table m), length (hm_type_fp m)}. n < 2 ^ 32) \<and>
     length (hm_func_typeidx m) = length (hm_funcs m) \<and> length (hm_memory m) = unat (hm_mem_max m) \<and>
     length (hm_data_len m) = length (hm_data_off m) \<and> length (hm_data_live m) = length (hm_data_off m) \<and>
     length (hm_host_fn_id m) = unat (hm_n_host_imports m) \<and> length (hm_host_import_mod m) = unat (hm_n_host_imports m) \<and>
     length (hm_host_import_name m) = unat (hm_n_host_imports m) \<and> length (hm_host_import_env m) = unat (hm_n_host_imports m)"

text \<open>A vector of strings: the vector of pointers and the strings they point to.\<close>

definition own_strings :: "ptr \<Rightarrow> ptr list \<Rightarrow> string list \<Rightarrow> (nat \<times> block) multiset" where
  "own_strings p ps ss = own p (Ptr_Block ps) + str.own_all ps ss"

definition points_strings :: "ptr \<Rightarrow> ptr list \<Rightarrow> string list \<Rightarrow> bool" where
  "points_strings p ps ss \<longleftrightarrow> points p (Ptr_Block ps) \<and> list_all2 (\<lambda>p s. points p (Str_Block s)) ps ss"

text \<open>The structure describes the module: pointers and counts, and the blocks it owns.\<close>

definition describes ::
  "translate_out \<Rightarrow> host_module \<Rightarrow> ptr list \<Rightarrow> ptr list \<Rightarrow> ptr list \<Rightarrow> ptr list \<Rightarrow> bool" where
  "describes out m ns ps qs rs \<longleftrightarrow>
     points (o_code out) (Code_Block (hm_code m)) \<and> o_n_code out = of_nat (length (hm_code m)) \<and>
     points (o_consts out) (U64_Block (hm_consts m)) \<and> o_n_consts out = of_nat (length (hm_consts m)) \<and>
     points (o_funcs out) (Funcs_Block (hm_funcs m)) \<and> o_n_funcs out = of_nat (length (hm_funcs m)) \<and>
     points_strings (o_export_names out) ns (map fst (hm_exports m)) \<and>
     points (o_export_idxs out) (U32_Block (map snd (hm_exports m))) \<and> o_n_exports out = of_nat (length (hm_exports m)) \<and>
     points (o_globals out) (U64_Block (hm_globals m)) \<and> o_n_globals out = of_nat (length (hm_globals m)) \<and>
     points (o_memory out) (U8_Block (hm_memory m)) \<and> o_mem_size out = hm_mem_size m \<and> o_mem_max out = hm_mem_max m \<and>
     points (o_data_blob out) (U8_Block (hm_data_blob m)) \<and> o_data_blob_len out = of_nat (length (hm_data_blob m)) \<and>
     points (o_data_off out) (U32_Block (hm_data_off m)) \<and> points (o_data_len out) (U32_Block (hm_data_len m)) \<and>
     points (o_data_live out) (U8_Block (hm_data_live m)) \<and> o_n_data out = of_nat (length (hm_data_live m)) \<and>
     points (o_table out) (U32_Block (hm_table m)) \<and> o_table_len out = of_nat (length (hm_table m)) \<and>
     points (o_func_typeidx out) (U32_Block (hm_func_typeidx m)) \<and>
     points (o_type_fp out) (U64_Block (hm_type_fp m)) \<and> o_n_types out = of_nat (length (hm_type_fp m)) \<and>
     points (o_host_fn_id out) (U32_Block (hm_host_fn_id m)) \<and> o_n_host_imports out = hm_n_host_imports m \<and>
     points_strings (o_host_import_mod out) ps (hm_host_import_mod m) \<and>
     points_strings (o_host_import_name out) qs (hm_host_import_name m) \<and>
     points_strings (o_host_import_env out) rs (hm_host_import_env m) \<and> o_err out = Null"

definition asset_list ::
  "translate_out \<Rightarrow> host_module \<Rightarrow> ptr list \<Rightarrow> ptr list \<Rightarrow> ptr list \<Rightarrow> ptr list \<Rightarrow> (nat \<times> block) multiset list" where
  "asset_list out m ns ps qs rs =
     [own (o_code out) (Code_Block (hm_code m)), own (o_consts out) (U64_Block (hm_consts m)),
      own (o_funcs out) (Funcs_Block (hm_funcs m)), own_strings (o_export_names out) ns (map fst (hm_exports m)),
      own (o_export_idxs out) (U32_Block (map snd (hm_exports m))), own (o_globals out) (U64_Block (hm_globals m)),
      own (o_memory out) (U8_Block (hm_memory m)), own (o_data_blob out) (U8_Block (hm_data_blob m)),
      own (o_data_off out) (U32_Block (hm_data_off m)), own (o_data_len out) (U32_Block (hm_data_len m)),
      own (o_data_live out) (U8_Block (hm_data_live m)), own (o_table out) (U32_Block (hm_table m)),
      own (o_func_typeidx out) (U32_Block (hm_func_typeidx m)), own (o_type_fp out) (U64_Block (hm_type_fp m)),
      own (o_host_fn_id out) (U32_Block (hm_host_fn_id m)), own_strings (o_host_import_mod out) ps (hm_host_import_mod m),
      own_strings (o_host_import_name out) qs (hm_host_import_name m),
      own_strings (o_host_import_env out) rs (hm_host_import_env m)]"

definition assets ::
  "translate_out \<Rightarrow> host_module \<Rightarrow> ptr list \<Rightarrow> ptr list \<Rightarrow> ptr list \<Rightarrow> ptr list \<Rightarrow> (nat \<times> block) multiset" where
  "assets out m ns ps qs rs = sum_list (asset_list out m ns ps qs rs)"

section \<open>Freeing\<close>

lemma free_vec_step:
  assumes "triple (holds base A) k Q (\<lambda>_ _. False)" and "points p b" and "kind_of b = kd" and "unat n = block_len b"
  shows "triple (holds base (own p b + A)) (thenS (free_vec kd p n) k) Q (\<lambda>_ _. False)"
proof -
  have n: "block_len b < 2 ^ 32" using unsigned_less [of n, where ?'a = nat] assms(4) by simp
  have "n = of_nat (block_len b)" unfolding assms(4) [symmetric] by simp
  from vec.from_raw [of b kd "(p, n)"] this n assms(2,3)
  have "triple (holds base (own p b + A)) (free_vec kd p n) (\<lambda>_. holds base A) (\<lambda>_ _. False)" by simp
  then show ?thesis using assms(1) by (rule triple_thenS)
qed

lemma raw_ptrs_owned:
  assumes "points p (Ptr_Block ps)" and "holds base (own p (Ptr_Block ps) + A) h"
  shows "raw_ptrs p (length ps) h = (Inr ps, h)"
  using assms holds_at [of base _ "Ptr_Block ps" A h]
  by (auto simp: raw_ptrs_def points_def own_def split: if_splits)

lemma free_strings_triple:
  assumes "points_strings p ps ss" and "\<forall>s \<in> set ss. CHR 0x00 \<notin> set s" and "unat n = length ss"
  shows "triple (holds base (own_strings p ps ss + A)) (free_strings p n) (\<lambda>_. holds base A) (\<lambda>_ _. False)"
proof -
  have p: "points p (Ptr_Block ps)" and v: "list_all2 (\<lambda>p s. points p (Str_Block s)) ps ss"
    using assms(1) by (simp_all add: points_strings_def)
  have len: "length ps = unat n" using list_all2_lengthD [OF v] assms(3) by simp
  have np: "p \<noteq> Null" using p by (auto simp: points_def split: if_splits)
  have "triple (holds base (own p (Ptr_Block ps) + (str.own_all ps ss + A))) (raw_ptrs p (unat n))
      (\<lambda>xs h. xs = ps \<and> holds base (own p (Ptr_Block ps) + (str.own_all ps ss + A)) h) (\<lambda>_ _. False)"
    using raw_ptrs_owned [OF p] len by (simp add: triple_def)
  moreover have "triple (\<lambda>h. xs = ps \<and> holds base (own p (Ptr_Block ps) + (str.own_all ps ss + A)) h)
      (thenS (forS xs (\<lambda>q. if q \<noteq> Null then cstring_free q else ret ())) (drop_raw K_Ptr p (unat n)))
      (\<lambda>_. holds base A) (\<lambda>_ _. False)" for xs
  proof -
    have "triple (holds base (str.own_all ps ss + (own p (Ptr_Block ps) + A)))
        (forS ps (\<lambda>q. if q \<noteq> Null then cstring_free q else ret ())) (\<lambda>_. holds base (own p (Ptr_Block ps) + A)) (\<lambda>_ _. False)"
      using str.from_raw_all [OF assms(2) v] .
    moreover have "triple (holds base (own p (Ptr_Block ps) + A)) (drop_raw K_Ptr p (unat n)) (\<lambda>_. holds base A) (\<lambda>_ _. False)"
      using drop_raw_triple [OF p] len by simp
    ultimately have "triple (holds base (str.own_all ps ss + (own p (Ptr_Block ps) + A)))
        (thenS (forS ps (\<lambda>q. if q \<noteq> Null then cstring_free q else ret ())) (drop_raw K_Ptr p (unat n)))
        (\<lambda>_. holds base A) (\<lambda>_ _. False)" by (rule triple_thenS)
    then show ?thesis by (cases "xs = ps") (simp_all add: triple_def ac_simps)
  qed
  ultimately have "triple (holds base (own p (Ptr_Block ps) + (str.own_all ps ss + A))) (free_strings p n)
      (\<lambda>_. holds base A) (\<lambda>_ _. False)"
    unfolding free_strings_def using np by (auto intro: triple_bindS)
  then show ?thesis by (simp add: own_strings_def add.assoc)
qed

lemma describes_points:
  assumes "describes out m ns ps qs rs"
  shows "points (o_code out) (Code_Block (hm_code m))" "points (o_consts out) (U64_Block (hm_consts m))"
    "points (o_funcs out) (Funcs_Block (hm_funcs m))" "points_strings (o_export_names out) ns (map fst (hm_exports m))"
    "points (o_export_idxs out) (U32_Block (map snd (hm_exports m)))" "points (o_globals out) (U64_Block (hm_globals m))"
    "points (o_memory out) (U8_Block (hm_memory m))" "points (o_data_blob out) (U8_Block (hm_data_blob m))"
    "points (o_data_off out) (U32_Block (hm_data_off m))" "points (o_data_len out) (U32_Block (hm_data_len m))"
    "points (o_data_live out) (U8_Block (hm_data_live m))" "points (o_table out) (U32_Block (hm_table m))"
    "points (o_func_typeidx out) (U32_Block (hm_func_typeidx m))" "points (o_type_fp out) (U64_Block (hm_type_fp m))"
    "points (o_host_fn_id out) (U32_Block (hm_host_fn_id m))" "points_strings (o_host_import_mod out) ps (hm_host_import_mod m)"
    "points_strings (o_host_import_name out) qs (hm_host_import_name m)"
    "points_strings (o_host_import_env out) rs (hm_host_import_env m)" "o_err out = Null"
  using assms by (simp_all add: describes_def)

lemma translate_free_triple:
  assumes "describes out m ns ps qs rs" and "exportable m"
  shows "triple (holds base (assets out m ns ps qs rs)) (cuwasm_translate_free (Some out))
    (\<lambda>r h. r = Some default_out \<and> holds base {#} h) (\<lambda>_ _. False)"
proof -
  note d = describes_points [OF assms(1)]
  have n: "unat (o_n_code out) = length (hm_code m)" "unat (o_n_consts out) = length (hm_consts m)"
    "unat (o_n_funcs out) = length (hm_funcs m)" "unat (o_n_exports out) = length (hm_exports m)"
    "unat (o_n_globals out) = length (hm_globals m)" "o_mem_max out = hm_mem_max m"
    "unat (o_data_blob_len out) = length (hm_data_blob m)" "unat (o_n_data out) = length (hm_data_off m)"
    "unat (o_table_len out) = length (hm_table m)" "unat (o_n_types out) = length (hm_type_fp m)"
    "o_n_host_imports out = hm_n_host_imports m"
    using assms by (simp_all add: describes_def exportable_def)
  have l: "length (hm_func_typeidx m) = length (hm_funcs m)" "length (hm_memory m) = unat (hm_mem_max m)"
    "length (hm_data_len m) = length (hm_data_off m)" "length (hm_data_live m) = length (hm_data_off m)"
    "length (hm_host_fn_id m) = unat (hm_n_host_imports m)" "length (hm_host_import_mod m) = unat (hm_n_host_imports m)"
    "length (hm_host_import_name m) = unat (hm_n_host_imports m)" "length (hm_host_import_env m) = unat (hm_n_host_imports m)"
    using assms(2) by (simp_all add: exportable_def)
  have nul: "\<forall>s \<in> set (map fst (hm_exports m)). CHR 0x00 \<notin> set s" "\<forall>s \<in> set (hm_host_import_mod m). CHR 0x00 \<notin> set s"
    "\<forall>s \<in> set (hm_host_import_name m). CHR 0x00 \<notin> set s" "\<forall>s \<in> set (hm_host_import_env m). CHR 0x00 \<notin> set s"
    using assms(2) by (auto simp: exportable_def)
  show ?thesis
    unfolding cuwasm_translate_free_def assets_def asset_list_def option.case sum_list.Cons sum_list.Nil forS.simps
    by (intro free_vec_step triple_thenS [OF free_strings_triple] triple_thenS [where R = "holds base {#}"])
      (simp_all add: d n l nul, simp_all add: triple_def)
qed

section \<open>Exporting\<close>

lemma vec_to_raw_step:
  assumes "\<And>p. points p b \<Longrightarrow> triple (holds base (own p b + A)) (f p (of_nat (block_len b))) Q (\<lambda>_ _. False)"
  shows "triple (holds base A) (bindS (vec_to_raw b) (\<lambda>(p, n). f p n)) Q (\<lambda>_ _. False)"
proof -
  have "triple (holds base A) (vec_to_raw b) (\<lambda>r h. (points (fst r) b \<and> snd r = of_nat (block_len b)) \<and>
      holds base (own (fst r) b + A) h) (\<lambda>_ _. False)"
    unfolding vec_to_raw_def by (rule triple_bindS [OF alloc_triple]) (simp add: triple_def)
  moreover have "triple (\<lambda>h. (points (fst r) b \<and> snd r = of_nat (block_len b)) \<and> holds base (own (fst r) b + A) h)
      (case r of (p, n) \<Rightarrow> f p n) Q (\<lambda>_ _. False)" for r
    using assms [of "fst r"] by (cases r) (simp add: triple_def)
  ultimately show ?thesis by (rule triple_bindS)
qed

lemma debug_assert_step:
  "x = y \<Longrightarrow> triple P k Q E \<Longrightarrow> triple P (thenS (debug_assert_eq debug x y) k) Q E"
  by (simp add: debug_assert_eq_def triple_def)

lemma strings_step:
  assumes "\<forall>s \<in> set ss. CHR 0x00 \<notin> set s"
    and "\<And>ps. list_all2 (\<lambda>p s. points p (Str_Block s)) ps ss \<Longrightarrow> triple (holds base (str.own_all ps ss + A)) (f ps) Q (\<lambda>_ _. False)"
  shows "triple (holds base A) (bindS (mapS cstring_raw ss) f) Q (\<lambda>_ _. False)"
  by (rule triple_bindS [OF str.into_raw_all [OF assms(1)]]) (use assms(2) in \<open>auto simp: triple_def\<close>)

lemma host_string_step:
  assumes "i < length ss" and "\<forall>s \<in> set ss. CHR 0x00 \<notin> set s"
    and "\<And>p. points p (Str_Block (ss ! i)) \<Longrightarrow> triple (holds base (own p (Str_Block (ss ! i)) + A)) (f p) Q (\<lambda>_ _. False)"
  shows "triple (holds base A) (bindS (bindS (index_str ss i) cstring_raw) f) Q (\<lambda>_ _. False)"
proof (rule triple_bindS)
  show "triple (holds base A) (bindS (index_str ss i) cstring_raw)
      (\<lambda>p h. points p (Str_Block (ss ! i)) \<and> holds base (own p (Str_Block (ss ! i)) + A) h) (\<lambda>_ _. False)"
    using str.into_raw [of "ss ! i" base A] assms(1,2) by (simp add: triple_def index_str_def)
qed (use assms(3) in \<open>simp add: triple_def\<close>)

text \<open>The strings of the imports \<open>is\<close>, column by column.\<close>

definition columns :: "host_module \<Rightarrow> nat list \<Rightarrow> (ptr \<times> ptr \<times> ptr) list \<Rightarrow> bool" where
  "columns m is xs \<longleftrightarrow>
     list_all2 (\<lambda>p s. points p (Str_Block s)) (map fst xs) (map (nth (hm_host_import_mod m)) is) \<and>
     list_all2 (\<lambda>p s. points p (Str_Block s)) (map (fst \<circ> snd) xs) (map (nth (hm_host_import_name m)) is) \<and>
     list_all2 (\<lambda>p s. points p (Str_Block s)) (map (snd \<circ> snd) xs) (map (nth (hm_host_import_env m)) is)"

definition own_columns :: "host_module \<Rightarrow> nat list \<Rightarrow> (ptr \<times> ptr \<times> ptr) list \<Rightarrow> (nat \<times> block) multiset" where
  "own_columns m is xs =
     str.own_all (map fst xs) (map (nth (hm_host_import_mod m)) is) +
     str.own_all (map (fst \<circ> snd) xs) (map (nth (hm_host_import_name m)) is) +
     str.own_all (map (snd \<circ> snd) xs) (map (nth (hm_host_import_env m)) is)"

lemma host_loop_triple:
  assumes "\<forall>i \<in> set is. i < length (hm_host_import_mod m) \<and> i < length (hm_host_import_name m) \<and> i < length (hm_host_import_env m)"
    and nul: "\<forall>s \<in> set (hm_host_import_mod m). CHR 0x00 \<notin> set s" "\<forall>s \<in> set (hm_host_import_name m). CHR 0x00 \<notin> set s"
      "\<forall>s \<in> set (hm_host_import_env m). CHR 0x00 \<notin> set s"
  shows "triple (holds base A) (mapS (host_strings m) is)
    (\<lambda>xs h. columns m is xs \<and> holds base (own_columns m is xs + A) h) (\<lambda>_ _. False)"
  using assms(1)
proof (induction "is" arbitrary: A)
  case Nil
  then show ?case by (simp add: triple_def columns_def own_columns_def)
next
  case (Cons i "is")
  let ?own = "\<lambda>p q r. own r (Str_Block (hm_host_import_env m ! i)) + (own q (Str_Block (hm_host_import_name m ! i)) +
      own p (Str_Block (hm_host_import_mod m ! i)))"
  have "triple (holds base A) (host_strings m i)
      (\<lambda>x h. columns m [i] [x] \<and> holds base (own_columns m [i] [x] + A) h) (\<lambda>_ _. False)"
    unfolding host_strings_def using Cons.prems
    by (intro host_string_step nul) (simp_all add: triple_def columns_def own_columns_def ac_simps)
  moreover have "triple (\<lambda>h. columns m [i] [x] \<and> holds base (own_columns m [i] [x] + A) h)
      (bindS (mapS (host_strings m) is) (\<lambda>ys. ret (x # ys)))
      (\<lambda>xs h. columns m (i # is) xs \<and> holds base (own_columns m (i # is) xs + A) h) (\<lambda>_ _. False)" for x
  proof (rule triple_bindS)
    show "triple (\<lambda>h. columns m [i] [x] \<and> holds base (own_columns m [i] [x] + A) h) (mapS (host_strings m) is)
        (\<lambda>ys h. columns m [i] [x] \<and> columns m is ys \<and> holds base (own_columns m is ys + (own_columns m [i] [x] + A)) h)
        (\<lambda>_ _. False)"
      using Cons.IH [of "own_columns m [i] [x] + A"] Cons.prems by (fastforce simp: triple_def split: prod.splits sum.splits)
  qed (auto simp: triple_def columns_def own_columns_def ac_simps)
  ultimately show ?case unfolding mapS.simps by (rule triple_bindS)
qed

lemma host_loop_step:
  assumes "length (hm_host_import_mod m) = n" "length (hm_host_import_name m) = n" "length (hm_host_import_env m) = n"
    and nul: "\<forall>s \<in> set (hm_host_import_mod m). CHR 0x00 \<notin> set s" "\<forall>s \<in> set (hm_host_import_name m). CHR 0x00 \<notin> set s"
      "\<forall>s \<in> set (hm_host_import_env m). CHR 0x00 \<notin> set s"
    and k: "\<And>xs. list_all2 (\<lambda>p s. points p (Str_Block s)) (map fst xs) (hm_host_import_mod m) \<Longrightarrow>
      list_all2 (\<lambda>p s. points p (Str_Block s)) (map (fst \<circ> snd) xs) (hm_host_import_name m) \<Longrightarrow>
      list_all2 (\<lambda>p s. points p (Str_Block s)) (map (snd \<circ> snd) xs) (hm_host_import_env m) \<Longrightarrow> length xs = n \<Longrightarrow>
      triple (holds base (str.own_all (map fst xs) (hm_host_import_mod m) + str.own_all (map (fst \<circ> snd) xs) (hm_host_import_name m) +
        str.own_all (map (snd \<circ> snd) xs) (hm_host_import_env m) + A)) (f xs) Q (\<lambda>_ _. False)"
  shows "triple (holds base A) (bindS (mapS (host_strings m) [0..<n]) f) Q (\<lambda>_ _. False)"
proof (rule triple_bindS [OF host_loop_triple [OF _ nul]])
  have map: "map (nth (hm_host_import_mod m)) [0..<n] = hm_host_import_mod m"
    "map (nth (hm_host_import_name m)) [0..<n] = hm_host_import_name m"
    "map (nth (hm_host_import_env m)) [0..<n] = hm_host_import_env m"
    using assms(1-3) map_nth by metis+
  show "triple (\<lambda>h. columns m [0..<n] xs \<and> holds base (own_columns m [0..<n] xs + A) h) (f xs) Q (\<lambda>_ _. False)" for xs
  proof (cases "columns m [0..<n] xs")
    case True
    then have "length xs = n" using assms(1) list_all2_lengthD by (fastforce simp: columns_def)
    with True k [of xs] show ?thesis by (simp add: columns_def own_columns_def map)
  qed (simp add: triple_def)
qed (use assms(1-3) in simp)

lemma described_ret:
  "describes out m ns ps qs rs \<Longrightarrow> A = assets out m ns ps qs rs \<Longrightarrow>
   triple (holds base A) (ret out)
     (\<lambda>out h. \<exists>ns ps qs rs. describes out m ns ps qs rs \<and> holds base (assets out m ns ps qs rs) h) E"
  by (auto simp: triple_def)

lemma export_triple:
  assumes "exportable m"
  shows "triple (holds base {#}) (export_module debug m)
    (\<lambda>out h. \<exists>ns ps qs rs. describes out m ns ps qs rs \<and> holds base (assets out m ns ps qs rs) h) (\<lambda>_ _. False)"
proof -
  have nul: "\<forall>s \<in> set (map fst (hm_exports m)). CHR 0x00 \<notin> set s" "\<forall>s \<in> set (hm_host_import_mod m). CHR 0x00 \<notin> set s"
    "\<forall>s \<in> set (hm_host_import_name m). CHR 0x00 \<notin> set s" "\<forall>s \<in> set (hm_host_import_env m). CHR 0x00 \<notin> set s"
    using assms by (auto simp: exportable_def)
  have l: "length (hm_func_typeidx m) = length (hm_funcs m)" "length (hm_memory m) = unat (hm_mem_max m)"
    "length (hm_data_len m) = length (hm_data_off m)" "length (hm_data_live m) = length (hm_data_off m)"
    "length (hm_host_fn_id m) = unat (hm_n_host_imports m)" "length (hm_host_import_mod m) = unat (hm_n_host_imports m)"
    "length (hm_host_import_name m) = unat (hm_n_host_imports m)" "length (hm_host_import_env m) = unat (hm_n_host_imports m)"
    using assms by (simp_all add: exportable_def)
  show ?thesis unfolding export_module_def Let_def
    apply (intro vec_to_raw_step strings_step [OF nul(1)] debug_assert_step host_loop_step [OF l(6-8) nul(2-4)])
                     apply (simp_all add: l list_all2_lengthD)
    subgoal for code cs funcs ns export_names export_idxs globals memory data_blob data_off data_len data_live table
      func_typeidx type_fp host_fn_id xs
      by (rule described_ret [where ns = ns and ps = "map fst xs" and qs = "map (fst \<circ> snd) xs" and rs = "map (snd \<circ> snd) xs"])
        (simp_all add: describes_def points_strings_def l assets_def asset_list_def own_strings_def ac_simps)
    done
qed

section \<open>Reading\<close>

lemma sum_list_member: "x \<in> set xs \<Longrightarrow> x \<subseteq># sum_list xs"
  by (induction xs) (auto intro: subset_mset.add_increasing subset_mset.add_increasing2)

lemma sub_parts: "X + Y \<subseteq># A \<Longrightarrow> X \<subseteq># A" "X + Y \<subseteq># A \<Longrightarrow> Y \<subseteq># A" for A :: "'a multiset"
  by (rule subset_mset.order_trans, rule mset_subset_eq_add_left, assumption)
    (rule subset_mset.order_trans, rule mset_subset_eq_add_right, assumption)

lemma holds_sub:
  assumes "holds base A h" and "own (Addr a) b \<subseteq># A"
  shows "hp_blocks h a = Some b"
proof -
  have "A = add_mset (a, b) (A - {#(a, b)#})" using assms(2) by (simp add: own_def)
  then show ?thesis using holds_at assms(1) by metis
qed

lemma read_owned:
  assumes "holds base A h" and "points p b" and "own p b \<subseteq># A" and "proj b = Some xs" and "length xs = block_len b"
    and "unat n = length xs"
  shows "read_raw proj p n h = (Inr xs, h)" and "read_guarded proj p n h = (Inr xs, h)"
proof -
  show "read_raw proj p n h = (Inr xs, h)"
  proof (cases "n = 0")
    case True
    then show ?thesis using assms(6) by (simp add: read_raw_def)
  next
    case False
    then obtain a where "p = Addr a" using assms(2,5,6) by (auto simp: points_def unat_eq_zero split: if_splits)
    then show ?thesis using holds_sub [OF assms(1)] assms(3,4,6) False by (simp add: read_raw_def)
  qed
  moreover have "p \<noteq> Null" using assms(2) by (auto simp: points_def split: if_splits)
  moreover have "n = 0 \<Longrightarrow> xs = []" using assms(6) by simp
  ultimately show "read_guarded proj p n h = (Inr xs, h)" by (auto simp: read_guarded_def)
qed

lemma read_cstr_owned:
  assumes "holds base A h" and "own p (Str_Block s) \<subseteq># A" and "points p (Str_Block s)" and "CHR 0x00 \<notin> set s"
  shows "read_cstr p h = (Inr s, h)"
proof -
  obtain a where p: "p = Addr a" using assms(3) by (auto simp: points_def)
  have "takeWhile (\<lambda>c. c \<noteq> CHR 0x00) s = s" using assms(4) by (induction s) auto
  then show ?thesis using holds_sub [OF assms(1)] assms(2) by (simp add: read_cstr_def p)
qed

lemma read_cstrs_owned:
  assumes "holds base A h" and "list_all2 (\<lambda>p s. points p (Str_Block s)) ps ss" and "str.own_all ps ss \<subseteq># A"
    and "\<forall>s \<in> set ss. CHR 0x00 \<notin> set s"
  shows "mapS read_cstr ps h = (Inr ss, h)"
  using assms(2-4)
proof (induction rule: list_all2_induct)
  case (Cons p ps s ss)
  have "own p (Str_Block s) \<subseteq># A" "str.own_all ps ss \<subseteq># A"
    using Cons.prems(1) by (simp_all, auto dest: sub_parts)
  then show ?case using Cons read_cstr_owned [OF assms(1)] by simp
qed simp

lemma read_names_owned:
  assumes "holds base A h" and "points_strings p ps ss" and "own_strings p ps ss \<subseteq># A"
    and "\<forall>s \<in> set ss. CHR 0x00 \<notin> set s" and "unat n = length ss"
  shows "read_names p n h = (Inr ss, h)" and "read_names_guarded p n h = (Inr ss, h)"
proof -
  have v: "points p (Ptr_Block ps)" "list_all2 (\<lambda>p s. points p (Str_Block s)) ps ss"
    using assms(2) by (simp_all add: points_strings_def)
  have sub: "own p (Ptr_Block ps) \<subseteq># A" "str.own_all ps ss \<subseteq># A"
    using assms(3) unfolding own_strings_def by (auto dest: sub_parts)
  have "read_raw as_ptr p n h = (Inr ps, h)"
    using list_all2_lengthD [OF v(2)] assms(5) by (intro read_owned(1) [OF assms(1) v(1) sub(1)]) simp_all
  then show "read_names p n h = (Inr ss, h)"
    unfolding read_names_def using read_cstrs_owned [OF assms(1) v(2) sub(2) assms(4)] by simp
  moreover have "p \<noteq> Null" using v(1) by (auto simp: points_def split: if_splits)
  ultimately show "read_names_guarded p n h = (Inr ss, h)" by (simp add: read_names_guarded_def)
qed

lemma import_described:
  assumes "describes out m ns ps qs rs" and "exportable m" and held: "holds base (assets out m ns ps qs rs) h"
  shows "import_module out h = (Inr m, h)"
proof -
  note d = assms(1) [unfolded describes_def] and e = assms(2) [unfolded exportable_def]
  note sub = sum_list_member [of _ "asset_list out m ns ps qs rs", folded assets_def, unfolded asset_list_def]
  note dp = describes_points [OF assms(1)]
  note ro = read_owned [OF held dp(1) sub] read_owned [OF held dp(2) sub] read_owned [OF held dp(3) sub]
    read_owned [OF held dp(5) sub] read_owned [OF held dp(6) sub] read_owned [OF held dp(7) sub]
    read_owned [OF held dp(8) sub] read_owned [OF held dp(9) sub] read_owned [OF held dp(10) sub]
    read_owned [OF held dp(11) sub] read_owned [OF held dp(12) sub] read_owned [OF held dp(13) sub]
    read_owned [OF held dp(14) sub] read_owned [OF held dp(15) sub]
  note rn = read_names_owned [OF held dp(4) sub] read_names_owned [OF held dp(16) sub]
    read_names_owned [OF held dp(17) sub] read_names_owned [OF held dp(18) sub]
  have "read_raw as_code (o_code out) (o_n_code out) h = (Inr (hm_code m), h)"
    "read_raw as_u64 (o_consts out) (o_n_consts out) h = (Inr (hm_consts m), h)"
    "read_raw as_funcs (o_funcs out) (o_n_funcs out) h = (Inr (hm_funcs m), h)"
    "read_raw as_u32 (o_export_idxs out) (o_n_exports out) h = (Inr (map snd (hm_exports m)), h)"
    "read_guarded as_u64 (o_globals out) (o_n_globals out) h = (Inr (hm_globals m), h)"
    "read_guarded as_u8 (o_memory out) (o_mem_max out) h = (Inr (hm_memory m), h)"
    "read_guarded as_u8 (o_data_blob out) (o_data_blob_len out) h = (Inr (hm_data_blob m), h)"
    "read_guarded as_u32 (o_data_off out) (o_n_data out) h = (Inr (hm_data_off m), h)"
    "read_guarded as_u32 (o_data_len out) (o_n_data out) h = (Inr (hm_data_len m), h)"
    "read_guarded as_u8 (o_data_live out) (o_n_data out) h = (Inr (hm_data_live m), h)"
    "read_guarded as_u32 (o_table out) (o_table_len out) h = (Inr (hm_table m), h)"
    "read_guarded as_u32 (o_func_typeidx out) (o_n_funcs out) h = (Inr (hm_func_typeidx m), h)"
    "read_guarded as_u64 (o_type_fp out) (o_n_types out) h = (Inr (hm_type_fp m), h)"
    "read_guarded as_u32 (o_host_fn_id out) (o_n_host_imports out) h = (Inr (hm_host_fn_id m), h)"
    by (rule ro; use d e in simp)+
  moreover have "read_names (o_export_names out) (o_n_exports out) h = (Inr (map fst (hm_exports m)), h)"
    "read_names_guarded (o_host_import_mod out) (o_n_host_imports out) h = (Inr (hm_host_import_mod m), h)"
    "read_names_guarded (o_host_import_name out) (o_n_host_imports out) h = (Inr (hm_host_import_name m), h)"
    "read_names_guarded (o_host_import_env out) (o_n_host_imports out) h = (Inr (hm_host_import_env m), h)"
    by (rule rn; use d e in auto)+
  ultimately show ?thesis using d e by (simp add: import_module_def zip_map_fst_snd)
qed

section \<open>Whole calls\<close>

text \<open>
  Of the conditions of an export, a translated module meets all but these: names without NUL, a
  body for every declared function, and lengths within 32 bits.
\<close>

definition nul_free :: "host_module \<Rightarrow> bool" where
  "nul_free m \<longleftrightarrow>
     (\<forall>s \<in> set (map fst (hm_exports m) @ hm_host_import_mod m @ hm_host_import_name m @ hm_host_import_env m).
        CHR 0x00 \<notin> set s)"

definition short :: "host_module \<Rightarrow> bool" where
  "short m \<longleftrightarrow>
     (\<forall>n \<in> {length (hm_code m), length (hm_consts m), length (hm_funcs m), length (hm_exports m), length (hm_globals m),
        length (hm_data_blob m), length (hm_data_off m), length (hm_table m), length (hm_type_fp m), length (hm_host_fn_id m)}.
        n < 2 ^ 32)"

lemma translated_exportable:
  assumes "translate_wasm root parse_all bytes = Inr m" and "nul_free m" and "short m"
    and "length (hm_func_typeidx m) = length (hm_funcs m)"
  shows "exportable m"
  using translate_parallel [OF assms(1)] assms(2-4) by (simp add: exportable_def nul_free_def short_def)

definition fresh :: "heap \<Rightarrow> bool" where
  "fresh h \<longleftrightarrow> (\<forall>a \<ge> hp_next h. hp_blocks h a = None)"

text \<open>What a call of \<open>cuwasm_translate_wasm\<close> leaves behind, for either outcome.\<close>

definition call_post ::
  "(nat \<Rightarrow> block option) \<Rightarrow> (error \<Rightarrow> string) \<Rightarrow> error + host_module \<Rightarrow> int \<times> translate_out option \<Rightarrow> heap \<Rightarrow> bool" where
  "call_post base render r x h \<longleftrightarrow>
     (case r of
        Inr m \<Rightarrow> fst x = 0 \<and> (\<exists>out ns ps qs rs. snd x = Some out \<and> describes out m ns ps qs rs \<and>
          holds base (assets out m ns ps qs rs) h)
      | Inl e \<Rightarrow> fst x = -1 \<and> (\<exists>p. snd x = Some (default_out\<lparr>o_err := p\<rparr>) \<and>
          points p (Str_Block (filter (\<lambda>c. c \<noteq> CHR 0x00) (render e))) \<and>
          holds base (own p (Str_Block (filter (\<lambda>c. c \<noteq> CHR 0x00) (render e)))) h))"

lemma cstring_err_triple:
  "triple (holds base {#}) (cstring_err msg)
     (\<lambda>p h. points p (Str_Block (filter (\<lambda>c. c \<noteq> CHR 0x00) msg)) \<and>
        holds base (own p (Str_Block (filter (\<lambda>c. c \<noteq> CHR 0x00) msg))) h) (\<lambda>_ _. False)"
  using str.into_raw [of "filter (\<lambda>c. c \<noteq> CHR 0x00) msg" base "{#}"] by (simp add: cstring_err_def)

lemma translate_call:
  assumes "len \<le> length buf" and "fresh h"
    and "\<And>m. translate_wasm root parse_all (take len buf) = Inr m \<Longrightarrow> exportable m"
  shows "\<exists>x h1. cuwasm_translate_wasm debug render root parse_all (Some buf) len False h = (Inr x, h1) \<and>
    call_post (hp_blocks h) render (translate_wasm root parse_all (take len buf)) x h1"
proof -
  have h: "holds (hp_blocks h) {#} h" using assms(2) by (intro holds_start) (simp add: fresh_def)
  show ?thesis
  proof (cases "translate_wasm root parse_all (take len buf)")
    case (Inl e)
    have "graceful (translate_wasm root parse_all (take len buf))"
      unfolding translate_wasm_def by (intro graceful_rbind graceful_rfold graceful_payload graceful_finish)
    then have "\<not> is_panic e" using Inl by simp
    moreover obtain p h1 where "cstring_err (render e) h = (Inr p, h1)"
      using tripleD(1) [OF cstring_err_triple h] by (metis old.sum.exhaust surj_pair)
    ultimately show ?thesis using tripleD(2) [OF cstring_err_triple h] Inl assms(1)
      by (auto simp: cuwasm_translate_wasm_def call_post_def)
  next
    case (Inr m)
    note t = export_triple [OF assms(3) [OF Inr], of "hp_blocks h" debug]
    obtain out h1 where "export_module debug m h = (Inr out, h1)"
      using tripleD(1) [OF t h] by (metis old.sum.exhaust surj_pair)
    moreover from tripleD(2) [OF t h this] have "call_post (hp_blocks h) render (Inr m) (0, Some out) h1"
      by (simp add: call_post_def)
    ultimately show ?thesis using Inr assms(1) by (simp add: cuwasm_translate_wasm_def)
  qed
qed

lemma free_error:
  assumes "points p (Str_Block s)" and "CHR 0x00 \<notin> set s" and "holds base (own p (Str_Block s)) h"
  shows "\<exists>h2. cuwasm_translate_free (Some (default_out\<lparr>o_err := p\<rparr>)) h = (Inr (Some default_out), h2) \<and> hp_blocks h2 = base"
proof -
  obtain a where p: "p = Addr a" using assms(1) by (auto simp: points_def)
  have t: "triple (holds base (own p (Str_Block s))) (cstring_free p) (\<lambda>_. holds base {#}) (\<lambda>_ _. False)"
    using str.from_raw [OF assms(2,1), of base "{#}"] by (simp add: p)
  obtain u h2 where run: "cstring_free p h = (Inr u, h2)"
    using tripleD(1) [OF t assms(3)] by (metis old.sum.exhaust surj_pair)
  have "hp_blocks h2 = base" using tripleD(2) [OF t assms(3) run] by (rule holds_empty)
  then show ?thesis
    using run by (simp add: cuwasm_translate_free_def free_vec_def free_strings_def default_out_def p)
qed

lemma free_after_call:
  assumes "call_post base render r (rc, out) h" and "\<And>m. r = Inr m \<Longrightarrow> exportable m"
  shows "\<exists>h2. cuwasm_translate_free out h = (Inr (Some default_out), h2) \<and> hp_blocks h2 = base"
proof (cases r)
  case (Inl e)
  then obtain p where "out = Some (default_out\<lparr>o_err := p\<rparr>)" "points p (Str_Block (filter (\<lambda>c. c \<noteq> CHR 0x00) (render e)))"
    "holds base (own p (Str_Block (filter (\<lambda>c. c \<noteq> CHR 0x00) (render e)))) h" using assms(1) by (auto simp: call_post_def)
  then show ?thesis using free_error by simp
next
  case (Inr m)
  then obtain x ns ps qs rs where x: "out = Some x" "describes x m ns ps qs rs" and held: "holds base (assets x m ns ps qs rs) h"
    using assms(1) by (auto simp: call_post_def)
  note t = translate_free_triple [OF x(2) assms(2) [OF Inr], of base]
  obtain v h2 where run: "cuwasm_translate_free (Some x) h = (Inr v, h2)"
    using tripleD(1) [OF t held] by (metis old.sum.exhaust surj_pair)
  then show ?thesis using tripleD(2) [OF t held run] holds_empty x(1) by auto
qed

lemma call_then_free:
  assumes "len \<le> length buf" and "fresh h"
    and "\<forall>m. translate_wasm root parse_all (take len buf) = Inr m \<longrightarrow>
      nul_free m \<and> short m \<and> length (hm_func_typeidx m) = length (hm_funcs m)"
  obtains rc out h1 h2 where "cuwasm_translate_wasm debug render root parse_all (Some buf) len False h = (Inr (rc, out), h1)"
    and "call_post (hp_blocks h) render (translate_wasm root parse_all (take len buf)) (rc, out) h1"
    and "cuwasm_translate_free out h1 = (Inr (Some default_out), h2)" and "hp_blocks h2 = hp_blocks h"
proof -
  have ex: "exportable m" if "translate_wasm root parse_all (take len buf) = Inr m" for m
    using translated_exportable [OF that] assms(3) that by blast
  obtain rc out h1 where run: "cuwasm_translate_wasm debug render root parse_all (Some buf) len False h = (Inr (rc, out), h1)"
    and post: "call_post (hp_blocks h) render (translate_wasm root parse_all (take len buf)) (rc, out) h1"
    using translate_call [OF assms(1,2) ex] by (metis surj_pair)
  from free_after_call [OF post ex] that [OF run post] show ?thesis by blast
qed

lemma free_default: "cuwasm_translate_free (Some default_out) h = (Inr (Some default_out), h)"
  by (simp add: cuwasm_translate_free_def free_vec_def free_strings_def default_out_def)

text \<open>Loading returns what the translator produced.\<close>

lemma load_wasm_exact:
  assumes "len \<le> length buf" and "fresh h"
    and "\<forall>m. translate_wasm root parse_all (take len buf) = Inr m \<longrightarrow>
      nul_free m \<and> short m \<and> length (hm_func_typeidx m) = length (hm_funcs m)"
  shows "\<exists>h'. load_wasm debug render root parse_all (Some buf) len h =
      (Inr (case translate_wasm root parse_all (take len buf) of
              Inl e \<Rightarrow> Inl (filter (\<lambda>c. c \<noteq> CHR 0x00) (render e)) | Inr m \<Rightarrow> Inr m), h') \<and>
    hp_blocks h' = hp_blocks h"
proof -
  have ex: "exportable m" if "translate_wasm root parse_all (take len buf) = Inr m" for m
    using translated_exportable [OF that] assms(3) that by blast
  obtain rc out h1 h2 where run: "cuwasm_translate_wasm debug render root parse_all (Some buf) len False h = (Inr (rc, out), h1)"
    and post: "call_post (hp_blocks h) render (translate_wasm root parse_all (take len buf)) (rc, out) h1"
    and free: "cuwasm_translate_free out h1 = (Inr (Some default_out), h2)" "hp_blocks h2 = hp_blocks h"
    by (rule call_then_free [OF assms])
  show ?thesis
  proof (cases "translate_wasm root parse_all (take len buf)")
    case (Inl e)
    let ?s = "filter (\<lambda>c. c \<noteq> CHR 0x00) (render e)"
    from post Inl obtain p where p: "rc = -1" "out = Some (default_out\<lparr>o_err := p\<rparr>)" "points p (Str_Block ?s)"
      "holds (hp_blocks h) (own p (Str_Block ?s)) h1" by (auto simp: call_post_def)
    have "read_cstr p h1 = (Inr ?s, h1)" using read_cstr_owned [OF p(4) _ p(3)] by simp
    moreover have "p \<noteq> Null" using p(3) by (auto simp: points_def)
    ultimately show ?thesis using run free Inl by (simp add: load_wasm_def p)
  next
    case (Inr m)
    with post obtain x ns ps qs rs where x: "rc = 0" "out = Some x" "describes x m ns ps qs rs"
      "holds (hp_blocks h) (assets x m ns ps qs rs) h1" by (auto simp: call_post_def)
    have "import_module x h1 = (Inr m, h1)" using import_described [OF x(3) ex [OF Inr] x(4)] .
    with run free Inr show ?thesis by (simp add: load_wasm_def x)
  qed
qed

section \<open>Properties\<close>

text \<open>
  C14. The C interface neither leaks nor frees twice. Translate any buffer, in a debug or a release
  build; if the translation succeeds, let its names be free of NUL, its lengths fit 32 bits and
  every declared function have a body. Then the call returns 0 on success and -1 on error,
  \<open>cuwasm_translate_free\<close> on the result runs without undefined behaviour, every block allocated by
  the call is gone and all others are untouched, and freeing the structure once more is harmless.
\<close>

theorem translate_free_round_trip:
  assumes "len \<le> length buf" and "fresh h"
    and "\<forall>m. translate_wasm root parse_all (take len buf) = Inr m \<longrightarrow>
      nul_free m \<and> short m \<and> length (hm_func_typeidx m) = length (hm_funcs m)"
  shows "\<exists>rc out h1 h2. cuwasm_translate_wasm debug render root parse_all (Some buf) len False h = (Inr (rc, out), h1) \<and>
    (rc = 0 \<longleftrightarrow> \<not> isl (translate_wasm root parse_all (take len buf))) \<and>
    cuwasm_translate_free out h1 = (Inr (Some default_out), h2) \<and> hp_blocks h2 = hp_blocks h \<and>
    cuwasm_translate_free (Some default_out) h2 = (Inr (Some default_out), h2)"
proof -
  obtain rc out h1 h2 where "cuwasm_translate_wasm debug render root parse_all (Some buf) len False h = (Inr (rc, out), h1)"
    and post: "call_post (hp_blocks h) render (translate_wasm root parse_all (take len buf)) (rc, out) h1"
    and "cuwasm_translate_free out h1 = (Inr (Some default_out), h2)" "hp_blocks h2 = hp_blocks h"
    by (rule call_then_free [OF assms])
  moreover have "rc = 0 \<longleftrightarrow> \<not> isl (translate_wasm root parse_all (take len buf))"
    using post by (auto simp: call_post_def split: sum.splits)
  ultimately show ?thesis using free_default by blast
qed

text \<open>
  C13. The module crosses the C interface unchanged. Under the same conditions the C++ loader
  returns exactly the module that the Rust translator produced, or its error message without the
  NUL characters, and leaves the heap as it was.
\<close>

theorem load_wasm_round_trip:
  assumes "len \<le> length buf" and "fresh h"
    and "\<forall>m. translate_wasm root parse_all (take len buf) = Inr m \<longrightarrow>
      nul_free m \<and> short m \<and> length (hm_func_typeidx m) = length (hm_funcs m)"
  shows "\<exists>h'. load_wasm debug render root parse_all (Some buf) len h =
      (Inr (case translate_wasm root parse_all (take len buf) of
              Inl e \<Rightarrow> Inl (filter (\<lambda>c. c \<noteq> CHR 0x00) (render e)) | Inr m \<Rightarrow> Inr m), h') \<and>
    hp_blocks h' = hp_blocks h"
  by (rule load_wasm_exact [OF assms])

text \<open>
  C22. An export name with a NUL character makes the C entry point panic: \<open>CString::new\<close> fails and
  is unwrapped, after the module was translated without error. The names of WASM exports may hold
  any UTF-8 character, NUL included.
\<close>

theorem nul_export_panics:
  assumes "translate_wasm root parse_all (take len buf) = Inr m" and "len \<le> length buf"
    and "e \<in> set (hm_exports m)" and "CHR 0x00 \<in> set (fst e)"
  shows "fst (cuwasm_translate_wasm debug render root parse_all (Some buf) len False h) = Inl (FPanic ''NulError'')"
proof -
  have names: "\<exists>h'. mapS cstring_raw ss h = (Inl (FPanic ''NulError''), h')" if "\<exists>s \<in> set ss. CHR 0x00 \<in> set s" for ss h
    using that
  proof (induction ss arbitrary: h)
    case (Cons s ss)
    show ?case
    proof (cases "CHR 0x00 \<in> set s")
      case False
      then obtain p h1 where 1: "cstring_raw s h = (Inr p, h1)" by (simp add: cstring_raw_def alloc_def)
      obtain h2 where "mapS cstring_raw ss h1 = (Inl (FPanic ''NulError''), h2)" using Cons False by auto
      with 1 show ?thesis by simp
    qed (simp add: cstring_raw_def)
  qed simp
  have vec: "\<exists>p h'. vec_to_raw b h = (Inr (p, of_nat (block_len b)), h')" for b h
    by (auto simp: vec_to_raw_def alloc_def bindS_def)
  have "fst (export_module debug m h) = Inl (FPanic ''NulError'')"
  proof -
    obtain p1 h1 where 1: "vec_to_raw (Code_Block (hm_code m)) h = (Inr (p1, of_nat (length (hm_code m))), h1)"
      using vec [of "Code_Block (hm_code m)" h] by auto
    obtain p2 h2 where 2: "vec_to_raw (U64_Block (hm_consts m)) h1 = (Inr (p2, of_nat (length (hm_consts m))), h2)"
      using vec [of "U64_Block (hm_consts m)" h1] by auto
    obtain p3 h3 where 3: "vec_to_raw (Funcs_Block (hm_funcs m)) h2 = (Inr (p3, of_nat (length (hm_funcs m))), h3)"
      using vec [of "Funcs_Block (hm_funcs m)" h2] by auto
    obtain h4 where "mapS cstring_raw (map fst (hm_exports m)) h3 = (Inl (FPanic ''NulError''), h4)"
      using names [of "map fst (hm_exports m)" h3] assms(3,4) by auto
    then show ?thesis by (simp add: export_module_def 1 2 3)
  qed
  then obtain h' where "export_module debug m h = (Inl (FPanic ''NulError''), h')" by (metis prod.collapse)
  then show ?thesis using assms(1,2) by (simp add: cuwasm_translate_wasm_def)
qed

text \<open>Two functions declared, one body.\<close>

definition declared_twice :: "string \<Rightarrow> (string + payload) list" where
  "declared_twice name =
     [Inr (TypeSection [Inr [CT_Func [] []]]), Inr (FunctionSection [Inr 0, Inr 0]),
      Inr (ExportSection [Inr \<lparr>ex_name = name, ex_kind = EX_Func, ex_index = 0\<rparr>]),
      Inr (CodeSectionEntry \<lparr>fb_locals = Inr [], fb_operators = Inr [Inr End]\<rparr>)]"

definition empty_heap :: heap where
  "empty_heap = \<lparr>hp_next = 0, hp_blocks = (\<lambda>_. None)\<rparr>"


text \<open>A module with an import, an export and a body.\<close>

definition ffi_payloads :: "(string + payload) list" where
  "ffi_payloads =
     [Inr (TypeSection [Inr [CT_Func [] []]]),
      Inr (ImportSection [Inr \<lparr>imp_module = ''x'', imp_name = ''0'', imp_ty = TR_Func 0\<rparr>]),
      Inr (FunctionSection [Inr 0]),
      Inr (ExportSection [Inr \<lparr>ex_name = ''run'', ex_kind = EX_Func, ex_index = 1\<rparr>]),
      Inr (CodeSectionEntry \<lparr>fb_locals = Inr [], fb_operators = Inr [Inr (I64Const 3), Inr Drop, Inr End]\<rparr>)]"

definition ffi_module :: host_module where
  "ffi_module = (case translate_wasm sample_root (\<lambda>_. ffi_payloads) [] of Inr m \<Rightarrow> m)"

lemma ffi_translates: "translate_wasm sample_root (\<lambda>_. ffi_payloads) [] = Inr ffi_module"
  by code_simp

lemma ffi_conditions:
  "\<forall>m. translate_wasm sample_root (\<lambda>_. ffi_payloads) (take 0 []) = Inr m \<longrightarrow>
     nul_free m \<and> short m \<and> length (hm_func_typeidx m) = length (hm_funcs m)"
proof -
  have "\<forall>n \<in> {length (hm_code ffi_module), length (hm_consts ffi_module), length (hm_funcs ffi_module),
      length (hm_exports ffi_module), length (hm_globals ffi_module), length (hm_data_blob ffi_module),
      length (hm_data_off ffi_module), length (hm_table ffi_module), length (hm_type_fp ffi_module),
      length (hm_host_fn_id ffi_module)}. n \<le> 9" by code_simp
  then have "short ffi_module" by (simp add: short_def)
  moreover have "nul_free ffi_module" "length (hm_func_typeidx ffi_module) = length (hm_funcs ffi_module)" by code_simp+
  ultimately show ?thesis using ffi_translates by simp
qed

lemma empty_fresh: "fresh empty_heap"
  by (simp add: fresh_def empty_heap_def)

lemma translate_free_round_trip_witness:
  "\<exists>out h1 h2. cuwasm_translate_wasm True (\<lambda>_. []) sample_root (\<lambda>_. ffi_payloads) (Some []) 0 False empty_heap =
      (Inr (0, out), h1) \<and> cuwasm_translate_free out h1 = (Inr (Some default_out), h2) \<and> hp_blocks h2 = (\<lambda>_. None)"
  using translate_free_round_trip [OF _ empty_fresh ffi_conditions, of True "\<lambda>_. []"] ffi_translates
  by (fastforce simp: empty_heap_def)

lemma load_wasm_round_trip_witness:
  "\<exists>h'. load_wasm True (\<lambda>_. []) sample_root (\<lambda>_. ffi_payloads) (Some []) 0 empty_heap = (Inr (Inr ffi_module), h') \<and>
     hp_blocks h' = (\<lambda>_. None)"
  using load_wasm_round_trip [OF _ empty_fresh ffi_conditions, of True "\<lambda>_. []"] ffi_translates
  by (simp add: empty_heap_def)

lemma nul_export_panics_witness:
  "fst (cuwasm_translate_wasm False (\<lambda>_. []) [] (\<lambda>_. declared_twice [CHR 0x00]) (Some []) 0 False empty_heap) =
     Inl (FPanic ''NulError'')"
proof -
  let ?r = "translate_wasm [] (\<lambda>_. declared_twice [CHR 0x00]) []"
  have "\<not> isl ?r \<and> hm_exports (projr ?r) = [([CHR 0x00], 0)]" by code_simp
  then obtain m where "translate_wasm [] (\<lambda>_. declared_twice [CHR 0x00]) (take 0 []) = Inr m" "hm_exports m = [([CHR 0x00], 0)]"
    by (cases ?r) auto
  then show ?thesis by (intro nul_export_panics [where e = "([CHR 0x00], 0)"]) auto
qed

end
