(* ===== verification/Dispatch.thy ===== *)
theory Dispatch
  imports Env_Ids CuOp
begin

text \<open>
  The host dispatcher (\<open>tools/contract-tests/src/dispatch.rs\<close>): it serves the host calls of a
  running contract. Values of the host are handed to the guest as handles relative to a table and
  translated back when the guest passes them in; slices of guest memory are read and written
  through a raw pointer. The model keeps the whole handler: the call log, the trace and every host
  call with its error path.

  The encoding of values (\<open>soroban_env_common::Val\<close>) and the host (\<open>soroban_env_host::Host\<close>) are
  parameters, the records \<open>val_ops\<close> and \<open>host_ops\<close>. A \<open>Val\<close> is its 64-bit payload. A host call may
  change the state of the host, which is part of the context.
\<close>

unbundle bit_operations_syntax

section \<open>Bytes\<close>

fun from_le :: "u8 list \<Rightarrow> 'a :: len word" where
  "from_le [] = 0"
| "from_le (b # bs) = ucast b OR push_bit 8 (from_le bs)"

fun to_le :: "nat \<Rightarrow> 'a :: len word \<Rightarrow> u8 list" where
  "to_le 0 x = []"
| "to_le (Suc n) x = ucast x # to_le n (drop_bit 8 x)"

definition hex_digit :: "nat \<Rightarrow> char" where
  "hex_digit n = (if n < 10 then char_of (48 + n) else char_of (87 + n))"

definition hex_byte :: "u8 \<Rightarrow> string" where
  "hex_byte b = [hex_digit (unat b div 16), hex_digit (unat b mod 16)]"

definition hex_bytes :: "u8 list \<Rightarrow> string" where
  "hex_bytes bytes = concat (map hex_byte bytes)"

text \<open>The encodings \<open>String::from_utf8\<close> accepts.\<close>

definition cont_byte :: "u8 \<Rightarrow> bool" where
  "cont_byte b \<longleftrightarrow> 0x80 \<le> b \<and> b \<le> 0xBF"

fun utf8_valid :: "u8 list \<Rightarrow> bool" where
  "utf8_valid [] = True"
| "utf8_valid (b0 # bs) =
     (if b0 < 0x80 then utf8_valid bs
      else if 0xC2 \<le> b0 \<and> b0 \<le> 0xDF then
        (case bs of b1 # r \<Rightarrow> cont_byte b1 \<and> utf8_valid r | _ \<Rightarrow> False)
      else if 0xE0 \<le> b0 \<and> b0 \<le> 0xEF then
        (case bs of
           b1 # b2 # r \<Rightarrow>
             cont_byte b1 \<and> (b0 = 0xE0 \<longrightarrow> 0xA0 \<le> b1) \<and> (b0 = 0xED \<longrightarrow> b1 \<le> 0x9F) \<and> cont_byte b2 \<and> utf8_valid r
         | _ \<Rightarrow> False)
      else if 0xF0 \<le> b0 \<and> b0 \<le> 0xF4 then
        (case bs of
           b1 # b2 # b3 # r \<Rightarrow>
             cont_byte b1 \<and> (b0 = 0xF0 \<longrightarrow> 0x90 \<le> b1) \<and> (b0 = 0xF4 \<longrightarrow> b1 \<le> 0x8F) \<and> cont_byte b2 \<and> cont_byte b3 \<and>
             utf8_valid r
         | _ \<Rightarrow> False)
      else False)"

section \<open>Parameters\<close>

record val_ops =
  is_object :: "u64 \<Rightarrow> bool"
  get_tag :: "u64 \<Rightarrow> u8"
  get_handle :: "u64 \<Rightarrow> u32"
  from_handle_and_tag :: "u32 \<Rightarrow> u8 \<Rightarrow> u64"
  tag_u32 :: u8
  void_val :: u64
  is_map :: "u64 \<Rightarrow> bool"
  is_vec :: "u64 \<Rightarrow> bool"
  is_i128 :: "u64 \<Rightarrow> bool"
  is_address :: "u64 \<Rightarrow> bool"

datatype storage_type = Temporary | Persistent | Instance

record ('h, 'sc) host_ops =
  h_string_new :: "u8 list \<Rightarrow> ('h, string, u64) es"
  h_symbol_new :: "u8 list \<Rightarrow> ('h, string, u64) es"
  h_vec_new :: "u64 list \<Rightarrow> ('h, string, u64) es"
  h_map_new :: "u8 list list \<Rightarrow> u64 list \<Rightarrow> ('h, string, u64) es"
  h_map_unpack :: "u64 \<Rightarrow> u8 list list \<Rightarrow> u64 list \<Rightarrow> ('h, string, u64 list) es"
  h_has_data :: "u64 \<Rightarrow> storage_type \<Rightarrow> ('h, string, u64) es"
  h_get_data :: "u64 \<Rightarrow> storage_type \<Rightarrow> ('h, string, u64) es"
  h_put_data :: "u64 \<Rightarrow> u64 \<Rightarrow> storage_type \<Rightarrow> ('h, string, u64) es"
  h_extend_ttl :: "u64 \<Rightarrow> storage_type \<Rightarrow> u32 \<Rightarrow> u32 \<Rightarrow> ('h, string, u64) es"
  h_extend_instance :: "u32 \<Rightarrow> u32 \<Rightarrow> ('h, string, u64) es"
  h_event :: "u64 \<Rightarrow> u64 \<Rightarrow> ('h, string, u64) es"
  h_ledger :: "('h, string, u64) es"
  h_from_i128 :: "u64 \<Rightarrow> u64 \<Rightarrow> ('h, string, u64) es"
  h_i128_lo :: "u64 \<Rightarrow> ('h, string, u64) es"
  h_i128_hi :: "u64 \<Rightarrow> ('h, string, u64) es"
  h_require_auth :: "u64 \<Rightarrow> ('h, string, u64) es"
  h_to_scval :: "u64 \<Rightarrow> ('h, string, 'sc) es"
  h_bytes_new :: "u8 list \<Rightarrow> ('h, string, u64) es"
  h_sha256 :: "u64 \<Rightarrow> ('h, string, u64) es"
  h_bytes_copy :: "u64 \<Rightarrow> u32 \<Rightarrow> nat \<Rightarrow> ('h, string, u8 list) es"
  sc_debug :: "'sc \<Rightarrow> string"
  sc_xdr :: "'sc \<Rightarrow> string + u8 list"

section \<open>State\<close>

text \<open>
  \<open>DErr\<close> is the message of an \<open>Err\<close>; two messages that print a foreign value keep the value.
  Reading or writing outside the allocation behind \<open>mem\<close> would be undefined behaviour.
\<close>

datatype derr = DErr string | DTag u8 | DUtf8 "u8 list" | DPanic string | DUndefined string

record mailbox =
  mb_fn_id :: u32
  mb_n_args :: u16
  mb_n_results :: u16
  mb_args :: "u64 list"
  mb_results :: "u64 list"

record host_call_trace =
  tr_seq :: u32
  tr_fn_id :: u32
  tr_name :: string
  tr_n_args :: u16
  tr_raw_args :: "u64 list"
  tr_raw_result :: u64
  tr_arg0_scval :: "string option"
  tr_arg0_xdr_hex :: "string option"
  tr_arg0_sha256_hex :: "string option"
  tr_arg1_scval :: "string option"
  tr_arg1_xdr_hex :: "string option"
  tr_result_scval :: "string option"
  tr_result_xdr_hex :: "string option"
  tr_vec_elem_raw :: "u64 list option"

record 'h dispatch_ctx =
  dc_host :: 'h
  dc_mem :: "u8 list"
  dc_mem_size :: u32
  dc_relative :: "u64 list"
  dc_calls :: "(string \<times> u16) list"
  dc_traces :: "host_call_trace list"

section \<open>Guest memory\<close>

text \<open>\<open>n\<close> bytes behind \<open>mem.add(off)\<close>\<close>

definition raw_read :: "u8 list \<Rightarrow> nat \<Rightarrow> nat \<Rightarrow> derr + u8 list" where
  "raw_read mem off n =
     (if off + n \<le> length mem then Inr (take n (drop off mem)) else Inl (DUndefined ''read outside the allocation''))"

definition raw_write :: "u8 list \<Rightarrow> nat \<Rightarrow> u8 list \<Rightarrow> derr + u8 list" where
  "raw_write mem off bs =
     (if off + length bs \<le> length mem then Inr (take off mem @ bs @ drop (off + length bs) mem)
      else Inl (DUndefined ''write outside the allocation''))"

definition read_bytes :: "'h dispatch_ctx \<Rightarrow> u32 \<Rightarrow> u32 \<Rightarrow> derr + u8 list" where
  "read_bytes c pos len =
     (if unat pos + unat len > unat (dc_mem_size c) then Inl (DErr ''guest memory oob'')
      else raw_read (dc_mem c) (unat pos) (unat len))"

fun collectR :: "('a \<Rightarrow> 'e + 'b) \<Rightarrow> 'a list \<Rightarrow> 'e + 'b list" where
  "collectR f [] = Inr []"
| "collectR f (x # xs) = rbind (f x) (\<lambda>y. rbind (collectR f xs) (\<lambda>ys. Inr (y # ys)))"

definition read_slice_descriptors :: "'h dispatch_ctx \<Rightarrow> u32 \<Rightarrow> u32 \<Rightarrow> derr + (u32 \<times> u32) list" where
  "read_slice_descriptors c pos len =
     (if unat pos + unat len * 8 > unat (dc_mem_size c) then Inl (DErr ''guest slice descriptor oob'')
      else collectR (\<lambda>i. rbind (raw_read (dc_mem c) (unat pos + i * 8) 8)
             (\<lambda>buf. Inr (from_le (take 4 buf), from_le (drop 4 buf)))) [0..<unat len])"

definition read_symbol_keys :: "'h dispatch_ctx \<Rightarrow> u32 \<Rightarrow> u32 \<Rightarrow> derr + u8 list list" where
  "read_symbol_keys c pos len =
     rbind (read_slice_descriptors c pos len) (\<lambda>ds.
       collectR (\<lambda>(ptr, slen). rbind (read_bytes c ptr slen)
         (\<lambda>bytes. if utf8_valid bytes then Inr bytes else Inl (DUtf8 bytes))) ds)"

definition read_vals_raw :: "'h dispatch_ctx \<Rightarrow> u32 \<Rightarrow> u32 \<Rightarrow> derr + u64 list" where
  "read_vals_raw c pos len =
     (if unat pos + unat len * 8 > unat (dc_mem_size c) then Inl (DErr ''guest val slice oob'')
      else collectR (\<lambda>i. rbind (raw_read (dc_mem c) (unat pos + i * 8) 8) (\<lambda>buf. Inr (from_le buf))) [0..<unat len])"

section \<open>Handles\<close>

definition is_relative_handle :: "u32 \<Rightarrow> bool" where
  "is_relative_handle handle \<longleftrightarrow> handle AND 1 = 0"

definition handle_to_index :: "u32 \<Rightarrow> nat" where
  "handle_to_index handle = unat handle div 2"

text \<open>\<open>checked_shl\<close> checks the shift distance only.\<close>

definition checked_shl :: "u32 \<Rightarrow> nat \<Rightarrow> u32 option" where
  "checked_shl x n = (if n < 32 then Some (push_bit n x) else None)"

definition index_to_relative_handle :: "nat \<Rightarrow> derr + u32" where
  "index_to_relative_handle index =
     (if int index \<ge> 2 ^ 32 then Inl (DErr ''relative object index overflow'')
      else case checked_shl (of_nat index) 1 of
        None \<Rightarrow> Inl (DErr ''relative object handle overflow'') | Some h \<Rightarrow> Inr h)"

definition to_relative :: "val_ops \<Rightarrow> u64 \<Rightarrow> ('h dispatch_ctx, derr, u64) es" where
  "to_relative V val c =
     (if \<not> is_object V val then (Inr val, c)
      else
        let tag = get_tag V val; index = length (dc_relative c); c' = c\<lparr>dc_relative := dc_relative c @ [val]\<rparr> in
        (rbind (index_to_relative_handle index) (\<lambda>handle. Inr (from_handle_and_tag V handle tag)), c'))"

definition to_absolute :: "val_ops \<Rightarrow> 'h dispatch_ctx \<Rightarrow> u64 \<Rightarrow> derr + u64" where
  "to_absolute V c val =
     (if is_object V val \<and> is_relative_handle (get_handle V val) then
        let index = handle_to_index (get_handle V val) in
        if index < length (dc_relative c) then
          let a = dc_relative c ! index in
          if get_tag V a \<noteq> get_tag V val then Inl (DErr ''relative object tag mismatch'') else Inr a
        else Inl (DErr (''relative object index '' @ dec index @ '' out of range''))
      else Inr val)"

definition read_vals :: "val_ops \<Rightarrow> 'h dispatch_ctx \<Rightarrow> u32 \<Rightarrow> u32 \<Rightarrow> derr + u64 list" where
  "read_vals V c pos len =
     (if unat pos + unat len * 8 > unat (dc_mem_size c) then Inl (DErr ''guest val slice oob'')
      else collectR (\<lambda>i. rbind (raw_read (dc_mem c) (unat pos + i * 8) 8) (\<lambda>buf. to_absolute V c (from_le buf)))
             [0..<unat len])"

definition write_val :: "val_ops \<Rightarrow> u32 \<Rightarrow> nat \<times> u64 \<Rightarrow> ('h dispatch_ctx, derr, unit) es" where
  "write_val V pos r =
     bindS (to_relative V (snd r)) (\<lambda>rel. bindS (getS dc_mem) (\<lambda>mem.
       bindS (liftS (raw_write mem (unat pos + fst r * 8) (to_le 8 rel))) (\<lambda>mem'. modifyS (\<lambda>c. c\<lparr>dc_mem := mem'\<rparr>))))"

definition write_vals :: "val_ops \<Rightarrow> u32 \<Rightarrow> u64 list \<Rightarrow> ('h dispatch_ctx, derr, unit) es" where
  "write_vals V pos vals =
     bindS (getS dc_mem_size) (\<lambda>mem_size.
       if unat pos + length vals * 8 > unat mem_size then fail (DErr ''guest val write oob'')
       else forS (enumerate 0 vals) (write_val V pos))"

section \<open>Arguments and results\<close>

definition decode_u32 :: "val_ops \<Rightarrow> u64 \<Rightarrow> derr + u32" where
  "decode_u32 V raw =
     (if get_tag V raw \<noteq> tag_u32 V then Inl (DTag (get_tag V raw))
      else let body = drop_bit 8 raw; minor_mask = push_bit 24 1 - 1 in
        Inr (ucast (drop_bit 24 (body AND NOT minor_mask))))"

definition decode_val :: "val_ops \<Rightarrow> 'h dispatch_ctx \<Rightarrow> u64 \<Rightarrow> derr + u64" where
  "decode_val V c raw = to_absolute V c raw"

definition decode_storage_type :: "u64 \<Rightarrow> derr + storage_type" where
  "decode_storage_type raw =
     (if raw = 0 then Inr Temporary else if raw = 1 then Inr Persistent else if raw = 2 then Inr Instance
      else Inl (DErr (''bad StorageType '' @ dec (unat raw))))"

text \<open>The handler works on the context and the mailbox.\<close>

type_synonym ('h, 'a) dispatcher = "('h dispatch_ctx \<times> mailbox, derr, 'a) es"

definition on_ctx :: "('h dispatch_ctx, derr, 'a) es \<Rightarrow> ('h, 'a) dispatcher" where
  "on_ctx m s = (case m (fst s) of (r, c) \<Rightarrow> (r, (c, snd s)))"

definition set_result :: "u64 \<Rightarrow> ('h, unit) dispatcher" where
  "set_result raw = modifyS (\<lambda>(c, mb). (c, mb\<lparr>mb_n_results := 1, mb_results := (mb_results mb)[0 := raw]\<rparr>))"

definition finish_call :: "val_ops \<Rightarrow> u64 option \<Rightarrow> ('h, unit) dispatcher" where
  "finish_call V res =
     (case res of
        None \<Rightarrow> set_result (void_val V)
      | Some v \<Rightarrow> bindS (if is_object V v then on_ctx (to_relative V v) else ret v) set_result)"

definition finish_raw :: "u64 \<Rightarrow> ('h, unit) dispatcher" where
  "finish_raw raw = set_result raw"

section \<open>Traces\<close>

text \<open>A call of the host: its error is prefixed with the name of the call.\<close>

definition host_do :: "string \<Rightarrow> ('h, string, 'a) es \<Rightarrow> ('h dispatch_ctx, derr, 'a) es" where
  "host_do what m c =
     (case m (dc_host c) of
        (Inl e, h) \<Rightarrow> (Inl (DErr (what @ '': '' @ e)), c\<lparr>dc_host := h\<rparr>)
      | (Inr x, h) \<Rightarrow> (Inr x, c\<lparr>dc_host := h\<rparr>))"

text \<open>A read of the context that may fail.\<close>

definition reading :: "('h dispatch_ctx \<Rightarrow> derr + 'a) \<Rightarrow> ('h dispatch_ctx, derr, 'a) es" where
  "reading f c = (f c, c)"

text \<open>\<open>r.ok()\<close>: the error is dropped, its effects are not.\<close>

definition ok_of :: "('s, 'e, 'a) es \<Rightarrow> ('s, 'e, 'a option) es" where
  "ok_of m s = (case m s of (Inl _, t) \<Rightarrow> (Inr None, t) | (Inr x, t) \<Rightarrow> (Inr (Some x), t))"

definition host_sha256 :: "('h, 'sc) host_ops \<Rightarrow> u8 list \<Rightarrow> ('h dispatch_ctx, derr, u8 list) es" where
  "host_sha256 H bytes =
     bindS (host_do ''bytes_new_from_slice'' (h_bytes_new H bytes)) (\<lambda>obj.
     bindS (host_do ''compute_hash_sha256'' (h_sha256 H obj)) (\<lambda>hash_obj.
       host_do ''bytes_copy_to_slice'' (h_bytes_copy H hash_obj 0 32)))"

definition describe_val ::
  "val_ops \<Rightarrow> ('h, 'sc) host_ops \<Rightarrow> u64 \<Rightarrow> ('h dispatch_ctx, derr, string option \<times> string option \<times> string option) es" where
  "describe_val V H raw =
     bindS (getS (\<lambda>c. decode_val V c raw)) (\<lambda>d.
       case d of
         Inl _ \<Rightarrow> ret (None, None, None)
       | Inr a \<Rightarrow>
           bindS (ok_of (host_do ''ScVal convert'' (h_to_scval H a))) (\<lambda>sc.
             case sc of
               None \<Rightarrow> ret (Some (''payload=0x'' @ hex_bytes (rev (to_le 8 raw))), None, None)
             | Some sc \<Rightarrow>
                 (case sc_xdr H sc of
                    Inl _ \<Rightarrow> ret (Some (sc_debug H sc), None, None)
                  | Inr bytes \<Rightarrow>
                      bindS (ok_of (host_sha256 H bytes)) (\<lambda>sha.
                        ret (Some (sc_debug H sc), Some (hex_bytes bytes), map_option hex_bytes sha)))))"

definition trace_new :: "mailbox \<Rightarrow> string \<Rightarrow> 'h dispatch_ctx \<Rightarrow> host_call_trace" where
  "trace_new mb name c =
     \<lparr>tr_seq = of_nat (length (dc_traces c)), tr_fn_id = mb_fn_id mb, tr_name = name, tr_n_args = mb_n_args mb,
      tr_raw_args = take (unat (mb_n_args mb)) (mb_args mb), tr_raw_result = mb_results mb ! 0,
      tr_arg0_scval = None, tr_arg0_xdr_hex = None, tr_arg0_sha256_hex = None, tr_arg1_scval = None,
      tr_arg1_xdr_hex = None, tr_result_scval = None, tr_result_xdr_hex = None, tr_vec_elem_raw = None\<rparr>"

text \<open>The \<open>match\<close> on the name, and the extra step for \<open>get_contract_data\<close>.\<close>

definition trace_details ::
  "val_ops \<Rightarrow> ('h, 'sc) host_ops \<Rightarrow> mailbox \<Rightarrow> string \<Rightarrow> host_call_trace \<Rightarrow> ('h dispatch_ctx, derr, host_call_trace) es" where
  "trace_details V H mb name t =
     (if name \<in> {''has_contract_data'', ''get_contract_data'', ''extend_contract_data_ttl''} then
        bindS (describe_val V H (mb_args mb ! 0)) (\<lambda>(d, x, h).
          ret (t\<lparr>tr_arg0_scval := d, tr_arg0_xdr_hex := x, tr_arg0_sha256_hex := h\<rparr>))
      else if name = ''put_contract_data'' then
        bindS (describe_val V H (mb_args mb ! 0)) (\<lambda>(d0, x0, h0).
        bindS (describe_val V H (mb_args mb ! 1)) (\<lambda>(d1, x1, _).
          ret (t\<lparr>tr_arg0_scval := d0, tr_arg0_xdr_hex := x0, tr_arg0_sha256_hex := h0, tr_arg1_scval := d1,
                 tr_arg1_xdr_hex := x1\<rparr>)))
      else if name = ''vec_new_from_linear_memory'' then
        bindS (reading (\<lambda>c.
          case (decode_u32 V (mb_args mb ! 0), decode_u32 V (mb_args mb ! 1)) of
            (Inr pos, Inr len) \<Rightarrow>
              (case read_vals_raw c pos len of
                 Inr vals \<Rightarrow> Inr (t\<lparr>tr_vec_elem_raw := Some vals\<rparr>)
               | Inl (DUndefined e) \<Rightarrow> Inl (DUndefined e)
               | Inl _ \<Rightarrow> Inr t)
          | _ \<Rightarrow> Inr t)) (\<lambda>t.
        bindS (describe_val V H (mb_results mb ! 0)) (\<lambda>(d, x, h).
          ret (t\<lparr>tr_result_scval := d, tr_result_xdr_hex := x, tr_arg0_sha256_hex := h\<rparr>)))
      else if name \<in> {''obj_from_i128_pieces'', ''string_new_from_linear_memory''} then
        bindS (describe_val V H (mb_results mb ! 0)) (\<lambda>(d, x, _). ret (t\<lparr>tr_result_scval := d, tr_result_xdr_hex := x\<rparr>))
      else ret t)"

definition record_trace :: "val_ops \<Rightarrow> ('h, 'sc) host_ops \<Rightarrow> mailbox \<Rightarrow> string \<Rightarrow> ('h dispatch_ctx, derr, unit) es" where
  "record_trace V H mb name =
     (if unat (mb_n_args mb) > length (mb_args mb) then fail (DPanic ''range end index out of range'')
      else
        bindS (getS (trace_new mb name)) (\<lambda>t0.
        bindS (trace_details V H mb name t0) (\<lambda>t.
        bindS (if name = ''get_contract_data'' then
                 bindS (describe_val V H (mb_results mb ! 0)) (\<lambda>(d, x, _).
                   ret (t\<lparr>tr_result_scval := d, tr_result_xdr_hex := x\<rparr>))
               else ret t) (\<lambda>t.
          modifyS (\<lambda>c. c\<lparr>dc_traces := dc_traces c @ [t]\<rparr>)))))"

section \<open>The handler\<close>

definition arg_u32 :: "val_ops \<Rightarrow> mailbox \<Rightarrow> nat \<Rightarrow> ('h dispatch_ctx, derr, u32) es" where
  "arg_u32 V mb i = liftS (decode_u32 V (mb_args mb ! i))"

definition arg_val :: "val_ops \<Rightarrow> mailbox \<Rightarrow> nat \<Rightarrow> ('h dispatch_ctx, derr, u64) es" where
  "arg_val V mb i c = (decode_val V c (mb_args mb ! i), c)"

definition arg_storage :: "mailbox \<Rightarrow> nat \<Rightarrow> ('h dispatch_ctx, derr, storage_type) es" where
  "arg_storage mb i = liftS (decode_storage_type (mb_args mb ! i))"

text \<open>\<open>v.try_into().map_err(|_| msg)\<close>\<close>

definition as_object :: "bool \<Rightarrow> string \<Rightarrow> ('h dispatch_ctx, derr, unit) es" where
  "as_object b msg = (if b then ret () else fail (DErr msg))"

text \<open>How an arm of the \<open>match\<close> ends: with a result to finish, with a raw result, or early without a trace.\<close>

datatype outcome = Value "u64 option" | Raw u64 | Untraced

text \<open>The arms that call the host with slices of guest memory.\<close>

definition memory_call :: "val_ops \<Rightarrow> ('h, 'sc) host_ops \<Rightarrow> mailbox \<Rightarrow> string \<Rightarrow> ('h dispatch_ctx, derr, outcome) es" where
  "memory_call V H mb name =
     (if name = ''string_new_from_linear_memory'' then
        bindS (arg_u32 V mb 0) (\<lambda>pos. bindS (arg_u32 V mb 1) (\<lambda>len.
        bindS (reading (\<lambda>c. read_bytes c pos len)) (\<lambda>bytes.
        bindS (host_do ''string_new_from_slice'' (h_string_new H bytes)) (\<lambda>v. ret (Value (Some v))))))
      else if name = ''symbol_new_from_linear_memory'' then
        bindS (arg_u32 V mb 0) (\<lambda>pos. bindS (arg_u32 V mb 1) (\<lambda>len.
        bindS (reading (\<lambda>c. read_bytes c pos len)) (\<lambda>bytes.
        bindS (host_do ''symbol_new_from_slice'' (h_symbol_new H bytes)) (\<lambda>v. ret (Value (Some v))))))
      else if name = ''vec_new_from_linear_memory'' then
        bindS (arg_u32 V mb 0) (\<lambda>pos. bindS (arg_u32 V mb 1) (\<lambda>len.
        bindS (reading (\<lambda>c. read_vals V c pos len)) (\<lambda>vals.
        bindS (host_do ''vec_new_from_slice'' (h_vec_new H vals)) (\<lambda>v. ret (Value (Some v))))))
      else if name = ''map_new_from_linear_memory'' then
        bindS (arg_u32 V mb 0) (\<lambda>keys_pos. bindS (arg_u32 V mb 1) (\<lambda>vals_pos. bindS (arg_u32 V mb 2) (\<lambda>len.
        bindS (reading (\<lambda>c. read_symbol_keys c keys_pos len)) (\<lambda>keys.
        bindS (reading (\<lambda>c. read_vals V c vals_pos len)) (\<lambda>vals.
        bindS (host_do ''map_new_from_slices'' (h_map_new H keys vals)) (\<lambda>v. ret (Value (Some v))))))))
      else
        bindS (arg_val V mb 0) (\<lambda>map. thenS (as_object (is_map V map) ''map_unpack: arg0 not MapObject'') (
        bindS (arg_u32 V mb 1) (\<lambda>keys_pos. bindS (arg_u32 V mb 2) (\<lambda>vals_pos. bindS (arg_u32 V mb 3) (\<lambda>len.
        bindS (reading (\<lambda>c. read_symbol_keys c keys_pos len)) (\<lambda>keys.
        bindS (host_do ''map_unpack_to_slice'' (h_map_unpack H map keys (replicate (unat len) (void_val V)))) (\<lambda>vals.
        thenS (write_vals V vals_pos vals) (ret Untraced)))))))))"

definition memory_calls :: "string list" where
  "memory_calls =
     [''string_new_from_linear_memory'', ''symbol_new_from_linear_memory'', ''vec_new_from_linear_memory'',
      ''map_new_from_linear_memory'', ''map_unpack_to_linear_memory'']"

text \<open>The other arms; the last one is the fallback.\<close>

definition plain_call ::
  "env_root \<Rightarrow> val_ops \<Rightarrow> ('h, 'sc) host_ops \<Rightarrow> mailbox \<Rightarrow> string \<Rightarrow> ('h dispatch_ctx, derr, outcome) es" where
  "plain_call root V H mb name =
     (if name = ''has_contract_data'' then
        bindS (arg_val V mb 0) (\<lambda>k. bindS (arg_storage mb 1) (\<lambda>t.
        bindS (host_do name (h_has_data H k t)) (\<lambda>v. ret (Value (Some v)))))
      else if name = ''get_contract_data'' then
        bindS (arg_val V mb 0) (\<lambda>k. bindS (arg_storage mb 1) (\<lambda>t.
        bindS (host_do name (h_get_data H k t)) (\<lambda>v. ret (Value (Some v)))))
      else if name = ''put_contract_data'' then
        bindS (arg_val V mb 0) (\<lambda>k. bindS (arg_val V mb 1) (\<lambda>v. bindS (arg_storage mb 2) (\<lambda>t.
        thenS (host_do name (h_put_data H k v t)) (ret (Value None)))))
      else if name = ''extend_contract_data_ttl'' then
        bindS (arg_val V mb 0) (\<lambda>k. bindS (arg_storage mb 1) (\<lambda>t.
        bindS (arg_u32 V mb 2) (\<lambda>threshold. bindS (arg_u32 V mb 3) (\<lambda>extend_to.
        thenS (host_do name (h_extend_ttl H k t threshold extend_to)) (ret (Value None))))))
      else if name = ''extend_current_contract_instance_and_code_ttl'' then
        bindS (arg_u32 V mb 0) (\<lambda>threshold. bindS (arg_u32 V mb 1) (\<lambda>extend_to.
        thenS (host_do name (h_extend_instance H threshold extend_to)) (ret (Value None))))
      else if name = ''contract_event'' then
        bindS (arg_val V mb 0) (\<lambda>topics. thenS (as_object (is_vec V topics) ''contract_event: topics not VecObject'') (
        bindS (arg_val V mb 1) (\<lambda>data.
        thenS (host_do name (h_event H topics data)) (ret (Value None)))))
      else if name = ''get_ledger_sequence'' then
        bindS (host_do name (h_ledger H)) (\<lambda>v. ret (Value (Some v)))
      else if name = ''obj_from_i128_pieces'' then
        bindS (host_do name (h_from_i128 H (mb_args mb ! 0) (mb_args mb ! 1))) (\<lambda>v. ret (Value (Some v)))
      else if name = ''obj_to_i128_lo64'' then
        bindS (arg_val V mb 0) (\<lambda>obj. thenS (as_object (is_i128 V obj) ''not I128Object'') (
        bindS (host_do name (h_i128_lo H obj)) (\<lambda>lo. ret (Raw lo))))
      else if name = ''obj_to_i128_hi64'' then
        bindS (arg_val V mb 0) (\<lambda>obj. thenS (as_object (is_i128 V obj) ''not I128Object'') (
        bindS (host_do name (h_i128_hi H obj)) (\<lambda>hi. ret (Raw hi))))
      else if name = ''require_auth'' then
        bindS (arg_val V mb 0) (\<lambda>addr. thenS (as_object (is_address V addr) ''require_auth: not AddressObject'') (
        thenS (host_do name (h_require_auth H addr)) (ret (Value None))))
      else
        fail (DErr (''unimplemented host function '' @ (case import_key root (mb_fn_id mb) of None \<Rightarrow> ''?'' | Some k \<Rightarrow> k) @
          '' ('' @ name @ '')'')))"

text \<open>The trace sees the mailbox after the result was stored.\<close>

definition trace_call :: "val_ops \<Rightarrow> ('h, 'sc) host_ops \<Rightarrow> string \<Rightarrow> ('h, unit) dispatcher" where
  "trace_call V H name = bindS (getS snd) (\<lambda>mb. on_ctx (record_trace V H mb name))"

definition dispatch :: "env_root \<Rightarrow> val_ops \<Rightarrow> ('h, 'sc) host_ops \<Rightarrow> ('h, unit) dispatcher" where
  "dispatch root V H =
     bindS (getS snd) (\<lambda>mb.
     let name = (case fn_name root (mb_fn_id mb) of None \<Rightarrow> ''?'' | Some n \<Rightarrow> n) in
     thenS (on_ctx (modifyS (\<lambda>c. c\<lparr>dc_calls := dc_calls c @ [(name, mb_n_args mb)]\<rparr>))) (
     bindS (on_ctx (if name \<in> set memory_calls then memory_call V H mb name else plain_call root V H mb name)) (\<lambda>r.
       case r of
         Value res \<Rightarrow> thenS (finish_call V res) (trace_call V H name)
       | Raw raw \<Rightarrow> thenS (finish_raw raw) (trace_call V H name)
       | Untraced \<Rightarrow> finish_call V None)))"

text \<open>
  The entry point for C: \<open>None\<close> for a null pointer. The error text goes to the buffer \<open>err\<close> of
  \<open>err_cap\<close> bytes, cut to fit and terminated by NUL. A panic does not return.
\<close>

definition put_error :: "u8 list \<Rightarrow> u8 list option \<Rightarrow> nat \<Rightarrow> u8 list option" where
  "put_error bytes err err_cap =
     (case err of
        None \<Rightarrow> None
      | Some buf \<Rightarrow>
          if err_cap > 0 then
            let n = min (length bytes) (err_cap - 1) in Some (take n bytes @ [0] @ drop (n + 1) buf)
          else Some buf)"

definition host_dispatch ::
  "env_root \<Rightarrow> val_ops \<Rightarrow> ('h, 'sc) host_ops \<Rightarrow> (derr \<Rightarrow> u8 list) \<Rightarrow> 'h dispatch_ctx option \<Rightarrow> mailbox option
     \<Rightarrow> u8 list option \<Rightarrow> nat \<Rightarrow> derr + (int \<times> 'h dispatch_ctx option \<times> mailbox option \<times> u8 list option)" where
  "host_dispatch root V H render ctx mb err err_cap =
     (case (ctx, mb) of
        (Some c, Some b) \<Rightarrow>
          (case dispatch root V H (c, b) of
             (Inr _, (c', b')) \<Rightarrow> Inr (1, Some c', Some b', err)
           | (Inl (DPanic e), _) \<Rightarrow> Inl (DPanic e)
           | (Inl (DUndefined e), _) \<Rightarrow> Inl (DUndefined e)
           | (Inl e, (c', b')) \<Rightarrow> Inr (0, Some c', Some b', put_error (render e) err err_cap))
      | _ \<Rightarrow> Inr (0, ctx, mb, err))"

end
