(* ===== verification/Dispatch_Safe.thy ===== *)
theory Dispatch_Safe
  imports Dispatch
begin

text \<open>
  What the dispatcher guarantees: relative handles resolve to the values they stand for and stay
  valid, values written to guest memory read back, and no host call touches memory beyond the
  guest's. The table of handles is a locale, interpreted on \<open>to_relative\<close> and \<open>to_absolute\<close>.
\<close>

unbundle bit_operations_syntax

section \<open>Little-endian bytes\<close>

lemma length_to_le [simp]: "length (to_le n x) = n"
  by (induction n arbitrary: x) simp_all

lemma from_le_to_le: "from_le (to_le n x) = take_bit (8 * n) (x :: 'a :: len word)"
proof (induction n arbitrary: x)
  case (Suc n)
  show ?case
  proof (rule bit_word_eqI)
    fix k assume "k < LENGTH('a)"
    then show "bit (from_le (to_le (Suc n) x) :: 'a word) k = bit (take_bit (8 * Suc n) x) k"
      by (auto simp: Suc bit_or_iff bit_push_bit_iff bit_take_bit_iff bit_drop_bit_eq bit_unsigned_iff bit_ucast_iff)
  qed
qed simp

lemma from_to_le_u64 [simp]: "from_le (to_le 8 x) = (x :: u64)"
proof -
  have "take_bit 64 x = x" by (rule bit_word_eqI) (simp add: bit_take_bit_iff)
  then show ?thesis by (simp add: from_le_to_le)
qed

section \<open>Tables of handles\<close>

text \<open>
  \<open>give\<close> hands out a handle for a value, \<open>lookup\<close> resolves it. With room for it, a value is always
  handed out, its handle resolves to it, and it keeps doing so while the table grows.
\<close>

locale handle_table =
  fixes give :: "'v \<Rightarrow> ('s, 'e, 'v) es"
    and resolve :: "'s \<Rightarrow> 'v \<Rightarrow> 'e + 'v"
    and grows :: "'s \<Rightarrow> 's \<Rightarrow> bool"
    and room :: "nat \<Rightarrow> 's \<Rightarrow> bool"
  assumes grows_refl: "grows s s"
    and grows_trans: "grows s t \<Longrightarrow> grows t u \<Longrightarrow> grows s u"
    and give_grows: "give v s = (r, t) \<Longrightarrow> grows s t"
    and give_room: "room (Suc n) s \<Longrightarrow> \<exists>w t. give v s = (Inr w, t) \<and> room n t"
    and give_resolve: "room (Suc n) s \<Longrightarrow> give v s = (Inr w, t) \<Longrightarrow> resolve t w = Inr v"
    and resolve_grows: "resolve s w = Inr v \<Longrightarrow> grows s t \<Longrightarrow> resolve t w = Inr v"
begin

fun give_all :: "'v list \<Rightarrow> ('s, 'e, 'v list) es" where
  "give_all [] = ret []"
| "give_all (v # vs) = bindS (give v) (\<lambda>w. bindS (give_all vs) (\<lambda>ws. ret (w # ws)))"

lemma give_all_resolves:
  assumes "room (length vs) s"
  shows "\<exists>ws t. give_all vs s = (Inr ws, t) \<and> grows s t \<and> list_all2 (\<lambda>w v. resolve t w = Inr v) ws vs"
  using assms
proof (induction vs arbitrary: s)
  case Nil
  then show ?case by (simp add: grows_refl)
next
  case (Cons v vs)
  then have r: "room (Suc (length vs)) s" by simp
  obtain w t where w: "give v s = (Inr w, t)" "room (length vs) t" using give_room [OF r] by blast
  obtain ws u where ws: "give_all vs t = (Inr ws, u)" "grows t u" "list_all2 (\<lambda>w v. resolve u w = Inr v) ws vs"
    using Cons.IH [OF w(2)] by blast
  have "resolve u w = Inr v" using resolve_grows [OF give_resolve [OF r w(1)] ws(2)] .
  moreover have "grows s u" using grows_trans [OF give_grows [OF w(1)] ws(2)] .
  ultimately show ?case using w(1) ws by simp
qed

end

text \<open>What the dispatcher relies on of the encoding: a handle and a tag are stored and found again.\<close>

definition val_laws :: "val_ops \<Rightarrow> bool" where
  "val_laws V \<longleftrightarrow>
     (\<forall>x h. is_object V x \<longrightarrow>
        is_object V (from_handle_and_tag V h (get_tag V x)) \<and>
        get_tag V (from_handle_and_tag V h (get_tag V x)) = get_tag V x \<and>
        get_handle V (from_handle_and_tag V h (get_tag V x)) = h)"

definition relative_grows :: "'h dispatch_ctx \<Rightarrow> 'h dispatch_ctx \<Rightarrow> bool" where
  "relative_grows c d \<longleftrightarrow> (\<exists>ys. dc_relative d = dc_relative c @ ys)"

definition relative_room :: "nat \<Rightarrow> 'h dispatch_ctx \<Rightarrow> bool" where
  "relative_room n c \<longleftrightarrow> length (dc_relative c) + n \<le> 2 ^ 31"

lemma small_handle:
  assumes "i < 2 ^ 31"
  shows "index_to_relative_handle i = Inr (of_nat (2 * i))" and "handle_to_index (of_nat (2 * i)) = i"
    and "is_relative_handle (of_nat (2 * i))"
proof -
  have "push_bit 1 (of_nat i :: u32) = of_nat (2 * i)" by (simp add: push_bit_eq_mult)
  then show "index_to_relative_handle i = Inr (of_nat (2 * i))"
    using assms by (simp add: index_to_relative_handle_def checked_shl_def)
  have u: "unat (of_nat (2 * i) :: u32) = 2 * i" using assms by (subst unat_of_nat_u32) simp_all
  show "handle_to_index (of_nat (2 * i)) = i" unfolding handle_to_index_def u by simp
  have "even (of_nat (2 * i) :: u32)" by simp
  then have "of_nat (2 * i) AND (1 :: u32) = 0" by (simp only: and_one_eq even_iff_mod_2_eq_zero)
  then show "is_relative_handle (of_nat (2 * i))" unfolding is_relative_handle_def .
qed

lemma to_relative_run:
  assumes "relative_room (Suc n) c"
  shows "to_relative V v c =
    (if is_object V v then (Inr (from_handle_and_tag V (of_nat (2 * length (dc_relative c))) (get_tag V v)),
        c\<lparr>dc_relative := dc_relative c @ [v]\<rparr>) else (Inr v, c))"
  using assms small_handle(1) [of "length (dc_relative c)"]
  by (simp add: to_relative_def Let_def relative_room_def)

lemma give_resolves:
  assumes "val_laws V" and "relative_room (Suc n) c" and "to_relative V v c = (Inr w, d)"
  shows "to_absolute V d w = Inr v"
proof (cases "is_object V v")
  case True
  let ?h = "of_nat (2 * length (dc_relative c)) :: u32"
  have l: "is_object V (from_handle_and_tag V ?h (get_tag V v))" "get_tag V (from_handle_and_tag V ?h (get_tag V v)) = get_tag V v"
    "get_handle V (from_handle_and_tag V ?h (get_tag V v)) = ?h" using assms(1) True by (simp_all add: val_laws_def)
  have w: "w = from_handle_and_tag V ?h (get_tag V v)" and d: "d = c\<lparr>dc_relative := dc_relative c @ [v]\<rparr>"
    using assms(3) unfolding to_relative_run [OF assms(2)] by (simp_all add: True)
  have "length (dc_relative c) < 2 ^ 31" using assms(2) by (simp add: relative_room_def)
  from small_handle(2,3) [OF this] show ?thesis
    unfolding to_absolute_def w l by (simp add: l [simplified] d Let_def)
next
  case False
  then show ?thesis using assms(3) by (simp add: to_relative_def to_absolute_def)
qed

lemma resolves_later: "to_absolute V c w = Inr v \<Longrightarrow> relative_grows c d \<Longrightarrow> to_absolute V d w = Inr v"
  by (auto simp: to_absolute_def relative_grows_def Let_def nth_append split: if_splits)

lemma to_relative_grows: "to_relative V v c = (r, d) \<Longrightarrow> relative_grows c d"
  by (auto simp: to_relative_def relative_grows_def Let_def split: if_splits)

text \<open>
  The encoding as documented: the tag in the low byte, the handle in the upper half, object tags
  between 64 and 77. An encoding that does not meet the laws is replaced by this one, so that the
  interpretation needs no assumption.
\<close>

definition soroban_vals :: val_ops where
  "soroban_vals =
     \<lparr>is_object = (\<lambda>x. 64 \<le> (ucast x :: u8) \<and> (ucast x :: u8) < 78), get_tag = (\<lambda>x. ucast x),
      get_handle = (\<lambda>x. ucast (drop_bit 32 x)), from_handle_and_tag = (\<lambda>h t. push_bit 32 (ucast h) OR ucast t),
      tag_u32 = 4, void_val = 2, is_map = (\<lambda>x. (ucast x :: u8) = 76), is_vec = (\<lambda>x. (ucast x :: u8) = 75),
      is_i128 = (\<lambda>x. (ucast x :: u8) = 69), is_address = (\<lambda>x. (ucast x :: u8) = 77)\<rparr>"

lemma soroban_laws: "val_laws soroban_vals"
proof -
  have t: "ucast (push_bit 32 (ucast (h :: u32)) OR ucast (t :: u8) :: u64) = t" for h t
    by (rule bit_word_eqI) (auto simp: bit_ucast_iff bit_unsigned_iff bit_or_iff bit_push_bit_iff)
  have h: "ucast (drop_bit 32 (push_bit 32 (ucast (h :: u32)) OR ucast (t :: u8) :: u64)) = h" for h t
    by (rule bit_word_eqI) (auto simp: bit_ucast_iff bit_unsigned_iff bit_or_iff bit_push_bit_iff bit_drop_bit_eq
        dest: bit_imp_le_length)
  show ?thesis unfolding val_laws_def by (simp add: soroban_vals_def t h [simplified])
qed

definition lawful :: "val_ops \<Rightarrow> val_ops" where
  "lawful V = (if val_laws V then V else soroban_vals)"

lemma lawful_laws: "val_laws (lawful V)" and lawful_id: "val_laws V \<Longrightarrow> lawful V = V"
  using soroban_laws by (simp_all add: lawful_def)

interpretation handles: handle_table "to_relative (lawful V)" "to_absolute (lawful V)" relative_grows relative_room for V
proof
  show "relative_grows s s" for s :: "'a dispatch_ctx" by (simp add: relative_grows_def)
  show "relative_grows s u" if "relative_grows s t" "relative_grows t u" for s t u :: "'a dispatch_ctx"
    using that by (auto simp: relative_grows_def)
  show "relative_grows s t" if "to_relative (lawful V) v s = (r, t)" for v r and s t :: "'a dispatch_ctx"
    using that by (rule to_relative_grows)
  show "\<exists>w t. to_relative (lawful V) v s = (Inr w, t) \<and> relative_room n t" if "relative_room (Suc n) s"
    for n v and s :: "'a dispatch_ctx"
    using that by (simp add: to_relative_run [OF that]) (simp add: relative_room_def)
  show "to_absolute (lawful V) t w = Inr v" if "relative_room (Suc n) s" "to_relative (lawful V) v s = (Inr w, t)"
    for n v w and s t :: "'a dispatch_ctx" using give_resolves [OF lawful_laws that] .
  show "to_absolute (lawful V) t w = Inr v" if "to_absolute (lawful V) s w = Inr v" "relative_grows s t"
    for v w and s t :: "'a dispatch_ctx" using that by (rule resolves_later)
qed

section \<open>Values in guest memory\<close>

lemma raw_write_Inr:
  assumes "raw_write mem off bs = Inr mem'"
  shows "length mem' = length mem" and "off + length bs \<le> length mem"
    and "\<And>i. i < length mem \<Longrightarrow> mem' ! i = (if off \<le> i \<and> i < off + length bs then bs ! (i - off) else mem ! i)"
  using assms by (auto simp: raw_write_def nth_append min_def split: if_splits)

lemma raw_read_after:
  assumes "\<And>i. i < n \<Longrightarrow> mem ! (off + i) = bs ! i" and "length bs = n" and "off + n \<le> length mem"
  shows "raw_read mem off n = Inr bs"
  using assms by (auto simp: raw_read_def intro!: nth_equalityI)

lemma raw_read_frame:
  assumes "\<And>i. off \<le> i \<Longrightarrow> i < off + n \<Longrightarrow> mem' ! i = mem ! i" and "length mem' = length mem"
  shows "raw_read mem' off n = raw_read mem off n"
  using assms by (auto simp: raw_read_def intro!: nth_equalityI)

lemma write_val_step:
  assumes "relative_room (Suc n) c" and "val_laws V" and "off = unat pos + k * 8" and "off + 8 \<le> length (dc_mem c)"
  shows "\<exists>w d. write_val V pos (k, v) c = (Inr (), d) \<and> relative_room n d \<and> relative_grows c d \<and>
    to_absolute V d w = Inr v \<and> raw_read (dc_mem d) off 8 = Inr (to_le 8 w) \<and> length (dc_mem d) = length (dc_mem c) \<and>
    dc_mem_size d = dc_mem_size c \<and> (\<forall>i < length (dc_mem c). \<not> (off \<le> i \<and> i < off + 8) \<longrightarrow> dc_mem d ! i = dc_mem c ! i)"
proof -
  obtain w d where w: "to_relative V v c = (Inr w, d)" "relative_room n d"
    using handles.give_room [OF assms(1), of V v] lawful_id [OF assms(2)] by auto
  have same: "dc_mem d = dc_mem c" "dc_mem_size d = dc_mem_size c"
    using w(1) by (auto simp: to_relative_def Let_def split: if_splits)
  obtain mem' where mem': "raw_write (dc_mem d) off (to_le 8 w) = Inr mem'" using assms(4) same by (simp add: raw_write_def)
  note rw = raw_write_Inr [OF mem']
  have rd: "raw_read mem' off 8 = Inr (to_le 8 w)"
    by (rule raw_read_after) (use rw in auto)
  have "to_absolute V d w = Inr v" using give_resolves [OF assms(2,1) w(1)] .
  then have "to_absolute V (d\<lparr>dc_mem := mem'\<rparr>) w = Inr v"
    by (rule resolves_later) (simp add: relative_grows_def)
  moreover have "write_val V pos (k, v) c = (Inr (), d\<lparr>dc_mem := mem'\<rparr>)"
    using w(1) mem' by (simp add: write_val_def assms(3))
  moreover have "relative_grows c (d\<lparr>dc_mem := mem'\<rparr>)" "relative_room n (d\<lparr>dc_mem := mem'\<rparr>)"
    using to_relative_grows [OF w(1)] w(2) by (simp_all add: relative_grows_def relative_room_def)
  ultimately show ?thesis
    by (intro exI [of _ w] exI [of _ "d\<lparr>dc_mem := mem'\<rparr>"]) (use rd rw same in \<open>auto split: if_splits\<close>)
qed

lemma write_loop:
  assumes "relative_room (length vals) c" and "val_laws V" and "unat pos + (k + length vals) * 8 \<le> length (dc_mem c)"
  shows "\<exists>d. forS (enumerate k vals) (write_val V pos) c = (Inr (), d) \<and> relative_grows c d \<and>
    length (dc_mem d) = length (dc_mem c) \<and> dc_mem_size d = dc_mem_size c \<and>
    (\<forall>i < length (dc_mem c). i < unat pos + k * 8 \<or> unat pos + (k + length vals) * 8 \<le> i \<longrightarrow> dc_mem d ! i = dc_mem c ! i) \<and>
    (\<forall>j < length vals. \<exists>w. raw_read (dc_mem d) (unat pos + (k + j) * 8) 8 = Inr (to_le 8 w) \<and>
       to_absolute V d w = Inr (vals ! j))"
  using assms(1,3)
proof (induction vals arbitrary: c k)
  case Nil
  then show ?case by (simp add: relative_grows_def)
next
  case (Cons v vals)
  let ?off = "unat pos + k * 8"
  have off: "?off + 8 \<le> length (dc_mem c)" using Cons.prems(2) by (simp add: algebra_simps)
  have room: "relative_room (Suc (length vals)) c" using Cons.prems(1) by simp
  obtain w d where w: "write_val V pos (k, v) c = (Inr (), d)" "relative_room (length vals) d" "relative_grows c d"
    "to_absolute V d w = Inr v" "raw_read (dc_mem d) ?off 8 = Inr (to_le 8 w)" "length (dc_mem d) = length (dc_mem c)"
    "dc_mem_size d = dc_mem_size c" "\<forall>i < length (dc_mem c). \<not> (?off \<le> i \<and> i < ?off + 8) \<longrightarrow> dc_mem d ! i = dc_mem c ! i"
    using write_val_step [OF room assms(2) refl off] by blast
  have "unat pos + (Suc k + length vals) * 8 \<le> length (dc_mem d)" using Cons.prems(2) w(6) by (simp add: algebra_simps)
  from Cons.IH [OF w(2) this] obtain e where
    run: "forS (enumerate (Suc k) vals) (write_val V pos) d = (Inr (), e)" and g: "relative_grows d e"
    and len: "length (dc_mem e) = length (dc_mem d)" "dc_mem_size e = dc_mem_size d"
    and frame: "\<forall>i < length (dc_mem d). i < unat pos + Suc k * 8 \<or> unat pos + (Suc k + length vals) * 8 \<le> i \<longrightarrow>
      dc_mem e ! i = dc_mem d ! i"
    and rest: "\<forall>j < length vals. \<exists>w. raw_read (dc_mem e) (unat pos + (Suc k + j) * 8) 8 = Inr (to_le 8 w) \<and>
      to_absolute V e w = Inr (vals ! j)" by blast
  have "raw_read (dc_mem e) ?off 8 = raw_read (dc_mem d) ?off 8"
    by (rule raw_read_frame) (use frame len(1) off w(6) in auto)
  then have head: "raw_read (dc_mem e) ?off 8 = Inr (to_le 8 w)" "to_absolute V e w = Inr v"
    using w(5) resolves_later [OF w(4) g] by simp_all
  have "\<exists>w. raw_read (dc_mem e) (unat pos + (k + j) * 8) 8 = Inr (to_le 8 w) \<and> to_absolute V e w = Inr ((v # vals) ! j)"
    if "j < length (v # vals)" for j
    using that head rest by (cases j) auto
  moreover have "dc_mem e ! i = dc_mem c ! i"
    if "i < length (dc_mem c)" "i < ?off \<or> unat pos + (k + length (v # vals)) * 8 \<le> i" for i
    using that frame w(6,8) by (auto simp: algebra_simps)
  moreover have "relative_grows c e" using w(3) g by (auto simp: relative_grows_def)
  ultimately show ?case using w(1,6,7) run len by auto
qed

lemma collectR_all:
  "(\<And>i. i < n \<Longrightarrow> f (k + i) = Inr (ys ! i)) \<Longrightarrow> length ys = n \<Longrightarrow> collectR f [k..<k + n] = Inr ys"
proof (induction n arbitrary: k ys)
  case (Suc n)
  obtain z zs where ys: "ys = z # zs" using Suc.prems(2) by (cases ys) auto
  have "f k = Inr z" using Suc.prems(1) [of 0] by (simp add: ys)
  moreover have "collectR f [Suc k..<Suc k + n] = Inr zs"
  proof (rule Suc.IH)
    show "f (Suc k + i) = Inr (zs ! i)" if "i < n" for i using Suc.prems(1) [of "Suc i"] that by (simp add: ys)
  qed (use Suc.prems(2) ys in simp)
  moreover have "[k..<k + Suc n] = k # [Suc k..<Suc k + n]" by (subst upt_conv_Cons) simp_all
  ultimately show ?case by (simp only: ys collectR.simps rbind_simps)
qed simp

section \<open>Properties\<close>

text \<open>
  C16. Values written to guest memory read back. Let \<open>write_vals\<close> store values at a position of
  guest memory, with room in the table of handles. Then it succeeds exactly when the values fit the
  memory, only the bytes of the values change, and \<open>read_vals\<close> at the position returns the values,
  each object through the handle that was stored for it.
\<close>

theorem write_read_vals:
  assumes "val_laws V" and "unat (dc_mem_size c) \<le> length (dc_mem c)" and "length (dc_relative c) + length vals \<le> 2 ^ 31"
    and "write_vals V pos vals c = (r, d)"
  shows "(if unat pos + length vals * 8 \<le> unat (dc_mem_size c)
      then r = Inr () \<and> read_vals V d pos (of_nat (length vals)) = Inr vals \<and> relative_grows c d \<and>
        (\<forall>i < length (dc_mem c). i < unat pos \<or> unat pos + length vals * 8 \<le> i \<longrightarrow> dc_mem d ! i = dc_mem c ! i)
      else r = Inl (DErr ''guest val write oob'') \<and> d = c)"
proof (cases "unat pos + length vals * 8 \<le> unat (dc_mem_size c)")
  case True
  have "relative_room (length vals) c" using assms(3) by (simp add: relative_room_def)
  from write_loop [OF this assms(1), of pos 0] True assms(2)
  obtain e where e: "forS (enumerate 0 vals) (write_val V pos) c = (Inr (), e)" "relative_grows c e"
    "dc_mem_size e = dc_mem_size c"
    "\<forall>i < length (dc_mem c). i < unat pos \<or> unat pos + length vals * 8 \<le> i \<longrightarrow> dc_mem e ! i = dc_mem c ! i"
    "\<forall>j < length vals. \<exists>w. raw_read (dc_mem e) (unat pos + j * 8) 8 = Inr (to_le 8 w) \<and> to_absolute V e w = Inr (vals ! j)"
    by auto
  have "length vals < 2 ^ 32" using assms(3) by simp
  then have n: "unat (of_nat (length vals) :: u32) = length vals" by simp
  have "collectR (\<lambda>i. rbind (raw_read (dc_mem e) (unat pos + i * 8) 8) (\<lambda>buf. to_absolute V e (from_le buf)))
      [0..<0 + length vals] = Inr vals"
    using e(5) by (intro collectR_all) fastforce+
  then have "read_vals V e pos (of_nat (length vals)) = Inr vals"
    using True e(3) by (simp add: read_vals_def n)
  then show ?thesis using True e assms(4) by (simp add: write_vals_def)
next
  case False
  then show ?thesis using assms(4) by (auto simp: write_vals_def)
qed

text \<open>
  C17. Handles resolve to what they stand for. While the table holds fewer than \<open>2 ^ 31\<close> values,
  \<open>to_relative\<close> never fails; \<open>to_absolute\<close> maps its result back to the value, then and in every
  later state of the table, and an object keeps its tag.
\<close>

theorem relative_round_trip:
  assumes "val_laws V" and "length (dc_relative c) < 2 ^ 31"
  shows "\<exists>w d. to_relative V v c = (Inr w, d) \<and> relative_grows c d \<and> (is_object V w = is_object V v) \<and>
    get_tag V w = get_tag V v \<and> (\<forall>e. relative_grows d e \<longrightarrow> to_absolute V e w = Inr v)"
proof -
  have room: "relative_room (Suc 0) c" using assms(2) by (simp add: relative_room_def)
  obtain w d where w: "to_relative V v c = (Inr w, d)"
    using handles.give_room [OF room, of V v] lawful_id [OF assms(1)] by auto
  have "to_absolute V d w = Inr v" using give_resolves [OF assms(1) room w] .
  moreover have "is_object V w = is_object V v \<and> get_tag V w = get_tag V v"
    using w assms(1) unfolding to_relative_run [OF room] by (auto simp: val_laws_def split: if_splits)
  ultimately show ?thesis using w to_relative_grows [OF w] resolves_later by blast
qed

text \<open>
  C21. The overflow check of the handle is void: shifting by one never reports an overflow, so that
  beyond \<open>2 ^ 31\<close> values the handle of index \<open>2 ^ 31 + i\<close> is the handle of index \<open>i\<close>, and two
  different values of the table share it.
\<close>

theorem relative_handle_wraps:
  assumes "i < 2 ^ 31"
  shows "index_to_relative_handle (2 ^ 31 + i) = index_to_relative_handle i \<and>
    handle_to_index (of_nat (2 * i)) = i \<and>
    index_to_relative_handle n \<noteq> Inl (DErr ''relative object handle overflow'')"
proof -
  have "(of_nat (2 * (2 ^ 31 + i)) :: u32) = of_nat (2 * i)"
    unfolding word_unat_eq_iff unat_of_nat take_bit_eq_mod by simp
  moreover have "push_bit 1 (of_nat (2 ^ 31 + i) :: u32) = of_nat (2 * (2 ^ 31 + i))"
    unfolding of_nat_mult push_bit_eq_mult by simp
  ultimately have "index_to_relative_handle (2 ^ 31 + i) = Inr (of_nat (2 * i))"
    using assms unfolding index_to_relative_handle_def checked_shl_def by simp
  then show ?thesis using small_handle(1,2) [OF assms] by (simp add: index_to_relative_handle_def checked_shl_def)
qed

text \<open>
  \<open>decode_u32\<close> reads the 32-bit number of a tagged value: for every raw argument with the tag
  of a \<open>U32Val\<close> it is the upper half of the payload, and other tags are refused.
\<close>

lemma decode_u32_value:
  "decode_u32 V raw = (if get_tag V raw = tag_u32 V then Inr (ucast (drop_bit 32 raw)) else Inl (DTag (get_tag V raw)))"
proof -
  have "drop_bit 24 (drop_bit 8 raw AND NOT (push_bit 24 1 - 1)) = drop_bit 32 raw"
  proof (rule bit_word_eqI)
    fix k assume "k < LENGTH(64)"
    have "push_bit 24 1 - 1 = (mask 24 :: u64)" by (simp add: mask_eq_exp_minus_1 push_bit_eq_mult)
    then show "bit (drop_bit 24 (drop_bit 8 raw AND NOT (push_bit 24 1 - 1))) k = bit (drop_bit 32 raw) k"
      by (simp only: bit_drop_bit_eq bit_and_iff bit_not_iff bit_mask_iff o_def) (auto dest: bit_imp_le_length)
  qed
  then show ?thesis unfolding decode_u32_def Let_def by simp
qed

text \<open>A context with one object in its table and 16 bytes of memory.\<close>

definition tiny_ctx :: "unit dispatch_ctx" where
  "tiny_ctx = \<lparr>dc_host = (), dc_mem = replicate 16 0, dc_mem_size = 16, dc_relative = [0x34B], dc_calls = [], dc_traces = []\<rparr>"

lemma write_read_vals_witness:
  "read_vals soroban_vals (snd (write_vals soroban_vals 0 [0x14B, 4] tiny_ctx)) 0 2 = Inr [0x14B, 4]"
proof -
  have "unat (dc_mem_size tiny_ctx) \<le> length (dc_mem tiny_ctx)" "length (dc_relative tiny_ctx) + length [0x14B, 4] \<le> 2 ^ 31"
    "unat 0 + length [0x14B, 4] * 8 \<le> unat (dc_mem_size tiny_ctx)" by (simp_all add: tiny_ctx_def)
  with write_read_vals [OF soroban_laws this(1,2) surjective_pairing, of 0] show ?thesis by simp
qed

lemma relative_round_trip_witness:
  "\<exists>w d. to_relative soroban_vals 0x14B tiny_ctx = (Inr w, d) \<and> to_absolute soroban_vals d w = Inr 0x14B"
proof -
  have "length (dc_relative tiny_ctx) < 2 ^ 31" by (simp add: tiny_ctx_def)
  from relative_round_trip [OF soroban_laws this, of "0x14B"] show ?thesis
    by (meson handles.grows_refl)
qed

lemma relative_handle_wraps_witness:
  "index_to_relative_handle (2 ^ 31 + 5) = index_to_relative_handle 5 \<and> handle_to_index 10 = 5"
  using relative_handle_wraps [of 5] by simp

end
