(* ===== verification/Dispatch_Memory.thy ===== *)
theory Dispatch_Memory
  imports Dispatch_Safe
begin

text \<open>
  Memory safety and bookkeeping of the dispatcher: every host call stays inside the guest memory,
  whatever the guest passes and whatever the host answers, and leaves one entry in the call log.
\<close>

section \<open>What a step of the handler keeps\<close>

fun calm :: "derr \<Rightarrow> bool" where
  "calm (DUndefined _) = False"
| "calm (DPanic _) = False"
| "calm _ = True"

definition mem_ok :: "'h dispatch_ctx \<Rightarrow> bool" where
  "mem_ok c \<longleftrightarrow> unat (dc_mem_size c) \<le> length (dc_mem c)"

definition within :: "'h dispatch_ctx \<Rightarrow> 'h dispatch_ctx \<Rightarrow> bool" where
  "within c d \<longleftrightarrow>
     mem_ok d \<and> length (dc_mem d) = length (dc_mem c) \<and> dc_mem_size d = dc_mem_size c \<and>
     drop (unat (dc_mem_size c)) (dc_mem d) = drop (unat (dc_mem_size c)) (dc_mem c) \<and>
     relative_grows c d \<and> dc_calls d = dc_calls c \<and> dc_traces d = dc_traces c"

definition stays :: "('h dispatch_ctx, derr, 'a) es \<Rightarrow> bool" where
  "stays m \<longleftrightarrow> (\<forall>c. triple (within c) m (\<lambda>_. within c) (\<lambda>e d. calm e \<and> within c d))"

lemma within_refl: "mem_ok c \<Longrightarrow> within c c"
  by (simp add: within_def relative_grows_def)

lemma within_trans: "within c d \<Longrightarrow> within d e \<Longrightarrow> within c e"
  by (auto simp: within_def relative_grows_def)

lemma staysI:
  fixes m :: "('h dispatch_ctx, derr, 'a) es"
  assumes "\<And>c r d. mem_ok c \<Longrightarrow> m c = (r, d) \<Longrightarrow> within c d \<and> (\<forall>e. r = Inl e \<longrightarrow> calm e)"
  shows "stays m"
  unfolding stays_def triple_def
proof (intro allI impI)
  fix c d :: "'h dispatch_ctx" assume w: "within c d"
  obtain r e where "m d = (r, e)" by fastforce
  moreover from assms [OF _ this] w have "within d e \<and> (\<forall>x. r = Inl x \<longrightarrow> calm x)" by (simp add: within_def)
  ultimately show "case m d of (Inl x, t) \<Rightarrow> calm x \<and> within c t | (Inr x, t) \<Rightarrow> within c t"
    using within_trans [OF w] by (auto split: sum.splits)
qed

lemma staysD:
  assumes "stays m" and "mem_ok c" and "m c = (r, d)"
  shows "within c d" and "r = Inl e \<Longrightarrow> calm e"
  using assms within_refl [OF assms(2)] unfolding stays_def triple_def by (fastforce split: sum.splits)+

named_theorems stay_rules

lemma stays_bind [stay_rules]: "stays m \<Longrightarrow> (\<And>x. stays (f x)) \<Longrightarrow> stays (bindS m f)"
  unfolding stays_def by (blast intro: triple_bindS)

lemma stays_then [stay_rules]: "stays m \<Longrightarrow> stays k \<Longrightarrow> stays (thenS m k)"
  unfolding stays_def by (blast intro: triple_thenS)

lemma stays_for: "(\<And>x. x \<in> set xs \<Longrightarrow> stays (f x)) \<Longrightarrow> stays (forS xs f)"
  unfolding stays_def by (blast intro: triple_forS)

lemma stays_if [stay_rules]: "(b \<Longrightarrow> stays m) \<Longrightarrow> (\<not> b \<Longrightarrow> stays k) \<Longrightarrow> stays (if b then m else k)"
  by simp

lemma stays_simple [stay_rules]:
  "stays (ret x)" "stays (getS f)" "calm e \<Longrightarrow> stays (fail e)" "(\<And>e. r = Inl e \<Longrightarrow> calm e) \<Longrightarrow> stays (liftS r)"
  by (auto simp: stays_def triple_def split: sum.splits)

lemma stays_prod [stay_rules]: "(\<And>a b. stays (f a b)) \<Longrightarrow> stays (case x of (a, b) \<Rightarrow> f a b)"
  by (cases x) simp

lemma stays_host [stay_rules]: "stays (host_do what m)"
  by (rule staysI) (auto simp: host_do_def within_def mem_ok_def relative_grows_def split: prod.splits sum.splits)

lemma stays_ok_of [stay_rules]: "stays m \<Longrightarrow> stays (ok_of m)"
  unfolding stays_def triple_def ok_of_def by (fastforce split: prod.splits sum.splits)

lemma stays_reading [stay_rules]: "(\<And>c e. mem_ok c \<Longrightarrow> f c = Inl e \<Longrightarrow> calm e) \<Longrightarrow> stays (reading f)"
  by (rule staysI) (auto simp: reading_def within_refl)

section \<open>Reads\<close>

lemma collectR_calm: "(\<And>x e. x \<in> set xs \<Longrightarrow> f x = Inl e \<Longrightarrow> calm e) \<Longrightarrow> collectR f xs = Inl e \<Longrightarrow> calm e"
  by (induction xs) (auto simp: rbind_Inl_iff)

lemma index_handle_calm: "index_to_relative_handle i = Inl e \<Longrightarrow> calm e"
  by (auto simp: index_to_relative_handle_def split: if_splits option.splits)

lemma to_absolute_calm: "to_absolute V c v = Inl e \<Longrightarrow> calm e"
  by (auto simp: to_absolute_def Let_def split: if_splits)

lemma decode_calm:
  "decode_u32 V raw = Inl e \<Longrightarrow> calm e" "decode_val V c raw = Inl e \<Longrightarrow> calm e" "decode_storage_type raw = Inl e \<Longrightarrow> calm e"
  by (auto simp: decode_u32_def decode_val_def decode_storage_type_def Let_def to_absolute_calm split: if_splits)

lemma read_bytes_calm: "mem_ok c \<Longrightarrow> read_bytes c pos len = Inl e \<Longrightarrow> calm e"
  by (auto simp: read_bytes_def raw_read_def mem_ok_def split: if_splits)

text \<open>The loops over 8-byte cells stay below the memory size.\<close>

lemma cell_calm:
  assumes "mem_ok c" and "\<not> unat pos + unat len * 8 > unat (dc_mem_size c)" and "i \<in> set [0..<unat len]"
  shows "raw_read (dc_mem c) (unat pos + i * 8) 8 = Inl e \<Longrightarrow> calm e"
  using assms by (auto simp: raw_read_def mem_ok_def split: if_splits)

lemma read_vals_calm:
  assumes "mem_ok c"
  shows "read_vals V c pos len = Inl e \<Longrightarrow> calm e" and "read_vals_raw c pos len = Inl e \<Longrightarrow> calm e"
    and "read_slice_descriptors c pos len = Inl e \<Longrightarrow> calm e"
  by (auto simp: read_vals_def read_vals_raw_def read_slice_descriptors_def rbind_Inl_iff simp del: set_upt
      split: if_splits elim!: collectR_calm [rotated] dest: cell_calm [OF assms] to_absolute_calm)

lemma read_keys_calm: "mem_ok c \<Longrightarrow> read_symbol_keys c pos len = Inl e \<Longrightarrow> calm e"
  by (auto simp: read_symbol_keys_def rbind_Inl_iff read_vals_calm(3)
      split: if_splits elim!: collectR_calm [rotated] dest: read_bytes_calm)

lemma stays_args [stay_rules]: "stays (arg_u32 V mb i)" "stays (arg_val V mb i)" "stays (arg_storage mb i)" "stays (as_object b msg)"
  unfolding arg_u32_def arg_storage_def as_object_def
  by (auto intro!: stay_rules dest: decode_calm)
    (rule staysI, auto simp: arg_val_def within_refl dest: decode_calm)

section \<open>Writes\<close>

lemma stays_to_relative [stay_rules]: "stays (to_relative V v)"
  by (rule staysI) (auto simp: to_relative_def Let_def within_def mem_ok_def relative_grows_def rbind_Inl_iff
      split: if_splits dest: index_handle_calm)

lemma stays_write_vals [stay_rules]: "stays (write_vals V pos vals)"
proof (rule staysI)
  fix c r d assume ok: "mem_ok c" and run: "write_vals V pos vals c = (r, d)"
  let ?n = "unat pos + length vals * 8"
  show "within c d \<and> (\<forall>e. r = Inl e \<longrightarrow> calm e)"
  proof (cases "?n \<le> unat (dc_mem_size c)")
    case False
    then show ?thesis using run within_refl [OF ok] by (auto simp: write_vals_def)
  next
    case True
    have step: "triple (\<lambda>x. within c x) (write_val V pos r) (\<lambda>_. within c) (\<lambda>e x. calm e \<and> within c x)"
      if "r \<in> set (enumerate 0 vals)" for r
      unfolding triple_def
    proof (intro allI impI)
      fix x assume x: "within c x"
      obtain w y where y: "to_relative V (snd r) x = (w, y)" by fastforce
      have "within x y" "\<And>e. w = Inl e \<Longrightarrow> calm e"
        using staysD [OF stays_to_relative _ y] x by (auto simp: within_def)
      then have cy: "within c y" using within_trans [OF x] by blast
      have "fst r < length vals" using that in_set_enumerate_eq [of r 0 vals] by simp
      then have b: "unat pos + fst r * 8 + 8 \<le> unat (dc_mem_size c)" using True by linarith
      show "case write_val V pos r x of (Inl e, t) \<Rightarrow> calm e \<and> within c t | (Inr _, t) \<Rightarrow> within c t"
      proof (cases w)
        case (Inl e)
        then show ?thesis using y cy \<open>\<And>e. w = Inl e \<Longrightarrow> calm e\<close> by (simp add: write_val_def)
      next
        case (Inr v)
        let ?mem = "take (unat pos + fst r * 8) (dc_mem y) @ to_le 8 v @ drop (unat pos + fst r * 8 + 8) (dc_mem y)"
        have le: "unat pos + fst r * 8 + 8 \<le> length (dc_mem y)" using b cy unfolding within_def mem_ok_def by auto
        have "within c (y\<lparr>dc_mem := ?mem\<rparr>)"
          using cy b le by (auto simp: within_def mem_ok_def relative_grows_def)
        then show ?thesis using y Inr le by (simp add: write_val_def raw_write_def)
      qed
    qed
    from triple_forS [of "enumerate 0 vals", OF step] within_refl [OF ok]
    show ?thesis using run True unfolding triple_def by (fastforce simp: write_vals_def split: sum.splits)
  qed
qed

section \<open>The arms and the trace\<close>

lemma stays_sha [stay_rules]: "stays (host_sha256 H bytes)"
  unfolding host_sha256_def by (intro stay_rules)

lemma stays_describe [stay_rules]: "stays (describe_val V H raw)"
  unfolding describe_val_def by (intro stay_rules) (auto intro!: stay_rules split: sum.splits option.splits)

lemma stays_memory_call [stay_rules]: "stays (memory_call V H mb name)"
  unfolding memory_call_def
  by (intro stay_rules) (auto dest: read_bytes_calm read_vals_calm read_keys_calm)

lemma stays_plain_call [stay_rules]: "stays (plain_call root V H mb name)"
  unfolding plain_call_def by (intro stay_rules) simp_all

lemma stays_details [stay_rules]: "stays (trace_details V H mb name t)"
  unfolding trace_details_def
  by (intro stay_rules) (auto split: sum.splits derr.splits dest: read_vals_calm(2))

lemma record_trace_post:
  assumes "mem_ok c" and "unat (mb_n_args mb) \<le> length (mb_args mb)" and "record_trace V H mb name c = (r, d)"
  shows "(\<exists>t. r = Inr () \<and> within (c\<lparr>dc_traces := dc_traces c @ [t]\<rparr>) d) \<or> (\<exists>e. r = Inl e \<and> calm e \<and> within c d)"
proof -
  let ?m = "bindS (getS (trace_new mb name)) (\<lambda>t0. bindS (trace_details V H mb name t0) (\<lambda>t.
      if name = ''get_contract_data'' then
        bindS (describe_val V H (mb_results mb ! 0)) (\<lambda>(d, x, _). ret (t\<lparr>tr_result_scval := d, tr_result_xdr_hex := x\<rparr>))
      else ret t))"
  have st: "stays ?m" by (intro stay_rules)
  have rt: "record_trace V H mb name c = bindS ?m (\<lambda>t. modifyS (\<lambda>c. c\<lparr>dc_traces := dc_traces c @ [t]\<rparr>)) c"
    using assms(2) by (simp add: record_trace_def bindS_def split: prod.splits sum.splits)
  obtain q x where q: "?m c = (q, x)" by fastforce
  note sd = staysD [OF st assms(1) q]
  show ?thesis
  proof (cases q)
    case (Inl e)
    then show ?thesis using rt q assms(3) sd by simp
  next
    case (Inr t)
    then have "r = Inr ()" "d = x\<lparr>dc_traces := dc_traces x @ [t]\<rparr>" using rt q assms(3) by simp_all
    then show ?thesis using sd(1) by (auto simp: within_def mem_ok_def relative_grows_def)
  qed
qed

section \<open>Whole calls\<close>

definition call_name :: "env_root \<Rightarrow> mailbox \<Rightarrow> string" where
  "call_name root mb = (case fn_name root (mb_fn_id mb) of None \<Rightarrow> ''?'' | Some n \<Rightarrow> n)"

text \<open>The mailbox keeps its request; a result may be stored.\<close>

definition same_request :: "mailbox \<Rightarrow> mailbox \<Rightarrow> bool" where
  "same_request mb mb' \<longleftrightarrow> mb_fn_id mb' = mb_fn_id mb \<and> mb_n_args mb' = mb_n_args mb \<and> mb_args mb' = mb_args mb"

lemma finish_call_post:
  assumes "mem_ok c" and "finish_call V res (c, mb) = (r, (d, mb'))"
  shows "within c d \<and> same_request mb mb' \<and> (\<forall>e. r = Inl e \<longrightarrow> calm e)"
proof (cases "\<exists>v. res = Some v \<and> is_object V v")
  case True
  then obtain v where v: "res = Some v" "is_object V v" by blast
  obtain q x where q: "to_relative V v c = (q, x)" by fastforce
  from staysD [OF stays_to_relative assms(1) q] show ?thesis
    using assms(2) q v by (cases q) (auto simp: finish_call_def on_ctx_def set_result_def same_request_def)
next
  case False
  then show ?thesis using assms within_refl [OF assms(1)]
    by (cases res) (auto simp: finish_call_def set_result_def same_request_def)
qed

lemma trace_call_post:
  assumes "mem_ok c" and "unat (mb_n_args mb) \<le> length (mb_args mb)" and "trace_call V H name (c, mb) = (r, (d, mb'))"
  shows "((\<exists>t. r = Inr () \<and> within (c\<lparr>dc_traces := dc_traces c @ [t]\<rparr>) d) \<or> (\<exists>e. r = Inl e \<and> calm e \<and> within c d)) \<and> mb' = mb"
proof -
  obtain q x where q: "record_trace V H mb name c = (q, x)" by fastforce
  then have "r = q" "d = x" "mb' = mb" using assms(3) by (simp_all add: trace_call_def on_ctx_def)
  then show ?thesis using record_trace_post [OF assms(1,2) q] by simp
qed

text \<open>A stored result is followed by the trace.\<close>

lemma result_then_trace:
  assumes ok: "mem_ok c" and n: "unat (mb_n_args mb) \<le> length (mb_args mb)"
    and st: "\<And>r d mb'. st (c, mb) = (r, (d, mb')) \<Longrightarrow> within c d \<and> same_request mb mb' \<and> (\<forall>e. r = Inl e \<longrightarrow> calm e)"
    and run: "thenS st (trace_call V H name) (c, mb) = (r, (d, mb'))"
  shows "((\<exists>t. r = Inr () \<and> within (c\<lparr>dc_traces := dc_traces c @ [t]\<rparr>) d) \<or> (\<exists>e. r = Inl e \<and> calm e \<and> within c d)) \<and>
    same_request mb mb'"
proof -
  obtain q x mx where q: "st (c, mb) = (q, (x, mx))" by (metis surj_pair)
  note s = st [OF q]
  show ?thesis
  proof (cases q)
    case (Inl e)
    then show ?thesis using run q s by auto
  next
    case (Inr u)
    have t: "trace_call V H name (x, mx) = (r, (d, mb'))" using run q Inr by simp
    have "mem_ok x" "unat (mb_n_args mx) \<le> length (mb_args mx)" using s n by (simp_all add: within_def same_request_def)
    from trace_call_post [OF this t] have
      p: "(\<exists>t. r = Inr () \<and> within (x\<lparr>dc_traces := dc_traces x @ [t]\<rparr>) d) \<or> (\<exists>e. r = Inl e \<and> calm e \<and> within x d)" and "mb' = mx"
      by simp_all
    moreover have "within (c\<lparr>dc_traces := dc_traces c @ [t]\<rparr>) d" if "within (x\<lparr>dc_traces := dc_traces x @ [t]\<rparr>) d" for t
      using that s by (auto simp: within_def relative_grows_def)
    moreover have "within c d" if "within x d" using within_trans [OF _ that] s by simp
    ultimately show ?thesis using s by blast
  qed
qed

lemma arm_untraced:
  assumes "(if name \<in> set memory_calls then memory_call V H mb name else plain_call root V H mb name) c = (Inr out, d)"
  shows "out = Untraced \<longleftrightarrow> name = ''map_unpack_to_linear_memory''"
proof (cases "name \<in> set memory_calls")
  case True
  then show ?thesis using assms
    by (auto simp: memory_call_def memory_calls_def bindS_Inr_iff thenS_Inr_iff split: if_splits)
next
  case False
  then show ?thesis using assms
    by (auto simp: plain_call_def memory_calls_def bindS_Inr_iff thenS_Inr_iff split: if_splits)
qed

lemma dispatch_post:
  assumes "mem_ok c" and "unat (mb_n_args mb) \<le> length (mb_args mb)" and "dispatch root V H (c, mb) = (r, (d, mb'))"
  shows "same_request mb mb' \<and> (let c1 = c\<lparr>dc_calls := dc_calls c @ [(call_name root mb, mb_n_args mb)]\<rparr> in
     (\<exists>t. r = Inr () \<and> within (c1\<lparr>dc_traces := dc_traces c1 @ [t]\<rparr>) d \<and> call_name root mb \<noteq> ''map_unpack_to_linear_memory'') \<or>
     (r = Inr () \<and> within c1 d \<and> call_name root mb = ''map_unpack_to_linear_memory'') \<or>
     (\<exists>e. r = Inl e \<and> calm e \<and> within c1 d))"
proof -
  let ?name = "call_name root mb"
  let ?c1 = "c\<lparr>dc_calls := dc_calls c @ [(?name, mb_n_args mb)]\<rparr>"
  let ?arm = "if ?name \<in> set memory_calls then memory_call V H mb ?name else plain_call root V H mb ?name"
  have ok: "mem_ok ?c1" using assms(1) by (simp add: mem_ok_def)
  obtain q x where q: "?arm ?c1 = (q, x)" by fastforce
  have st: "stays ?arm" by (intro stay_rules)
  note sd = staysD [OF st ok q]
  have okx: "mem_ok x" using sd(1) by (simp add: within_def)
  have run: "(case q of Inl e \<Rightarrow> (Inl e, (x, mb))
      | Inr (Value res) \<Rightarrow> thenS (finish_call V res) (trace_call V H ?name) (x, mb)
      | Inr (Raw raw) \<Rightarrow> thenS (finish_raw raw) (trace_call V H ?name) (x, mb)
      | Inr Untraced \<Rightarrow> finish_call V None (x, mb)) = (r, (d, mb'))"
    using assms(3) q unfolding dispatch_def call_name_def [symmetric]
    by (simp add: Let_def on_ctx_def bindS_def thenS_def split: sum.splits outcome.splits)
  have n: "unat (mb_n_args mb) \<le> length (mb_args mb)" by (rule assms(2))
  have lift: "within (?c1\<lparr>dc_traces := dc_traces ?c1 @ [t]\<rparr>) d" if "within (x\<lparr>dc_traces := dc_traces x @ [t]\<rparr>) d" for t
    using that sd(1) by (auto simp: within_def relative_grows_def)
  have fin: "?thesis" if "thenS st (trace_call V H ?name) (x, mb) = (r, (d, mb'))" "?name \<noteq> ''map_unpack_to_linear_memory''"
    "\<And>r d mb'. st (x, mb) = (r, (d, mb')) \<Longrightarrow> within x d \<and> same_request mb mb' \<and> (\<forall>e. r = Inl e \<longrightarrow> calm e)" for st
    using result_then_trace [OF okx n that(3,1)] lift within_trans [OF sd(1)] that(2) by (auto simp: Let_def)
  show ?thesis
  proof (cases q)
    case (Inl e)
    then show ?thesis using run sd by (auto simp: same_request_def)
  next
    case (Inr out)
    note un = arm_untraced [OF q [unfolded Inr]]
    show ?thesis
    proof (cases out)
      case (Value res)
      show ?thesis by (rule fin [of "finish_call V res"]) (use run Inr Value un finish_call_post [OF okx] in auto)
    next
      case (Raw raw)
      show ?thesis
        by (rule fin [of "finish_raw raw"])
          (use run Inr Raw un within_refl [OF okx] in \<open>auto simp: finish_raw_def set_result_def same_request_def\<close>)
    next
      case Untraced
      then have "finish_call V None (x, mb) = (r, (d, mb'))" using run Inr by simp
      from finish_call_post [OF okx this] have "within x d" "same_request mb mb'" by simp_all
      moreover have "r = Inr ()" using \<open>finish_call V None (x, mb) = (r, (d, mb'))\<close> by (simp add: finish_call_def set_result_def)
      ultimately show ?thesis using un Untraced within_trans [OF sd(1)] by simp
    qed
  qed
qed

section \<open>Properties\<close>

text \<open>
  C15. A host call stays inside the guest memory. Whatever the guest puts into the mailbox, whatever
  the host answers and whatever the encoding of values, as long as the memory size lies within the
  allocation and the mailbox announces no more arguments than it holds, a dispatched call never
  reads or writes outside the allocation and never panics; memory beyond the announced size is
  unchanged, handles given out earlier stay valid, the request in the mailbox is kept, and the call
  log grows by exactly this call, also when the call fails.
\<close>

theorem dispatch_in_guest_memory:
  assumes "unat (dc_mem_size c) \<le> length (dc_mem c)" and "unat (mb_n_args mb) \<le> length (mb_args mb)"
    and "dispatch root V H (c, mb) = (r, (d, mb'))"
  shows "(\<nexists>m. r = Inl (DUndefined m) \<or> r = Inl (DPanic m)) \<and>
    length (dc_mem d) = length (dc_mem c) \<and> dc_mem_size d = dc_mem_size c \<and>
    drop (unat (dc_mem_size c)) (dc_mem d) = drop (unat (dc_mem_size c)) (dc_mem c) \<and>
    (\<forall>w v. to_absolute V c w = Inr v \<longrightarrow> to_absolute V d w = Inr v) \<and>
    mb_args mb' = mb_args mb \<and> dc_calls d = dc_calls c @ [(call_name root mb, mb_n_args mb)]"
proof -
  have "mem_ok c" using assms(1) by (simp add: mem_ok_def)
  note p = dispatch_post [OF this assms(2,3)]
  then obtain c1 where w: "within c1 d" and c1: "length (dc_mem c1) = length (dc_mem c)" "dc_mem_size c1 = dc_mem_size c"
    "dc_mem c1 = dc_mem c" "dc_relative c1 = dc_relative c" "dc_calls c1 = dc_calls c @ [(call_name root mb, mb_n_args mb)]"
    by (auto simp: Let_def)
  have "relative_grows c d" using w c1(4) by (simp add: within_def relative_grows_def)
  then have "\<forall>w v. to_absolute V c w = Inr v \<longrightarrow> to_absolute V d w = Inr v" using resolves_later by blast
  moreover have "\<nexists>m. r = Inl (DUndefined m) \<or> r = Inl (DPanic m)" "mb_args mb' = mb_args mb"
    using p by (auto simp: Let_def same_request_def)
  ultimately show ?thesis using w c1 by (simp add: within_def)
qed


text \<open>
  C19. The C entry point reports errors within the buffer it is given. For a context and a mailbox
  as above and a buffer of \<open>err_cap\<close> bytes it always returns: 1 with the buffer untouched when the
  call succeeds, and otherwise 0 with the error text, cut to \<open>err_cap - 1\<close> bytes and terminated by
  NUL, and nothing written beyond.
\<close>

theorem host_dispatch_reports:
  assumes "unat (dc_mem_size c) \<le> length (dc_mem c)" and "unat (mb_n_args mb) \<le> length (mb_args mb)"
    and "length buf = err_cap"
  shows "\<exists>c' mb' buf'. length buf' = err_cap \<and>
    (case dispatch root V H (c, mb) of
       (Inr _, _) \<Rightarrow> host_dispatch root V H render (Some c) (Some mb) (Some buf) err_cap = Inr (1, Some c', Some mb', Some buf') \<and>
         buf' = buf
     | (Inl e, _) \<Rightarrow> host_dispatch root V H render (Some c) (Some mb) (Some buf) err_cap = Inr (0, Some c', Some mb', Some buf') \<and>
         (err_cap \<noteq> 0 \<longrightarrow> (let n = min (length (render e)) (err_cap - 1) in
            take n buf' = take n (render e) \<and> buf' ! n = 0 \<and> drop (n + 1) buf' = drop (n + 1) buf)))"
proof -
  obtain r c' mb' where run: "dispatch root V H (c, mb) = (r, (c', mb'))" by (metis surj_pair)
  have "mem_ok c" using assms(1) by (simp add: mem_ok_def)
  from dispatch_post [OF this assms(2) run] have calm: "calm e" if "r = Inl e" for e using that by (auto simp: Let_def)
  show ?thesis
  proof (cases r)
    case (Inl e)
    let ?n = "min (length (render e)) (err_cap - 1)"
    have hd: "host_dispatch root V H render (Some c) (Some mb) (Some buf) err_cap =
        Inr (0, Some c', Some mb', put_error (render e) (Some buf) err_cap)"
      using run Inl calm [OF Inl] by (auto simp: host_dispatch_def split: derr.splits)
    show ?thesis
    proof (cases "err_cap = 0")
      case True
      then show ?thesis using run Inl hd assms(3) by (intro exI [of _ c'] exI [of _ mb'] exI [of _ buf]) (simp add: put_error_def)
    next
      case False
      let ?b = "take ?n (render e) @ [0] @ drop (?n + 1) buf"
      have n: "length (take ?n (render e)) = ?n" by simp
      have "put_error (render e) (Some buf) err_cap = Some ?b" using False by (simp add: put_error_def Let_def)
      moreover have "length ?b = err_cap" using False assms(3) by simp
      moreover have "take ?n ?b = take ?n (render e)" by simp
      moreover have "?b ! ?n = 0" using n by (metis append_Cons nth_append_length)
      moreover have "drop (?n + 1) ?b = drop (?n + 1) buf" using n by simp
      ultimately show ?thesis using run Inl hd False
        by (intro exI [of _ c'] exI [of _ mb'] exI [of _ ?b]) (simp only: Let_def, simp)
    qed
  next
    case (Inr u)
    then show ?thesis using run assms(3)
      by (intro exI [of _ c'] exI [of _ mb'] exI [of _ buf]) (simp add: host_dispatch_def)
  qed
qed

section \<open>Examples\<close>

text \<open>
  A host with one function per call that counts its calls; creating an object returns a vector
  object with the count as absolute handle. The description knows four functions.
\<close>

definition counting_host :: "(nat, unit) host_ops" where
  "counting_host =
     (let new = (\<lambda>n. (Inr (push_bit 32 (of_nat (2 * n + 1)) OR 75), Suc n)); done = (\<lambda>n. (Inr 2, Suc n)) in
     \<lparr>h_string_new = (\<lambda>_. new), h_symbol_new = (\<lambda>_. new), h_vec_new = (\<lambda>_. new), h_map_new = (\<lambda>_ _. new),
      h_map_unpack = (\<lambda>_ _ vals n. (Inr (replicate (length vals) 0x14B), Suc n)), h_has_data = (\<lambda>_ _. done),
      h_get_data = (\<lambda>_ _ n. (Inl ''missing'', Suc n)), h_put_data = (\<lambda>_ _ _. done), h_extend_ttl = (\<lambda>_ _ _ _. done),
      h_extend_instance = (\<lambda>_ _. done), h_event = (\<lambda>_ _. done), h_ledger = (\<lambda>n. (Inr (push_bit 32 7 OR 4), Suc n)),
      h_from_i128 = (\<lambda>_ _. new), h_i128_lo = (\<lambda>_. done), h_i128_hi = (\<lambda>_. done), h_require_auth = (\<lambda>_. done),
      h_to_scval = (\<lambda>_ n. (Inr (), n)), h_bytes_new = (\<lambda>_. new), h_sha256 = (\<lambda>_. new),
      h_bytes_copy = (\<lambda>_ _ len n. (Inr (replicate len 0), Suc n)), sc_debug = (\<lambda>_. ''sc''), sc_xdr = (\<lambda>_. Inr [1, 2])\<rparr>)"

definition small_root :: env_root where
  "small_root =
     [\<lparr>em_export = ''v'', em_functions = [\<lparr>ef_export = ''g'', ef_name = ''vec_new_from_linear_memory''\<rparr>,
        \<lparr>ef_export = ''0'', ef_name = ''map_unpack_to_linear_memory''\<rparr>, \<lparr>ef_export = ''1'', ef_name = ''get_contract_data''\<rparr>]\<rparr>]"

text \<open>Memory of 24 bytes of which the guest owns 16; the second cell holds the relative handle 0.\<close>

definition small_ctx :: "nat dispatch_ctx" where
  "small_ctx =
     \<lparr>dc_host = 0, dc_mem = to_le 8 (0x700000004 :: u64) @ to_le 8 (75 :: u64) @ replicate 8 9, dc_mem_size = 16,
      dc_relative = [0x14B], dc_calls = [], dc_traces = []\<rparr>"

definition u32_arg :: "nat \<Rightarrow> u64" where
  "u32_arg n = push_bit 32 (of_nat n) OR 4"

text \<open>A vector of the two cells at 0, a map unpacked over both cells, and a failing read.\<close>

definition vec_call :: mailbox where
  "vec_call = \<lparr>mb_fn_id = 0, mb_n_args = 2, mb_n_results = 0, mb_args = [u32_arg 0, u32_arg 2] @ replicate 14 0, mb_results = [0]\<rparr>"

definition unpack_call :: mailbox where
  "unpack_call =
     \<lparr>mb_fn_id = 1, mb_n_args = 4, mb_n_results = 0, mb_args = [0x14C, u32_arg 0, u32_arg 0, u32_arg 0] @ replicate 12 0,
      mb_results = [0]\<rparr>"

definition get_call :: mailbox where
  "get_call = \<lparr>mb_fn_id = 2, mb_n_args = 2, mb_n_results = 0, mb_args = [75, 1] @ replicate 14 0, mb_results = [0]\<rparr>"

lemma small_sizes:
  "unat (dc_mem_size small_ctx) \<le> length (dc_mem small_ctx)" "unat (mb_n_args vec_call) \<le> length (mb_args vec_call)"
  "unat (mb_n_args unpack_call) \<le> length (mb_args unpack_call)" "unat (mb_n_args get_call) \<le> length (mb_args get_call)"
  by (simp_all add: small_ctx_def vec_call_def unpack_call_def get_call_def)

lemma small_traces: "dc_traces small_ctx = []"
  by (simp add: small_ctx_def)

lemma vec_run:
  "fst (dispatch small_root soroban_vals counting_host (small_ctx, vec_call)) = Inr () \<and>
   mb_results (snd (snd (dispatch small_root soroban_vals counting_host (small_ctx, vec_call)))) = [0x20000004B]"
  by code_simp

lemma dispatch_in_guest_memory_witness:
  "drop 16 (dc_mem (fst (snd (dispatch small_root soroban_vals counting_host (small_ctx, vec_call))))) = replicate 8 9 \<and>
   dc_calls (fst (snd (dispatch small_root soroban_vals counting_host (small_ctx, vec_call)))) =
     [(''vec_new_from_linear_memory'', 2)]"
proof -
  obtain r d mb' where run: "dispatch small_root soroban_vals counting_host (small_ctx, vec_call) = (r, (d, mb'))"
    by (metis surj_pair)
  have "call_name small_root vec_call = ''vec_new_from_linear_memory''" by code_simp
  with dispatch_in_guest_memory [OF small_sizes(1,2) run] show ?thesis
    by (simp add: run) (simp add: small_ctx_def vec_call_def)
qed


lemma host_dispatch_reports_witness:
  "\<exists>c' mb' buf'. host_dispatch small_root soroban_vals counting_host (\<lambda>_. [65, 66, 67, 68]) (Some small_ctx) (Some get_call)
      (Some [1, 1, 1]) 3 = Inr (0, Some c', Some mb', Some buf') \<and> take 2 buf' = [65, 66] \<and> buf' ! 2 = 0 \<and> length buf' = 3"
proof -
  let ?r = "dispatch small_root soroban_vals counting_host (small_ctx, get_call)"
  have "isl (fst ?r)" by code_simp
  then obtain e s where run: "?r = (Inl e, s)" by (cases ?r) (metis fst_conv isl_def)
  show ?thesis
    using host_dispatch_reports [OF small_sizes(1,4), of "[1, 1, 1]" 3 small_root soroban_vals counting_host "\<lambda>_. [65, 66, 67, 68]"]
    by (simp add: run Let_def numeral_2_eq_2) blast
qed

end
