(* ===== verification/Decimal.thy ===== *)
theory Decimal
  imports Prelude
begin

text \<open>
  Decimal digits: the value of a string of digits, shared by the parser of constants and by the
  names of the files of the catalogue, and that printing a number and reading it gives it back.
\<close>

definition is_digit :: "char \<Rightarrow> bool" where
  "is_digit c \<longleftrightarrow> 48 \<le> (of_char c :: nat) \<and> (of_char c :: nat) \<le> 57"

definition digits_val :: "string \<Rightarrow> int" where
  "digits_val = foldl (\<lambda>n c. 10 * n + (int (of_char c) - 48)) 0"

lemma dec_digits: "dec n \<noteq> []" "list_all is_digit (dec n)" "digits_val (dec n) = int n"
proof (induction n rule: dec.induct)
  case (1 n)
  have d: "is_digit (char_of (48 + m))" "int (of_char (char_of (48 + m) :: char)) - 48 = int m" if "m < 10" for m :: nat
    using that by (simp_all add: is_digit_def)
  {
    case 1 show ?case by (simp add: dec.simps [of n])
  next
    case 2 show ?case using 1(2) d(1) [of n] d(1) [of "n mod 10"] by (subst dec.simps) simp
  next
    case 3
    show ?case
    proof (cases "n < 10")
      case True
      then show ?thesis using d(2) [of n] by (subst dec.simps) (simp add: digits_val_def)
    next
      case False
      have "digits_val (dec n) = 10 * digits_val (dec (n div 10)) + int (n mod 10)"
        using False d(2) [of "n mod 10"] by (subst dec.simps) (simp add: digits_val_def)
      also have "\<dots> = int n" using 1(3) [OF False] by (simp add: zdiv_int zmod_int)
      finally show ?thesis .
    qed
  }
qed

text \<open>\<open>to_string\<close> of a signed integer, and a number in a field of a given width.\<close>

definition show_int :: "int \<Rightarrow> string" where
  "show_int v = (if v < 0 then CHR ''-'' # dec (nat (- v)) else dec (nat v))"

definition pad_left :: "nat \<Rightarrow> string \<Rightarrow> string" where
  "pad_left w s = replicate (w - length s) (CHR '' '') @ s"

lemma digits_val_zeros: "digits_val (replicate k (CHR ''0'') @ s) = digits_val s"
proof -
  have "foldl (\<lambda>n c. 10 * n + (int (of_char c) - 48)) 0 (replicate k (CHR ''0'')) = 0"
    by (induction k) simp_all
  then show ?thesis by (simp add: digits_val_def)
qed

lemma dec_inject: "dec m = dec n \<longleftrightarrow> m = n"
  by (metis dec_digits(3) of_nat_eq_iff)

end
