(* ===== verification/Wastprep.thy ===== *)
theory Wastprep
  imports Decimal
begin

text \<open>
  The test preparation tool \<open>tools/src/bin/wastprep.rs\<close>: it cuts the modules out of a WAST script
  and collects its \<open>assert_return\<close> forms by scanning the text. A Rust \<open>str\<close> is its list of bytes
  (HOL characters are bytes); slicing it inside a multi-byte character panics, which is an error
  value here. Reading the file, assembling the modules and writing the results are not modelled.
\<close>

section \<open>Strings\<close>

datatype prep_error = NotCharBoundary

definition is_cont :: "char \<Rightarrow> bool" where
  "is_cont c \<longleftrightarrow> 128 \<le> (of_char c :: nat) \<and> (of_char c :: nat) < 192"

definition is_char_boundary :: "string \<Rightarrow> nat \<Rightarrow> bool" where
  "is_char_boundary s i \<longleftrightarrow> i = length s \<or> i < length s \<and> \<not> is_cont (s ! i)"

text \<open>\<open>&s[i..]\<close> and \<open>&s[..j]\<close>\<close>

definition slice_from :: "string \<Rightarrow> nat \<Rightarrow> prep_error + string" where
  "slice_from s i = (if is_char_boundary s i then Inr (drop i s) else Inl NotCharBoundary)"

definition slice_to :: "string \<Rightarrow> nat \<Rightarrow> prep_error + string" where
  "slice_to s j = (if is_char_boundary s j then Inr (take j s) else Inl NotCharBoundary)"

definition slice :: "string \<Rightarrow> nat \<Rightarrow> nat \<Rightarrow> prep_error + string" where
  "slice s i j = rbind (slice_to s j) (\<lambda>t. slice_from t i)"

definition starts_with :: "string \<Rightarrow> string \<Rightarrow> bool" where
  "starts_with s p \<longleftrightarrow> take (length p) s = p"

text \<open>\<open>s.find(p)\<close>: the first position of \<open>p\<close>.\<close>

fun find_str :: "string \<Rightarrow> string \<Rightarrow> nat option" where
  "find_str p [] = (if p = [] then Some 0 else None)"
| "find_str p (c # cs) = (if starts_with (c # cs) p then Some 0 else map_option Suc (find_str p cs))"

text \<open>The encodings of the characters with the property \<open>White_Space\<close>.\<close>

definition white_space :: "string list" where
  "white_space =
     [[CHR 0x09], [CHR 0x0A], [CHR 0x0B], [CHR 0x0C], [CHR 0x0D], [CHR 0x20], [CHR 0xC2, CHR 0x85],
      [CHR 0xC2, CHR 0xA0], [CHR 0xE1, CHR 0x9A, CHR 0x80], [CHR 0xE2, CHR 0x80, CHR 0xA8],
      [CHR 0xE2, CHR 0x80, CHR 0xA9], [CHR 0xE2, CHR 0x80, CHR 0xAF], [CHR 0xE2, CHR 0x81, CHR 0x9F],
      [CHR 0xE3, CHR 0x80, CHR 0x80], [CHR 0xE2, CHR 0x80, CHR 0x80], [CHR 0xE2, CHR 0x80, CHR 0x81],
      [CHR 0xE2, CHR 0x80, CHR 0x82], [CHR 0xE2, CHR 0x80, CHR 0x83], [CHR 0xE2, CHR 0x80, CHR 0x84],
      [CHR 0xE2, CHR 0x80, CHR 0x85], [CHR 0xE2, CHR 0x80, CHR 0x86], [CHR 0xE2, CHR 0x80, CHR 0x87],
      [CHR 0xE2, CHR 0x80, CHR 0x88], [CHR 0xE2, CHR 0x80, CHR 0x89], [CHR 0xE2, CHR 0x80, CHR 0x8A]]"

definition leading_space :: "string \<Rightarrow> string option" where
  "leading_space s = List.find (starts_with s) white_space"

lemma leading_space_pos: "leading_space s = Some w \<Longrightarrow> w \<noteq> [] \<and> starts_with s w"
  by (auto simp: leading_space_def find_Some_iff white_space_def nth_append split: if_splits)

function trim_start :: "string \<Rightarrow> string" where
  "trim_start s = (case leading_space s of None \<Rightarrow> s | Some w \<Rightarrow> trim_start (drop (length w) s))"
  by auto

termination
proof (relation "measure length")
  fix s w assume "leading_space s = Some w"
  with leading_space_pos [OF this] have "0 < length w" "take (length w) s = w" by (auto simp: starts_with_def)
  then have "0 < length s" by (cases s) auto
  with \<open>0 < length w\<close> show "(drop (length w) s, s) \<in> measure length" by simp
qed simp

declare trim_start.simps [simp del]

section \<open>Forms\<close>

text \<open>
  The loop that finds the end of a parenthesised form: the number of bytes up to and including the
  parenthesis that closes it, or to the end of the text.
\<close>

fun form_len :: "string \<Rightarrow> int \<Rightarrow> nat" where
  "form_len [] depth = 0"
| "form_len (c # cs) depth =
     (if c = CHR ''('' then Suc (form_len cs (depth + 1))
      else if c = CHR '')'' then (if depth - 1 = 0 then 1 else Suc (form_len cs (depth - 1)))
      else Suc (form_len cs depth))"

lemma form_len_le: "form_len s d \<le> length s"
  by (induction s d rule: form_len.induct) auto

lemma form_len_pos: "s \<noteq> [] \<Longrightarrow> 0 < form_len s d"
  by (cases s) auto

abbreviation module_kw :: string where
  "module_kw \<equiv> ''(module''"

abbreviation assert_kw :: string where
  "assert_kw \<equiv> ''(assert_return''"

lemma find_str_Some:
  "find_str p s = Some k \<Longrightarrow> k \<le> length s \<and> starts_with (drop k s) p \<and> (\<forall>j < k. \<not> starts_with (drop j s) p)"
proof (induction s arbitrary: k)
  case (Cons c cs)
  show ?case
  proof (cases "starts_with (c # cs) p")
    case False
    with Cons.prems obtain j where "k = Suc j" "find_str p cs = Some j" by auto
    then show ?thesis using Cons.IH [of j] False by (auto simp: less_Suc_eq_0_disj)
  qed (use Cons.prems in auto)
qed (auto simp: starts_with_def split: if_splits)

lemma starts_with_length: "starts_with s p \<Longrightarrow> length p \<le> length s"
  unfolding starts_with_def by (metis length_take min.cobounded1)

function extract_from :: "string \<Rightarrow> nat \<Rightarrow> prep_error + string list" where
  "extract_from src i =
     (if i < length src then
        rbind (slice_from src i) (\<lambda>rest.
          case find_str module_kw (drop i src) of
            None \<Rightarrow> Inr []
          | Some rel \<Rightarrow>
              let start = i + rel; j = start + form_len (drop start src) 0 in
              rbind (slice src start j) (\<lambda>m. rbind (extract_from src j) (\<lambda>ms. Inr (m # ms))))
      else Inr [])"
  by auto

termination
proof (relation "measure (\<lambda>(src, i). length src - i)")
  fix src :: string and i rel and start j assume i: "i < length src" and f: "find_str module_kw (drop i src) = Some rel"
    and "start = i + rel" "j = start + form_len (drop start src) 0"
  moreover have "starts_with (drop rel (drop i src)) module_kw" using find_str_Some [OF f] by simp
  then have "drop start src \<noteq> []" using starts_with_length \<open>start = i + rel\<close> by (force simp: add.commute)
  ultimately show "((src, j), src, i) \<in> measure (\<lambda>(src, i). length src - i)"
    using form_len_pos [of "drop start src" 0] by auto
qed simp

declare extract_from.simps [simp del]

definition extract_modules :: "string \<Rightarrow> prep_error + string list" where
  "extract_modules src = extract_from src 0"

section \<open>Numbers\<close>

text \<open>\<open>parse::<i64>()\<close>: an optional sign, at least one digit, no overflow.\<close>

definition parse_i64 :: "string \<Rightarrow> int option" where
  "parse_i64 s =
     (let (neg, ds) = (case s of
            [] \<Rightarrow> (False, [])
          | c # cs \<Rightarrow> if c = CHR ''-'' then (True, cs) else if c = CHR ''+'' then (False, cs) else (False, s)) in
      if ds = [] \<or> \<not> list_all is_digit ds then None
      else
        let v = (if neg then - digits_val ds else digits_val ds) in
        if - (2 ^ 63) \<le> v \<and> v < 2 ^ 63 then Some v else None)"

text \<open>The length of the sign and the digits at the start.\<close>

definition number_len :: "string \<Rightarrow> nat" where
  "number_len t =
     (let k = (case t of c # _ \<Rightarrow> if c = CHR ''-'' \<or> c = CHR ''+'' then 1 else 0 | [] \<Rightarrow> 0)
      in k + length (takeWhile is_digit (drop k t)))"

lemma trim_start_le: "length (trim_start s) \<le> length s"
proof (induction s rule: trim_start.induct)
  case (1 s)
  show ?case
  proof (cases "leading_space s")
    case None
    then show ?thesis by (simp add: trim_start.simps)
  next
    case (Some w)
    then show ?thesis using 1 [OF Some] by (subst trim_start.simps) simp
  qed
qed

function i64_consts :: "string \<Rightarrow> prep_error + int list" where
  "i64_consts s =
     (case find_str ''i64.const'' s of
        None \<Rightarrow> Inr []
      | Some p \<Rightarrow>
          rbind (slice_from s (p + 9)) (\<lambda>rest.
            let t = trim_start (drop (p + 9) s); e = number_len t in
            rbind (slice_to t e) (\<lambda>num.
            rbind (slice_from t (min e (length t))) (\<lambda>_.
            rbind (i64_consts (drop (min e (length t)) t)) (\<lambda>vs.
              Inr (if e > 0 then (case parse_i64 num of Some v \<Rightarrow> v # vs | None \<Rightarrow> vs) else vs))))))"
  by auto

termination
proof (relation "measure length")
  fix s p t e assume f: "find_str ''i64.const'' s = Some p" and t: "t = trim_start (drop (p + 9) s)" and e: "e = number_len t"
  have "9 \<le> length (drop p s)" using find_str_Some [OF f] starts_with_length by fastforce
  moreover have "length t \<le> length s - (p + 9)" using trim_start_le [of "drop (p + 9) s"] by (simp add: t)
  ultimately show "(drop (min e (length t)) t, s) \<in> measure length" by auto
qed simp

declare i64_consts.simps [simp del]

definition parse_i64_consts :: "string \<Rightarrow> prep_error + int list" where
  "parse_i64_consts s = i64_consts s"

section \<open>Assertions\<close>

record assertion =
  as_module :: nat
  as_export :: string
  as_args :: "int list"
  as_expected :: "int list"

text \<open>The assertion in one \<open>assert_return\<close> form, if it invokes an export and has two constants.\<close>

definition parse_chunk :: "nat \<Rightarrow> string \<Rightarrow> prep_error + assertion list" where
  "parse_chunk module chunk =
     (case find_str ''invoke \"'' chunk of
        None \<Rightarrow> Inr []
      | Some q1 \<Rightarrow>
          rbind (slice_from chunk (q1 + 8)) (\<lambda>rest.
            case find_str ''\"'' rest of
              None \<Rightarrow> Inr []
            | Some q2 \<Rightarrow>
                rbind (slice_to rest q2) (\<lambda>export.
                rbind (parse_i64_consts chunk) (\<lambda>nums.
                  Inr (if length nums \<ge> 2
                       then [\<lparr>as_module = module, as_export = export, as_args = butlast nums, as_expected = [last nums]\<rparr>]
                       else [])))))"

function assertions_from :: "string \<Rightarrow> nat \<Rightarrow> nat \<Rightarrow> bool \<Rightarrow> prep_error + assertion list" where
  "assertions_from src pos module seen_module =
     (if pos < length src then
        rbind (slice_from src pos) (\<lambda>rest.
          if starts_with (drop pos src) module_kw then
            assertions_from src (pos + 7) (if seen_module then module + 1 else module) True
          else if starts_with (drop pos src) assert_kw then
            let j = pos + form_len (drop pos src) 0 in
            rbind (slice src pos j) (\<lambda>chunk.
            rbind (parse_chunk module chunk) (\<lambda>xs.
            rbind (assertions_from src j module seen_module) (\<lambda>ys. Inr (xs @ ys))))
          else assertions_from src (pos + 1) module seen_module)
      else Inr [])"
  by auto

termination
proof (relation "measure (\<lambda>(src, pos, _, _). length src - pos)")
  fix src :: string and pos module :: nat and seen rest j
  assume "pos < length src" "j = pos + form_len (drop pos src) 0"
  then show "((src, j, module, seen), src, pos, module, seen) \<in> measure (\<lambda>(src, pos, _, _). length src - pos)"
    using form_len_pos [of "drop pos src" 0] by auto
qed auto

declare assertions_from.simps [simp del]

definition parse_assertions :: "string \<Rightarrow> prep_error + assertion list" where
  "parse_assertions src = assertions_from src 0 0 False"

end
