(* ===== verification/Wastprep_Correct.thy ===== *)
theory Wastprep_Correct
  imports Wastprep
begin

text \<open>
  Correctness of the scanners: the modules cut out of a script are its top-level module forms, and
  decimal constants read back. The specification speaks of parenthesis depth and positions only.
\<close>

section \<open>Parenthesised forms\<close>

fun depth :: "string \<Rightarrow> int" where
  "depth [] = 0"
| "depth (c # cs) = (if c = CHR ''('' then 1 else if c = CHR '')'' then -1 else 0) + depth cs"

text \<open>
  \<open>m\<close> is a form in front of \<open>rest\<close>: inside it the depth is positive, and it ends where the depth is
  zero again, or, unclosed, at the end of the text.
\<close>

definition whole_form :: "string \<Rightarrow> string \<Rightarrow> bool" where
  "whole_form m rest \<longleftrightarrow>
     (\<forall>k. 0 < k \<and> k < length m \<longrightarrow> 0 < depth (take k m)) \<and> (depth m = 0 \<or> 0 < depth m \<and> rest = [])"

lemma form_len_depth:
  assumes "0 < d"
  shows "(\<forall>k < form_len s d. 0 < d + depth (take k s)) \<and>
    (form_len s d = length s \<and> 0 < d + depth s \<or> d + depth (take (form_len s d) s) = 0)"
  using assms
proof (induction s d rule: form_len.induct)
  case (2 c cs d)
  show ?case
  proof (cases "c = CHR '')'' \<and> d = 1")
    case True
    then show ?thesis by simp
  next
    case False
    obtain e where e: "0 < e" "form_len (c # cs) d = Suc (form_len cs e)" "\<And>xs. d + depth (c # xs) = e + depth xs"
      and ih: "(\<forall>k < form_len cs e. 0 < e + depth (take k cs)) \<and>
        (form_len cs e = length cs \<and> 0 < e + depth cs \<or> e + depth (take (form_len cs e) cs) = 0)"
    proof (cases "c = CHR ''(''")
      case True
      then show ?thesis using 2(1,4) by (intro that [of "d + 1"]) simp_all
    next
      case no: False
      show ?thesis
      proof (cases "c = CHR '')''")
        case True
        then show ?thesis using no False 2(2,4) by (intro that [of "d - 1"]) simp_all
      next
        case other: False
        then show ?thesis using no 2(3,4) by (intro that [of d]) simp_all
      qed
    qed
    have "0 < d + depth (take k (c # cs))" if "k < Suc (form_len cs e)" for k
      using that ih 2(4) e(3) by (cases k) (auto simp del: depth.simps(2))
    then show ?thesis using ih unfolding e(2) take_Suc_Cons e(3) by (auto simp del: depth.simps(2) simp: e(3))
  qed
qed simp

lemma form_len_whole:
  assumes "s = CHR ''('' # cs"
  shows "whole_form (take (form_len s 0) s) (drop (form_len s 0) s)"
proof -
  have n: "form_len s 0 = Suc (form_len cs 1)" by (simp add: assms)
  note d = form_len_depth [of 1 cs]
  have "0 < depth (take k (take (form_len s 0) s))" if "0 < k" "k < length (take (form_len s 0) s)" for k
  proof -
    from that obtain j where "k = Suc j" "j < form_len cs 1" by (cases k) (auto simp: n)
    then show ?thesis using d by (simp add: assms n min_def)
  qed
  moreover have "depth (take (form_len s 0) s) = 0 \<or> 0 < depth (take (form_len s 0) s) \<and> drop (form_len s 0) s = []"
    using d by (auto simp: n assms)
  ultimately show ?thesis by (simp add: whole_form_def)
qed

section \<open>Modules\<close>

text \<open>The module forms of a text, from left to right: none starts in a gap.\<close>

inductive modules_of :: "string \<Rightarrow> string list \<Rightarrow> bool" where
  none: "(\<forall>j. \<not> starts_with (drop j s) module_kw) \<Longrightarrow> modules_of s []"
| some: "s = gap @ m @ rest \<Longrightarrow> (\<forall>j < length gap. \<not> starts_with (drop j s) module_kw) \<Longrightarrow> starts_with m module_kw \<Longrightarrow>
    whole_form m rest \<Longrightarrow> modules_of rest ms \<Longrightarrow> modules_of s (m # ms)"

lemma find_str_None: "find_str p s = None \<Longrightarrow> p \<noteq> [] \<Longrightarrow> \<not> starts_with (drop j s) p"
proof (induction s arbitrary: j)
  case (Cons c cs)
  then show ?case by (cases j) (auto split: if_splits)
qed (simp add: starts_with_def)

text \<open>What is used of UTF-8: a continuation byte follows a byte that is not ASCII.\<close>

definition text_ok :: "string \<Rightarrow> bool" where
  "text_ok s \<longleftrightarrow> (\<forall>i < length s. is_cont (s ! i) \<longrightarrow> 0 < i \<and> 128 \<le> (of_char (s ! (i - 1)) :: nat))"

lemma boundary_after_ascii:
  assumes "text_ok s" and "i \<le> length s" and "i = 0 \<or> (of_char (s ! (i - 1)) :: nat) < 128"
  shows "is_char_boundary s i"
  using assms by (auto simp: text_ok_def is_char_boundary_def le_less)

lemma form_end_ascii:
  assumes "form_len s d < length s" and "0 < form_len s d"
  shows "s ! (form_len s d - 1) = CHR '')''"
  using assms
proof (induction s d rule: form_len.induct)
  case (2 c cs d)
  have "(c # cs) ! (Suc n - 1) = CHR '')''" if "cs ! (n - 1) = CHR '')''" "0 < n" for n
    using that by (simp add: nth_Cons')
  with 2 form_len_pos [of cs] show ?case by (cases cs) (auto split: if_splits)
qed simp

lemma form_boundary:
  assumes "text_ok s" and "start < length s" and "j = start + form_len (drop start s) 0"
  shows "is_char_boundary s j" and "j \<le> length s"
proof -
  have le: "form_len (drop start s) 0 \<le> length s - start" using form_len_le [of "drop start s" 0] by simp
  then show j: "j \<le> length s" using assms(2,3) by simp
  show "is_char_boundary s j"
  proof (cases "form_len (drop start s) 0 < length (drop start s)")
    case True
    have "0 < form_len (drop start s) 0" using assms(2) by (intro form_len_pos) simp
    from form_end_ascii [OF True this] this have "s ! (j - 1) = CHR '')''"
      using assms(2,3) by simp
    then show ?thesis using boundary_after_ascii [OF assms(1) j] by simp
  next
    case False
    then show ?thesis using assms(2,3) le by (simp add: is_char_boundary_def)
  qed
qed

lemma slice_eq:
  assumes "is_char_boundary s i" and "is_char_boundary s j" and "i < j" and "j \<le> length s"
  shows "slice s i j = Inr (take (j - i) (drop i s))"
proof -
  have "is_char_boundary (take j s) i" using assms(1,3,4) by (auto simp: is_char_boundary_def)
  then show ?thesis using assms(2) by (simp add: slice_def slice_to_def slice_from_def drop_take)
qed

lemma boundary_at_ascii: "i < length s \<Longrightarrow> (of_char (s ! i) :: nat) < 128 \<Longrightarrow> is_char_boundary s i"
  by (simp add: is_char_boundary_def is_cont_def)

lemma starts_with_split: "starts_with s p \<longleftrightarrow> (\<exists>r. s = p @ r)"
  unfolding starts_with_def by (metis append_eq_conv_conj append_take_drop_id)

lemma module_prefix:
  assumes "starts_with s module_kw"
  shows "starts_with (take (form_len s 0) s) module_kw"
proof -
  obtain r where s: "s = module_kw @ r" using assms by (auto simp: starts_with_split)
  have "form_len s 0 = 7 + form_len r 1" by (simp add: s)
  then show ?thesis by (simp add: s starts_with_def)
qed

lemma extract_from_modules:
  assumes "text_ok src" and "i \<le> length src" and "is_char_boundary src i"
  shows "\<exists>ms. extract_from src i = Inr ms \<and> modules_of (drop i src) ms"
  using assms(2,3)
proof (induction "length src - i" arbitrary: i rule: less_induct)
  case less
  show ?case
  proof (cases "find_str module_kw (drop i src)")
    case None
    then have "modules_of (drop i src) []" by (intro modules_of.none) (auto dest: find_str_None)
    moreover have "extract_from src i = Inr []"
      using None less.prems(2) by (subst extract_from.simps) (simp add: slice_from_def)
    ultimately show ?thesis by blast
  next
    case (Some rel)
    let ?start = "i + rel"
    let ?n = "form_len (drop ?start src) 0"
    let ?j = "?start + ?n"
    have f: "starts_with (drop ?start src) module_kw" "\<forall>j < rel. \<not> starts_with (drop j (drop i src)) module_kw"
      using find_str_Some [OF Some] by (simp_all add: add.commute)
    have kw: "7 \<le> length (drop ?start src)" using starts_with_length [OF f(1)] by simp
    then have st: "?start < length src" "i < length src" by simp_all
    obtain cs where cs: "drop ?start src = CHR ''('' # cs"
      using f(1) by (cases "drop ?start src") (auto simp: starts_with_def)
    have "src ! ?start = CHR ''(''" using cs st(1) by (metis hd_drop_conv_nth list.sel(1))
    then have b: "is_char_boundary src ?start" using st(1) by (intro boundary_at_ascii) simp_all
    note j = form_boundary [OF assms(1) st(1) refl]
    have n: "0 < ?n" using kw by (intro form_len_pos) auto
    have slc: "slice src ?start ?j = Inr (take ?n (drop ?start src))" using slice_eq [OF b j(1) _ j(2)] n by simp
    have dec: "length src - ?j < length src - i" using n st j(2) by simp
    obtain ms where ms: "extract_from src ?j = Inr ms" "modules_of (drop ?j src) ms"
      using less.hyps [OF dec j(2) j(1)] by blast
    have "modules_of (drop i src) (take ?n (drop ?start src) # ms)"
    proof (rule modules_of.some [of _ "take rel (drop i src)" _ "drop ?j src"])
      show "drop i src = take rel (drop i src) @ take ?n (drop ?start src) @ drop ?j src"
        by (metis add.commute append_take_drop_id drop_drop)
      show "starts_with (take ?n (drop ?start src)) module_kw"
        using f(1) by (rule module_prefix)
      show "whole_form (take ?n (drop ?start src)) (drop ?j src)"
        using form_len_whole [OF cs] by (simp add: add.commute add.left_commute)
    qed (use f(2) st ms(2) in auto)
    moreover have "extract_from src i = Inr (take ?n (drop ?start src) # ms)"
      using Some st(2) less.prems(2) slc ms(1) by (subst extract_from.simps) (simp add: slice_from_def Let_def)
    ultimately show ?thesis by blast
  qed
qed

definition ascii :: "string \<Rightarrow> bool" where
  "ascii = list_all (\<lambda>c. (of_char c :: nat) < 128)"

lemma text_ok_ascii: "ascii s \<Longrightarrow> text_ok s"
  by (auto simp: ascii_def text_ok_def is_cont_def list_all_length)


definition script_example :: string where
  "script_example = '';; a (module (func)) (assert_trap) (module (memory 1)''"


section \<open>Constants\<close>

definition const_form :: "int \<Rightarrow> string" where
  "const_form v = ''(i64.const '' @ show_int v @ '')''"

lemma digit_not_sign: "is_digit c \<Longrightarrow> c \<noteq> CHR ''-'' \<and> c \<noteq> CHR ''+''"
  by (auto simp: is_digit_def)

lemma parse_show:
  assumes "- (2 ^ 63) \<le> v" and "v < 2 ^ 63"
  shows "parse_i64 (show_int v) = Some v"
proof (cases "v < 0")
  case True
  then show ?thesis using assms dec_digits [of "nat (- v)"] by (simp add: show_int_def parse_i64_def)
next
  case False
  obtain c cs where c: "dec (nat v) = c # cs" using dec_digits(1) by (cases "dec (nat v)") auto
  have "c \<noteq> CHR ''-''" "c \<noteq> CHR ''+''" using dec_digits(2) [of "nat v"] digit_not_sign [of c] by (simp_all add: c)
  then show ?thesis using assms False dec_digits(2,3) [of "nat v"] by (simp add: show_int_def parse_i64_def c)
qed

lemma number_len_show: "number_len (show_int v @ CHR '')'' # r) = length (show_int v)"
proof -
  have tw: "takeWhile is_digit (ds @ CHR '')'' # r) = ds" if "list_all is_digit ds" for ds
    using that by (induction ds) (simp_all add: is_digit_def)
  show ?thesis
  proof (cases "v < 0")
    case True
    then show ?thesis using tw dec_digits(2) by (simp add: show_int_def number_len_def)
  next
    case False
    obtain c cs where c: "dec (nat v) = c # cs" using dec_digits(1) by (cases "dec (nat v)") auto
    have "c \<noteq> CHR ''-''" "c \<noteq> CHR ''+''" using dec_digits(2) [of "nat v"] digit_not_sign [of c] by (simp_all add: c)
    moreover have "is_digit c" "list_all is_digit cs" using dec_digits(2) [of "nat v"] by (simp_all add: c)
    ultimately show ?thesis using False tw [of cs] by (simp add: show_int_def number_len_def c)
  qed
qed

lemma no_leading_space:
  assumes "is_digit c \<or> c = CHR ''-''"
  shows "leading_space (c # t) = None"
proof -
  have all: "list_all (\<lambda>w. w \<noteq> [] \<and> (of_char (hd w) :: nat) \<noteq> 45 \<and> ((of_char (hd w) :: nat) < 48 \<or> 57 < (of_char (hd w) :: nat))) white_space"
    by (simp add: white_space_def)
  have "\<not> starts_with (c # t) w" if "w \<in> set white_space" for w
  proof
    assume "starts_with (c # t) w"
    moreover have w: "w \<noteq> []" "(of_char (hd w) :: nat) \<noteq> 45" "(of_char (hd w) :: nat) < 48 \<or> 57 < (of_char (hd w) :: nat)"
      using all that by (auto simp: list_all_iff)
    ultimately have "hd w = c" by (cases w) (auto simp: starts_with_def)
    then show False using w(2,3) assms by (auto simp: is_digit_def)
  qed
  then show ?thesis by (simp add: leading_space_def find_None_iff)
qed

lemma show_int_head: "\<exists>c cs. show_int v = c # cs \<and> (is_digit c \<or> c = CHR ''-'')"
  using dec_digits(1,2) [of "nat v"] by (cases "dec (nat v)") (auto simp: show_int_def)

lemma find_skip: "\<forall>x \<in> set xs. \<not> P x \<Longrightarrow> List.find P (xs @ ys) = List.find P ys"
  by (induction xs) auto

lemma leading_blank: "leading_space (CHR '' '' # t) = Some '' ''"
proof -
  have split: "white_space = take 5 white_space @ '' '' # drop 6 white_space" by (simp add: white_space_def)
  have other: "list_all (\<lambda>w. w \<noteq> [] \<and> hd w \<noteq> CHR '' '') (take 5 white_space)" by (simp add: white_space_def)
  have "\<not> starts_with (CHR '' '' # t) w" if "w \<in> set (take 5 white_space)" for w
    using other that by (cases w) (auto simp: list_all_iff starts_with_def)
  then have "List.find (starts_with (CHR '' '' # t)) (take 5 white_space @ ws) = List.find (starts_with (CHR '' '' # t)) ws" for ws
    by (intro find_skip) blast
  then show ?thesis unfolding leading_space_def by (subst split) (simp add: starts_with_def)
qed

lemma trim_show: "trim_start (CHR '' '' # show_int v @ r) = show_int v @ r"
proof -
  obtain c cs where c: "show_int v = c # cs" "is_digit c \<or> c = CHR ''-''" using show_int_head by blast
  have "leading_space (CHR '' '' # show_int v @ r) = Some '' ''" by (rule leading_blank)
  moreover have "leading_space (show_int v @ r) = None" using no_leading_space [OF c(2)] by (simp add: c(1))
  ultimately show ?thesis by (simp add: trim_start.simps [of "CHR '' '' # show_int v @ r"] trim_start.simps [of "show_int v @ r"])
qed

lemma boundary_Cons [simp]: "is_char_boundary (c # s) (Suc i) = is_char_boundary s i"
  by (auto simp: is_char_boundary_def)

lemma i64_consts_skip:
  assumes "\<not> starts_with (c # s) ''i64.const''"
  shows "i64_consts (c # s) = i64_consts s"
proof (cases "find_str ''i64.const'' s")
  case None
  then show ?thesis using assms by (simp add: i64_consts.simps [of "c # s"] i64_consts.simps [of s])
next
  case (Some p)
  have "drop (Suc p + 9) (c # s) = drop (p + 9) s" "slice_from (c # s) (Suc p + 9) = slice_from s (p + 9)"
    by (simp_all only: add_Suc drop_Suc_Cons slice_from_def boundary_Cons)
  with Some show ?thesis using assms by (simp add: i64_consts.simps [of "c # s"] i64_consts.simps [of s] del: add_Suc)
qed

lemma i64_consts_form:
  assumes "- (2 ^ 63) \<le> v" and "v < 2 ^ 63"
  shows "i64_consts (const_form v @ r) = rbind (i64_consts r) (\<lambda>vs. Inr (v # vs))"
proof -
  let ?s = "''i64.const'' @ CHR '' '' # show_int v @ CHR '')'' # r"
  let ?t = "show_int v @ CHR '')'' # r"
  have find: "find_str ''i64.const'' ?s = Some 0" by (simp add: starts_with_def)
  have rest: "slice_from ?s 9 = Inr (CHR '' '' # ?t)" by (simp add: slice_from_def is_char_boundary_def is_cont_def)
  have t: "trim_start (CHR '' '' # ?t) = ?t" by (rule trim_show)
  have b: "is_char_boundary ?t (length (show_int v))" by (simp add: is_char_boundary_def is_cont_def nth_append)
  have pos: "0 < length (show_int v)" using show_int_head [of v] by auto
  have d: "drop 9 ?s = CHR '' '' # ?t" by simp
  have "i64_consts ?s = rbind (i64_consts (CHR '')'' # r)) (\<lambda>vs. Inr (v # vs))"
    unfolding i64_consts.simps [of ?s] find option.case add_0 rest d t Let_def number_len_show rbind_simps
    using b pos by (simp add: slice_to_def slice_from_def parse_show [OF assms])
  also have "i64_consts (CHR '')'' # r) = i64_consts r" by (rule i64_consts_skip) (simp add: starts_with_def)
  finally show ?thesis
    using i64_consts_skip [of "CHR ''(''" ?s] by (simp add: const_form_def starts_with_def)
qed

text \<open>
  C27. Decimal constants read back: scanning a text of constants in decimal, of any sign and over the
  whole range of 64-bit integers, returns their values in order.
\<close>

theorem consts_round_trip:
  assumes "\<forall>v \<in> set vs. - (2 ^ 63) \<le> v \<and> v < 2 ^ 63"
  shows "parse_i64_consts (concat (map const_form vs)) = Inr vs"
proof -
  have "i64_consts (concat (map const_form vs)) = Inr vs"
    using assms
  proof (induction vs)
    case Nil
    then show ?case by (simp add: i64_consts.simps)
  next
    case (Cons v vs)
    then show ?case using i64_consts_form [of v] by simp
  qed
  then show ?thesis by (simp add: parse_i64_consts_def)
qed

theorem consts_round_trip_witness:
  "parse_i64_consts (concat (map const_form [7, - (2 ^ 63), 0])) = Inr [7, - (2 ^ 63), 0]"
  by (rule consts_round_trip) simp

section \<open>Assertions\<close>

lemma ascii_boundary: "ascii s \<Longrightarrow> i \<le> length s \<Longrightarrow> is_char_boundary s i"
  by (cases "i = length s") (simp add: is_char_boundary_def, simp add: ascii_def boundary_at_ascii list_all_length)

lemma ascii_drop [simp]: "ascii s \<Longrightarrow> ascii (drop i s)"
  by (auto simp: ascii_def list_all_iff dest: in_set_dropD)

lemma ascii_take [simp]: "ascii s \<Longrightarrow> ascii (take i s)"
  by (auto simp: ascii_def list_all_iff dest: in_set_takeD)

lemma ascii_slice_from: "ascii s \<Longrightarrow> i \<le> length s \<Longrightarrow> slice_from s i = Inr (drop i s)"
  by (simp add: slice_from_def ascii_boundary)

lemma ascii_slice_to: "ascii s \<Longrightarrow> i \<le> length s \<Longrightarrow> slice_to s i = Inr (take i s)"
  by (simp add: slice_to_def ascii_boundary)

lemma ascii_slice: "ascii s \<Longrightarrow> i \<le> j \<Longrightarrow> j \<le> length s \<Longrightarrow> slice s i j = Inr (drop i (take j s))"
  by (simp add: slice_def ascii_slice_to ascii_slice_from)

lemmas ascii_slices = ascii_slice_from ascii_slice_to ascii_slice

lemma ascii_trim_start: "ascii s \<Longrightarrow> ascii (trim_start s)"
proof (induction s rule: trim_start.induct)
  case (1 s)
  show ?case
  proof (cases "leading_space s")
    case None
    then show ?thesis using 1(2) by (simp add: trim_start.simps)
  next
    case (Some w)
    then show ?thesis using 1(1) [OF Some] 1(2) by (subst trim_start.simps) simp
  qed
qed

lemma number_len_le: "number_len t \<le> length t"
proof -
  have "length (takeWhile is_digit xs) \<le> length xs" for xs by (rule length_takeWhile_le)
  from this [of t] this [of "tl t"] show ?thesis by (cases t) (auto simp: number_len_def drop_Suc)
qed

definition i64_range :: "int \<Rightarrow> bool" where
  "i64_range v \<longleftrightarrow> - (2 ^ 63) \<le> v \<and> v < 2 ^ 63"

lemma parse_i64_range: "parse_i64 s = Some v \<Longrightarrow> i64_range v"
  by (auto simp: parse_i64_def i64_range_def Let_def split: if_splits prod.splits)

lemma i64_consts_ascii: "ascii s \<Longrightarrow> \<exists>vs. i64_consts s = Inr vs \<and> list_all i64_range vs"
proof (induction s rule: i64_consts.induct)
  case (1 s)
  show ?case
  proof (cases "find_str ''i64.const'' s")
    case None
    then show ?thesis by (subst i64_consts.simps) simp
  next
    case (Some p)
    let ?t = "trim_start (drop (p + 9) s)"
    have f: "p + 9 \<le> length s" using find_str_Some [OF Some] starts_with_length by fastforce
    have t: "ascii ?t" using 1(2) by (simp add: ascii_trim_start)
    obtain vs where vs: "i64_consts (drop (min (number_len ?t) (length ?t)) ?t) = Inr vs" "list_all i64_range vs"
      using 1(1) [OF Some refl refl] t by auto
    show ?thesis
      using vs f Some 1(2) t number_len_le [of ?t] parse_i64_range
      by (subst i64_consts.simps) (auto simp: ascii_slices Let_def split: option.splits)
  qed
qed

text \<open>What the writer of the results relies on: a call has arguments, one expected result, 64-bit values.\<close>

definition assertion_ok :: "assertion \<Rightarrow> bool" where
  "assertion_ok a \<longleftrightarrow>
     as_args a \<noteq> [] \<and> length (as_expected a) = 1 \<and> list_all i64_range (as_args a @ as_expected a)"

lemma parse_chunk_ascii:
  assumes "ascii chunk"
  shows "\<exists>xs. parse_chunk module chunk = Inr xs \<and> list_all assertion_ok xs"
proof (cases "find_str ''invoke \"'' chunk")
  case None
  then show ?thesis by (simp add: parse_chunk_def)
next
  case (Some q1)
  note inv = Some
  have q1: "q1 + 8 \<le> length chunk" using find_str_Some [OF Some] starts_with_length by fastforce
  show ?thesis
  proof (cases "find_str ''\"'' (drop (q1 + 8) chunk)")
    case None
    then show ?thesis using Some q1 assms by (simp add: parse_chunk_def ascii_slices)
  next
    case (Some q2)
    have q2: "q2 \<le> length (drop (q1 + 8) chunk)" using find_str_Some [OF Some] by blast
    obtain vs where vs: "parse_i64_consts chunk = Inr vs" "list_all i64_range vs"
      using i64_consts_ascii [OF assms] by (auto simp: parse_i64_consts_def)
    have "assertion_ok \<lparr>as_module = module, as_export = e, as_args = butlast vs, as_expected = [last vs]\<rparr>"
      if "2 \<le> length vs" for e
      using that vs(2) by (cases vs rule: rev_cases) (auto simp: assertion_ok_def)
    then show ?thesis
      using Some q1 q2 assms vs(1) inv by (auto simp: parse_chunk_def ascii_slices)
  qed
qed

lemma assertions_from_ascii:
  "ascii src \<Longrightarrow> \<exists>xs. assertions_from src pos module seen = Inr xs \<and> list_all assertion_ok xs"
proof (induction src pos module seen rule: assertions_from.induct)
  case (1 src pos module seen)
  consider (over) "\<not> pos < length src"
    | (module) "pos < length src" "starts_with (drop pos src) module_kw"
    | (form) "pos < length src" "\<not> starts_with (drop pos src) module_kw" "starts_with (drop pos src) assert_kw"
    | (skip) "pos < length src" "\<not> starts_with (drop pos src) module_kw" "\<not> starts_with (drop pos src) assert_kw"
    by blast
  then show ?case
  proof cases
    case over
    then show ?thesis by (subst assertions_from.simps) simp
  next
    case module
    then show ?thesis using 1(1) [OF module 1(4)] 1(4) by (subst assertions_from.simps) (simp add: ascii_slices)
  next
    case form
    let ?j = "pos + form_len (drop pos src) 0"
    have j: "?j \<le> length src" using form_len_le [of "drop pos src" 0] form(1) by simp
    obtain xs where xs: "parse_chunk module (drop pos (take ?j src)) = Inr xs" "list_all assertion_ok xs"
      using parse_chunk_ascii [of "drop pos (take ?j src)"] 1(4) by auto
    obtain ys where ys: "assertions_from src ?j module seen = Inr ys" "list_all assertion_ok ys"
      using 1(2) [OF form refl 1(4)] by blast
    show ?thesis
      using form j xs ys 1(4) by (subst assertions_from.simps) (simp add: ascii_slices Let_def del: list_all_append, simp)
  next
    case skip
    then show ?thesis using 1(3) [OF skip 1(4)] 1(4) by (subst assertions_from.simps) (simp add: ascii_slices)
  qed
qed

text \<open>
  C28. Collecting the assertions of a script: on every script in ASCII, \<open>parse_assertions\<close> ends without a
  panic, and each assertion has at least one argument, exactly one expected result, and values within
  the 64-bit range.
\<close>

theorem parse_assertions_typed:
  assumes "ascii src"
  shows "\<exists>xs. parse_assertions src = Inr xs \<and> list_all assertion_ok xs"
  using assertions_from_ascii [OF assms] by (simp add: parse_assertions_def)

theorem parse_assertions_typed_witness:
  "ascii ''(assert_return (invoke \"f\" (i64.const 2)) (i64.const -3))'' \<and>
   (\<exists>xs. parse_assertions ''(assert_return (invoke \"f\" (i64.const 2)) (i64.const -3))'' = Inr xs \<and> list_all assertion_ok xs) \<and>
   parse_assertions ''(assert_return (invoke \"f\" (i64.const 2)) (i64.const -3))'' =
     Inr [\<lparr>as_module = 0, as_export = ''f'', as_args = [2], as_expected = [-3]\<rparr>]"
proof (intro conjI)
  show a: "ascii ''(assert_return (invoke \"f\" (i64.const 2)) (i64.const -3))''" by (simp add: ascii_def)
  show "\<exists>xs. parse_assertions ''(assert_return (invoke \"f\" (i64.const 2)) (i64.const -3))'' = Inr xs \<and> list_all assertion_ok xs"
    by (rule parse_assertions_typed [OF a])
  show "parse_assertions ''(assert_return (invoke \"f\" (i64.const 2)) (i64.const -3))'' =
     Inr [\<lparr>as_module = 0, as_export = ''f'', as_args = [2], as_expected = [-3]\<rparr>]"
    by code_simp
qed


end
