(* ===== verification/Catalog.thy ===== *)
theory Catalog
  imports Decimal
begin

text \<open>
  The conformance catalogue \<open>tools/src/bin/wast-catalog.rs\<close>: it walks through the directives of WAST
  scripts, writes every module they contain to a file of its own, and records one case per command.
  The crate \<open>wast\<close> is a parameter: reading and parsing a script, and encoding a module, are functions
  given to the definitions; of its directives the model has what the tool looks at. Counters have 32
  bits and wrap, as in a release build. Finding the
  scripts in the file system and printing JSON are not modelled.
\<close>

section \<open>Directives and cases\<close>

type_synonym bytes = "u8 list"

datatype wast_arg = ArgI32 u32 | ArgI64 u64 | ArgOther
datatype wast_ret = RetI32 u32 | RetI64 u64 | RetOther

record wast_invoke =
  inv_module :: "string option"
  inv_name :: string
  inv_args :: "wast_arg list"

datatype 'm wast_execute = ExInvoke wast_invoke | ExWat 'm | ExGet

datatype 'm wast_directive =
    DModule 'm
  | DModuleDefinition 'm
  | DRegister
  | DInvoke wast_invoke
  | DAssertReturn "'m wast_execute" "wast_ret list"
  | DAssertTrap "'m wast_execute"
  | DAssertUnlinkable 'm
  | DAssertInvalid
  | DAssertMalformed
  | DAssertExhaustion
  | DAssertException
  | DAssertSuspension
  | DOther

record wast_case =
  ca_kind :: string
  ca_file :: string
  ca_export :: string
  ca_wasm :: string
  ca_skip :: string
  ca_args :: "string list"
  ca_arg_ty :: "string list"
  ca_expected :: "string list"
  ca_exp_ty :: "string list"

definition skip_case :: "string \<Rightarrow> string \<Rightarrow> string \<Rightarrow> string \<Rightarrow> wast_case" where
  "skip_case file export wasm reason =
     \<lparr>ca_kind = ''skip'', ca_file = file, ca_export = export, ca_wasm = wasm, ca_skip = reason,
      ca_args = [], ca_arg_ty = [], ca_expected = [], ca_exp_ty = []\<rparr>"

definition arg_core :: "wast_arg \<Rightarrow> string + u64 \<times> string" where
  "arg_core a =
     (case a of
        ArgI32 v \<Rightarrow> Inr (ucast v, ''i32'')
      | ArgI64 v \<Rightarrow> Inr (v, ''i64'')
      | ArgOther \<Rightarrow> Inl ''non-int arg'')"

definition ret_core :: "wast_ret \<Rightarrow> string + u64 \<times> string" where
  "ret_core r =
     (case r of
        RetI32 v \<Rightarrow> Inr (ucast v, ''i32'')
      | RetI64 v \<Rightarrow> Inr (v, ''i64'')
      | RetOther \<Rightarrow> Inl ''non-int result'')"

text \<open>
  The loops over arguments and results: values are pushed as decimal text beside their types, the
  last error is kept.
\<close>

fun collect :: "('a \<Rightarrow> string + u64 \<times> string) \<Rightarrow> 'a list \<Rightarrow> string list \<times> string list \<times> string option \<Rightarrow>
    string list \<times> string list \<times> string option" where
  "collect f [] acc = acc"
| "collect f (x # xs) (vs, tys, bad) =
     (case f x of
        Inr (bits, ty) \<Rightarrow> collect f xs (vs @ [dec (unat bits)], tys @ [ty], bad)
      | Inl e \<Rightarrow> collect f xs (vs, tys, Some e))"

section \<open>State\<close>

text \<open>\<open>cat_files\<close> is the output directory: what \<open>fs::write\<close> put under a path relative to it.\<close>

record catalog =
  cat_cases :: "wast_case list"
  cat_wasm_n :: u32
  cat_parse_fail :: u32
  cat_files :: "string \<Rightarrow> bytes option"

text \<open>The two variables of the loop over the directives of one file.\<close>

record current =
  current_wasm :: "string option"
  current_skip :: "string option"

definition push_case :: "wast_case \<Rightarrow> catalog \<Rightarrow> catalog" where
  "push_case c st = st\<lparr>cat_cases := cat_cases st @ [c]\<rparr>"

text \<open>\<open>format!("wasm/{wasm_n:05}.wasm")\<close>\<close>

definition pad5 :: "string \<Rightarrow> string" where
  "pad5 s = replicate (5 - length s) (CHR ''0'') @ s"

definition wasm_name :: "u32 \<Rightarrow> string" where
  "wasm_name n = ''wasm/'' @ pad5 (dec (unat n)) @ ''.wasm''"

definition write_wasm :: "bytes \<Rightarrow> catalog \<Rightarrow> string \<times> catalog" where
  "write_wasm bs st =
     (let n = cat_wasm_n st + 1; name = wasm_name n in
      (name, st\<lparr>cat_wasm_n := n, cat_files := (cat_files st)(name \<mapsto> bs)\<rparr>))"

section \<open>Directives\<close>

definition module_directive :: "('m \<Rightarrow> string + bytes) \<Rightarrow> 'm \<Rightarrow> catalog \<times> current \<Rightarrow> catalog \<times> current" where
  "module_directive encode m = (\<lambda>(st, cur).
     case encode m of
       Inr bs \<Rightarrow> (case write_wasm bs st of (name, st') \<Rightarrow> (st', \<lparr>current_wasm = Some name, current_skip = None\<rparr>))
     | Inl e \<Rightarrow> (st, \<lparr>current_wasm = None, current_skip = Some (''encode: '' @ e)\<rparr>))"

definition invoke_directive :: "string \<Rightarrow> wast_invoke \<Rightarrow> current \<Rightarrow> catalog \<Rightarrow> catalog" where
  "invoke_directive rel iv cur st =
     (case current_skip cur of
        Some reason \<Rightarrow> push_case (skip_case rel (inv_name iv) [] reason) st
      | None \<Rightarrow>
          (case current_wasm cur of
             None \<Rightarrow> push_case (skip_case rel (inv_name iv) [] ''no module'') st
           | Some wasm \<Rightarrow>
               (case collect arg_core (inv_args iv) ([], [], None) of
                  (args, arg_ty, Some e) \<Rightarrow> push_case (skip_case rel (inv_name iv) wasm e) st
                | (args, arg_ty, None) \<Rightarrow>
                    push_case \<lparr>ca_kind = ''invoke'', ca_file = rel, ca_export = inv_name iv, ca_wasm = wasm, ca_skip = [],
                      ca_args = args, ca_arg_ty = arg_ty, ca_expected = [], ca_exp_ty = []\<rparr> st)))"

definition assert_return_directive ::
  "string \<Rightarrow> 'm wast_execute \<Rightarrow> wast_ret list \<Rightarrow> current \<Rightarrow> catalog \<Rightarrow> catalog" where
  "assert_return_directive rel exec results cur st =
     (case exec of
        ExInvoke iv \<Rightarrow>
          (case current_skip cur of
             Some reason \<Rightarrow> push_case (skip_case rel (inv_name iv) [] reason) st
           | None \<Rightarrow>
               (case current_wasm cur of
                  None \<Rightarrow> push_case (skip_case rel (inv_name iv) [] ''no module'') st
                | Some wasm \<Rightarrow>
                    (case collect arg_core (inv_args iv) ([], [], None) of
                       (args, arg_ty, bad) \<Rightarrow>
                         (case collect ret_core results ([], [], bad) of
                            (ev, exp_ty, Some e) \<Rightarrow> push_case (skip_case rel (inv_name iv) wasm e) st
                          | (ev, exp_ty, None) \<Rightarrow>
                              push_case \<lparr>ca_kind = ''return'', ca_file = rel, ca_export = inv_name iv, ca_wasm = wasm,
                                ca_skip = [], ca_args = args, ca_arg_ty = arg_ty, ca_expected = ev, ca_exp_ty = exp_ty\<rparr> st))))
      | _ \<Rightarrow> push_case (skip_case rel [] [] ''non-invoke assert_return'') st)"

definition trap_invoke :: "string \<Rightarrow> wast_invoke \<Rightarrow> current \<Rightarrow> catalog \<Rightarrow> catalog" where
  "trap_invoke rel iv cur st =
     (case current_skip cur of
        Some reason \<Rightarrow> push_case (skip_case rel (inv_name iv) [] reason) st
      | None \<Rightarrow>
          (case current_wasm cur of
             None \<Rightarrow> push_case (skip_case rel (inv_name iv) [] ''no module'') st
           | Some wasm \<Rightarrow>
               (case collect arg_core (inv_args iv) ([], [], None) of
                  (args, arg_ty, Some e) \<Rightarrow> push_case (skip_case rel (inv_name iv) wasm e) st
                | (args, arg_ty, None) \<Rightarrow>
                    push_case \<lparr>ca_kind = ''trap'', ca_file = rel, ca_export = inv_name iv, ca_wasm = wasm, ca_skip = [],
                      ca_args = args, ca_arg_ty = arg_ty, ca_expected = [], ca_exp_ty = []\<rparr> st)))"

definition unlinkable_case :: "string \<Rightarrow> string \<Rightarrow> wast_case" where
  "unlinkable_case rel wasm =
     \<lparr>ca_kind = ''unlinkable'', ca_file = rel, ca_export = [], ca_wasm = wasm, ca_skip = [],
      ca_args = [], ca_arg_ty = [], ca_expected = [], ca_exp_ty = []\<rparr>"

definition assert_trap_directive ::
  "('m \<Rightarrow> string + bytes) \<Rightarrow> string \<Rightarrow> 'm wast_execute \<Rightarrow> current \<Rightarrow> catalog \<Rightarrow> catalog" where
  "assert_trap_directive encode rel exec cur st =
     (case exec of
        ExWat wat \<Rightarrow>
          (case encode wat of
             Inr bs \<Rightarrow> (case write_wasm bs st of (name, st') \<Rightarrow> push_case (unlinkable_case rel name) st')
           | Inl e \<Rightarrow> push_case (skip_case rel [] [] (''instantiate-trap encode: '' @ e)) st)
      | ExInvoke iv \<Rightarrow> trap_invoke rel iv cur st
      | ExGet \<Rightarrow> push_case (skip_case rel [] [] ''non-invoke assert_trap'') st)"

definition assert_unlinkable_directive :: "('m \<Rightarrow> string + bytes) \<Rightarrow> string \<Rightarrow> 'm \<Rightarrow> catalog \<Rightarrow> catalog" where
  "assert_unlinkable_directive encode rel m st =
     (case encode m of
        Inr bs \<Rightarrow> (case write_wasm bs st of (name, st') \<Rightarrow> push_case (unlinkable_case rel name) st')
      | Inl e \<Rightarrow> push_case (skip_case rel [] [] (''unlinkable encode: '' @ e)) st)"

definition directive :: "('m \<Rightarrow> string + bytes) \<Rightarrow> string \<Rightarrow> 'm wast_directive \<Rightarrow> catalog \<times> current \<Rightarrow> catalog \<times> current" where
  "directive encode rel d = (\<lambda>(st, cur).
     case d of
       DModule m \<Rightarrow> module_directive encode m (st, cur)
     | DModuleDefinition m \<Rightarrow> module_directive encode m (st, cur)
     | DRegister \<Rightarrow> (st, cur)
     | DInvoke iv \<Rightarrow> (invoke_directive rel iv cur st, cur)
     | DAssertReturn exec results \<Rightarrow> (assert_return_directive rel exec results cur st, cur)
     | DAssertTrap exec \<Rightarrow> (assert_trap_directive encode rel exec cur st, cur)
     | DAssertUnlinkable m \<Rightarrow> (assert_unlinkable_directive encode rel m st, cur)
     | DOther \<Rightarrow> (st, cur)
     | _ \<Rightarrow> (push_case (skip_case rel [] [] ''assert_invalid/malformed'') st, cur))"

section \<open>Files\<close>

definition run_directives :: "('m \<Rightarrow> string + bytes) \<Rightarrow> string \<Rightarrow> 'm wast_directive list \<Rightarrow> catalog \<Rightarrow> catalog" where
  "run_directives encode rel ds st =
     fst (fold (directive encode rel) ds (st, \<lparr>current_wasm = None, current_skip = None\<rparr>))"

definition catalog_file ::
  "('p \<Rightarrow> string + string) \<Rightarrow> (string \<Rightarrow> string + 'b) \<Rightarrow> ('b \<Rightarrow> string + 'm wast_directive list) \<Rightarrow>
   ('m \<Rightarrow> string + bytes) \<Rightarrow> string \<times> 'p \<Rightarrow> catalog \<Rightarrow> catalog" where
  "catalog_file read new_buf parse encode = (\<lambda>(rel, path) st.
     case read path of
       Inl e \<Rightarrow> push_case (skip_case rel [] [] (''read: '' @ e)) st
     | Inr src \<Rightarrow>
         (case new_buf src of
            Inl e \<Rightarrow> push_case (skip_case rel [] [] (''parse: '' @ e)) (st\<lparr>cat_parse_fail := cat_parse_fail st + 1\<rparr>)
          | Inr buf \<Rightarrow>
              (case parse buf of
                 Inl e \<Rightarrow> push_case (skip_case rel [] [] (''wast: '' @ e)) (st\<lparr>cat_parse_fail := cat_parse_fail st + 1\<rparr>)
               | Inr ds \<Rightarrow> run_directives encode rel ds st)))"

definition initial_catalog :: catalog where
  "initial_catalog = \<lparr>cat_cases = [], cat_wasm_n = 0, cat_parse_fail = 0, cat_files = (\<lambda>_. None)\<rparr>"

definition build_catalog ::
  "('p \<Rightarrow> string + string) \<Rightarrow> (string \<Rightarrow> string + 'b) \<Rightarrow> ('b \<Rightarrow> string + 'm wast_directive list) \<Rightarrow>
   ('m \<Rightarrow> string + bytes) \<Rightarrow> (string \<times> 'p) list \<Rightarrow> catalog" where
  "build_catalog read new_buf parse encode files = fold (catalog_file read new_buf parse encode) files initial_catalog"

section \<open>Summary\<close>

text \<open>The two counters, \<open>BTreeMap\<close>s in the source, as maps; the entry is created with 0.\<close>

definition bump :: "string \<Rightarrow> (string \<Rightarrow> u32 option) \<Rightarrow> string \<Rightarrow> u32 option" where
  "bump k m = m(k \<mapsto> (case m k of None \<Rightarrow> 0 | Some n \<Rightarrow> n) + 1)"

definition count_case :: "wast_case \<Rightarrow> (string \<Rightarrow> u32 option) \<times> (string \<Rightarrow> u32 option) \<Rightarrow>
    (string \<Rightarrow> u32 option) \<times> (string \<Rightarrow> u32 option)" where
  "count_case c = (\<lambda>(kinds, runnable).
     (bump (ca_kind c) kinds, if ca_kind c \<noteq> ''skip'' then bump (ca_file c) runnable else runnable))"

definition summary :: "wast_case list \<Rightarrow> (string \<Rightarrow> u32 option) \<times> (string \<Rightarrow> u32 option)" where
  "summary cases = fold count_case cases (\<lambda>_. None, \<lambda>_. None)"

end
