(* ===== verification/Catalog_Correct.thy ===== *)
theory Catalog_Correct
  imports Catalog
begin

text \<open>
  The catalogue against a specification without files and state: which module is in force at a
  command is a function of the directives before it, and what the case of a command must say is a
  function of that module and the command. The catalogue the tool builds shows exactly these cases,
  and the files it wrote hold the encodings of the modules.
\<close>

section \<open>Specification\<close>

record spec_case =
  sp_kind :: string
  sp_file :: string
  sp_export :: string
  sp_module :: "bytes option"
  sp_skip :: string
  sp_args :: "(u64 \<times> string) list"
  sp_expected :: "(u64 \<times> string) list"

abbreviation skipped :: "string \<Rightarrow> string \<Rightarrow> bytes option \<Rightarrow> string \<Rightarrow> spec_case" where
  "skipped rel export m reason \<equiv>
     \<lparr>sp_kind = ''skip'', sp_file = rel, sp_export = export, sp_module = m, sp_skip = reason, sp_args = [], sp_expected = []\<rparr>"

abbreviation unlinkable :: "string \<Rightarrow> bytes \<Rightarrow> spec_case" where
  "unlinkable rel bs \<equiv>
     \<lparr>sp_kind = ''unlinkable'', sp_file = rel, sp_export = [], sp_module = Some bs, sp_skip = [], sp_args = [], sp_expected = []\<rparr>"

text \<open>The module in force after some directives: the last one defined.\<close>

fun in_force :: "'m wast_directive list \<Rightarrow> 'm option" where
  "in_force [] = None"
| "in_force (d # ds) =
     (case in_force ds of
        Some m \<Rightarrow> Some m
      | None \<Rightarrow> (case d of DModule m \<Rightarrow> Some m | DModuleDefinition m \<Rightarrow> Some m | _ \<Rightarrow> None))"

definition target :: "('m \<Rightarrow> string + bytes) \<Rightarrow> 'm option \<Rightarrow> string + bytes" where
  "target encode m = (case m of None \<Rightarrow> Inl ''no module'' | Some m \<Rightarrow> map_err ((@) ''encode: '') (encode m))"

fun arg_value :: "wast_arg \<Rightarrow> (u64 \<times> string) list" where
  "arg_value (ArgI32 v) = [(word_of_nat (unat v), ''i32'')]"
| "arg_value (ArgI64 v) = [(v, ''i64'')]"
| "arg_value ArgOther = []"

fun ret_value :: "wast_ret \<Rightarrow> (u64 \<times> string) list" where
  "ret_value (RetI32 v) = [(word_of_nat (unat v), ''i32'')]"
| "ret_value (RetI64 v) = [(v, ''i64'')]"
| "ret_value RetOther = []"

definition call_case :: "string \<Rightarrow> string \<Rightarrow> string + bytes \<Rightarrow> wast_invoke \<Rightarrow> wast_ret list \<Rightarrow> spec_case" where
  "call_case kind rel t iv rets =
     (case t of
        Inl reason \<Rightarrow> skipped rel (inv_name iv) None reason
      | Inr bs \<Rightarrow>
          if RetOther \<in> set rets then skipped rel (inv_name iv) (Some bs) ''non-int result''
          else if ArgOther \<in> set (inv_args iv) then skipped rel (inv_name iv) (Some bs) ''non-int arg''
          else \<lparr>sp_kind = kind, sp_file = rel, sp_export = inv_name iv, sp_module = Some bs, sp_skip = [],
                sp_args = concat (map arg_value (inv_args iv)), sp_expected = concat (map ret_value rets)\<rparr>)"

definition module_case :: "('m \<Rightarrow> string + bytes) \<Rightarrow> string \<Rightarrow> string \<Rightarrow> 'm \<Rightarrow> spec_case" where
  "module_case encode what rel m =
     (case encode m of Inr bs \<Rightarrow> unlinkable rel bs | Inl e \<Rightarrow> skipped rel [] None (what @ '' encode: '' @ e))"

text \<open>The cases (none or one) of a directive after the directives \<open>pre\<close>.\<close>

definition expected :: "('m \<Rightarrow> string + bytes) \<Rightarrow> string \<Rightarrow> 'm wast_directive list \<Rightarrow> 'm wast_directive \<Rightarrow> spec_case list" where
  "expected encode rel pre d =
     (let t = target encode (in_force pre) in
      case d of
        DInvoke iv \<Rightarrow> [call_case ''invoke'' rel t iv []]
      | DAssertReturn (ExInvoke iv) rets \<Rightarrow> [call_case ''return'' rel t iv rets]
      | DAssertReturn _ _ \<Rightarrow> [skipped rel [] None ''non-invoke assert_return'']
      | DAssertTrap (ExInvoke iv) \<Rightarrow> [call_case ''trap'' rel t iv []]
      | DAssertTrap (ExWat m) \<Rightarrow> [module_case encode ''instantiate-trap'' rel m]
      | DAssertTrap ExGet \<Rightarrow> [skipped rel [] None ''non-invoke assert_trap'']
      | DAssertUnlinkable m \<Rightarrow> [module_case encode ''unlinkable'' rel m]
      | DModule _ \<Rightarrow> [] | DModuleDefinition _ \<Rightarrow> [] | DRegister \<Rightarrow> [] | DOther \<Rightarrow> []
      | _ \<Rightarrow> [skipped rel [] None ''assert_invalid/malformed''])"

definition file_spec :: "('m \<Rightarrow> string + bytes) \<Rightarrow> string \<Rightarrow> 'm wast_directive list \<Rightarrow> spec_case list" where
  "file_spec encode rel ds = concat (map (\<lambda>i. expected encode rel (take i ds) (ds ! i)) [0..<length ds])"

definition script ::
  "('p \<Rightarrow> string + string) \<Rightarrow> (string \<Rightarrow> string + 'b) \<Rightarrow> ('b \<Rightarrow> string + 'm wast_directive list) \<Rightarrow> 'p \<Rightarrow> string + 'm wast_directive list" where
  "script read new_buf parse path =
     rbind (map_err ((@) ''read: '') (read path)) (\<lambda>src.
     rbind (map_err ((@) ''parse: '') (new_buf src)) (\<lambda>buf. map_err ((@) ''wast: '') (parse buf)))"

definition catalog_spec where
  "catalog_spec read new_buf parse encode files =
     concat (map (\<lambda>(rel, path).
       case script read new_buf parse path of Inl e \<Rightarrow> [skipped rel [] None e] | Inr ds \<Rightarrow> file_spec encode rel ds) files)"

text \<open>A case shows a specified one: the module is the content of the file the case names.\<close>

definition case_shows :: "(string \<Rightarrow> bytes option) \<Rightarrow> spec_case \<Rightarrow> wast_case \<Rightarrow> bool" where
  "case_shows files s c \<longleftrightarrow>
     ca_kind c = sp_kind s \<and> ca_file c = sp_file s \<and> ca_export c = sp_export s \<and> ca_skip c = sp_skip s \<and>
     (case sp_module s of None \<Rightarrow> ca_wasm c = [] | Some bs \<Rightarrow> files (ca_wasm c) = Some bs) \<and>
     ca_args c = map (\<lambda>(v, _). dec (unat v)) (sp_args s) \<and> ca_arg_ty c = map snd (sp_args s) \<and>
     ca_expected c = map (\<lambda>(v, _). dec (unat v)) (sp_expected s) \<and> ca_exp_ty c = map snd (sp_expected s)"

lemma case_shows_mono: "case_shows f s c \<Longrightarrow> f \<subseteq>\<^sub>m g \<Longrightarrow> case_shows g s c"
  by (auto simp: case_shows_def map_le_def dom_def split: option.splits)

lemma in_force_snoc:
  "in_force (ds @ [d]) = (case d of DModule m \<Rightarrow> Some m | DModuleDefinition m \<Rightarrow> Some m | _ \<Rightarrow> in_force ds)"
  by (induction ds) (auto split: wast_directive.splits option.splits)

section \<open>Names of files\<close>

lemma wasm_name_inject: "wasm_name m = wasm_name n \<longleftrightarrow> m = n"
proof
  assume "wasm_name m = wasm_name n"
  then have "pad5 (dec (unat m)) = pad5 (dec (unat n))" by (simp add: wasm_name_def)
  then have "digits_val (dec (unat m)) = digits_val (dec (unat n))" by (metis pad5_def digits_val_zeros)
  then show "m = n" by (simp add: dec_digits(3) unsigned_word_eqI)
qed simp

definition numbered :: "nat \<Rightarrow> catalog \<Rightarrow> bool" where
  "numbered k st \<longleftrightarrow> cat_wasm_n st = of_nat k \<and> dom (cat_files st) = (\<lambda>i. wasm_name (of_nat i)) ` {1..k}"

lemma write_wasm_step:
  assumes "numbered k st" and "Suc k < 2 ^ 32" and "write_wasm bs st = (name, st')"
  shows "numbered (Suc k) st'" and "cat_files st \<subseteq>\<^sub>m cat_files st'" and "cat_files st' name = Some bs"
    and "cat_cases st' = cat_cases st"
proof -
  have st': "st' = st\<lparr>cat_wasm_n := of_nat (Suc k), cat_files := (cat_files st)(name \<mapsto> bs)\<rparr>"
    and name: "name = wasm_name (of_nat (Suc k))"
    using assms(1,3) by (auto simp: write_wasm_def numbered_def Let_def add.commute)
  have fresh: "of_nat (Suc k) \<noteq> (of_nat i :: u32)" if "i \<le> k" for i
  proof
    assume "of_nat (Suc k) = (of_nat i :: u32)"
    then have "unat (of_nat (Suc k) :: u32) = unat (of_nat i :: u32)" by simp
    then show False using that assms(2) by (simp del: of_nat_Suc)
  qed
  have "name \<notin> dom (cat_files st)"
  proof
    assume "name \<in> dom (cat_files st)"
    then obtain i where "i \<le> k" "name = wasm_name (of_nat i)" using assms(1) by (auto simp: numbered_def)
    then show False using fresh [of i] by (simp add: name wasm_name_inject del: of_nat_Suc)
  qed
  then show "cat_files st \<subseteq>\<^sub>m cat_files st'" by (simp add: st' map_le_def)
  have "{1..Suc k} = insert (Suc k) {1..k}" by auto
  then show "numbered (Suc k) st'" using assms(1) by (simp add: st' name numbered_def del: of_nat_Suc)
  show "cat_files st' name = Some bs" "cat_cases st' = cat_cases st" by (simp_all add: st')
qed

section \<open>Arguments\<close>

lemma collect_args:
  "collect arg_core xs (vs, tys, bad) =
     (vs @ map (\<lambda>(v, _). dec (unat v)) (concat (map arg_value xs)), tys @ map snd (concat (map arg_value xs)),
      if ArgOther \<in> set xs then Some ''non-int arg'' else bad)"
proof (induction xs arbitrary: vs tys bad)
  case (Cons x xs)
  then show ?case by (cases x) (simp_all add: arg_core_def)
qed simp

lemma collect_rets:
  "collect ret_core xs (vs, tys, bad) =
     (vs @ map (\<lambda>(v, _). dec (unat v)) (concat (map ret_value xs)), tys @ map snd (concat (map ret_value xs)),
      if RetOther \<in> set xs then Some ''non-int result'' else bad)"
proof (induction xs arbitrary: vs tys bad)
  case (Cons x xs)
  then show ?case by (cases x) (simp_all add: ret_core_def)
qed simp

section \<open>One directive\<close>

definition cur_shows :: "(string \<Rightarrow> bytes option) \<Rightarrow> string + bytes \<Rightarrow> current \<Rightarrow> bool" where
  "cur_shows files t cur \<longleftrightarrow>
     (case t of
        Inl reason \<Rightarrow> current_wasm cur = None \<and> (current_skip cur = Some reason \<or> current_skip cur = None \<and> reason = ''no module'')
      | Inr bs \<Rightarrow> current_skip cur = None \<and> (\<exists>w. current_wasm cur = Some w \<and> files w = Some bs))"

lemma cur_shows_mono: "cur_shows f t cur \<Longrightarrow> f \<subseteq>\<^sub>m g \<Longrightarrow> cur_shows g t cur"
  by (auto simp: cur_shows_def map_le_def dom_def split: sum.splits)

text \<open>What a step adds to the catalogue.\<close>

definition adds :: "nat \<Rightarrow> catalog \<Rightarrow> spec_case list \<Rightarrow> catalog \<Rightarrow> bool" where
  "adds k st ss st' \<longleftrightarrow>
     cat_files st \<subseteq>\<^sub>m cat_files st' \<and> (\<exists>k' \<le> k. numbered k' st') \<and>
     (\<exists>cs. cat_cases st' = cat_cases st @ cs \<and> list_all2 (case_shows (cat_files st')) ss cs)"

lemma adds_push:
  assumes "numbered k st" and "case_shows (cat_files st) s c"
  shows "adds k st [s] (push_case c st)"
  using assms by (auto simp: adds_def push_case_def numbered_def)

lemma adds_weaken: "adds k st ss st' \<Longrightarrow> k \<le> l \<Longrightarrow> adds l st ss st'"
  unfolding adds_def by (meson order_trans)

lemma skip_shows: "numbered k st \<Longrightarrow> k \<le> l \<Longrightarrow> adds l st [skipped rel [] None r] (push_case (skip_case rel [] [] r) st)"
  by (rule adds_weaken [OF adds_push]) (simp_all add: case_shows_def skip_case_def)

lemma call_shows:
  assumes "numbered k st" and "cur_shows (cat_files st) t cur"
  shows "adds k st [call_case ''invoke'' rel t iv []] (invoke_directive rel iv cur st)"
    and "adds k st [call_case ''trap'' rel t iv []] (trap_invoke rel iv cur st)"
    and "adds k st [call_case ''return'' rel t iv rets] (assert_return_directive rel (ExInvoke iv) rets cur st)"
  using assms
  by (auto intro!: adds_push simp: cur_shows_def call_case_def invoke_directive_def trap_invoke_def assert_return_directive_def
      collect_args collect_rets case_shows_def skip_case_def split: sum.splits)

lemma module_shows:
  assumes "numbered k st" and "Suc k < 2 ^ 32"
  shows "adds (Suc k) st [module_case encode ''unlinkable'' rel m] (assert_unlinkable_directive encode rel m st)"
    and "adds (Suc k) st [module_case encode ''instantiate-trap'' rel m] (assert_trap_directive encode rel (ExWat m) cur st)"
proof -
  have new: "adds (Suc k) st [unlinkable rel bs] (case write_wasm bs st of (name, st') \<Rightarrow> push_case (unlinkable_case rel name) st')"
    for bs
  proof -
    obtain name st' where w: "write_wasm bs st = (name, st')" by (metis surj_pair)
    note s = write_wasm_step [OF assms w]
    have "adds (Suc k) st' [unlinkable rel bs] (push_case (unlinkable_case rel name) st')"
      using s(3) by (intro adds_push s(1)) (simp add: case_shows_def unlinkable_case_def)
    then show ?thesis using s(2,4) w by (auto simp: adds_def push_case_def)
  qed
  note old = skip_shows [OF assms(1), of "Suc k"]
  show "adds (Suc k) st [module_case encode ''unlinkable'' rel m] (assert_unlinkable_directive encode rel m st)"
    "adds (Suc k) st [module_case encode ''instantiate-trap'' rel m] (assert_trap_directive encode rel (ExWat m) cur st)"
    using new old by (auto simp: module_case_def assert_unlinkable_directive_def assert_trap_directive_def split: sum.splits)
qed

lemma adds_nil: "numbered k st \<Longrightarrow> adds k st [] st"
  by (auto simp: adds_def)

lemma adds_trans:
  assumes "adds j st ss st'" and "adds k st' ss' st''"
  shows "adds k st (ss @ ss') st''"
proof -
  obtain cs cs' where c: "cat_cases st'' = cat_cases st @ cs @ cs'" "list_all2 (case_shows (cat_files st')) ss cs"
    "list_all2 (case_shows (cat_files st'')) ss' cs'" "cat_files st' \<subseteq>\<^sub>m cat_files st''"
    using assms by (auto simp: adds_def)
  have "list_all2 (case_shows (cat_files st'')) ss cs"
    using c(2) by (rule list_all2_mono) (rule case_shows_mono [OF _ c(4)])
  with c(1,3) assms show ?thesis unfolding adds_def by (metis list_all2_appendI map_le_trans)
qed

lemma module_step:
  assumes "numbered k st" and "Suc k < 2 ^ 32" and "module_directive encode m (st, cur) = (st', cur')"
  shows "adds (Suc k) st [] st'" and "cur_shows (cat_files st') (target encode (Some m)) cur'"
proof (atomize (full), cases "encode m")
  case (Inl e)
  then show "adds (Suc k) st [] st' \<and> cur_shows (cat_files st') (target encode (Some m)) cur'"
    using assms adds_weaken [OF adds_nil [OF assms(1)], of "Suc k"]
    by (auto simp: module_directive_def cur_shows_def target_def map_err_def)
next
  case (Inr bs)
  obtain name where w: "write_wasm bs st = (name, st')" "cur' = \<lparr>current_wasm = Some name, current_skip = None\<rparr>"
    using assms(3) Inr by (auto simp: module_directive_def split: prod.splits)
  note s = write_wasm_step [OF assms(1,2) w(1)]
  then have "adds (Suc k) st [] st'" by (auto simp: adds_def)
  then show "adds (Suc k) st [] st' \<and> cur_shows (cat_files st') (target encode (Some m)) cur'"
    using s(3) w(2) Inr by (simp add: cur_shows_def target_def map_err_def)
qed

lemma directive_step:
  assumes n: "numbered k st" and k: "Suc k < 2 ^ 32" and cur: "cur_shows (cat_files st) (target encode (in_force pre)) cur"
    and d: "directive encode rel d (st, cur) = (st', cur')"
  shows "adds (Suc k) st (expected encode rel pre d) st'" (is ?A)
    and "cur_shows (cat_files st') (target encode (in_force (pre @ [d]))) cur'" (is ?B)
proof -
  note skip = skip_shows [OF n, of "Suc k"]
  have keep: ?B if "cur' = cur" "adds (Suc k) st ss st'" "in_force (pre @ [d]) = in_force pre" for ss
    using that cur_shows_mono [OF cur, of "cat_files st'"] by (simp add: adds_def)
  note calls = call_shows [OF n cur, THEN adds_weaken [of k _ _ _ "Suc k"]]
  have "?A \<and> ?B"
  proof (cases "\<exists>m. d = DModule m \<or> d = DModuleDefinition m")
    case True
    then obtain m where m: "d = DModule m \<or> d = DModuleDefinition m" by blast
    then have "module_directive encode m (st, cur) = (st', cur')" using d by (auto simp: directive_def)
    from module_step [OF n k this] m show ?thesis by (auto simp: expected_def in_force_snoc)
  next
    case False
    then have f: "in_force (pre @ [d]) = in_force pre" by (auto simp: in_force_snoc split: wast_directive.split)
    note mods = module_shows [OF n k] and none = adds_weaken [OF adds_nil [OF n], of "Suc k"]
    have ?A
    proof (cases d)
      case (DAssertReturn exec rets)
      then show ?thesis using d calls(3) skip by (cases exec) (auto simp: directive_def expected_def assert_return_directive_def)
    next
      case (DAssertTrap exec)
      then show ?thesis using d calls(2) mods(2) skip
        by (cases exec) (auto simp: directive_def expected_def assert_trap_directive_def)
    qed (use False d calls(1) mods(1) skip none in \<open>auto simp: directive_def expected_def\<close>)
    moreover have "cur' = cur" using False d by (auto simp: directive_def split: wast_directive.splits)
    ultimately show ?thesis using keep f by blast
  qed
  then show ?A ?B by blast+
qed

section \<open>Files and scripts\<close>

lemma file_spec_snoc: "file_spec encode rel (ds @ [d]) = file_spec encode rel ds @ expected encode rel ds d"
proof -
  have "map (\<lambda>i. expected encode rel (take i (ds @ [d])) ((ds @ [d]) ! i)) [0..<length ds] =
    map (\<lambda>i. expected encode rel (take i ds) (ds ! i)) [0..<length ds]"
    by (simp add: nth_append)
  moreover have "take (length ds) (ds @ [d]) = ds" by simp
  ultimately show ?thesis by (simp add: file_spec_def del: take_append map_eq_conv)
qed

lemma directives_add:
  assumes "numbered k st" and "k + length ds < 2 ^ 32"
    and "fold (directive encode rel) ds (st, \<lparr>current_wasm = None, current_skip = None\<rparr>) = (st', cur')"
  shows "adds (k + length ds) st (file_spec encode rel ds) st' \<and> cur_shows (cat_files st') (target encode (in_force ds)) cur'"
  using assms(2,3)
proof (induction ds arbitrary: st' cur' rule: rev_induct)
  case Nil
  then show ?case using adds_nil [OF assms(1)] by (auto simp: file_spec_def cur_shows_def target_def)
next
  case (snoc d ds)
  obtain st1 cur1 where f: "fold (directive encode rel) ds (st, \<lparr>current_wasm = None, current_skip = None\<rparr>) = (st1, cur1)"
    by (metis surj_pair)
  have ih: "adds (k + length ds) st (file_spec encode rel ds) st1" "cur_shows (cat_files st1) (target encode (in_force ds)) cur1"
    using snoc.IH [OF _ f] snoc.prems(1) by auto
  obtain j where j: "j \<le> k + length ds" "numbered j st1" using ih(1) by (auto simp: adds_def)
  have "directive encode rel d (st1, cur1) = (st', cur')" using snoc.prems(2) f by simp
  note step = directive_step [OF j(2) _ ih(2) this]
  have "adds (Suc j) st1 (expected encode rel ds d) st'" using step(1) snoc.prems(1) j(1) by simp
  then have "adds (Suc j) st (file_spec encode rel (ds @ [d])) st'" using adds_trans [OF ih(1)] by (simp add: file_spec_snoc)
  then show ?case using step(2) snoc.prems(1) j(1) by (auto intro: adds_weaken)
qed

text \<open>The number of modules in the scripts is at most the number of their directives.\<close>

definition directives where
  "directives read new_buf parse path = (case script read new_buf parse path of Inl _ \<Rightarrow> 0 | Inr ds \<Rightarrow> length ds)"

lemma catalog_file_adds:
  assumes "numbered k st" and "k + directives read new_buf parse path < 2 ^ 32"
  shows "adds (k + directives read new_buf parse path) st (catalog_spec read new_buf parse encode [(rel, path)])
    (catalog_file read new_buf parse encode (rel, path) st)"
proof -
  have skip: "adds k st [skipped rel [] None r] (push_case (skip_case rel [] [] r) (st\<lparr>cat_parse_fail := f\<rparr>))" for r f
    using skip_shows [of k "st\<lparr>cat_parse_fail := f\<rparr>" k rel r] assms(1) by (simp add: adds_def numbered_def)
  have same: "st\<lparr>cat_parse_fail := cat_parse_fail st\<rparr> = st" by simp
  show ?thesis
  proof (cases "script read new_buf parse path")
    case (Inl e)
    then show ?thesis using skip skip [of _ "cat_parse_fail st", unfolded same]
      by (auto simp: catalog_file_def catalog_spec_def directives_def script_def map_err_def split: sum.splits)
  next
    case (Inr ds)
    then have "catalog_file read new_buf parse encode (rel, path) st = run_directives encode rel ds st"
      by (auto simp: catalog_file_def script_def map_err_def split: sum.splits)
    moreover have "adds (k + length ds) st (file_spec encode rel ds) (run_directives encode rel ds st)"
      using directives_add [OF assms(1)] assms(2) Inr unfolding run_directives_def directives_def
      by (metis (no_types, lifting) prod.collapse sum.case(2))
    ultimately show ?thesis using Inr by (simp add: catalog_spec_def directives_def)
  qed
qed

lemma build_catalog_adds:
  assumes "numbered k st" and "k + sum_list (map (\<lambda>(_, path). directives read new_buf parse path) files) < 2 ^ 32"
  shows "adds (k + sum_list (map (\<lambda>(_, path). directives read new_buf parse path) files)) st
    (catalog_spec read new_buf parse encode files) (fold (catalog_file read new_buf parse encode) files st)"
  using assms
proof (induction files arbitrary: k st)
  case Nil
  then show ?case using adds_nil by (simp add: catalog_spec_def)
next
  case (Cons f files)
  obtain rel path where f: "f = (rel, path)" by force
  let ?st = "catalog_file read new_buf parse encode (rel, path) st"
  have a: "adds (k + directives read new_buf parse path) st (catalog_spec read new_buf parse encode [(rel, path)]) ?st"
    using Cons.prems by (intro catalog_file_adds) (simp_all add: f)
  then obtain j where j: "j \<le> k + directives read new_buf parse path" "numbered j ?st" by (auto simp: adds_def)
  let ?n = "sum_list (map (\<lambda>(_, path). directives read new_buf parse path) files)"
  have "adds (j + ?n) ?st (catalog_spec read new_buf parse encode files) (fold (catalog_file read new_buf parse encode) files ?st)"
    using Cons.IH [OF j(2)] j(1) Cons.prems(2) by (simp add: f)
  then have "adds (j + ?n) st (catalog_spec read new_buf parse encode [(rel, path)] @ catalog_spec read new_buf parse encode files)
    (fold (catalog_file read new_buf parse encode) files ?st)"
    by (rule adds_trans [OF a])
  then show ?case using j(1) by (auto simp: f catalog_spec_def intro: adds_weaken)
qed

text \<open>
  C25. The catalogue is right: with fewer than \<open>2\<^sup>3\<^sup>2\<close> directives in all scripts, whatever the \<open>wast\<close>
  crate parses and encodes, the cases are exactly those of the specification, in order. Each command
  has one case; a case that can be run names a file that holds the encoding of the module in force at
  its command (no later module overwrites it) and carries the values of its arguments and results
  with their types; a command that cannot be run is recorded with its reason.
\<close>

theorem build_catalog_correct:
  assumes "sum_list (map (\<lambda>(_, path). directives read new_buf parse path) files) < 2 ^ 32"
  shows "list_all2 (case_shows (cat_files (build_catalog read new_buf parse encode files)))
    (catalog_spec read new_buf parse encode files) (cat_cases (build_catalog read new_buf parse encode files))"
proof -
  have "numbered 0 initial_catalog" by (simp add: numbered_def initial_catalog_def)
  from build_catalog_adds [OF this, of read new_buf parse files encode] assms show ?thesis by (auto simp: adds_def build_catalog_def initial_catalog_def)
qed

text \<open>An example: modules are numbers, the script \<open>a\<close> has two modules and the script \<open>b\<close> does not parse.\<close>

definition example_encode :: "nat \<Rightarrow> string + bytes" where
  "example_encode m = (if m < 100 then Inr [of_nat m] else Inl ''bad'')"

definition example_parse :: "string \<Rightarrow> string + nat wast_directive list" where
  "example_parse src =
     (if src = ''a''
      then Inr [DModule 7, DModule 8,
        DInvoke \<lparr>inv_module = Some ''first'', inv_name = ''f'', inv_args = [ArgI32 3]\<rparr>,
        DAssertReturn (ExInvoke \<lparr>inv_module = None, inv_name = ''g'', inv_args = [ArgOther]\<rparr>) [],
        DModule 100, DAssertTrap (ExInvoke \<lparr>inv_module = None, inv_name = ''h'', inv_args = []\<rparr>)]
      else Inl ''eof'')"

abbreviation example_catalog :: catalog where
  "example_catalog \<equiv> build_catalog Inr Inr example_parse example_encode [(''a'', ''a''), (''b'', ''b'')]"

theorem build_catalog_correct_witness:
  "sum_list (map (\<lambda>(_, path). directives Inr Inr example_parse path) [(''a'', ''a''), (''b'', ''b'')]) < 2 ^ 32 \<and>
   list_all2 (case_shows (cat_files example_catalog))
     (catalog_spec Inr Inr example_parse example_encode [(''a'', ''a''), (''b'', ''b'')]) (cat_cases example_catalog) \<and>
   map (\<lambda>c. (ca_kind c, ca_wasm c, ca_skip c)) (cat_cases example_catalog) =
     [(''invoke'', ''wasm/00002.wasm'', ''''), (''skip'', ''wasm/00002.wasm'', ''non-int arg''),
      (''skip'', '''', ''encode: bad''), (''skip'', '''', ''wast: eof'')]"
proof (intro conjI)
  show l: "sum_list (map (\<lambda>(_, path). directives Inr Inr example_parse path) [(''a'', ''a''), (''b'', ''b'')]) < 2 ^ 32"
    by (simp add: directives_def script_def map_err_def example_parse_def)
  show "list_all2 (case_shows (cat_files example_catalog))
     (catalog_spec Inr Inr example_parse example_encode [(''a'', ''a''), (''b'', ''b'')]) (cat_cases example_catalog)"
    by (rule build_catalog_correct [OF l])
  show "map (\<lambda>c. (ca_kind c, ca_wasm c, ca_skip c)) (cat_cases example_catalog) =
     [(''invoke'', ''wasm/00002.wasm'', ''''), (''skip'', ''wasm/00002.wasm'', ''non-int arg''),
      (''skip'', '''', ''encode: bad''), (''skip'', '''', ''wast: eof'')]"
    by code_simp
qed

text \<open>
  A command that names an earlier module is recorded against the module in force: the name is
  ignored, so the command is later run on another module.
\<close>

lemma named_module_ignored:
  "\<exists>c. cat_cases (run_directives example_encode rel
       [DModule 7, DModule 8, DInvoke \<lparr>inv_module = Some ''first'', inv_name = ''f'', inv_args = []\<rparr>] initial_catalog) = [c] \<and>
     ca_kind c = ''invoke'' \<and>
     cat_files (run_directives example_encode rel
       [DModule 7, DModule 8, DInvoke \<lparr>inv_module = Some ''first'', inv_name = ''f'', inv_args = []\<rparr>] initial_catalog) (ca_wasm c) = Some [8]"
  by (simp add: run_directives_def directive_def module_directive_def example_encode_def write_wasm_def initial_catalog_def
      invoke_directive_def push_case_def Let_def)

section \<open>Summary\<close>

definition tally :: "('a \<Rightarrow> bool) \<Rightarrow> 'a list \<Rightarrow> u32 option" where
  "tally P xs = (if \<exists>x \<in> set xs. P x then Some (of_nat (length (filter P xs))) else None)"

lemma tally_snoc: "tally P (xs @ [x]) = (if P x then Some (case_option 0 id (tally P xs) + 1) else tally P xs)"
  by (auto simp: tally_def filter_empty_conv)

text \<open>
  The summary counts: the counter of a kind is the number of cases of that kind, the counter of a
  file is the number of its cases that can be run (modulo \<open>2\<^sup>3\<^sup>2\<close>), and only kinds and files with such
  a case have an entry.
\<close>

lemma summary_counts:
  "fst (summary cs) kind = tally (\<lambda>c. ca_kind c = kind) cs \<and>
   snd (summary cs) file = tally (\<lambda>c. ca_file c = file \<and> ca_kind c \<noteq> ''skip'') cs"
proof (induction cs rule: rev_induct)
  case Nil
  then show ?case by (simp add: summary_def tally_def)
next
  case (snoc c cs)
  obtain ks rs where ks: "summary cs = (ks, rs)" by force
  have "bump k m k' = (if k' = k then Some (case_option 0 id (m k) + 1) else m k')" for k m k'
    by (simp add: bump_def split: option.split)
  moreover have "summary (cs @ [c]) = count_case c (ks, rs)" using ks by (simp add: summary_def)
  ultimately show ?case using snoc by (simp add: count_case_def ks tally_snoc)
qed

end
