(* ===== verification/Profiles.thy ===== *)
theory Profiles
  imports CuOp "HOL-Library.Char_ord" "HOL-Library.List_Lexorder" "HOL-Library.Product_Lexorder"
begin

text \<open>
  The profilers. \<open>emit-profiles.rs\<close> merges the counters of several runs of a contract into sorted
  tables, \<open>wasm-profile.rs\<close> makes an inventory of a module. A \<open>BTreeMap\<close> of counters is its list of
  entries in the order of the keys (strings are ordered by their bytes, pairs lexicographically);
  counters wrap at their width. Running the contracts, parsing modules and printing are not modelled;
  the debug output of \<open>wasmparser\<close> for an operator is a parameter.
\<close>

section \<open>Counters\<close>

text \<open>\<open>*m.entry(k).or_insert(0) += 1\<close>\<close>

fun entry_add :: "'k :: linorder \<Rightarrow> 'n :: comm_semiring_1 \<Rightarrow> ('k \<times> 'n) list \<Rightarrow> ('k \<times> 'n) list" where
  "entry_add k d [] = [(k, d)]"
| "entry_add k d ((k', n) # m) =
     (if k < k' then (k, d) # (k', n) # m else if k = k' then (k', n + d) # m else (k', n) # entry_add k d m)"

abbreviation entry_inc :: "'k :: linorder \<Rightarrow> ('k \<times> 'n :: comm_semiring_1) list \<Rightarrow> ('k \<times> 'n) list" where
  "entry_inc k \<equiv> entry_add k 1"

section \<open>Profiles of runs\<close>

definition opcode_names :: "string list" where
  "opcode_names =
     [''unreachable'', ''i64.const'', ''local.get'', ''local.set'', ''i64.add'', ''i64.sub'', ''i64.eq'',
      ''i64.eqz'', ''i64.le_s'', ''i64.lt_s'', ''br'', ''br_if_not'', ''call'', ''return_call'', ''return'',
      ''end'', ''drop'', ''select'', ''i32.eqz'', ''i32.eq'', ''i32.ne'', ''i32.lt_s'', ''i32.lt_u'',
      ''i32.le_s'', ''i32.le_u'', ''i32.gt_s'', ''i32.gt_u'', ''i32.ge_s'', ''i32.ge_u'', ''i32.add'',
      ''i32.sub'', ''i32.mul'', ''i32.and'', ''i32.or'', ''i32.xor'', ''i32.div_s'', ''i32.div_u'',
      ''i32.rem_s'', ''i32.rem_u'', ''i32.shl'', ''i32.shr_s'', ''i32.shr_u'', ''i32.wrap_i64'',
      ''i64.ne'', ''i64.lt_u'', ''i64.le_u'', ''i64.gt_s'', ''i64.gt_u'', ''i64.ge_s'', ''i64.ge_u'',
      ''i64.mul'', ''i64.and'', ''i64.or'', ''i64.xor'', ''i64.div_s'', ''i64.div_u'', ''i64.rem_s'',
      ''i64.rem_u'', ''i64.shl'', ''i64.shr_s'', ''i64.shr_u'', ''i64.extend_i32_s'',
      ''i64.extend_i32_u'', ''global.get'', ''global.set'', ''unwind'', ''i64.mul_wide_s'',
      ''i64.mul_wide_u'', ''i64.add128'', ''i64.sub128'', ''load'', ''store'', ''memory.size'',
      ''memory.grow'', ''memory.copy'', ''memory.fill'', ''memory.init'', ''data.drop'', ''call_host'',
      ''call_indirect'', ''i32.clz'']"

text \<open>\<open>opcode_name\<close> of \<open>cuop.h\<close>, which the disassembler prints.\<close>

definition opcode_name :: "u16 \<Rightarrow> string" where
  "opcode_name op =
     case_option ''???'' id (map_of
      [(OP_UNREACHABLE, ''unreachable''), (OP_I64_CONST, ''const''), (OP_LOCAL_GET, ''local.get''), (OP_LOCAL_SET, ''local.set''),
       (OP_I64_ADD, ''i64.add''), (OP_I64_SUB, ''i64.sub''), (OP_I64_EQ, ''i64.eq''), (OP_I64_EQZ, ''i64.eqz''),
       (OP_I64_LE_S, ''i64.le_s''), (OP_I64_LT_S, ''i64.lt_s''), (OP_BR, ''br''), (OP_BR_IF_NOT, ''br_if_not''),
       (OP_CALL, ''call''), (OP_RETURN_CALL, ''return_call''), (OP_RETURN, ''return''), (OP_END_FUNC, ''end_func''),
       (OP_DROP, ''drop''), (OP_SELECT, ''select''), (OP_I32_EQZ, ''i32.eqz''), (OP_I32_EQ, ''i32.eq''),
       (OP_I32_NE, ''i32.ne''), (OP_I32_LT_S, ''i32.lt_s''), (OP_I32_LT_U, ''i32.lt_u''), (OP_I32_LE_S, ''i32.le_s''),
       (OP_I32_LE_U, ''i32.le_u''), (OP_I32_GT_S, ''i32.gt_s''), (OP_I32_GT_U, ''i32.gt_u''), (OP_I32_GE_S, ''i32.ge_s''),
       (OP_I32_GE_U, ''i32.ge_u''), (OP_I32_ADD, ''i32.add''), (OP_I32_SUB, ''i32.sub''), (OP_I32_MUL, ''i32.mul''),
       (OP_I32_AND, ''i32.and''), (OP_I32_OR, ''i32.or''), (OP_I32_XOR, ''i32.xor''), (OP_I32_DIV_S, ''i32.div_s''),
       (OP_I32_DIV_U, ''i32.div_u''), (OP_I32_REM_S, ''i32.rem_s''), (OP_I32_REM_U, ''i32.rem_u''), (OP_I32_SHL, ''i32.shl''),
       (OP_I32_SHR_S, ''i32.shr_s''), (OP_I32_SHR_U, ''i32.shr_u''), (OP_I32_WRAP_I64, ''i32.wrap_i64''), (OP_I64_NE, ''i64.ne''),
       (OP_I64_LT_U, ''i64.lt_u''), (OP_I64_LE_U, ''i64.le_u''), (OP_I64_GT_S, ''i64.gt_s''), (OP_I64_GT_U, ''i64.gt_u''),
       (OP_I64_GE_S, ''i64.ge_s''), (OP_I64_GE_U, ''i64.ge_u''), (OP_I64_MUL, ''i64.mul''), (OP_I64_AND, ''i64.and''),
       (OP_I64_OR, ''i64.or''), (OP_I64_XOR, ''i64.xor''), (OP_I64_DIV_S, ''i64.div_s''), (OP_I64_DIV_U, ''i64.div_u''),
       (OP_I64_REM_S, ''i64.rem_s''), (OP_I64_REM_U, ''i64.rem_u''), (OP_I64_SHL, ''i64.shl''), (OP_I64_SHR_S, ''i64.shr_s''),
       (OP_I64_SHR_U, ''i64.shr_u''), (OP_I64_EXTEND_I32_S, ''i64.extend_i32_s''), (OP_I64_EXTEND_I32_U, ''i64.extend_i32_u''), (OP_GLOBAL_GET, ''global.get''),
       (OP_GLOBAL_SET, ''global.set''), (OP_UNWIND, ''unwind''), (OP_I64_MUL_WIDE_S, ''i64.mul_wide_s''), (OP_I64_MUL_WIDE_U, ''i64.mul_wide_u''),
       (OP_I64_ADD128, ''i64.add128''), (OP_I64_SUB128, ''i64.sub128''), (OP_LOAD, ''load''), (OP_STORE, ''store''),
       (OP_MEMORY_SIZE, ''memory.size''), (OP_MEMORY_GROW, ''memory.grow''), (OP_MEMORY_COPY, ''memory.copy''), (OP_MEMORY_FILL, ''memory.fill''),
       (OP_MEMORY_INIT, ''memory.init''), (OP_DATA_DROP, ''data.drop''), (OP_CALL_HOST, ''call_host''), (OP_CALL_INDIRECT, ''call_indirect''),
       (OP_CLZ, ''clz'')] op)"

definition CUWASM_CAPI_OP_COUNT :: nat where
  "CUWASM_CAPI_OP_COUNT = 81"

record run_profile_out =
  pr_host_calls :: "(string \<times> u16) list"
  pr_opcode_counts :: "u64 list"
  pr_unsupported_opcode_counts :: "u64 list"
  pr_total_ops :: u64

record host_call_entry =
  he_name :: string
  he_arg_count :: u16
  he_count :: u64

record opcode_entry =
  oe_op :: string
  oe_count :: u64

record scenario_profile =
  sc_export :: string
  sc_host_calls :: "host_call_entry list"
  sc_host_calls_total :: u64
  sc_opcodes :: "opcode_entry list"
  sc_opcodes_total :: u64
  sc_unsupported_opcodes :: "opcode_entry list"

record merge_state =
  ms_host_map :: "((string \<times> u16) \<times> u64) list"
  ms_op_map :: "u64 list"
  ms_uns_map :: "u64 list"
  ms_host_total :: u64
  ms_op_total :: u64

text \<open>\<open>names.get(i).copied().unwrap_or("?")\<close>\<close>

definition op_label :: "nat \<Rightarrow> string" where
  "op_label i = (if i < length opcode_names then opcode_names ! i else ''?'')"

text \<open>The body of the loop over the profiles; the arrays have \<open>CUWASM_CAPI_OP_COUNT\<close> elements by their types.\<close>

definition merge_host_call :: "string \<times> u16 \<Rightarrow> merge_state \<Rightarrow> merge_state" where
  "merge_host_call k s = s\<lparr>ms_host_map := entry_inc k (ms_host_map s), ms_host_total := ms_host_total s + 1\<rparr>"

definition merge_op :: "run_profile_out \<Rightarrow> nat \<Rightarrow> merge_state \<Rightarrow> merge_state" where
  "merge_op p i s =
     s\<lparr>ms_op_map := (ms_op_map s)[i := ms_op_map s ! i + pr_opcode_counts p ! i],
       ms_uns_map := (ms_uns_map s)[i := ms_uns_map s ! i + pr_unsupported_opcode_counts p ! i]\<rparr>"

definition merge_profile :: "run_profile_out \<Rightarrow> merge_state \<Rightarrow> merge_state" where
  "merge_profile p s =
     (let s1 = fold merge_host_call (pr_host_calls p) s;
          s2 = fold (merge_op p) [0..<CUWASM_CAPI_OP_COUNT] s1
      in s2\<lparr>ms_op_total := ms_op_total s2 + pr_total_ops p\<rparr>)"

definition op_entries :: "u64 list \<Rightarrow> opcode_entry list" where
  "op_entries counts =
     map (\<lambda>(i, c). \<lparr>oe_op = op_label i, oe_count = c\<rparr>) (filter (\<lambda>(_, c). c > 0) (enumerate 0 counts))"

text \<open>\<open>sort_by(|a, b| b.count.cmp(&a.count))\<close>: stable, largest first.\<close>

definition sort_desc :: "('a \<Rightarrow> u64) \<Rightarrow> 'a list \<Rightarrow> 'a list" where
  "sort_desc f = sort_key (\<lambda>e. - uint (f e))"

definition merge_profiles ::
  "run_profile_out list \<Rightarrow> host_call_entry list \<times> opcode_entry list \<times> opcode_entry list \<times> u64 \<times> u64" where
  "merge_profiles ps =
     (let s = fold merge_profile ps
            \<lparr>ms_host_map = [], ms_op_map = replicate CUWASM_CAPI_OP_COUNT 0, ms_uns_map = replicate CUWASM_CAPI_OP_COUNT 0,
             ms_host_total = 0, ms_op_total = 0\<rparr>;
          host_calls = map (\<lambda>((name, n), c). \<lparr>he_name = name, he_arg_count = n, he_count = c\<rparr>) (ms_host_map s)
      in (host_calls, sort_desc oe_count (op_entries (ms_op_map s)), op_entries (ms_uns_map s), ms_host_total s, ms_op_total s))"

definition scenario :: "string \<Rightarrow> run_profile_out list \<Rightarrow> scenario_profile" where
  "scenario export ps =
     (case merge_profiles ps of
        (host_calls, opcodes, unsupported_opcodes, host_calls_total, opcodes_total) \<Rightarrow>
          \<lparr>sc_export = export, sc_host_calls = host_calls, sc_host_calls_total = host_calls_total,
           sc_opcodes = opcodes, sc_opcodes_total = opcodes_total, sc_unsupported_opcodes = unsupported_opcodes\<rparr>)"

end
