(* ===== verification/Profiles_Correct.thy ===== *)
theory Profiles_Correct
  imports Profiles "HOL-Library.Multiset"
begin

text \<open>
  The merged tables are right: counters against the sequence of counted keys, sorted without
  repetition, and totals that are the sums of what is shown.
\<close>

section \<open>Counters\<close>

abbreviation ordered :: "('k :: linorder \<times> 'n) list \<Rightarrow> bool" where
  "ordered m \<equiv> sorted_wrt (<) (map fst m)"

lemma entry_add_keys: "set (map fst (entry_add k d m)) = insert k (set (map fst m))"
  by (induction k d m rule: entry_add.induct) auto

lemma entry_add_ordered: "ordered m \<Longrightarrow> ordered (entry_add k d m)"
proof (induction k d m rule: entry_add.induct)
  case (2 k d k' n m)
  then show ?case using entry_add_keys [of k d m] by (auto split: if_splits) 
qed simp

lemma entry_add_sum: "sum_list (map snd (entry_add k d m)) = sum_list (map snd m) + d"
  by (induction k d m rule: entry_add.induct) (auto simp: ac_simps)

lemma entry_add_lookup:
  "ordered m \<Longrightarrow> map_of (entry_add k d m) k' = (if k' = k then Some (case_option 0 id (map_of m k) + d) else map_of m k')"
proof (induction k d m rule: entry_add.induct)
  case (2 k d k'' n m)
  have "map_of m k = None" if "k < k''" using 2 that by (auto simp: map_of_eq_None_iff)
  with 2 show ?case by auto
qed simp

text \<open>Counting a sequence of keys.\<close>

definition counts_of :: "'k :: linorder list \<Rightarrow> ('k \<times> 'n :: comm_semiring_1) list" where
  "counts_of ks = fold entry_inc ks []"

lemma counts_of_snoc: "counts_of (ks @ [k]) = entry_inc k (counts_of ks)"
  by (simp add: counts_of_def)

lemma counts_of_ordered: "ordered (counts_of ks)"
  by (induction ks rule: rev_induct) (simp_all add: counts_of_snoc entry_add_ordered, simp add: counts_of_def)

lemma counts_of_keys: "set (map fst (counts_of ks)) = set ks"
  by (induction ks rule: rev_induct) (simp add: counts_of_def, simp add: counts_of_snoc entry_add_keys del: set_map)

lemma counts_of_sum: "sum_list (map snd (counts_of ks)) = of_nat (length ks)"
  by (induction ks rule: rev_induct) (simp add: counts_of_def, simp add: counts_of_snoc entry_add_sum add.commute)

lemma counts_of_lookup: "map_of (counts_of ks) k = (if k \<in> set ks then Some (of_nat (count_list ks k)) else None)"
proof (induction ks rule: rev_induct)
  case (snoc x ks)
  have "count_list ks x = 0" if "x \<notin> set ks" using that by (simp add: count_list_0_iff)
  with snoc show ?case by (auto simp: counts_of_snoc entry_add_lookup counts_of_ordered)
qed (simp add: counts_of_def)

lemma counts_of_entry: "(k, n) \<in> set (counts_of ks) \<Longrightarrow> n = of_nat (count_list ks k)"
proof -
  assume k: "(k, n) \<in> set (counts_of ks)"
  have "distinct (map fst (counts_of ks :: ('a \<times> 'b) list))"
    by (rule strict_sorted_iff [THEN iffD1, THEN conjunct2, OF counts_of_ordered])
  from map_of_is_SomeI [OF this k] show ?thesis by (simp add: counts_of_lookup split: if_splits)
qed

section \<open>Merging\<close>

abbreviation profile_typed :: "run_profile_out \<Rightarrow> bool" where
  "profile_typed p \<equiv>
     length (pr_opcode_counts p) = CUWASM_CAPI_OP_COUNT \<and> length (pr_unsupported_opcode_counts p) = CUWASM_CAPI_OP_COUNT"

definition add_arrays :: "u64 list \<Rightarrow> u64 list \<Rightarrow> u64 list" where
  "add_arrays xs ys = map2 (+) xs ys"

lemma merge_host_calls:
  "fold merge_host_call ks s =
     s\<lparr>ms_host_map := fold entry_inc ks (ms_host_map s), ms_host_total := ms_host_total s + of_nat (length ks)\<rparr>"
  by (induction ks arbitrary: s) (simp_all add: merge_host_call_def ac_simps)

lemma merge_ops:
  assumes "n \<le> length (ms_op_map s)" and "n \<le> length (ms_uns_map s)"
    and "length (pr_opcode_counts p) = length (ms_op_map s)" and "length (pr_unsupported_opcode_counts p) = length (ms_uns_map s)"
  shows "fold (merge_op p) [0..<n] s =
    s\<lparr>ms_op_map := add_arrays (take n (ms_op_map s)) (take n (pr_opcode_counts p)) @ drop n (ms_op_map s),
      ms_uns_map := add_arrays (take n (ms_uns_map s)) (take n (pr_unsupported_opcode_counts p)) @ drop n (ms_uns_map s)\<rparr>"
  using assms
proof (induction n)
  case 0
  then show ?case by (simp add: add_arrays_def)
next
  case (Suc n)
  have step: "(add_arrays (take n xs) (take n ys) @ drop n xs)[n := (add_arrays (take n xs) (take n ys) @ drop n xs) ! n + ys ! n] =
      add_arrays (take (Suc n) xs) (take (Suc n) ys) @ drop (Suc n) xs"
    if "Suc n \<le> length xs" "length ys = length xs" for xs ys
    using that by (simp add: add_arrays_def take_Suc_conv_app_nth nth_append list_update_append Cons_nth_drop_Suc [symmetric])
  show ?case using Suc step by (simp add: merge_op_def)
qed

lemma merge_profile_eq:
  assumes "profile_typed p" and "length (ms_op_map s) = CUWASM_CAPI_OP_COUNT" and "length (ms_uns_map s) = CUWASM_CAPI_OP_COUNT"
  shows "merge_profile p s =
    s\<lparr>ms_host_map := fold entry_inc (pr_host_calls p) (ms_host_map s),
      ms_op_map := add_arrays (ms_op_map s) (pr_opcode_counts p),
      ms_uns_map := add_arrays (ms_uns_map s) (pr_unsupported_opcode_counts p),
      ms_host_total := ms_host_total s + of_nat (length (pr_host_calls p)),
      ms_op_total := ms_op_total s + pr_total_ops p\<rparr>"
  using assms by (simp add: merge_profile_def merge_host_calls merge_ops Let_def)

definition merged :: "run_profile_out list \<Rightarrow> merge_state" where
  "merged ps = fold merge_profile ps
     \<lparr>ms_host_map = [], ms_op_map = replicate CUWASM_CAPI_OP_COUNT 0, ms_uns_map = replicate CUWASM_CAPI_OP_COUNT 0,
      ms_host_total = 0, ms_op_total = 0\<rparr>"

text \<open>The sum of a counter over the profiles.\<close>

definition total :: "(run_profile_out \<Rightarrow> u64 list) \<Rightarrow> run_profile_out list \<Rightarrow> nat \<Rightarrow> u64" where
  "total f ps i = sum_list (map (\<lambda>p. f p ! i) ps)"

lemma add_arrays_map:
  "length xs = n \<Longrightarrow> add_arrays (map f [0..<n]) xs = map (\<lambda>i. f i + xs ! i) [0..<n]"
  by (intro nth_equalityI) (simp_all add: add_arrays_def)

lemma merged_eq:
  assumes "\<forall>p \<in> set ps. profile_typed p"
  shows "merged ps =
    \<lparr>ms_host_map = counts_of (concat (map pr_host_calls ps)),
     ms_op_map = map (total pr_opcode_counts ps) [0..<CUWASM_CAPI_OP_COUNT],
     ms_uns_map = map (total pr_unsupported_opcode_counts ps) [0..<CUWASM_CAPI_OP_COUNT],
     ms_host_total = of_nat (length (concat (map pr_host_calls ps))),
     ms_op_total = sum_list (map pr_total_ops ps)\<rparr>"
  using assms
proof (induction ps rule: rev_induct)
  case Nil
  then show ?case by (simp add: merged_def counts_of_def total_def map_replicate_const)
next
  case (snoc p ps)
  have "merged (ps @ [p]) = merge_profile p (merged ps)" by (simp add: merged_def)
  with snoc show ?case by (simp add: merge_profile_eq add_arrays_map total_def counts_of_def)
qed

lemma op_entries_map:
  "op_entries (map f [0..<n]) = map (\<lambda>i. \<lparr>oe_op = op_label i, oe_count = f i\<rparr>) (filter (\<lambda>i. f i \<noteq> 0) [0..<n])"
  by (induction n) (simp_all add: op_entries_def enumerate_append_eq word_gt_0)

lemma sum_filter_nonzero: "sum_list (map f (filter (\<lambda>i. f i \<noteq> 0) xs)) = (sum_list (map f xs) :: u64)"
  by (induction xs) auto

lemma sum_list_perm: "mset xs = mset ys \<Longrightarrow> sum_list (map f xs) = (sum_list (map f ys) :: u64)"
  by (metis mset_map sum_mset_sum_list)

lemma sort_desc_sorted: "sorted_wrt (\<lambda>a b. f b \<le> f a) (sort_desc f xs)"
proof -
  have "sorted (map (\<lambda>e. - uint (f e)) (sort_desc f xs))" by (simp add: sort_desc_def)
  then show ?thesis by (simp add: sorted_wrt_map sorted_map word_le_def)
qed

lemma sum_totals:
  assumes "\<forall>p \<in> set ps. length (f p) = n"
  shows "sum_list (map (total f ps) [0..<n]) = sum_list (map (\<lambda>p. sum_list (f p)) ps)"
  using assms
proof (induction ps)
  case (Cons p ps)
  have "sum_list (map ((!) (f p)) [0..<n]) = sum_list (f p)" using Cons.prems by (metis list.set_intros(1) map_nth)
  with Cons show ?case by (simp add: total_def sum_list_addf)
qed (simp add: total_def [abs_def] sum_list_triv)

text \<open>
  C30. Merged profiles are right: the table of host calls lists each called function with its number
  of arguments once, in order, with the number of its calls, and these add up to the total; the table
  of opcodes lists exactly the opcodes that were executed, under the name of their number, with the
  sums of their counters, largest first; the totals are the sums over the runs.
\<close>

theorem merge_profiles_correct:
  assumes "\<forall>p \<in> set ps. profile_typed p"
    and "merge_profiles ps = (hs, os, us, host_total, op_total)"
  shows "sorted_wrt (<) (map (\<lambda>e. (he_name e, he_arg_count e)) hs) \<and>
    set (map (\<lambda>e. (he_name e, he_arg_count e)) hs) = set (concat (map pr_host_calls ps)) \<and>
    (\<forall>e \<in> set hs. he_count e = of_nat (count_list (concat (map pr_host_calls ps)) (he_name e, he_arg_count e))) \<and>
    host_total = sum_list (map he_count hs) \<and>
    sorted_wrt (\<lambda>a b. oe_count b \<le> oe_count a) os \<and>
    mset os = mset (map (\<lambda>i. \<lparr>oe_op = opcode_names ! i, oe_count = total pr_opcode_counts ps i\<rparr>)
      (filter (\<lambda>i. total pr_opcode_counts ps i \<noteq> 0) [0..<CUWASM_CAPI_OP_COUNT])) \<and>
    sum_list (map oe_count os) = sum_list (map (\<lambda>p. sum_list (pr_opcode_counts p)) ps) \<and>
    op_total = sum_list (map pr_total_ops ps)"
proof -
  let ?calls = "concat (map pr_host_calls ps)"
  let ?row = "\<lambda>((name, n), c). \<lparr>he_name = name, he_arg_count = n, he_count = c\<rparr> :: host_call_entry"
  let ?es = "map (\<lambda>i. \<lparr>oe_op = op_label i, oe_count = total pr_opcode_counts ps i\<rparr>)
      (filter (\<lambda>i. total pr_opcode_counts ps i \<noteq> 0) [0..<CUWASM_CAPI_OP_COUNT])"
  have r: "hs = map ?row (counts_of ?calls)" "os = sort_desc oe_count ?es"
    "host_total = of_nat (length ?calls)" "op_total = sum_list (map pr_total_ops ps)"
    using assms(2) merged_eq [OF assms(1), unfolded merged_def] by (simp_all add: merge_profiles_def Let_def op_entries_map)
  have keys: "map (\<lambda>e. (he_name e, he_arg_count e)) hs = map fst (counts_of ?calls :: ((string \<times> u16) \<times> u64) list)"
    and vals: "map he_count hs = map snd (counts_of ?calls)"
    by (simp_all add: r(1) case_prod_beta)
  have es: "mset os = mset ?es" by (simp add: r(2) sort_desc_def)
  have "length opcode_names = CUWASM_CAPI_OP_COUNT" by (simp add: opcode_names_def CUWASM_CAPI_OP_COUNT_def)
  then have named: "?es = map (\<lambda>i. \<lparr>oe_op = opcode_names ! i, oe_count = total pr_opcode_counts ps i\<rparr>)
      (filter (\<lambda>i. total pr_opcode_counts ps i \<noteq> 0) [0..<CUWASM_CAPI_OP_COUNT])"
    by (simp add: op_label_def)
  have "sum_list (map oe_count os) = sum_list (map oe_count ?es)"
    using es by (rule sum_list_perm)
  also have "\<dots> = sum_list (map (total pr_opcode_counts ps) [0..<CUWASM_CAPI_OP_COUNT])"
    by (simp add: comp_def sum_filter_nonzero)
  also have "\<dots> = sum_list (map (\<lambda>p. sum_list (pr_opcode_counts p)) ps)" using assms(1) by (intro sum_totals) blast
  finally have sum: "sum_list (map oe_count os) = \<dots>" .
  have "he_count e = of_nat (count_list ?calls (he_name e, he_arg_count e))" if "e \<in> set hs" for e
    using that counts_of_entry by (fastforce simp: r(1))
  moreover have "sorted_wrt (\<lambda>a b. oe_count b \<le> oe_count a) os" unfolding r(2) by (rule sort_desc_sorted)
  ultimately show ?thesis
    unfolding keys vals counts_of_sum counts_of_keys by (intro conjI ballI counts_of_ordered es [unfolded named] sum r(3,4)) simp_all
qed

definition example_profile :: run_profile_out where
  "example_profile =
     \<lparr>pr_host_calls = [(''b'', 1), (''a'', 2), (''b'', 1)], pr_opcode_counts = (replicate CUWASM_CAPI_OP_COUNT 0)[4 := 3, 1 := 5],
      pr_unsupported_opcode_counts = replicate CUWASM_CAPI_OP_COUNT 0, pr_total_ops = 8\<rparr>"

theorem merge_profiles_correct_witness:
  "merge_profiles [example_profile] =
     ([\<lparr>he_name = ''a'', he_arg_count = 2, he_count = 1\<rparr>, \<lparr>he_name = ''b'', he_arg_count = 1, he_count = 2\<rparr>],
      [\<lparr>oe_op = ''i64.const'', oe_count = 5\<rparr>, \<lparr>oe_op = ''i64.add'', oe_count = 3\<rparr>], [], 3, 8) \<and>
   sum_list (map oe_count (fst (snd (merge_profiles [example_profile])))) = sum_list (pr_opcode_counts example_profile)"
proof -
  have typed: "\<forall>p \<in> set [example_profile]. profile_typed p" by (simp add: example_profile_def)
  have m: "merge_profiles [example_profile] =
     ([\<lparr>he_name = ''a'', he_arg_count = 2, he_count = 1\<rparr>, \<lparr>he_name = ''b'', he_arg_count = 1, he_count = 2\<rparr>],
      [\<lparr>oe_op = ''i64.const'', oe_count = 5\<rparr>, \<lparr>oe_op = ''i64.add'', oe_count = 3\<rparr>], [], 3, 8)"
    by code_simp
  have "sum_list (map oe_count [\<lparr>oe_op = ''i64.const'', oe_count = 5\<rparr>, \<lparr>oe_op = ''i64.add'', oe_count = 3\<rparr>]) =
      sum_list (map (\<lambda>p. sum_list (pr_opcode_counts p)) [example_profile])"
    using merge_profiles_correct [OF typed m] by blast
  then show ?thesis unfolding m by simp
qed

text \<open>
  The two name tables of the opcodes differ in three places: the profiles say \<open>i64.const\<close>,
  \<open>end\<close> and \<open>i32.clz\<close> where the disassembler says \<open>const\<close>, \<open>end_func\<close> and \<open>clz\<close>; all other opcodes have
  the same name, and no two opcodes share one.
\<close>

lemma opcode_tables_agree:
  "map (\<lambda>i. opcode_name (of_nat i)) [0..<CUWASM_CAPI_OP_COUNT] =
     opcode_names[unat OP_I64_CONST := ''const'', unat OP_END_FUNC := ''end_func'', unat OP_CLZ := ''clz''] \<and>
   distinct opcode_names"
proof
  show "map (\<lambda>i. opcode_name (of_nat i)) [0..<CUWASM_CAPI_OP_COUNT] =
     opcode_names[unat OP_I64_CONST := ''const'', unat OP_END_FUNC := ''end_func'', unat OP_CLZ := ''clz'']"
    by code_simp
  show "distinct opcode_names" by code_simp
qed

end
