(* ===== verification/Wasm_Profile.thy ===== *)
theory Wasm_Profile
  imports Profiles Wastprep
begin

text \<open>
  The inventory of a module, \<open>tools/src/bin/wasm-profile.rs\<close>. The parser's payloads carry what the tool
  reads of them: counts, names, and the debug output of \<open>wasmparser\<close> for types, kinds and operators as
  text. A payload or an item that does not parse makes the tool panic.
\<close>

datatype profile_error = ExpectFailed string

record mem_type =
  mt_initial :: u64
  mt_maximum :: "u64 option"
  mt_shared :: bool
  mt_memory64 :: bool

datatype prof_payload =
    PVersion
  | PTypes
  | PImports "(string + string \<times> string \<times> string) list"
  | PFunctions u32
  | PTables u32
  | PMemories "(string + mem_type) list"
  | PGlobals u32
  | PExports "(string + string \<times> string) list"
  | PStart
  | PElements u32
  | PData u32
  | PDataCount
  | PCode "string + (string + string) list"
  | PCustom string
  | POther

record inventory =
  iv_imports :: "(string \<times> string \<times> string) list"
  iv_exports :: "(string \<times> string) list"
  iv_ops :: "(string \<times> u64) list"
  iv_sections :: "(string \<times> u32) list"
  iv_n_funcs :: u32
  iv_mem :: string
  iv_n_globals :: u32
  iv_n_tables :: u32
  iv_n_data :: u32
  iv_n_elem :: u32
  iv_customs :: "string list"
  iv_has_start :: bool
  iv_float_ops :: u64
  iv_simd_ops :: u64

section \<open>Names of operators\<close>

definition trailing_space :: "string \<Rightarrow> string option" where
  "trailing_space s = List.find (\<lambda>w. starts_with (rev s) (rev w)) white_space"

lemma trailing_space_pos:
  assumes "trailing_space s = Some w"
  shows "0 < length w" and "length w \<le> length s"
proof -
  have "w \<in> set white_space" "starts_with (rev s) (rev w)"
    using assms by (auto simp: trailing_space_def find_Some_iff)
  moreover have "[] \<notin> set white_space" by (simp add: white_space_def)
  ultimately show "0 < length w" "length w \<le> length s" using starts_with_length by fastforce+
qed

function trim_end :: "string \<Rightarrow> string" where
  "trim_end s = (case trailing_space s of None \<Rightarrow> s | Some w \<Rightarrow> trim_end (take (length s - length w) s))"
  by auto

termination
proof (relation "measure length")
  fix s w assume "trailing_space s = Some w"
  from trailing_space_pos [OF this] show "(take (length s - length w) s, s) \<in> measure length" by (cases w) auto
qed simp

declare trim_end.simps [simp del]

text \<open>\<open>s.split('{').next().unwrap_or(s).trim()\<close>: the first part always exists.\<close>

definition op_name :: "string \<Rightarrow> string" where
  "op_name s = trim_end (trim_start (takeWhile (\<lambda>c. c \<noteq> CHR ''{'') s))"

definition to_ascii_lowercase :: "string \<Rightarrow> string" where
  "to_ascii_lowercase =
     map (\<lambda>c. if 65 \<le> (of_char c :: nat) \<and> (of_char c :: nat) \<le> 90 then char_of ((of_char c :: nat) + 32) else c)"

definition contains :: "string \<Rightarrow> string \<Rightarrow> bool" where
  "contains s p \<longleftrightarrow> find_str p s \<noteq> None"

section \<open>Inventory\<close>

definition expect :: "string \<Rightarrow> string + 'a \<Rightarrow> profile_error + 'a" where
  "expect what r = map_err (\<lambda>_. ExpectFailed what) r"

definition section_inc :: "string \<Rightarrow> inventory \<Rightarrow> inventory" where
  "section_inc k s = s\<lparr>iv_sections := entry_inc k (iv_sections s)\<rparr>"

definition show_bool :: "bool \<Rightarrow> string" where
  "show_bool b = (if b then ''true'' else ''false'')"

definition show_mem :: "mem_type \<Rightarrow> string" where
  "show_mem m =
     ''min='' @ dec (unat (mt_initial m)) @
     '' max='' @ (case mt_maximum m of None \<Rightarrow> ''None'' | Some n \<Rightarrow> ''Some('' @ dec (unat n) @ '')'') @
     '' shared='' @ show_bool (mt_shared m) @ '' memory64='' @ show_bool (mt_memory64 m)"

definition count_op :: "string \<Rightarrow> inventory \<Rightarrow> inventory" where
  "count_op dbg s =
     (let name = op_name dbg; l = to_ascii_lowercase name;
          s1 = s\<lparr>iv_ops := entry_inc name (iv_ops s)\<rparr>;
          s2 = (if contains l ''f32'' \<or> contains l ''f64'' then s1\<lparr>iv_float_ops := iv_float_ops s1 + 1\<rparr> else s1)
      in if contains l ''v128'' \<or> contains l ''i8x'' \<or> contains l ''i16x'' then s2\<lparr>iv_simd_ops := iv_simd_ops s2 + 1\<rparr> else s2)"

definition profile_payload :: "prof_payload \<Rightarrow> inventory \<Rightarrow> profile_error + inventory" where
  "profile_payload p s =
     (case p of
        PVersion \<Rightarrow> Inr s
      | PTypes \<Rightarrow> Inr (section_inc ''type'' s)
      | PImports is \<Rightarrow>
          rfold (\<lambda>i s. rbind (expect ''import'' i) (\<lambda>imp. Inr (s\<lparr>iv_imports := iv_imports s @ [imp]\<rparr>))) is (section_inc ''import'' s)
      | PFunctions n \<Rightarrow> Inr ((section_inc ''function'' s)\<lparr>iv_n_funcs := n\<rparr>)
      | PTables n \<Rightarrow> Inr ((section_inc ''table'' s)\<lparr>iv_n_tables := n\<rparr>)
      | PMemories ms \<Rightarrow>
          rfold (\<lambda>m s. rbind (expect ''mem'' m) (\<lambda>m. Inr (s\<lparr>iv_mem := show_mem m\<rparr>))) ms (section_inc ''memory'' s)
      | PGlobals n \<Rightarrow> Inr ((section_inc ''global'' s)\<lparr>iv_n_globals := n\<rparr>)
      | PExports es \<Rightarrow>
          rfold (\<lambda>e s. rbind (expect ''export'' e) (\<lambda>ex. Inr (s\<lparr>iv_exports := iv_exports s @ [ex]\<rparr>))) es (section_inc ''export'' s)
      | PStart \<Rightarrow> Inr (section_inc ''start'' (s\<lparr>iv_has_start := True\<rparr>))
      | PElements n \<Rightarrow> Inr ((section_inc ''element'' s)\<lparr>iv_n_elem := n\<rparr>)
      | PData n \<Rightarrow> Inr ((section_inc ''data'' s)\<lparr>iv_n_data := n\<rparr>)
      | PDataCount \<Rightarrow> Inr (section_inc ''datacount'' s)
      | PCode r \<Rightarrow>
          rbind (expect ''ops'' r) (\<lambda>ops.
            rfold (\<lambda>op s. rbind (expect ''op'' op) (\<lambda>dbg. Inr (count_op dbg s))) ops (section_inc ''code'' s))
      | PCustom name \<Rightarrow> Inr ((section_inc ''custom'' s)\<lparr>iv_customs := iv_customs s @ [name]\<rparr>)
      | POther \<Rightarrow> Inr s)"

definition empty_inventory :: inventory where
  "empty_inventory =
     \<lparr>iv_imports = [], iv_exports = [], iv_ops = [], iv_sections = [], iv_n_funcs = 0, iv_mem = ''none'', iv_n_globals = 0,
      iv_n_tables = 0, iv_n_data = 0, iv_n_elem = 0, iv_customs = [], iv_has_start = False, iv_float_ops = 0, iv_simd_ops = 0\<rparr>"

definition profile :: "(string + prof_payload) list \<Rightarrow> profile_error + inventory" where
  "profile ps = rfold (\<lambda>p s. rbind (expect ''parse'' p) (\<lambda>p. profile_payload p s)) ps empty_inventory"

text \<open>
  The ranking that is printed, with the number of different operators and their total:
  \<open>sort_by(|a, b| b.1.cmp(&a.1).then(a.0.cmp(&b.0)))\<close>.
\<close>

definition ranked :: "inventory \<Rightarrow> (string \<times> u64) list" where
  "ranked s = sort_key (\<lambda>(name, n). (- uint n, name)) (iv_ops s)"

definition ranked_total :: "inventory \<Rightarrow> u64" where
  "ranked_total s = sum_list (map snd (ranked s))"

end
