(* ===== verification/Wasm_Profile_Correct.thy ===== *)
theory Wasm_Profile_Correct
  imports Wasm_Profile Profiles_Correct
begin

text \<open>The inventory counts every operator of every body once, and ranks them without ties.\<close>

section \<open>What a payload adds\<close>

definition payload_ops :: "prof_payload \<Rightarrow> string list" where
  "payload_ops p = (case p of PCode (Inr ops) \<Rightarrow> map (\<lambda>r. case r of Inr dbg \<Rightarrow> op_name dbg | Inl _ \<Rightarrow> []) ops | _ \<Rightarrow> [])"

definition is_section :: "prof_payload \<Rightarrow> bool" where
  "is_section p \<longleftrightarrow> p \<noteq> PVersion \<and> p \<noteq> POther"

definition is_float :: "string \<Rightarrow> bool" where
  "is_float name \<longleftrightarrow> contains (to_ascii_lowercase name) ''f32'' \<or> contains (to_ascii_lowercase name) ''f64''"

text \<open>What a step does to the counters: the counted names and the number of sections.\<close>

definition counted :: "string list \<Rightarrow> nat \<Rightarrow> inventory \<Rightarrow> inventory \<Rightarrow> bool" where
  "counted names n s s' \<longleftrightarrow>
     iv_ops s' = fold entry_inc names (iv_ops s) \<and>
     iv_float_ops s' = iv_float_ops s + of_nat (length (filter is_float names)) \<and>
     sum_list (map snd (iv_sections s')) = sum_list (map snd (iv_sections s)) + of_nat n"

lemma counted_refl: "counted [] 0 s s"
  by (simp add: counted_def)

lemma counted_trans: "counted a m s s' \<Longrightarrow> counted b n s' s'' \<Longrightarrow> counted (a @ b) (m + n) s s''"
  by (simp add: counted_def algebra_simps)

lemma counted_section: "counted [] 1 s (section_inc k s)"
  by (simp add: counted_def section_inc_def entry_add_sum)

lemma counted_op: "counted [op_name dbg] 0 s (count_op dbg s)"
  by (simp add: counted_def count_op_def is_float_def Let_def)

text \<open>A loop over items that are no operators counts nothing.\<close>

lemma rfold_uncounted:
  assumes "rfold f xs s = Inr s'" and "\<And>x t t'. f x t = Inr t' \<Longrightarrow> counted [] 0 t t'"
  shows "counted [] 0 s s'"
  using assms(1)
proof (induction xs arbitrary: s)
  case (Cons x xs)
  then obtain t where "f x s = Inr t" "rfold f xs t = Inr s'" by auto
  then show ?case using counted_trans [OF assms(2) Cons.IH] by auto
qed (simp add: counted_refl)

lemma rfold_ops:
  assumes "rfold (\<lambda>op s. rbind (expect ''op'' op) (\<lambda>dbg. Inr (count_op dbg s))) ops s = Inr s'"
  shows "counted (map (\<lambda>r. case r of Inr dbg \<Rightarrow> op_name dbg | Inl _ \<Rightarrow> []) ops) 0 s s'"
  using assms
proof (induction ops arbitrary: s)
  case (Cons r ops)
  then obtain dbg where r: "r = Inr dbg" and t: "rfold (\<lambda>op s. rbind (expect ''op'' op) (\<lambda>dbg. Inr (count_op dbg s))) ops (count_op dbg s) = Inr s'"
    by (cases r) (auto simp: expect_def map_err_def)
  from counted_trans [OF counted_op Cons.IH [OF t]] show ?case by (simp add: r)
qed (simp add: counted_refl)

lemma payload_counted:
  assumes "profile_payload p s = Inr s'"
  shows "counted (payload_ops p) (if is_section p then 1 else 0) s s'"
proof -
  have keep: "counted a n s t \<Longrightarrow> iv_ops t' = iv_ops t \<Longrightarrow> iv_float_ops t' = iv_float_ops t \<Longrightarrow> iv_sections t' = iv_sections t \<Longrightarrow>
      counted a n s t'" for a n t t'
    by (simp add: counted_def)
  have loop: "counted [] 1 s s'" if "rfold f xs (section_inc k s) = Inr s'" "\<And>x t t'. f x t = Inr t' \<Longrightarrow> counted [] 0 t t'" for f k and xs :: "'x list"
    using counted_trans [OF counted_section rfold_uncounted [OF that]] by simp
  show ?thesis
  proof (cases p)
    case (PCode r)
    then obtain ops where r: "r = Inr ops" by (cases r) (use assms in \<open>auto simp: profile_payload_def expect_def map_err_def\<close>)
    have "counted (payload_ops p) 0 (section_inc ''code'' s) s'"
      using assms rfold_ops [of ops "section_inc ''code'' s" s'] by (simp add: profile_payload_def PCode r payload_ops_def expect_def map_err_def)
    from counted_trans [OF counted_section this] show ?thesis by (simp add: PCode is_section_def)
  next
    case (PImports xs)
    have "counted [] 1 s s'"
      using assms unfolding profile_payload_def PImports prof_payload.case by (rule loop) (auto simp: expect_def map_err_def counted_def)
    then show ?thesis by (simp add: PImports payload_ops_def is_section_def)
  next
    case (PMemories xs)
    have "counted [] 1 s s'"
      using assms unfolding profile_payload_def PMemories prof_payload.case by (rule loop) (auto simp: expect_def map_err_def counted_def)
    then show ?thesis by (simp add: PMemories payload_ops_def is_section_def)
  next
    case (PExports xs)
    have "counted [] 1 s s'"
      using assms unfolding profile_payload_def PExports prof_payload.case by (rule loop) (auto simp: expect_def map_err_def counted_def)
    then show ?thesis by (simp add: PExports payload_ops_def is_section_def)
  next
    case PStart
    then show ?thesis using assms keep [OF counted_section [of s "''start''"]]
      by (auto simp: profile_payload_def payload_ops_def is_section_def section_inc_def)
  qed (use assms keep [OF counted_section] in \<open>auto simp: profile_payload_def payload_ops_def is_section_def counted_refl\<close>)
qed

section \<open>The inventory\<close>

definition all_ops :: "(string + prof_payload) list \<Rightarrow> string list" where
  "all_ops ps = concat (map (\<lambda>r. case r of Inr p \<Rightarrow> payload_ops p | Inl _ \<Rightarrow> []) ps)"

definition all_sections :: "(string + prof_payload) list \<Rightarrow> nat" where
  "all_sections ps = length (filter (\<lambda>r. case r of Inr p \<Rightarrow> is_section p | Inl _ \<Rightarrow> False) ps)"

lemma profile_counted:
  assumes "rfold (\<lambda>p s. rbind (expect ''parse'' p) (\<lambda>p. profile_payload p s)) ps s = Inr s'"
  shows "counted (all_ops ps) (all_sections ps) s s'"
  using assms
proof (induction ps arbitrary: s)
  case (Cons r ps)
  then obtain p t where p: "r = Inr p" "profile_payload p s = Inr t"
    and t: "rfold (\<lambda>p s. rbind (expect ''parse'' p) (\<lambda>p. profile_payload p s)) ps t = Inr s'"
    by (cases r) (auto simp: expect_def map_err_def)
  from counted_trans [OF payload_counted [OF p(2)] Cons.IH [OF t]] show ?case
    by (simp add: all_ops_def all_sections_def p(1) split: if_splits)
qed (simp add: all_ops_def all_sections_def counted_refl)

text \<open>
  C31. The inventory of a module: when it is printed, the ranking lists every operator name of every
  body once with the number of its occurrences, by falling count and then by rising name, the total is
  the number of operators, the floating-point operators are those with \<open>f32\<close> or \<open>f64\<close> in their name,
  and the section counters add up to the number of sections.
\<close>

theorem profile_correct:
  assumes "profile ps = Inr s"
  shows "sorted_wrt (\<lambda>(a, m) (b, n). n < m \<or> n = m \<and> a < b) (ranked s) \<and>
    mset (ranked s) = mset (counts_of (all_ops ps)) \<and>
    ranked_total s = of_nat (length (all_ops ps)) \<and>
    iv_float_ops s = of_nat (length (filter is_float (all_ops ps))) \<and>
    sum_list (map snd (iv_sections s)) = of_nat (all_sections ps)"
proof -
  have c: "counted (all_ops ps) (all_sections ps) empty_inventory s"
    using assms by (auto simp: profile_def dest: profile_counted)
  then have ops: "iv_ops s = counts_of (all_ops ps)" by (simp add: counted_def empty_inventory_def counts_of_def)
  have m: "mset (ranked s) = mset (iv_ops s)" by (simp add: ranked_def)
  have "distinct (map fst (counts_of (all_ops ps) :: (string \<times> u64) list))"
    by (rule strict_sorted_iff [THEN iffD1, THEN conjunct2, OF counts_of_ordered])
  then have "distinct (map (\<lambda>(name, n). (- uint n, name)) (iv_ops s))"
    unfolding ops by (fastforce simp: distinct_map inj_on_def)
  then have "distinct (map (\<lambda>(name, n). (- uint n, name)) (ranked s))" using m by (metis mset_map mset_eq_imp_distinct_iff)
  then have "sorted_wrt (<) (map (\<lambda>(name, n). (- uint n, name)) (ranked s))" by (simp add: strict_sorted_iff ranked_def)
  then have "sorted_wrt (\<lambda>(a, m) (b, n). n < m \<or> n = m \<and> a < b) (ranked s)"
    unfolding sorted_wrt_map by (rule sorted_wrt_mono_rel [rotated]) (auto simp: less_prod_def word_less_def dest: word_uint_eqI)
  moreover have "ranked_total s = sum_list (map snd (iv_ops s))" unfolding ranked_total_def using m by (rule sum_list_perm)
  ultimately show ?thesis using c m by (simp add: ops counts_of_sum counted_def empty_inventory_def)
qed

definition example_payloads :: "(string + prof_payload) list" where
  "example_payloads =
     [Inr PVersion, Inr PTypes, Inr (PFunctions 1),
      Inr (PCode (Inr [Inr ''LocalGet { local_index: 0 }'', Inr ''F32Add'', Inr ''LocalGet { local_index: 1 }'', Inr ''End'']))]"

theorem profile_correct_witness:
  "\<exists>s. profile example_payloads = Inr s \<and> mset (ranked s) = mset (counts_of (all_ops example_payloads)) \<and>
     ranked s = [(''LocalGet'', 2), (''End'', 1), (''F32Add'', 1)] \<and> ranked_total s = 4 \<and> iv_float_ops s = 1"
proof -
  have "map_sum id (\<lambda>s. (ranked s, ranked_total s, iv_float_ops s)) (profile example_payloads) =
      Inr ([(''LocalGet'', 2), (''End'', 1), (''F32Add'', 1)], 4, 1)"
    by code_simp
  then obtain s where s: "profile example_payloads = Inr s" "ranked s = [(''LocalGet'', 2), (''End'', 1), (''F32Add'', 1)]"
    "ranked_total s = 4" "iv_float_ops s = 1"
    by (cases "profile example_payloads") auto
  moreover from profile_correct [OF s(1)] have "mset (ranked s) = mset (counts_of (all_ops example_payloads))" by blast
  ultimately show ?thesis by blast
qed

end
