(* ===== verification/Interp.thy ===== *)
theory Interp
  imports Verify "HOL-Library.Signed_Division"
begin

text \<open>
  The interpreter that CPU and GPU share: \<open>run_instance\<close> of \<open>include/cuwasm/interp.h\<close> with the memory
  accesses of \<open>mem.h\<close>, and the state of \<open>vmstate.h\<close>. One step is a computation on the state that may
  stop: with a status (\<open>TRAP\<close>, and the return from the outermost function), or, where the C++ code
  would index an array out of range, with \<open>UB\<close>. Program counters, stack pointers and addresses are
  32-bit words and wrap.
\<close>

unbundle bit_operations_syntax

section \<open>State\<close>

datatype status =
    ST_RUNNING | ST_OK | ST_TRAP_UNREACHABLE | ST_TRAP_STACK_OVERFLOW | ST_TRAP_CALL_DEPTH | ST_OUT_OF_FUEL
  | ST_UNSUPPORTED_OP | ST_TRAP_DIV_BY_ZERO | ST_TRAP_INT_OVERFLOW | ST_TRAP_MEM_OOB | ST_TRAP_INDIRECT_CALL
  | ST_HOSTCALL_PENDING

datatype stop = Trap status | UB string

abbreviation (input) STACK_CAP :: u32 where "STACK_CAP \<equiv> 4096"
abbreviation (input) FRAME_CAP :: u32 where "FRAME_CAP \<equiv> 256"
abbreviation (input) FUEL_BACKEDGE :: int where "FUEL_BACKEDGE \<equiv> 1"
abbreviation (input) CUWASM_OP_COUNT :: u16 where "CUWASM_OP_COUNT \<equiv> 81"

record frame =
  fr_ret_pc :: u32
  fr_fp :: u32
  fr_sp_base :: u32
  fr_n_results :: u16

record host_mailbox =
  hb_fn_id :: u32
  hb_n_args :: u16
  hb_n_results :: u16
  hb_args :: "u64 list"
  hb_results :: "u64 list"

record run_profile =
  rp_opcode_counts :: "u64 list"
  rp_unsupported_opcode_counts :: "u64 list"
  rp_total_ops :: u64

text \<open>
  The state of a running instance: the registers and the memory size that \<open>run_instance\<close> keeps in
  local variables (and stores to \<open>VmState\<close> at the end), and what it reaches through pointers. The
  capacity of the stack view is the length of the stack.
\<close>

record inst =
  i_pc :: u32
  i_sp :: u32
  i_fp :: u32
  i_csp :: u32
  i_fuel :: int
  i_peak_csp :: u32
  i_stack :: "u64 list"
  i_frames :: "frame list"
  i_globals :: "u64 list"
  i_mem :: "u8 list"
  i_mem_size :: u32
  i_mem_max :: u32
  i_data_live :: "u8 list"
  i_mb :: host_mailbox
  i_host_fn :: u32
  i_host_n_args :: u16
  i_host_n_results :: u16
  i_profile :: "run_profile option"

type_synonym 'a act = "(inst, stop, 'a) es"

section \<open>Stack\<close>

definition trap :: "status \<Rightarrow> 'a act" where
  "trap s = fail (Trap s)"

definition stack_at :: "u32 \<Rightarrow> u64 act" where
  "stack_at i = bindS (getS i_stack) (\<lambda>st. if unat i < length st then ret (st ! unat i) else fail (UB ''stack read''))"

definition stack_set :: "u32 \<Rightarrow> u64 \<Rightarrow> unit act" where
  "stack_set i v =
     bindS (getS i_stack) (\<lambda>st. if unat i < length st then modifyS (\<lambda>s. s\<lparr>i_stack := st[unat i := v]\<rparr>) else fail (UB ''stack write''))"

definition cu_push :: "u64 \<Rightarrow> unit act" where
  "cu_push v =
     bindS (getS id) (\<lambda>s.
       if unat (i_sp s) \<ge> length (i_stack s) then trap ST_TRAP_STACK_OVERFLOW
       else thenS (stack_set (i_sp s) v) (modifyS (\<lambda>s. s\<lparr>i_sp := i_sp s + 1\<rparr>)))"

definition cu_pop :: "u64 act" where
  "cu_pop = thenS (modifyS (\<lambda>s. s\<lparr>i_sp := i_sp s - 1\<rparr>)) (bindS (getS i_sp) stack_at)"

section \<open>Arithmetic\<close>

definition mul_wide_u :: "u64 \<Rightarrow> u64 \<Rightarrow> u64 \<times> u64" where
  "mul_wide_u a b =
     (let a0 = ucast (ucast a :: u32); a1 = drop_bit 32 a; b0 = ucast (ucast b :: u32); b1 = drop_bit 32 b;
          p0 = a0 * b0; p1 = a0 * b1; p2 = a1 * b0; p3 = a1 * b1;
          c = drop_bit 32 p0 + ucast (ucast p1 :: u32) + ucast (ucast p2 :: u32)
      in ((p0 AND 0xFFFFFFFF) OR push_bit 32 c, p3 + drop_bit 32 p1 + drop_bit 32 p2 + drop_bit 32 c))"

definition mul_wide_s :: "u64 \<Rightarrow> u64 \<Rightarrow> u64 \<times> u64" where
  "mul_wide_s a b =
     (let (lo, hi) = mul_wide_u a b;
          hi1 = (if sint a < 0 then hi - b else hi);
          hi2 = (if sint b < 0 then hi1 - a else hi1)
      in (lo, hi2))"

text \<open>The binary operators on 64-bit and on 32-bit operands; a trap is a status.\<close>

definition alu64 :: "u16 \<Rightarrow> u64 \<Rightarrow> u64 \<Rightarrow> (status + u64) option" where
  "alu64 x a b =
     (if x = OP_I64_ADD then Some (Inr (a + b))
      else if x = OP_I64_SUB then Some (Inr (a - b))
      else if x = OP_I64_LE_S then Some (Inr (of_bool (sint a \<le> sint b)))
      else if x = OP_I64_LT_S then Some (Inr (of_bool (sint a < sint b)))
      else if x = OP_I64_EQ then Some (Inr (of_bool (a = b)))
      else if x = OP_I64_NE then Some (Inr (of_bool (a \<noteq> b)))
      else if x = OP_I64_LT_U then Some (Inr (of_bool (a < b)))
      else if x = OP_I64_LE_U then Some (Inr (of_bool (a \<le> b)))
      else if x = OP_I64_GT_S then Some (Inr (of_bool (sint a > sint b)))
      else if x = OP_I64_GT_U then Some (Inr (of_bool (a > b)))
      else if x = OP_I64_GE_S then Some (Inr (of_bool (sint a \<ge> sint b)))
      else if x = OP_I64_GE_U then Some (Inr (of_bool (a \<ge> b)))
      else if x = OP_I64_MUL then Some (Inr (a * b))
      else if x = OP_I64_AND then Some (Inr (a AND b))
      else if x = OP_I64_OR then Some (Inr (a OR b))
      else if x = OP_I64_XOR then Some (Inr (a XOR b))
      else if x = OP_I64_DIV_S then Some
        (if b = 0 then Inl ST_TRAP_DIV_BY_ZERO
         else if a = push_bit 63 1 \<and> b = -1 then Inl ST_TRAP_INT_OVERFLOW
         else Inr (word_of_int (sint a sdiv sint b)))
      else if x = OP_I64_DIV_U then Some (if b = 0 then Inl ST_TRAP_DIV_BY_ZERO else Inr (a div b))
      else if x = OP_I64_REM_S then Some
        (if b = 0 then Inl ST_TRAP_DIV_BY_ZERO
         else if a = push_bit 63 1 \<and> b = -1 then Inr 0
         else Inr (word_of_int (sint a smod sint b)))
      else if x = OP_I64_REM_U then Some (if b = 0 then Inl ST_TRAP_DIV_BY_ZERO else Inr (a mod b))
      else if x = OP_I64_SHL then Some (Inr (push_bit (unat (b AND 63)) a))
      else if x = OP_I64_SHR_S then Some (Inr (signed_drop_bit (unat (b AND 63)) a))
      else if x = OP_I64_SHR_U then Some (Inr (drop_bit (unat (b AND 63)) a))
      else None)"

definition alu32 :: "u16 \<Rightarrow> u32 \<Rightarrow> u32 \<Rightarrow> (status + u32) option" where
  "alu32 x a b =
     (if x = OP_I32_EQ then Some (Inr (of_bool (a = b)))
      else if x = OP_I32_NE then Some (Inr (of_bool (a \<noteq> b)))
      else if x = OP_I32_LT_S then Some (Inr (of_bool (sint a < sint b)))
      else if x = OP_I32_LT_U then Some (Inr (of_bool (a < b)))
      else if x = OP_I32_LE_S then Some (Inr (of_bool (sint a \<le> sint b)))
      else if x = OP_I32_LE_U then Some (Inr (of_bool (a \<le> b)))
      else if x = OP_I32_GT_S then Some (Inr (of_bool (sint a > sint b)))
      else if x = OP_I32_GT_U then Some (Inr (of_bool (a > b)))
      else if x = OP_I32_GE_S then Some (Inr (of_bool (sint a \<ge> sint b)))
      else if x = OP_I32_GE_U then Some (Inr (of_bool (a \<ge> b)))
      else if x = OP_I32_ADD then Some (Inr (a + b))
      else if x = OP_I32_SUB then Some (Inr (a - b))
      else if x = OP_I32_MUL then Some (Inr (a * b))
      else if x = OP_I32_AND then Some (Inr (a AND b))
      else if x = OP_I32_OR then Some (Inr (a OR b))
      else if x = OP_I32_XOR then Some (Inr (a XOR b))
      else if x = OP_I32_DIV_S then Some
        (if b = 0 then Inl ST_TRAP_DIV_BY_ZERO
         else if a = 0x80000000 \<and> b = -1 then Inl ST_TRAP_INT_OVERFLOW
         else Inr (word_of_int (sint a sdiv sint b)))
      else if x = OP_I32_DIV_U then Some (if b = 0 then Inl ST_TRAP_DIV_BY_ZERO else Inr (a div b))
      else if x = OP_I32_REM_S then Some
        (if b = 0 then Inl ST_TRAP_DIV_BY_ZERO
         else if a = 0x80000000 \<and> b = -1 then Inr 0
         else Inr (word_of_int (sint a smod sint b)))
      else if x = OP_I32_REM_U then Some (if b = 0 then Inl ST_TRAP_DIV_BY_ZERO else Inr (a mod b))
      else if x = OP_I32_SHL then Some (Inr (push_bit (unat (b AND 31)) a))
      else if x = OP_I32_SHR_S then Some (Inr (signed_drop_bit (unat (b AND 31)) a))
      else if x = OP_I32_SHR_U then Some (Inr (drop_bit (unat (b AND 31)) a))
      else None)"

definition alu2 :: "u16 \<Rightarrow> u64 \<Rightarrow> u64 \<Rightarrow> (status + u64) option" where
  "alu2 x a b =
     (case alu64 x a b of
        Some r \<Rightarrow> Some r
      | None \<Rightarrow> map_option (map_sum id ucast) (alu32 x (ucast a) (ucast b)))"

definition alu1 :: "u16 \<Rightarrow> u64 \<Rightarrow> u64 option" where
  "alu1 x a =
     (if x = OP_I64_EQZ then Some (of_bool (a = 0))
      else if x = OP_I32_EQZ then Some (of_bool ((ucast a :: u32) = 0))
      else if x = OP_I32_WRAP_I64 then Some (ucast (ucast a :: u32))
      else if x = OP_I64_EXTEND_I32_S then Some (scast (ucast a :: u32))
      else if x = OP_I64_EXTEND_I32_U then Some (ucast (ucast a :: u32))
      else None)"

text \<open>
  The loop of \<open>OP_CLZ\<close>. After as many shifts as \<open>bits\<close> says the mask is 0 and the loop would run
  forever, which is \<open>None\<close>.
\<close>

fun clz_loop :: "nat \<Rightarrow> u64 \<Rightarrow> u64 \<Rightarrow> u64 \<Rightarrow> u64 option" where
  "clz_loop k v msk n =
     (if v AND msk \<noteq> 0 then Some n
      else case k of 0 \<Rightarrow> None | Suc k \<Rightarrow> clz_loop k v (drop_bit 1 msk) (n + 1))"

definition clz :: "u16 \<Rightarrow> u64 \<Rightarrow> u64 option" where
  "clz a v =
     (let bits = (if a \<noteq> 0 then a else 64); v = (if bits = 32 then v AND 0xFFFFFFFF else v) in
      if v = 0 then Some (ucast bits) else clz_loop (unat bits) v (push_bit (unat bits - 1) 1) 0)"

section \<open>Memory\<close>

text \<open>The data pointer of the memory is never null here: a module without memory has a dummy byte.\<close>

definition mem_in_bounds :: "u32 \<Rightarrow> u64 \<Rightarrow> u32 \<Rightarrow> bool" where
  "mem_in_bounds sz ea n \<longleftrightarrow> n \<le> sz \<and> ea \<le> ucast sz - ucast n"

definition mem_get :: "nat \<Rightarrow> u8 act" where
  "mem_get i = bindS (getS i_mem) (\<lambda>m. if i < length m then ret (m ! i) else fail (UB ''memory read''))"

definition mem_set :: "nat \<Rightarrow> u8 \<Rightarrow> unit act" where
  "mem_set i v =
     bindS (getS i_mem) (\<lambda>m. if i < length m then modifyS (\<lambda>s. s\<lparr>i_mem := m[i := v]\<rparr>) else fail (UB ''memory write''))"

fun mem_load_le :: "nat \<Rightarrow> nat \<Rightarrow> u64 act" where
  "mem_load_le ea 0 = ret 0"
| "mem_load_le ea (Suc n) =
     bindS (mem_load_le ea n) (\<lambda>v. bindS (mem_get (ea + n)) (\<lambda>b. ret (v OR push_bit (8 * n) (ucast b))))"

definition mem_store_le :: "nat \<Rightarrow> nat \<Rightarrow> u64 \<Rightarrow> unit act" where
  "mem_store_le ea n v = forS [0..<n] (\<lambda>i. mem_set (ea + i) (ucast (drop_bit (8 * i) v)))"

definition sext64 :: "u64 \<Rightarrow> nat \<Rightarrow> u64" where
  "sext64 v bits = signed_drop_bit (64 - bits) (push_bit (64 - bits) v)"

text \<open>The extension of a loaded value, from the flags in \<open>in.a\<close>.\<close>

definition extend_load :: "u16 \<Rightarrow> nat \<Rightarrow> u64 \<Rightarrow> u64" where
  "extend_load a nbytes v =
     (let sgn = (a AND 0x10 \<noteq> 0); i64dest = (a AND 0x20 \<noteq> 0) in
      if sgn then (if i64dest then sext64 v (nbytes * 8) else ucast (ucast (sext64 v (nbytes * 8)) :: u32))
      else if \<not> i64dest \<and> nbytes < 8 then ucast (ucast v :: u32) else v)"

definition do_load :: "cuop \<Rightarrow> unit act" where
  "do_load ins =
     (let nbytes = unat (cu_a ins AND 0xF) in
      bindS cu_pop (\<lambda>addr.
      bindS (getS i_mem_size) (\<lambda>sz.
        let ea = ucast (ucast addr :: u32) + ucast (cu_b ins) :: u64 in
        if nbytes = 0 \<or> nbytes > 8 \<or> \<not> mem_in_bounds sz ea (of_nat nbytes) then trap ST_TRAP_MEM_OOB
        else bindS (mem_load_le (unat ea) nbytes) (\<lambda>v. cu_push (extend_load (cu_a ins) nbytes v)))))"

definition do_store :: "cuop \<Rightarrow> unit act" where
  "do_store ins =
     bindS cu_pop (\<lambda>val.
     bindS cu_pop (\<lambda>addr.
     bindS (getS i_mem_size) (\<lambda>sz.
       let nbytes = unat (cu_a ins); ea = ucast (ucast addr :: u32) + ucast (cu_b ins) :: u64 in
       if nbytes = 0 \<or> nbytes > 8 \<or> \<not> mem_in_bounds sz ea (of_nat nbytes) then trap ST_TRAP_MEM_OOB
       else mem_store_le (unat ea) nbytes val)))"

definition do_grow :: "unit act" where
  "do_grow =
     bindS cu_pop (\<lambda>d.
     bindS (getS id) (\<lambda>s.
       let old = i_mem_size s div WASM_PAGE; np = ucast old + ucast (ucast d :: u32) :: u64; maxp = i_mem_max s div WASM_PAGE in
       if np > ucast maxp \<or> np > 65536 then cu_push (ucast (- 1 :: u32))
       else thenS (modifyS (\<lambda>s. s\<lparr>i_mem_size := ucast np * WASM_PAGE\<rparr>)) (cu_push (ucast old))))"

definition do_copy :: "unit act" where
  "do_copy =
     bindS cu_pop (\<lambda>n. bindS cu_pop (\<lambda>src. bindS cu_pop (\<lambda>dst.
     bindS (getS i_mem_size) (\<lambda>sz.
       let n = ucast n :: u32; src = ucast src :: u32; dst = ucast dst :: u32 in
       if (ucast src + ucast n :: u64) > ucast sz \<or> (ucast dst + ucast n :: u64) > ucast sz then trap ST_TRAP_MEM_OOB
       else
         let move = (\<lambda>i. bindS (mem_get (unat (src + of_nat i))) (\<lambda>v. mem_set (unat (dst + of_nat i)) v)) in
         if dst \<le> src then forS [0..<unat n] move else forS (rev [0..<unat n]) move))))"

definition do_fill :: "unit act" where
  "do_fill =
     bindS cu_pop (\<lambda>n. bindS cu_pop (\<lambda>val. bindS cu_pop (\<lambda>dst.
     bindS (getS i_mem_size) (\<lambda>sz.
       let n = ucast n :: u32; dst = ucast dst :: u32 in
       if (ucast dst + ucast n :: u64) > ucast sz then trap ST_TRAP_MEM_OOB
       else forS [0..<unat n] (\<lambda>i. mem_set (unat (dst + of_nat i)) (ucast val))))))"

text \<open>An element of an array of the module; past its end it is undefined.\<close>

definition elem_at :: "string \<Rightarrow> 'x list \<Rightarrow> nat \<Rightarrow> 'x act" where
  "elem_at what xs i = (if i < length xs then ret (xs ! i) else fail (UB what))"

definition do_init :: "host_module \<Rightarrow> cuop \<Rightarrow> unit act" where
  "do_init m ins =
     bindS cu_pop (\<lambda>n. bindS cu_pop (\<lambda>src. bindS cu_pop (\<lambda>dst.
     bindS (getS id) (\<lambda>s.
       let n = ucast n :: u32; src = ucast src :: u32; dst = ucast dst :: u32; di = unat (cu_a ins) in
       if di \<ge> length (i_data_live s) then trap ST_TRAP_MEM_OOB
       else
         bindS (if i_data_live s ! di \<noteq> 0
                then bindS (elem_at ''data length'' (hm_data_len m) di) (\<lambda>l.
                     bindS (elem_at ''data offset'' (hm_data_off m) di) (\<lambda>off. ret (l, off)))
                else ret (0, 0)) (\<lambda>(dlen, doff).
         if (ucast src + ucast n :: u64) > ucast dlen \<or> (ucast dst + ucast n :: u64) > ucast (i_mem_size s) then trap ST_TRAP_MEM_OOB
         else whenS (hm_data_blob m \<noteq> [])
           (forS [0..<unat n] (\<lambda>i.
             bindS (elem_at ''data blob'' (hm_data_blob m) (unat (doff + src + of_nat i))) (\<lambda>v.
               mem_set (unat (dst + of_nat i)) v))))))))"

definition do_data_drop :: "cuop \<Rightarrow> unit act" where
  "do_data_drop ins =
     bindS (getS i_data_live) (\<lambda>live.
       if unat (cu_a ins) \<ge> length live then trap ST_TRAP_MEM_OOB
       else modifyS (\<lambda>s. s\<lparr>i_data_live := live[unat (cu_a ins) := 0]\<rparr>))"

section \<open>Control\<close>

text \<open>The loops that move \<open>n\<close> slots of the stack, upwards or downwards.\<close>

definition move_slots :: "u32 \<Rightarrow> u32 \<Rightarrow> nat \<Rightarrow> unit act" where
  "move_slots dst src n =
     (let move = (\<lambda>i. bindS (stack_at (src + of_nat i)) (stack_set (dst + of_nat i))) in
      if dst \<le> src then forS [0..<n] move else forS (rev [0..<n]) move)"

definition do_unwind :: "cuop \<Rightarrow> unit act" where
  "do_unwind ins =
     bindS (getS id) (\<lambda>s.
       let nkeep = ucast (cu_a ins) :: u32; dest = i_fp s + cu_b ins in
       if nkeep > i_sp s \<or> dest < nkeep \<or> dest > STACK_CAP then trap ST_TRAP_STACK_OVERFLOW
       else
         let src = i_sp s - nkeep; dst = dest - nkeep in
         thenS (whenS (dst \<noteq> src) (move_slots dst src (unat nkeep)))
           (modifyS (\<lambda>s. s\<lparr>i_sp := dest\<rparr>)))"

definition do_br :: "cuop \<Rightarrow> unit act" where
  "do_br ins =
     bindS (getS id) (\<lambda>s.
       thenS (whenS (cu_b ins \<le> i_pc s)
           (thenS (modifyS (\<lambda>s. s\<lparr>i_fuel := i_fuel s - FUEL_BACKEDGE\<rparr>))
             (bindS (getS i_fuel) (\<lambda>fuel. whenS (fuel \<le> 0) (trap ST_OUT_OF_FUEL)))))
         (modifyS (\<lambda>s. s\<lparr>i_pc := cu_b ins\<rparr>)))"

definition do_br_if_not :: "cuop \<Rightarrow> unit act" where
  "do_br_if_not ins = bindS cu_pop (\<lambda>v. whenS ((ucast v :: u32) = 0) (modifyS (\<lambda>s. s\<lparr>i_pc := cu_b ins\<rparr>)))"

definition frame_set :: "u32 \<Rightarrow> frame \<Rightarrow> unit act" where
  "frame_set i f =
     bindS (getS i_frames) (\<lambda>fs. if unat i < length fs then modifyS (\<lambda>s. s\<lparr>i_frames := fs[unat i := f]\<rparr>) else fail (UB ''frame write''))"

definition frame_at :: "u32 \<Rightarrow> frame act" where
  "frame_at i = bindS (getS i_frames) (\<lambda>fs. if unat i < length fs then ret (fs ! unat i) else fail (UB ''frame read''))"

definition push_locals :: "func_meta \<Rightarrow> unit act" where
  "push_locals f = forS (replicate (unat (fm_n_locals f)) ()) (\<lambda>_. cu_push 0)"

text \<open>The common part of \<open>OP_CALL\<close> and \<open>OP_CALL_INDIRECT\<close>.\<close>

definition enter :: "func_meta \<Rightarrow> unit act" where
  "enter f =
     bindS (getS id) (\<lambda>s.
       if i_csp s \<ge> FRAME_CAP then trap ST_TRAP_CALL_DEPTH
       else if i_sp s < ucast (fm_n_params f) then trap ST_TRAP_STACK_OVERFLOW
       else
         let sp_base = i_sp s - ucast (fm_n_params f) in
         thenS (frame_set (i_csp s)
             \<lparr>fr_ret_pc = i_pc s, fr_fp = i_fp s, fr_sp_base = sp_base, fr_n_results = fm_n_results f\<rparr>)
        (thenS (modifyS (\<lambda>s. s\<lparr>i_csp := i_csp s + 1, i_peak_csp := max (i_peak_csp s) (i_csp s + 1), i_fp := sp_base\<rparr>))
        (thenS (push_locals f)
           (modifyS (\<lambda>s. s\<lparr>i_pc := fm_code_off f\<rparr>)))))"

definition do_call :: "host_module \<Rightarrow> cuop \<Rightarrow> unit act" where
  "do_call m ins =
     (if unat (cu_b ins) \<ge> length (hm_funcs m) then trap ST_UNSUPPORTED_OP else enter (hm_funcs m ! unat (cu_b ins)))"

definition do_return_call :: "host_module \<Rightarrow> cuop \<Rightarrow> unit act" where
  "do_return_call m ins =
     (if unat (cu_b ins) \<ge> length (hm_funcs m) then trap ST_UNSUPPORTED_OP
      else
        let f = hm_funcs m ! unat (cu_b ins) in
        bindS (getS id) (\<lambda>s.
          if i_sp s < ucast (fm_n_params f) then trap ST_TRAP_STACK_OVERFLOW
          else
            thenS (move_slots (i_fp s) (i_sp s - ucast (fm_n_params f)) (unat (fm_n_params f)))
           (thenS (modifyS (\<lambda>s. s\<lparr>i_sp := i_fp s + ucast (fm_n_params f)\<rparr>))
           (thenS (push_locals f)
           (thenS (whenS (i_csp s > 0)
               (bindS (frame_at (i_csp s - 1)) (\<lambda>fr. frame_set (i_csp s - 1) (fr\<lparr>fr_n_results := fm_n_results f\<rparr>))))
              (modifyS (\<lambda>s. s\<lparr>i_pc := fm_code_off f\<rparr>)))))))"

definition do_return :: "unit act" where
  "do_return =
     bindS (getS i_csp) (\<lambda>csp.
       if csp = 0 then trap ST_TRAP_UNREACHABLE
       else
         thenS (modifyS (\<lambda>s. s\<lparr>i_csp := csp - 1\<rparr>))
        (bindS (frame_at (csp - 1)) (\<lambda>fr.
         bindS (getS i_sp) (\<lambda>sp.
           let nres = ucast (fr_n_results fr) :: u32 in
           if sp < nres then trap ST_TRAP_STACK_OVERFLOW
           else
             thenS (move_slots (fr_sp_base fr) (sp - nres) (unat nres))
            (thenS (modifyS (\<lambda>s. s\<lparr>i_sp := fr_sp_base fr + nres, i_fp := fr_fp fr\<rparr>))
               (if csp - 1 = 0 then trap ST_OK else modifyS (\<lambda>s. s\<lparr>i_pc := fr_ret_pc fr\<rparr>)))))))"

definition do_call_indirect :: "host_module \<Rightarrow> cuop \<Rightarrow> unit act" where
  "do_call_indirect m ins =
     bindS cu_pop (\<lambda>v.
       let idx = unat (ucast v :: u32) in
       if idx \<ge> length (hm_table m) then trap ST_TRAP_INDIRECT_CALL
       else
         let fi = hm_table m ! idx in
         if fi = TABLE_NULL \<or> unat fi \<ge> length (hm_funcs m) then trap ST_TRAP_INDIRECT_CALL
         else if hm_func_typeidx m \<noteq> [] \<and> unat (cu_b ins) < length (hm_type_fp m) then
           bindS (elem_at ''function type'' (hm_func_typeidx m) (unat fi)) (\<lambda>have.
             if unat have \<ge> length (hm_type_fp m) \<or> hm_type_fp m ! unat have \<noteq> hm_type_fp m ! unat (cu_b ins)
             then trap ST_TRAP_INDIRECT_CALL
             else enter (hm_funcs m ! unat fi))
         else trap ST_TRAP_INDIRECT_CALL)"

text \<open>A host call copies the arguments to the mailbox and stops; the driver resumes the instance.\<close>

definition do_call_host :: "cuop \<Rightarrow> unit act" where
  "do_call_host ins =
     (let np = cu_a ins AND 0xFF; nr = drop_bit 8 (cu_a ins) AND 0xFF in
      if np > 16 then trap ST_UNSUPPORTED_OP
      else
        bindS (getS id) (\<lambda>s.
          if i_sp s < ucast np then trap ST_TRAP_STACK_OVERFLOW
          else
            thenS (modifyS (\<lambda>s. s\<lparr>i_mb := (i_mb s)\<lparr>hb_fn_id := cu_b ins, hb_n_args := np, hb_n_results := nr\<rparr>\<rparr>))
           (thenS (forS [0..<unat np] (\<lambda>i.
               bindS (stack_at (i_sp s - ucast np + of_nat i)) (\<lambda>v.
                 modifyS (\<lambda>s. s\<lparr>i_mb := (i_mb s)\<lparr>hb_args := (hb_args (i_mb s))[i := v]\<rparr>\<rparr>))))
           (thenS (modifyS (\<lambda>s. s\<lparr>i_sp := i_sp s - ucast np, i_host_fn := cu_b ins, i_host_n_args := np, i_host_n_results := nr\<rparr>))
              (trap ST_HOSTCALL_PENDING)))))"

section \<open>One step\<close>

definition pop_two :: "(u64 \<Rightarrow> u64 \<Rightarrow> unit act) \<Rightarrow> unit act" where
  "pop_two f = bindS cu_pop (\<lambda>b. bindS cu_pop (\<lambda>a. f a b))"

definition push_pair :: "u64 \<times> u64 \<Rightarrow> unit act" where
  "push_pair r = thenS (cu_push (fst r)) (cu_push (snd r))"

definition add128 :: "u64 \<Rightarrow> u64 \<Rightarrow> u64 \<Rightarrow> u64 \<Rightarrow> u64 \<times> u64" where
  "add128 lhs_lo lhs_hi rhs_lo rhs_hi =
     (let lo = lhs_lo + rhs_lo; c = (if lo < lhs_lo then 1 else 0) in (lo, lhs_hi + rhs_hi + c))"

definition sub128 :: "u64 \<Rightarrow> u64 \<Rightarrow> u64 \<Rightarrow> u64 \<Rightarrow> u64 \<times> u64" where
  "sub128 lhs_lo lhs_hi rhs_lo rhs_hi =
     (let lo = lhs_lo - rhs_lo; brw = (if lhs_lo < rhs_lo then 1 else 0) in (lo, lhs_hi - rhs_hi - brw))"

definition do_global_get :: "cuop \<Rightarrow> unit act" where
  "do_global_get ins =
     bindS (getS i_globals) (\<lambda>gs. if unat (cu_b ins) \<ge> length gs then trap ST_UNSUPPORTED_OP else cu_push (gs ! unat (cu_b ins)))"

definition do_global_set :: "cuop \<Rightarrow> unit act" where
  "do_global_set ins =
     bindS (getS i_globals) (\<lambda>gs.
       if unat (cu_b ins) \<ge> length gs then trap ST_UNSUPPORTED_OP
       else bindS cu_pop (\<lambda>v. modifyS (\<lambda>s. s\<lparr>i_globals := gs[unat (cu_b ins) := v]\<rparr>)))"

definition do_clz :: "cuop \<Rightarrow> unit act" where
  "do_clz ins = bindS cu_pop (\<lambda>v. case clz (cu_a ins) v of Some n \<Rightarrow> cu_push n | None \<Rightarrow> fail (UB ''clz''))"

definition count_unsupported :: "u16 \<Rightarrow> unit act" where
  "count_unsupported x =
     modifyS (\<lambda>s. s\<lparr>i_profile := map_option (\<lambda>p.
       if x < CUWASM_OP_COUNT
       then p\<lparr>rp_unsupported_opcode_counts := (rp_unsupported_opcode_counts p)[unat x := rp_unsupported_opcode_counts p ! unat x + 1]\<rparr>
       else p) (i_profile s)\<rparr>)"

text \<open>The \<open>switch\<close>.\<close>

definition execute :: "host_module \<Rightarrow> cuop \<Rightarrow> unit act" where
  "execute m ins =
     (let x = cu_op ins in
      if x = OP_I64_CONST then bindS (elem_at ''constant'' (hm_consts m) (unat (cu_b ins))) cu_push
      else if x = OP_LOCAL_GET then bindS (getS i_fp) (\<lambda>fp. bindS (stack_at (fp + ucast (cu_a ins))) cu_push)
      else if x = OP_LOCAL_SET then bindS cu_pop (\<lambda>v. bindS (getS i_fp) (\<lambda>fp. stack_set (fp + ucast (cu_a ins)) v))
      else if x \<in> binops then
        pop_two (\<lambda>a b. case alu2 x a b of Some (Inr v) \<Rightarrow> cu_push v | Some (Inl t) \<Rightarrow> trap t | None \<Rightarrow> trap ST_UNSUPPORTED_OP)
      else if x \<in> {OP_I64_EQZ, OP_I32_EQZ, OP_I32_WRAP_I64, OP_I64_EXTEND_I32_S, OP_I64_EXTEND_I32_U} then
        bindS cu_pop (\<lambda>a. case alu1 x a of Some v \<Rightarrow> cu_push v | None \<Rightarrow> trap ST_UNSUPPORTED_OP)
      else if x = OP_DROP then bindS cu_pop (\<lambda>_. ret ())
      else if x = OP_SELECT then
        bindS cu_pop (\<lambda>c. bindS cu_pop (\<lambda>b. bindS cu_pop (\<lambda>a. cu_push (if (ucast c :: u32) \<noteq> 0 then a else b))))
      else if x = OP_I64_MUL_WIDE_U then pop_two (\<lambda>a b. push_pair (mul_wide_u a b))
      else if x = OP_I64_MUL_WIDE_S then pop_two (\<lambda>a b. push_pair (mul_wide_s a b))
      else if x = OP_I64_ADD128 then pop_two (\<lambda>rlo rhi. pop_two (\<lambda>llo lhi. push_pair (add128 llo lhi rlo rhi)))
      else if x = OP_I64_SUB128 then pop_two (\<lambda>rlo rhi. pop_two (\<lambda>llo lhi. push_pair (sub128 llo lhi rlo rhi)))
      else if x = OP_GLOBAL_GET then do_global_get ins
      else if x = OP_GLOBAL_SET then do_global_set ins
      else if x = OP_UNWIND then do_unwind ins
      else if x = OP_BR then do_br ins
      else if x = OP_BR_IF_NOT then do_br_if_not ins
      else if x = OP_CALL then do_call m ins
      else if x = OP_RETURN_CALL then do_return_call m ins
      else if x = OP_RETURN \<or> x = OP_END_FUNC then do_return
      else if x = OP_UNREACHABLE then trap ST_TRAP_UNREACHABLE
      else if x = OP_LOAD then do_load ins
      else if x = OP_STORE then do_store ins
      else if x = OP_MEMORY_SIZE then bindS (getS i_mem_size) (\<lambda>sz. cu_push (ucast (sz div WASM_PAGE)))
      else if x = OP_MEMORY_GROW then do_grow
      else if x = OP_MEMORY_COPY then do_copy
      else if x = OP_MEMORY_FILL then do_fill
      else if x = OP_MEMORY_INIT then do_init m ins
      else if x = OP_DATA_DROP then do_data_drop ins
      else if x = OP_CALL_HOST then do_call_host ins
      else if x = OP_CALL_INDIRECT then do_call_indirect m ins
      else if x = OP_CLZ then do_clz ins
      else thenS (count_unsupported x) (trap ST_UNSUPPORTED_OP))"

definition count_opcode :: "u16 \<Rightarrow> run_profile \<Rightarrow> run_profile" where
  "count_opcode x p =
     (if x < CUWASM_OP_COUNT
      then p\<lparr>rp_opcode_counts := (rp_opcode_counts p)[unat x := rp_opcode_counts p ! unat x + 1], rp_total_ops := rp_total_ops p + 1\<rparr>
      else p)"

definition fetch :: "host_module \<Rightarrow> cuop act" where
  "fetch m =
     bindS (getS i_pc) (\<lambda>pc.
       if unat pc \<ge> length (hm_code m) then trap ST_TRAP_UNREACHABLE
       else
         let ins = hm_code m ! unat pc in
         thenS (modifyS (\<lambda>s. s\<lparr>i_pc := pc + 1, i_profile := map_option (count_opcode (cu_op ins)) (i_profile s)\<rparr>)) (ret ins))"

definition step :: "host_module \<Rightarrow> unit act" where
  "step m =
     bindS (fetch m) (\<lambda>ins.
       thenS (execute m ins) (bindS (getS i_sp) (\<lambda>sp. whenS (sp > STACK_CAP) (trap ST_TRAP_STACK_OVERFLOW))))"

text \<open>At most \<open>max_steps\<close> steps; the status is \<open>ST_RUNNING\<close> when they are used up.\<close>

fun run_instance :: "host_module \<Rightarrow> nat \<Rightarrow> inst \<Rightarrow> stop \<times> inst" where
  "run_instance m 0 s = (Trap ST_RUNNING, s)"
| "run_instance m (Suc n) s = (case step m s of (Inl e, t) \<Rightarrow> (e, t) | (Inr _, t) \<Rightarrow> run_instance m n t)"

end
