(* ===== verification/Interp_Arith.thy ===== *)
theory Interp_Arith
  imports Interp
begin

text \<open>
  The arithmetic of the interpreter against integers: the 128-bit products, sums and differences that
  are computed from 64-bit halves, counting leading zeros, and sign extension.
\<close>

section \<open>Wide multiplication\<close>

lemma uint_mult_small: "uint (a :: u64) * uint b < 2 ^ 64 \<Longrightarrow> uint (a * b) = uint a * uint b"
  by (simp add: uint_word_ariths)

lemma uint_plus_small: "uint (a :: u64) + uint b < 2 ^ 64 \<Longrightarrow> uint (a + b) = uint a + uint b"
  by (simp add: uint_word_ariths)

lemma uint_low_half: "uint (ucast (ucast (a :: u64) :: u32) :: u64) = uint a mod 2 ^ 32"
  by transfer (simp add: take_bit_take_bit min_def take_bit_eq_mod)

lemma uint_high_half: "uint (drop_bit 32 (a :: u64)) = uint a div 2 ^ 32"
  by (simp add: drop_bit_eq_div uint_div_distrib)

lemma low_or_high: "uint ((a AND 0xFFFFFFFF) OR push_bit 32 (c :: u64)) = uint a mod 2 ^ 32 + 2 ^ 32 * (uint c mod 2 ^ 32)"
proof -
  have m: "(0xFFFFFFFF :: u64) = mask 32" by (simp add: mask_eq_exp_minus_1)
  have "(a AND mask 32) AND push_bit 32 c = 0"
    by (rule bit_eqI) (simp add: bit_simps)
  then have "(a AND mask 32) OR push_bit 32 c = (a AND mask 32) + push_bit 32 c" by (simp add: disjunctive_add_eq_or)
  moreover have "uint (a AND mask 32) = uint a mod 2 ^ 32"
    by (simp add: unsigned_take_bit_eq flip: take_bit_eq_mask) (simp add: take_bit_eq_mod)
  moreover have "uint (push_bit 32 c) = 2 ^ 32 * (uint c mod 2 ^ 32)"
    using mult_mod_right [of "2 ^ 32" "uint c" "2 ^ 32"] by (simp add: push_bit_eq_mult uint_word_ariths mult.commute)
  moreover have "uint a mod 2 ^ 32 < 2 ^ 32" "uint c mod 2 ^ 32 < 2 ^ 32" by simp_all
  then have "uint a mod 2 ^ 32 + 2 ^ 32 * (uint c mod 2 ^ 32) < 2 ^ 64" by simp
  ultimately show ?thesis unfolding m by (simp add: uint_plus_small)
qed

text \<open>The school method on 32-bit halves, over the integers.\<close>

lemma school_sum:
  fixes p0 p1 p2 p3 q0 q1 q2 qc r0 r1 r2 rc B :: int
  assumes "p0 = B * q0 + r0" and "p1 = B * q1 + r1" and "p2 = B * q2 + r2" and "q0 + r1 + r2 = B * qc + rc"
  shows "(p3 + q1 + q2 + qc) * (B * B) + (r0 + B * rc) = p3 * (B * B) + (p1 + p2) * B + p0"
  using assms by algebra

lemma halves_product:
  fixes a0 a1 b0 b1 B :: int
  shows "(B * a1 + a0) * (B * b1 + b0) = (a1 * b1) * (B * B) + (a0 * b1 + a1 * b0) * B + a0 * b0"
  by algebra

lemma uint_less64: "uint (a :: u64) < 2 ^ 64"
  using unsigned_less [of a, where 'a = int] by simp

lemma mul_wide_u_value:
  assumes "mul_wide_u a b = (lo, hi)"
  shows "uint hi * 2 ^ 64 + uint lo = uint a * uint b"
proof -
  let ?a0 = "uint a mod 2 ^ 32" and ?a1 = "uint a div 2 ^ 32" and ?b0 = "uint b mod 2 ^ 32" and ?b1 = "uint b div 2 ^ 32"
  define p0 p1 p2 p3 where p: "p0 = ?a0 * ?b0" "p1 = ?a0 * ?b1" "p2 = ?a1 * ?b0" "p3 = ?a1 * ?b1"
  define c where c: "c = p0 div 2 ^ 32 + p1 mod 2 ^ 32 + p2 mod 2 ^ 32"
  have r: "0 \<le> ?a0" "?a0 < 2 ^ 32" "0 \<le> ?a1" "?a1 < 2 ^ 32" "0 \<le> ?b0" "?b0 < 2 ^ 32" "0 \<le> ?b1" "?b1 < 2 ^ 32"
    using uint_less64 [of a] uint_less64 [of b] by (simp_all add: div_int_pos_iff)
  have small: "x * y < 2 ^ 64 \<and> 0 \<le> x * y" if "0 \<le> x" "x < 2 ^ 32" "0 \<le> y" "y < 2 ^ 32" for x y :: int
    using mult_strict_mono' [of x "2 ^ 32" y "2 ^ 32"] that by simp
  have lt: "p0 < 2 ^ 64" "0 \<le> p0" "p1 < 2 ^ 64" "0 \<le> p1" "p2 < 2 ^ 64" "0 \<le> p2" "p3 < 2 ^ 64" "0 \<le> p3"
    unfolding p using small r by simp_all
  have q: "0 \<le> x div 2 ^ 32 \<and> x div 2 ^ 32 < 2 ^ 32 \<and> 0 \<le> x mod 2 ^ 32 \<and> x mod 2 ^ 32 < 2 ^ 32" if "0 \<le> x" "x < 2 ^ 64" for x :: int
    using that by (simp add: div_int_pos_iff)
  note b = q [OF lt(2,1)] q [OF lt(4,3)] q [OF lt(6,5)]
  have cl: "c < 2 ^ 64" "0 \<le> c" using b unfolding c by (simp_all, linarith)
  have w: "uint (ucast (ucast a :: u32) * ucast (ucast b :: u32) :: u64) = p0" "uint (ucast (ucast a :: u32) * drop_bit 32 b :: u64) = p1"
    "uint (drop_bit 32 a * ucast (ucast b :: u32) :: u64) = p2" "uint (drop_bit 32 a * drop_bit 32 b) = p3"
    using lt by (simp_all add: uint_mult_small uint_low_half uint_high_half p)
  let ?c = "drop_bit 32 (ucast (ucast a :: u32) * ucast (ucast b :: u32)) + ucast (ucast (ucast (ucast a :: u32) * drop_bit 32 b) :: u32) +
      ucast (ucast (drop_bit 32 a * ucast (ucast b :: u32)) :: u32) :: u64"
  have wc: "uint ?c = c" using b cl by (simp add: uint_plus_small uint_low_half uint_high_half w c)
  define H where "H = p3 + p1 div 2 ^ 32 + p2 div 2 ^ 32 + c div 2 ^ 32"
  define L where "L = p0 mod 2 ^ 32 + 2 ^ 32 * (c mod 2 ^ 32)"
  have split: "x = 2 ^ 32 * (x div 2 ^ 32) + x mod 2 ^ 32" for x :: int by simp
  have "H * (2 ^ 32 * 2 ^ 32) + L = p3 * (2 ^ 32 * 2 ^ 32) + (p1 + p2) * 2 ^ 32 + p0"
    unfolding H_def L_def by (rule school_sum [OF split split split]) (use split [of c] c in simp)
  also have "\<dots> = uint a * uint b" unfolding p by (subst halves_product [symmetric]) simp
  finally have total: "H * 2 ^ 64 + L = uint a * uint b" by simp
  have "0 \<le> L" unfolding L_def by simp
  have "uint a * uint b < 2 ^ 64 * 2 ^ 64" using mult_strict_mono' [OF uint_less64 uint_less64, of a b] by simp
  then have "H < 2 ^ 64" using total \<open>0 \<le> L\<close> by simp
  moreover have "0 \<le> p1 div 2 ^ 32" "0 \<le> p2 div 2 ^ 32" "0 \<le> c div 2 ^ 32" using lt cl by (simp_all add: div_int_pos_iff)
  ultimately have "uint hi = H"
    using assms lt(8) by (auto simp: mul_wide_u_def Let_def H_def uint_plus_small uint_high_half w wc)
  moreover have "uint lo = L"
    using assms by (auto simp: mul_wide_u_def Let_def L_def low_or_high w wc)
  ultimately show ?thesis using total by simp
qed

lemma sint_range64: "- (2 ^ 63) \<le> sint (a :: u64)" "sint (a :: u64) < 2 ^ 63"
  using sint_greater_eq [of a] sint_less [of a] by simp_all

lemma sint_uint64: "sint (a :: u64) = uint a - (if sint a < 0 then 2 ^ 64 else 0)"
proof -
  have "uint a = sint a mod 2 ^ 64" by (simp add: uint_sint take_bit_eq_mod)
  also have "\<dots> = (if sint a < 0 then sint a + 2 ^ 64 else sint a)"
  proof (cases "sint a < 0")
    case True
    have "sint a mod 2 ^ 64 = (sint a + 2 ^ 64) mod 2 ^ 64" by simp
    also have "\<dots> = sint a + 2 ^ 64" using True sint_range64 [of a] by (intro mod_pos_pos_trivial) simp_all
    finally show ?thesis using True by simp
  next
    case False
    then show ?thesis using sint_range64 [of a] by (simp add: mod_pos_pos_trivial)
  qed
  finally show ?thesis by (simp split: if_splits)
qed

lemma sint_of_int64: "- (2 ^ 63) \<le> k \<Longrightarrow> k < 2 ^ 63 \<Longrightarrow> sint (word_of_int k :: u64) = k"
  by (simp add: sint_sbintrunc' signed_take_bit_int_eq_self)


lemma high_range:
  fixes k l p :: int
  assumes "k * 2 ^ 64 + l = p" and "0 \<le> l" and "l < 2 ^ 64" and "\<bar>p\<bar> \<le> 2 ^ 63 * 2 ^ 63"
  shows "- (2 ^ 63) \<le> k" and "k < 2 ^ 63"
  using assms by simp_all

lemma mul_wide_s_value:
  assumes "mul_wide_s a b = (lo, hi)"
  shows "sint hi * 2 ^ 64 + uint lo = sint a * sint b"
proof -
  obtain uh where u: "mul_wide_u a b = (lo, uh)"
    and hi: "hi = uh - (if sint a < 0 then b else 0) - (if sint b < 0 then a else 0)"
    using assms by (auto simp: mul_wide_s_def Let_def split: prod.splits if_splits)
  define sa sb :: int where s: "sa = (if sint a < 0 then 1 else 0)" "sb = (if sint b < 0 then 1 else 0)"
  define K where "K = uint uh - sa * uint b - sb * uint a + sa * sb * 2 ^ 64"
  have ab: "sint a = uint a - sa * 2 ^ 64" "sint b = uint b - sb * 2 ^ 64"
    using sint_uint64 [of a] sint_uint64 [of b] by (auto simp: s)
  have prod: "K * 2 ^ 64 + uint lo = sint a * sint b"
  proof -
    have "sint a * sint b = uint a * uint b - (sa * uint b + sb * uint a) * 2 ^ 64 + sa * sb * 2 ^ 64 * 2 ^ 64"
      unfolding ab by algebra
    then show ?thesis using mul_wide_u_value [OF u] unfolding K_def by (simp add: algebra_simps)
  qed
  have "hi = word_of_int K"
    unfolding hi K_def s by (auto simp: word_of_int_hom_syms)
  moreover have "- (2 ^ 63) \<le> K" "K < 2 ^ 63"
  proof -
    have "\<bar>sint a * sint b\<bar> \<le> 2 ^ 63 * 2 ^ 63"
      unfolding abs_mult using sint_range64 [of a] sint_range64 [of b] by (intro mult_mono) auto
    then show "- (2 ^ 63) \<le> K" "K < 2 ^ 63"
      using high_range [OF prod _ uint_less64] by simp_all
  qed
  ultimately have "sint hi = K" by (simp add: sint_of_int64)
  then show ?thesis using prod by simp
qed

section \<open>Wide addition and subtraction\<close>

lemma add_mod64:
  fixes x y :: int
  assumes "0 \<le> x" and "x < 2 ^ 64" and "0 \<le> y" and "y < 2 ^ 64"
  shows "(x + y) mod 2 ^ 64 = x + y - (if 2 ^ 64 \<le> x + y then 2 ^ 64 else 0)"
proof (cases "2 ^ 64 \<le> x + y")
  case True
  have "(x + y) mod 2 ^ 64 = (x + y - 2 ^ 64) mod 2 ^ 64" by simp
  also have "\<dots> = x + y - 2 ^ 64" using True assms by (intro mod_pos_pos_trivial) simp_all
  finally show ?thesis using True by simp
next
  case False
  then show ?thesis using assms by (simp add: mod_pos_pos_trivial)
qed

lemma uint_add64: "uint (a + b :: u64) = uint a + uint b - (if a + b < a then 2 ^ 64 else 0)"
proof -
  have "uint (a + b) = uint a + uint b - (if 2 ^ 64 \<le> uint a + uint b then 2 ^ 64 else 0)"
    using add_mod64 [of "uint a" "uint b"] uint_less64 [of a] uint_less64 [of b] by (simp add: uint_word_ariths)
  moreover from this have "a + b < a \<longleftrightarrow> 2 ^ 64 \<le> uint a + uint b"
    using uint_less64 [of b] by (simp add: word_less_def)
  ultimately show ?thesis by simp
qed

lemma uint_sub64: "uint (a - b :: u64) = uint a - uint b + (if a < b then 2 ^ 64 else 0)"
proof -
  have "a - b + b = a" by simp
  from uint_add64 [of "a - b" b, unfolded this] have e: "uint a = uint (a - b) + uint b - (if a < a - b then 2 ^ 64 else 0)" .
  have "a < a - b \<longleftrightarrow> a < b" using e uint_less64 [of "a - b"] uint_less64 [of b] by (auto simp: word_less_def split: if_splits)
  with e show ?thesis by simp
qed

text \<open>The value of a pair of halves, and words of 128 bits as integers modulo \<open>2\<^sup>1\<^sup>2\<^sup>8\<close>.\<close>

abbreviation wide :: "u64 \<times> u64 \<Rightarrow> int" where
  "wide r \<equiv> uint (snd r) * 2 ^ 64 + uint (fst r)"

lemma wide_mod: "uint (h :: u64) = k mod 2 ^ 64 \<Longrightarrow> 0 \<le> l \<Longrightarrow> l < 2 ^ 64 \<Longrightarrow> uint h * 2 ^ 64 + l = (k * 2 ^ 64 + l) mod 2 ^ 128"
proof -
  assume h: "uint h = k mod 2 ^ 64" and l: "0 \<le> l" "l < 2 ^ 64"
  have "k * 2 ^ 64 + l = (uint h * 2 ^ 64 + l) + 2 ^ 128 * (k div 2 ^ 64)"
    using h by (simp add: minus_div_mult_eq_mod [symmetric] algebra_simps)
  then have "(k * 2 ^ 64 + l) mod 2 ^ 128 = (uint h * 2 ^ 64 + l) mod 2 ^ 128" by (simp only: mod_mult_self2)
  also have "\<dots> = uint h * 2 ^ 64 + l" using l uint_less64 [of h] by (intro mod_pos_pos_trivial) simp_all
  finally show ?thesis by simp
qed

lemma add128_value: "wide (add128 llo lhi rlo rhi) = (wide (llo, lhi) + wide (rlo, rhi)) mod 2 ^ 128"
proof -
  let ?c = "if llo + rlo < llo then 1 else 0 :: int"
  have lo: "uint (llo + rlo) = uint llo + uint rlo - ?c * 2 ^ 64" by (simp add: uint_add64)
  have "uint (lhi + rhi + (if llo + rlo < llo then 1 else 0)) = (uint lhi + uint rhi + ?c) mod 2 ^ 64"
    by (simp add: uint_word_ariths mod_simps)
  note h = wide_mod [OF this unsigned_greater_eq uint_less64, of "llo + rlo"]
  have e: "(uint lhi + uint rhi + ?c) * 2 ^ 64 + uint (llo + rlo) = wide (llo, lhi) + wide (rlo, rhi)"
    unfolding lo fst_conv snd_conv by algebra
  show ?thesis unfolding add128_def Let_def fst_conv snd_conv by (rule h [unfolded e fst_conv snd_conv])
qed

lemma sub128_value: "wide (sub128 llo lhi rlo rhi) = (wide (llo, lhi) - wide (rlo, rhi)) mod 2 ^ 128"
proof -
  let ?c = "if llo < rlo then 1 else 0 :: int"
  have lo: "uint (llo - rlo) = uint llo - uint rlo + ?c * 2 ^ 64" by (simp add: uint_sub64)
  have "uint (lhi - rhi - (if llo < rlo then 1 else 0)) = (uint lhi - uint rhi - ?c) mod 2 ^ 64"
    by (simp add: uint_word_ariths mod_simps)
  note h = wide_mod [OF this unsigned_greater_eq uint_less64, of "llo - rlo"]
  have e: "(uint lhi - uint rhi - ?c) * 2 ^ 64 + uint (llo - rlo) = wide (llo, lhi) - wide (rlo, rhi)"
    unfolding lo fst_conv snd_conv by algebra
  show ?thesis unfolding sub128_def Let_def fst_conv snd_conv by (rule h [unfolded e fst_conv snd_conv])
qed

section \<open>Counting leading zeros\<close>

declare clz_loop.simps [simp del]

text \<open>From bit \<open>j\<close> downwards the loop finds the highest set bit.\<close>

lemma clz_loop_value:
  assumes "bit v i" and "i \<le> j" and "\<forall>l. i < l \<and> l \<le> j \<longrightarrow> \<not> bit v l" and "j < 64" and "j \<le> k"
  shows "clz_loop k v (push_bit j 1) n = Some (n + of_nat (j - i))"
  using assms(2-5)
proof (induction j arbitrary: k n)
  case 0
  then have "v AND push_bit 0 1 \<noteq> 0" using assms(1) by (auto simp: and_one_eq bit_0 odd_iff_mod_2_eq_one)
  then show ?case using 0 by (simp add: clz_loop.simps [of k])
next
  case (Suc j)
  have t: "v AND push_bit (Suc j) 1 \<noteq> 0 \<longleftrightarrow> bit v (Suc j)"
    using Suc.prems(3) by (auto simp: bit_iff_and_push_bit_not_eq_0)
  show ?case
  proof (cases "i = Suc j")
    case True
    then show ?thesis using assms(1) t by (simp add: clz_loop.simps [of k])
  next
    case False
    obtain k' where k: "k = Suc k'" using Suc.prems(4) by (cases k) auto
    have "\<not> bit v (Suc j)" using False Suc.prems(1,2) by simp
    moreover have "drop_bit 1 (push_bit (Suc j) 1 :: u64) = push_bit j 1"
      using Suc.prems(3) by (intro bit_word_eqI) (auto simp: bit_simps)
    moreover have "clz_loop k' v (push_bit j 1) (n + 1) = Some (n + 1 + of_nat (j - i))"
      using Suc False k by simp
    ultimately show ?thesis using t False Suc.prems(1) k by (subst clz_loop.simps) (simp add: Suc_diff_le)
  qed
qed

lemma highest_bit:
  assumes "(v :: u64) \<noteq> 0"
  obtains i where "bit v i" and "i < 64" and "\<forall>l > i. \<not> bit v l"
proof -
  let ?S = "{i. bit v i}"
  have fin: "?S \<subseteq> {..<64}" using bit_imp_le_length [of v] by auto
  then have "finite ?S" by (rule finite_subset) simp
  moreover have "?S \<noteq> {}" using assms by (auto simp: bit_eq_iff)
  ultimately obtain M where M: "M \<in> ?S" "\<forall>l \<in> ?S. l \<le> M" using Max_in [of ?S] Max_ge [of ?S] by blast
  show ?thesis
  proof (rule that [of M])
    show "bit v M" "M < 64" using M(1) fin by auto
    show "\<forall>l > M. \<not> bit v l" using M(2) by (simp add: linorder_not_less [symmetric]) blast
  qed
qed

text \<open>The value of the operand that is counted, and its width.\<close>

definition clz_operand :: "u16 \<Rightarrow> u64 \<Rightarrow> u64" where
  "clz_operand a v = (if a = 32 then v AND 0xFFFFFFFF else v)"

lemma highest_bit_range:
  assumes "bit (v :: u64) i" and "\<forall>l > i. \<not> bit v l"
  shows "2 ^ i \<le> unat v" and "unat v < 2 ^ Suc i"
proof -
  have "bit (unat v) i" using assms(1) by (simp add: bit_unsigned_iff)
  then have "0 < unat v div 2 ^ i" by (simp add: bit_iff_odd odd_pos)
  then show "2 ^ i \<le> unat v" by (simp add: div_greater_zero_iff)
  have "take_bit (Suc i) v = v" using assms(2) by (intro bit_eqI) (auto simp: bit_take_bit_iff less_Suc_eq_le linorder_not_less [symmetric])
  then have "unat v = take_bit (Suc i) (unat v)" by (metis unsigned_take_bit_eq)
  then show "unat v < 2 ^ Suc i" by (metis take_bit_nat_less_exp)
qed

lemma clz_value:
  assumes "a \<in> {0, 32, 64}" and w: "w = (if a = 32 then 32 else 64)"
  shows "\<exists>n \<le> w. clz a v = Some (of_nat n) \<and> unat (clz_operand a v) < 2 ^ (w - n) \<and>
    (n < w \<longrightarrow> 2 ^ (w - n - 1) \<le> unat (clz_operand a v))"
proof (cases "clz_operand a v = 0")
  case True
  then have "clz a v = Some (of_nat w)" using assms by (auto simp: clz_def clz_operand_def Let_def)
  then show ?thesis using True by (intro exI [of _ w]) simp
next
  case False
  obtain i where i: "bit (clz_operand a v) i" "i < 64" "\<forall>l > i. \<not> bit (clz_operand a v) l" using highest_bit [OF False] .
  have m: "(0xFFFFFFFF :: u64) = mask 32" by (simp add: mask_eq_exp_minus_1)
  have iw: "i < w" using i(1,2) unfolding w clz_operand_def m by (auto simp: bit_simps split: if_splits)
  have "clz a v = clz_loop w (clz_operand a v) (push_bit (w - 1) 1) 0"
    using False assms by (auto simp: clz_def clz_operand_def Let_def)
  also have "\<dots> = Some (0 + of_nat (w - 1 - i))"
    using i iw w by (intro clz_loop_value) auto
  finally have "clz a v = Some (of_nat (w - 1 - i))" by simp
  moreover have "w - (w - 1 - i) = Suc i" "w - (w - 1 - i) - 1 = i" using iw by simp_all
  ultimately show ?thesis using highest_bit_range [OF i(1,3)] iw by (intro exI [of _ "w - 1 - i"]) simp
qed

section \<open>Properties\<close>

text \<open>
  C36. Wide arithmetic is exact: the two words that \<open>mul_wide_u\<close> and \<open>mul_wide_s\<close> compute from 32-bit
  halves are the whole unsigned and signed product of the operands, and the 128-bit sum and difference
  with carry and borrow between the halves are those of the integers modulo \<open>2\<^sup>1\<^sup>2\<^sup>8\<close>.
\<close>

theorem wide_arithmetic_exact:
  "wide (mul_wide_u a b) = uint a * uint b \<and>
   sint (snd (mul_wide_s a b)) * 2 ^ 64 + uint (fst (mul_wide_s a b)) = sint a * sint b \<and>
   wide (add128 a b c d) = (wide (a, b) + wide (c, d)) mod 2 ^ 128 \<and>
   wide (sub128 a b c d) = (wide (a, b) - wide (c, d)) mod 2 ^ 128"
  using mul_wide_u_value [of a b] mul_wide_s_value [of a b] add128_value sub128_value
  by (cases "mul_wide_u a b"; cases "mul_wide_s a b") simp

text \<open>
  Counting leading zeros: for the widths the translator emits, the loop ends, and its result
  \<open>n\<close> is the number of leading zeros of the operand (of its low 32 bits for the 32-bit operator): the
  operand is below \<open>2\<close> to the width minus \<open>n\<close> and not below half of that.
\<close>

lemma clz_counts:
  assumes "a \<in> {0, 32, 64}" and "w = (if a = 32 then 32 else 64)"
  shows "\<exists>n \<le> w. clz a v = Some (of_nat n) \<and> unat (clz_operand a v) < 2 ^ (w - n) \<and>
    (n < w \<longrightarrow> 2 ^ (w - n - 1) \<le> unat (clz_operand a v))"
  using assms by (rule clz_value)

lemma clz_counts_witness: "\<exists>n \<le> (32 :: nat). clz 32 0xFF00000001 = Some (of_nat n) \<and> clz 32 0xFF00000001 = Some 31"
proof -
  obtain n where "n \<le> 32" "clz 32 0xFF00000001 = Some (of_nat n)" using clz_counts [of 32 32 "0xFF00000001"] by auto
  moreover have "clz 32 0xFF00000001 = Some 31" by code_simp
  ultimately show ?thesis by blast
qed

end
