(* ===== verification/Interp_Safe.thy ===== *)
theory Interp_Safe
  imports Interp_Arith
begin

text \<open>
  Verified code runs safely: from a state whose frames agree with the heights of the verifier, the
  interpreter never indexes an array out of range, and every state it reaches agrees with the heights
  again. The invariant \<open>sane\<close> speaks of the stack of active functions; the proof goes through the
  instructions with Hoare triples.
\<close>

section \<open>The invariant\<close>

definition slots :: "func_meta \<Rightarrow> nat" where
  "slots f = unat (fm_n_params f) + unat (fm_n_locals f)"

type_synonym heights = "func_meta \<Rightarrow> nat \<Rightarrow> int option"

text \<open>A program counter inside a function, with the height the verifier gave it.\<close>

definition at_height :: "heights \<Rightarrow> func_meta \<Rightarrow> u32 \<Rightarrow> int \<Rightarrow> bool" where
  "at_height ht g pc h \<longleftrightarrow>
     (\<exists>p < unat (fm_code_len g). unat pc = unat (fm_code_off g) + p \<and> ht g p = Some h)"

text \<open>
  The frames of the active functions, the current one first: each frame knows the base of its function
  and the number of its results, and returns to a place in the caller where the height is that of the
  caller's operands with the results.
\<close>

fun chain :: "heights \<Rightarrow> frame list \<Rightarrow> func_meta list \<Rightarrow> nat \<Rightarrow> bool" where
  "chain ht [fr] [g] b \<longleftrightarrow> unat (fr_sp_base fr) = b \<and> fr_n_results fr = fm_n_results g"
| "chain ht (fr # frs) (g # g' # gs) b \<longleftrightarrow>
     unat (fr_sp_base fr) = b \<and> fr_n_results fr = fm_n_results g \<and>
     (\<exists>h'. 0 \<le> h' \<and> at_height ht g' (fr_ret_pc fr) h' \<and>
        b + unat (fm_n_results g) = unat (fr_fp fr) + slots g' + nat h') \<and>
     chain ht frs (g' # gs) (unat (fr_fp fr))"
| "chain ht _ _ b \<longleftrightarrow> False"

definition mem_sane :: "inst \<Rightarrow> bool" where
  "mem_sane s \<longleftrightarrow> unat (i_mem_size s) \<le> length (i_mem s) \<and> unat (i_mem_max s) \<le> length (i_mem s)"

definition data_sane :: "host_module \<Rightarrow> inst \<Rightarrow> bool" where
  "data_sane m s \<longleftrightarrow>
     length (hm_data_off m) = length (i_data_live s) \<and> length (hm_data_len m) = length (i_data_live s) \<and>
     (\<forall>i < length (i_data_live s). unat (hm_data_off m ! i) + unat (hm_data_len m ! i) \<le> length (hm_data_blob m)) \<and>
     length (hm_data_blob m) < 2 ^ 32"

definition code_fn :: "host_module \<Rightarrow> func_meta \<Rightarrow> bool" where
  "code_fn m g \<longleftrightarrow> g \<in> set (hm_funcs m) \<and> fm_code_len g \<noteq> 0"

text \<open>The frames, without the stack pointer.\<close>

definition frames_sane :: "host_module \<Rightarrow> heights \<Rightarrow> func_meta list \<Rightarrow> inst \<Rightarrow> bool" where
  "frames_sane m ht gs s \<longleftrightarrow>
     gs \<noteq> [] \<and> length gs = unat (i_csp s) \<and> length gs \<le> length (i_frames s) \<and> length (i_frames s) = unat FRAME_CAP \<and>
     list_all (code_fn m) gs \<and> chain ht (rev (take (unat (i_csp s)) (i_frames s))) gs (unat (i_fp s))"

definition sane :: "host_module \<Rightarrow> heights \<Rightarrow> func_meta list \<Rightarrow> int \<Rightarrow> inst \<Rightarrow> bool" where
  "sane m ht gs h s \<longleftrightarrow>
     frames_sane m ht gs s \<and> 0 \<le> h \<and> unat (i_sp s) = unat (i_fp s) + slots (hd gs) + nat h \<and>
     unat (i_sp s) \<le> length (i_stack s) \<and> length (i_stack s) \<le> unat STACK_CAP \<and>
     mem_sane s \<and> data_sane m s \<and> length (hb_args (i_mb s)) = 16"

definition sane_at :: "host_module \<Rightarrow> heights \<Rightarrow> func_meta list \<Rightarrow> u32 \<Rightarrow> int \<Rightarrow> inst \<Rightarrow> bool" where
  "sane_at m ht gs pc h s \<longleftrightarrow> sane m ht gs h s \<and> i_pc s = pc"

text \<open>
  How a computation may stop: with a status, not undefined and not as if it were still running; when
  it waits for the host, the state has the property \<open>P\<close>.
\<close>

definition stops :: "(inst \<Rightarrow> bool) \<Rightarrow> stop \<Rightarrow> inst \<Rightarrow> bool" where
  "stops P e s \<longleftrightarrow> (\<exists>st. e = Trap st \<and> st \<noteq> ST_RUNNING \<and> (st = ST_HOSTCALL_PENDING \<longrightarrow> P s))"

section \<open>Primitives\<close>

lemma triple_fail: "(\<And>s. P s \<Longrightarrow> E e s) \<Longrightarrow> triple P (fail e) Q E"
  by (simp add: triple_def)

lemma triple_trap: "st \<noteq> ST_RUNNING \<Longrightarrow> st \<noteq> ST_HOSTCALL_PENDING \<Longrightarrow> triple P (trap st) Q (stops X)"
  by (simp add: triple_def trap_def stops_def)

lemma triple_ret: "(\<And>s. P s \<Longrightarrow> Q x s) \<Longrightarrow> triple P (ret x) Q E"
  by (simp add: triple_def)

lemma triple_modify: "(\<And>s. P s \<Longrightarrow> Q () (f s)) \<Longrightarrow> triple P (modifyS f) Q E"
  by (simp add: triple_def)

text \<open>Reading the state first: the rest may rely on the value read.\<close>

lemma triple_get: "(\<And>s0. P s0 \<Longrightarrow> triple (\<lambda>s. s = s0) (k (f s0)) Q E) \<Longrightarrow> triple P (bindS (getS f) k) Q E"
  unfolding triple_def bindS_def by simp

lemma triple_at: "triple P c Q E \<Longrightarrow> P s0 \<Longrightarrow> triple (\<lambda>s. s = s0) c Q E"
  by (rule triple_weaken [of P]) auto

lemma triple_when: "(b \<Longrightarrow> triple P c (\<lambda>_. Q) E) \<Longrightarrow> (\<And>s. \<not> b \<Longrightarrow> P s \<Longrightarrow> Q s) \<Longrightarrow> triple P (whenS b c) (\<lambda>_. Q) E"
  by (auto simp: whenS_def triple_ret)

lemma sane_cong:
  "sane m ht gs h s \<Longrightarrow> frames_sane m ht gs t = frames_sane m ht gs s \<Longrightarrow> i_sp t = i_sp s \<Longrightarrow> i_fp t = i_fp s \<Longrightarrow>
   length (i_stack t) = length (i_stack s) \<Longrightarrow> mem_sane t = mem_sane s \<Longrightarrow> data_sane m t = data_sane m s \<Longrightarrow>
   length (hb_args (i_mb t)) = length (hb_args (i_mb s)) \<Longrightarrow> sane m ht gs h t"
  by (simp add: sane_def)

lemma frames_sane_upd [simp]:
  "frames_sane m ht gs (s\<lparr>i_stack := x\<rparr>) = frames_sane m ht gs s"
  "frames_sane m ht gs (s\<lparr>i_sp := a\<rparr>) = frames_sane m ht gs s"
  "frames_sane m ht gs (s\<lparr>i_pc := a\<rparr>) = frames_sane m ht gs s"
  "frames_sane m ht gs (s\<lparr>i_mem := y\<rparr>) = frames_sane m ht gs s"
  "frames_sane m ht gs (s\<lparr>i_mem_size := a\<rparr>) = frames_sane m ht gs s"
  "frames_sane m ht gs (s\<lparr>i_globals := x\<rparr>) = frames_sane m ht gs s"
  "frames_sane m ht gs (s\<lparr>i_fuel := k\<rparr>) = frames_sane m ht gs s"
  "frames_sane m ht gs (s\<lparr>i_data_live := y\<rparr>) = frames_sane m ht gs s"
  "frames_sane m ht gs (s\<lparr>i_mb := b\<rparr>) = frames_sane m ht gs s"
  "frames_sane m ht gs (s\<lparr>i_profile := r\<rparr>) = frames_sane m ht gs s"
  by (simp_all add: frames_sane_def)

lemma mem_sane_upd [simp]:
  "mem_sane (s\<lparr>i_stack := x\<rparr>) = mem_sane s" "mem_sane (s\<lparr>i_sp := a\<rparr>) = mem_sane s" "mem_sane (s\<lparr>i_pc := a\<rparr>) = mem_sane s"
  "mem_sane (s\<lparr>i_globals := x\<rparr>) = mem_sane s" "mem_sane (s\<lparr>i_fuel := k\<rparr>) = mem_sane s"
  "mem_sane (s\<lparr>i_data_live := y\<rparr>) = mem_sane s" "mem_sane (s\<lparr>i_mb := b\<rparr>) = mem_sane s" "mem_sane (s\<lparr>i_profile := r\<rparr>) = mem_sane s"
  by (simp_all add: mem_sane_def)

lemma data_sane_upd [simp]:
  "data_sane m (s\<lparr>i_stack := x\<rparr>) = data_sane m s" "data_sane m (s\<lparr>i_sp := a\<rparr>) = data_sane m s" "data_sane m (s\<lparr>i_pc := a\<rparr>) = data_sane m s"
  "data_sane m (s\<lparr>i_mem := y\<rparr>) = data_sane m s" "data_sane m (s\<lparr>i_mem_size := a\<rparr>) = data_sane m s"
  "data_sane m (s\<lparr>i_globals := x\<rparr>) = data_sane m s" "data_sane m (s\<lparr>i_fuel := k\<rparr>) = data_sane m s"
  "data_sane m (s\<lparr>i_mb := b\<rparr>) = data_sane m s" "data_sane m (s\<lparr>i_profile := r\<rparr>) = data_sane m s"
  by (simp_all add: data_sane_def)

text \<open>The small arithmetic of stack pointers: they stay far below the range of a word.\<close>

lemma unat_add_small: "unat (a :: u32) + n \<le> 65536 \<Longrightarrow> unat (a + of_nat n) = unat a + n"
proof -
  assume a: "unat a + n \<le> 65536"
  then have "unat (of_nat n :: u32) = n" by simp
  then show ?thesis using a by (subst unat_add_lem [THEN iffD1]) simp_all
qed

lemma unat_ucast_32_64 [simp]: "unat (ucast (w :: u32) :: u64) = unat w"
  by transfer (simp add: take_bit_take_bit min_def)

lemma unat_ucast_16_32 [simp]: "unat (ucast (w :: u16) :: u32) = unat w"
  by transfer (simp add: take_bit_take_bit min_def)

lemma push_triple:
  "triple (sane_at m ht gs pc h) (cu_push v) (\<lambda>_. sane_at m ht gs pc (h + 1)) (stops X)"
proof -
  have u: "unat (a + 1) = unat a + 1" if "unat a < 4096" for a :: u32
    using unat_add_small [of a 1] that by simp
  show ?thesis
    unfolding triple_def cu_push_def sane_at_def sane_def stack_set_def bindS_def thenS_def
    by (auto simp: trap_def stops_def nat_add_distrib u)
qed

lemma pop_triple:
  "1 \<le> h \<Longrightarrow> triple (sane_at m ht gs pc h) cu_pop (\<lambda>_. sane_at m ht gs pc (h - 1)) (stops X)"
proof -
  assume h: "1 \<le> h"
  have u: "unat (a - 1) = unat a - 1" if "0 < unat a" for a :: u32
    using that by (simp add: unat_gt_0 unat_minus_one)
  show ?thesis
    unfolding triple_def cu_pop_def sane_at_def sane_def stack_at_def bindS_def thenS_def
    using h u by (auto simp: nat_diff_distrib)
qed

text \<open>Reading and writing inside the stack and the memory keeps the state sane.\<close>

lemma stack_at_triple:
  assumes "\<And>s. P s \<Longrightarrow> unat i < length (i_stack s)"
  shows "triple P (stack_at i) (\<lambda>_. P) E"
  using assms by (auto simp: triple_def stack_at_def bindS_def)

lemma stack_set_triple:
  assumes "\<And>s. P s \<Longrightarrow> unat i < length (i_stack s)" and "\<And>s xs. P s \<Longrightarrow> length xs = length (i_stack s) \<Longrightarrow> P (s\<lparr>i_stack := xs\<rparr>)"
  shows "triple P (stack_set i v) (\<lambda>_. P) E"
  using assms by (auto simp: triple_def stack_set_def bindS_def)

lemma mem_get_triple:
  assumes "\<And>s. P s \<Longrightarrow> i < length (i_mem s)"
  shows "triple P (mem_get i) (\<lambda>_. P) E"
  using assms by (auto simp: triple_def mem_get_def bindS_def)

lemma mem_set_triple:
  assumes "\<And>s. P s \<Longrightarrow> i < length (i_mem s)" and "\<And>s xs. P s \<Longrightarrow> length xs = length (i_mem s) \<Longrightarrow> P (s\<lparr>i_mem := xs\<rparr>)"
  shows "triple P (mem_set i v) (\<lambda>_. P) E"
  using assms by (auto simp: triple_def mem_set_def bindS_def)

lemma elem_at_triple: "i < length xs \<Longrightarrow> triple P (elem_at w xs i) (\<lambda>_. P) E"
  by (simp add: elem_at_def triple_ret)

lemma sane_stack_upd: "sane_at m ht gs pc h s \<Longrightarrow> length xs = length (i_stack s) \<Longrightarrow> sane_at m ht gs pc h (s\<lparr>i_stack := xs\<rparr>)"
  by (simp add: sane_at_def sane_def)

lemma sane_mem_upd: "sane_at m ht gs pc h s \<Longrightarrow> length xs = length (i_mem s) \<Longrightarrow> sane_at m ht gs pc h (s\<lparr>i_mem := xs\<rparr>)"
  by (simp add: sane_at_def sane_def mem_sane_def)

lemma move_slots_triple:
  "triple (\<lambda>s. sane_at m ht gs pc h s \<and> unat dst + n \<le> length (i_stack s) \<and> unat src + n \<le> length (i_stack s))
     (move_slots dst src n) (\<lambda>_. sane_at m ht gs pc h) E"
proof -
  let ?P = "\<lambda>s. sane_at m ht gs pc h s \<and> unat dst + n \<le> length (i_stack s) \<and> unat src + n \<le> length (i_stack s)"
  have idx: "unat (a + of_nat i) < length (i_stack s)" if "?P s" "i < n" "a = dst \<or> a = src" for s i a
    using that unat_add_small [of a i] by (auto simp: sane_at_def sane_def)
  have body: "triple ?P (bindS (stack_at (src + of_nat i)) (stack_set (dst + of_nat i))) (\<lambda>_. ?P) E" if "i < n" for i
    using that idx by (intro triple_bindS [OF stack_at_triple] stack_set_triple) (auto simp: sane_stack_upd)
  have "triple ?P (move_slots dst src n) (\<lambda>_. ?P) E"
    unfolding move_slots_def Let_def by (intro triple_if triple_forS body) auto
  then show ?thesis by (rule triple_weaken) auto
qed

lemma load_le_triple:
  "triple (\<lambda>s. sane_at m ht gs pc h s \<and> ea + n \<le> length (i_mem s)) (mem_load_le ea n)
     (\<lambda>_ s. sane_at m ht gs pc h s \<and> ea + n \<le> length (i_mem s)) E"
proof (induction n)
  case 0
  then show ?case by (auto simp: triple_def)
next
  case (Suc n)
  let ?P = "\<lambda>s. sane_at m ht gs pc h s \<and> ea + Suc n \<le> length (i_mem s)"
  have "triple ?P (mem_load_le ea n) (\<lambda>_. ?P) E"
  proof -
    have "mem_load_le ea k s = (r, t) \<Longrightarrow> t = s" for k s r t
      by (induction k arbitrary: r t) (auto simp: bindS_def mem_get_def split: prod.splits sum.splits if_splits)
    then show ?thesis using Suc.IH unfolding triple_def by (fastforce split: prod.splits sum.splits)
  qed
  then show ?case
    unfolding mem_load_le.simps by (rule triple_bindS) (intro triple_bindS [OF mem_get_triple] triple_ret, simp_all)
qed

lemma store_le_triple:
  "triple (\<lambda>s. sane_at m ht gs pc h s \<and> ea + n \<le> length (i_mem s)) (mem_store_le ea n v) (\<lambda>_. sane_at m ht gs pc h) E"
proof -
  let ?P = "\<lambda>s. sane_at m ht gs pc h s \<and> ea + n \<le> length (i_mem s)"
  have "triple ?P (mem_store_le ea n v) (\<lambda>_. ?P) E"
    unfolding mem_store_le_def by (intro triple_forS mem_set_triple) (auto simp: sane_mem_upd)
  then show ?thesis by (rule triple_weaken) auto
qed

lemma mem_in_bounds_nat:
  assumes "mem_in_bounds sz ea (of_nat n)" and "n \<le> 8"
  shows "unat ea + n \<le> unat sz"
proof -
  have n: "unat (of_nat n :: u32) = n" "unat (of_nat n :: u64) = n" using assms(2) by (simp_all add: unat_of_nat take_bit_nat_eq_self)
  have le: "n \<le> unat sz" using assms(1) n by (simp add: mem_in_bounds_def word_le_nat_alt)
  have u: "unat (ucast sz :: u64) = unat sz" "unat (ucast (of_nat n :: u32) :: u64) = n"
    using n by simp_all
  have "unat (ucast sz - ucast (of_nat n :: u32) :: u64) = unat sz - n" using le u by (subst unat_sub) (simp_all add: word_le_nat_alt)
  then have "unat ea \<le> unat sz - n" using assms(1) by (simp add: mem_in_bounds_def word_le_nat_alt)
  then show ?thesis using le by simp
qed

lemma sane_mem: "sane_at m ht gs pc h s \<Longrightarrow> unat (i_mem_size s) \<le> length (i_mem s)"
  by (simp add: sane_at_def sane_def mem_sane_def)

lemma load_triple:
  assumes "1 \<le> h"
  shows "triple (sane_at m ht gs pc h) (do_load ins) (\<lambda>_. sane_at m ht gs pc h) (stops X)"
  unfolding do_load_def Let_def
proof (intro triple_bindS [OF pop_triple [OF assms]] triple_get triple_if triple_trap)
  fix addr s0
  let ?n = "unat (cu_a ins AND 0xF)" and ?ea = "ucast (ucast addr :: u32) + ucast (cu_b ins) :: u64"
  assume s0: "sane_at m ht gs pc (h - 1) s0" and b: "\<not> (?n = 0 \<or> 8 < ?n \<or> \<not> mem_in_bounds (i_mem_size s0) ?ea (of_nat ?n))"
  let ?P = "\<lambda>s. sane_at m ht gs pc (h - 1) s \<and> unat ?ea + ?n \<le> length (i_mem s)"
  have "?P s0" using mem_in_bounds_nat [of "i_mem_size s0" ?ea ?n] b s0 sane_mem [OF s0] by auto
  moreover have "triple ?P (bindS (mem_load_le (unat ?ea) ?n) (\<lambda>v. cu_push (extend_load (cu_a ins) ?n v)))
      (\<lambda>_. sane_at m ht gs pc h) (stops X)"
    using push_triple [of m ht gs pc "h - 1"] by (intro triple_bindS [OF load_le_triple]) (auto intro: triple_weaken)
  ultimately show "triple (\<lambda>s. s = s0) (bindS (mem_load_le (unat ?ea) ?n) (\<lambda>v. cu_push (extend_load (cu_a ins) ?n v)))
      (\<lambda>_. sane_at m ht gs pc h) (stops X)"
    by (rule triple_at [rotated])
qed simp_all

lemma store_triple:
  assumes "2 \<le> h"
  shows "triple (sane_at m ht gs pc h) (do_store ins) (\<lambda>_. sane_at m ht gs pc (h - 2)) (stops X)"
proof -
  have h: "1 \<le> h" "1 \<le> h - 1" "h - 1 - 1 = h - 2" using assms by simp_all
  show ?thesis
    unfolding do_store_def Let_def
  proof (intro triple_bindS [OF pop_triple [OF h(1)]] triple_bindS [OF pop_triple [OF h(2)]] triple_get triple_if triple_trap)
    fix val addr s0
    let ?n = "unat (cu_a ins)" and ?ea = "ucast (ucast addr :: u32) + ucast (cu_b ins) :: u64"
    assume s0: "sane_at m ht gs pc (h - 1 - 1) s0" and b: "\<not> (?n = 0 \<or> 8 < ?n \<or> \<not> mem_in_bounds (i_mem_size s0) ?ea (of_nat ?n))"
    have "sane_at m ht gs pc (h - 2) s0 \<and> unat ?ea + ?n \<le> length (i_mem s0)"
      using mem_in_bounds_nat [of "i_mem_size s0" ?ea ?n] b s0 sane_mem [OF s0] by (auto simp: h(3))
    then show "triple (\<lambda>s. s = s0) (mem_store_le (unat ?ea) ?n val) (\<lambda>_. sane_at m ht gs pc (h - 2)) (stops X)"
      by (rule triple_at [OF store_le_triple])
  qed simp_all
qed

lemma unat_u32_less: "unat (a :: u32) < 4294967296"
  using unsigned_less [of a, where 'a = nat] by simp

lemma grown_size:
  assumes "(np :: u64) \<le> ucast (mx div WASM_PAGE :: u32)"
  shows "unat (ucast np * WASM_PAGE :: u32) \<le> unat mx"
proof -
  have np: "unat np \<le> unat mx div 65536" using assms by (simp add: word_le_nat_alt unat_div_distrib)
  moreover have "unat mx < 2 ^ 32" using unat_u32_less [of mx] by simp
  ultimately have "unat np < 2 ^ 32" by linarith
  then have "unat (ucast np :: u32) = unat np" by (simp add: unsigned_ucast_eq take_bit_nat_eq_self)
  moreover have "unat np * 65536 \<le> unat mx" using np by linarith
  ultimately show ?thesis using \<open>unat mx < 2 ^ 32\<close> by (simp add: unat_word_ariths)
qed

lemma grow_triple:
  assumes "1 \<le> h"
  shows "triple (sane_at m ht gs pc h) do_grow (\<lambda>_. sane_at m ht gs pc h) (stops X)"
proof -
  have push: "triple (sane_at m ht gs pc (h - 1)) (cu_push v) (\<lambda>_. sane_at m ht gs pc h) (stops X)" for v
    using push_triple [of m ht gs pc "h - 1"] by simp
  have upd: "sane_at m ht gs pc (h - 1) (s\<lparr>i_mem_size := ucast np * WASM_PAGE\<rparr>)"
    if "sane_at m ht gs pc (h - 1) s" "\<not> (np > ucast (i_mem_max s div WASM_PAGE) \<or> np > 65536)" for s and np :: u64
    using that grown_size [of np "i_mem_max s"] by (auto simp: sane_at_def sane_def mem_sane_def not_less)
  show ?thesis
    unfolding do_grow_def Let_def
    by (intro triple_bindS [OF pop_triple [OF assms]] triple_get triple_if triple_at [OF push]
        triple_thenS [OF triple_modify push]) (auto dest: upd)
qed

text \<open>The byte loops of the bulk memory instructions.\<close>

lemma bytes_in_range:
  assumes "\<not> (ucast a + ucast n :: u64) > ucast (sz :: u32)" and "i < unat (n :: u32)"
  shows "unat (a + of_nat i :: u32) < unat sz"
proof -
  have s: "unat a + unat n < 2 ^ 64" using unat_u32_less [of a] unat_u32_less [of n] by simp
  then have "unat (ucast a + ucast n :: u64) = unat a + unat n" by (subst unat_add_lem [THEN iffD1]) simp_all
  then have "unat a + unat n \<le> unat sz" using assms(1) by (simp add: word_less_nat_alt not_less)
  moreover have "unat sz < 2 ^ 32" using unat_u32_less [of sz] by simp
  moreover have "unat (of_nat i :: u32) = i" using assms(2) unat_u32_less [of n] by (intro unat_of_nat_u32) simp
  ultimately show ?thesis using assms(2) by (subst unat_add_lem [THEN iffD1]) simp_all
qed

lemma bulk_loop_triple:
  assumes "\<And>i s. i \<in> set is \<Longrightarrow> P s \<Longrightarrow> f i < length (i_mem s)" and "\<And>i s. i \<in> set is \<Longrightarrow> P s \<Longrightarrow> g i < length (i_mem s)"
    and "\<And>s xs. P s \<Longrightarrow> length xs = length (i_mem s) \<Longrightarrow> P (s\<lparr>i_mem := xs\<rparr>)"
  shows "triple P (forS is (\<lambda>i. bindS (mem_get (f i)) (mem_set (g i)))) (\<lambda>_. P) E"
  using assms by (intro triple_forS triple_bindS [OF mem_get_triple] mem_set_triple) blast+

lemma pop3_triple:
  assumes "3 \<le> h" and "\<And>a b c s0. sane_at m ht gs pc (h - 3) s0 \<Longrightarrow> triple (\<lambda>s. s = s0) (f a b c (g s0)) Q (stops X)"
  shows "triple (sane_at m ht gs pc h)
    (bindS cu_pop (\<lambda>a. bindS cu_pop (\<lambda>b. bindS cu_pop (\<lambda>c. bindS (getS g) (f a b c))))) Q (stops X)"
proof -
  have h: "1 \<le> h" "1 \<le> h - 1" "1 \<le> h - 1 - 1" "h - 1 - 1 - 1 = h - 3" using assms(1) by simp_all
  show ?thesis
    using assms(2) h(4)
    by (intro triple_bindS [OF pop_triple [OF h(1)]] triple_bindS [OF pop_triple [OF h(2)]] triple_bindS [OF pop_triple [OF h(3)]] triple_get) simp
qed

lemma copy_triple:
  assumes "3 \<le> h"
  shows "triple (sane_at m ht gs pc h) do_copy (\<lambda>_. sane_at m ht gs pc (h - 3)) (stops X)"
  unfolding do_copy_def Let_def
proof (rule pop3_triple [OF assms], intro triple_if triple_trap)
  fix n src dst :: u64 and s0 :: inst
  let ?n = "ucast n :: u32" and ?s = "ucast src :: u32" and ?d = "ucast dst :: u32"
  let ?P = "\<lambda>s. sane_at m ht gs pc (h - 3) s \<and> unat (i_mem_size s0) \<le> length (i_mem s)"
  let ?move = "\<lambda>i. bindS (mem_get (unat (?s + of_nat i))) (mem_set (unat (?d + of_nat i)))"
  assume s0: "sane_at m ht gs pc (h - 3) s0"
    and b: "\<not> ((ucast ?s + ucast ?n :: u64) > ucast (i_mem_size s0) \<or> (ucast ?d + ucast ?n :: u64) > ucast (i_mem_size s0))"
  have idx: "unat (?s + of_nat i) < length (i_mem s)" "unat (?d + of_nat i) < length (i_mem s)" if "i < unat ?n" "?P s" for i s
    using b that by (auto intro: less_le_trans [OF bytes_in_range])
  have "triple ?P (forS is ?move) (\<lambda>_. ?P) (stops X)" if "set is \<subseteq> {0..<unat ?n}" for "is"
    using that idx by (intro bulk_loop_triple) (auto simp: sane_mem_upd subset_iff)
  then have loop: "triple ?P (forS is ?move) (\<lambda>_. sane_at m ht gs pc (h - 3)) (stops X)" if "set is \<subseteq> {0..<unat ?n}" for "is"
    using that by (blast intro: triple_weaken)
  have "?P s0" using s0 sane_mem [OF s0] by simp
  then show "triple (\<lambda>s. s = s0) (forS [0..<unat ?n] ?move) (\<lambda>_. sane_at m ht gs pc (h - 3)) (stops X)"
    and "triple (\<lambda>s. s = s0) (forS (rev [0..<unat ?n]) ?move) (\<lambda>_. sane_at m ht gs pc (h - 3)) (stops X)"
    by (auto intro!: triple_at [OF loop])
qed simp_all

lemma fill_triple:
  assumes "3 \<le> h"
  shows "triple (sane_at m ht gs pc h) do_fill (\<lambda>_. sane_at m ht gs pc (h - 3)) (stops X)"
  unfolding do_fill_def Let_def
proof (rule pop3_triple [OF assms], intro triple_if triple_trap)
  fix n val dst :: u64 and s0 :: inst
  let ?n = "ucast n :: u32" and ?d = "ucast dst :: u32"
  let ?P = "\<lambda>s. sane_at m ht gs pc (h - 3) s \<and> unat (i_mem_size s0) \<le> length (i_mem s)"
  assume s0: "sane_at m ht gs pc (h - 3) s0" and b: "\<not> (ucast ?d + ucast ?n :: u64) > ucast (i_mem_size s0)"
  have "triple ?P (forS [0..<unat ?n] (\<lambda>i. mem_set (unat (?d + of_nat i)) (ucast val))) (\<lambda>_. ?P) (stops X)"
    using bytes_in_range [OF b] by (intro triple_forS mem_set_triple) (auto simp: sane_mem_upd intro: less_le_trans)
  then have loop: "triple ?P (forS [0..<unat ?n] (\<lambda>i. mem_set (unat (?d + of_nat i)) (ucast val))) (\<lambda>_. sane_at m ht gs pc (h - 3)) (stops X)"
    by (blast intro: triple_weaken)
  have "?P s0" using s0 sane_mem [OF s0] by simp
  then show "triple (\<lambda>s. s = s0) (forS [0..<unat ?n] (\<lambda>i. mem_set (unat (?d + of_nat i)) (ucast val)))
      (\<lambda>_. sane_at m ht gs pc (h - 3)) (stops X)"
    by (rule triple_at [OF loop])
qed simp_all

lemma sane_data: "sane_at m ht gs pc h s \<Longrightarrow> data_sane m s"
  by (simp add: sane_at_def sane_def)

text \<open>The index of a byte of a data segment.\<close>

lemma blob_index:
  assumes "data_sane m s" and "di < length (i_data_live s)"
    and "\<not> (ucast (src :: u32) + ucast n :: u64) > ucast (hm_data_len m ! di)" and "i < unat (n :: u32)"
  shows "unat (hm_data_off m ! di + src + of_nat i) < length (hm_data_blob m)"
proof -
  have d: "unat (hm_data_off m ! di) + unat (hm_data_len m ! di) \<le> length (hm_data_blob m)" "length (hm_data_blob m) < 2 ^ 32"
    using assms(1,2) by (simp_all add: data_sane_def)
  have "unat (src + of_nat i) < unat (hm_data_len m ! di)" using bytes_in_range [OF assms(3,4)] .
  then have "unat (hm_data_off m ! di + (src + of_nat i)) = unat (hm_data_off m ! di) + unat (src + of_nat i)"
    using d by (subst unat_add_lem [THEN iffD1]) simp_all
  then show ?thesis using d(1) \<open>unat (src + of_nat i) < unat (hm_data_len m ! di)\<close> by (simp add: add.assoc)
qed

text \<open>The copy loop of \<open>memory.init\<close>, for a segment of the module or a dropped one.\<close>

lemma init_bytes_triple:
  fixes n src dst :: u32
  assumes "data_sane m s0" and "di < length (i_data_live s0)"
    and "dlen = 0 \<or> dlen = hm_data_len m ! di \<and> doff = hm_data_off m ! di"
    and src: "\<not> (ucast src + ucast n :: u64) > ucast (dlen :: u32)" and dst: "\<not> (ucast dst + ucast n :: u64) > ucast (i_mem_size s0)"
  shows "triple (\<lambda>s. sane_at m ht gs pc h s \<and> unat (i_mem_size s0) \<le> length (i_mem s))
    (whenS (hm_data_blob m \<noteq> []) (forS [0..<unat n] (\<lambda>i.
       bindS (elem_at ''data blob'' (hm_data_blob m) (unat (doff + src + of_nat i))) (mem_set (unat (dst + of_nat i))))))
    (\<lambda>_. sane_at m ht gs pc h) (stops X)"
proof -
  let ?P = "\<lambda>s. sane_at m ht gs pc h s \<and> unat (i_mem_size s0) \<le> length (i_mem s)"
  have s: "unat (doff + src + of_nat i) < length (hm_data_blob m)" if "i < unat n" for i
  proof -
    have "dlen \<noteq> 0" using bytes_in_range [OF src that] by auto
    then show ?thesis using blob_index [OF assms(1,2) _ that, of src] assms(3) src by auto
  qed
  have d: "unat (dst + of_nat i) < length (i_mem s)" if "i < unat n" "?P s" for i s
    using that by (auto intro: less_le_trans [OF bytes_in_range [OF dst]])
  have "triple ?P (forS [0..<unat n] (\<lambda>i.
      bindS (elem_at ''data blob'' (hm_data_blob m) (unat (doff + src + of_nat i))) (mem_set (unat (dst + of_nat i)))))
    (\<lambda>_. ?P) (stops X)"
    using s d by (intro triple_forS triple_bindS [OF elem_at_triple] mem_set_triple) (auto simp: sane_mem_upd)
  then show ?thesis by (intro triple_when) (auto intro: triple_weaken)
qed

lemma init_triple:
  assumes "3 \<le> h"
  shows "triple (sane_at m ht gs pc h) (do_init m ins) (\<lambda>_. sane_at m ht gs pc (h - 3)) (stops X)"
  unfolding do_init_def Let_def
proof (rule pop3_triple [OF assms], intro triple_if triple_trap)
  fix n src dst :: u64 and s0 :: inst
  let ?di = "unat (cu_a ins)"
  let ?P = "\<lambda>s. sane_at m ht gs pc (h - 3) s \<and> unat (i_mem_size s0) \<le> length (i_mem s)"
  let ?seg = "\<lambda>dlen doff. dlen = 0 \<or> dlen = hm_data_len m ! ?di \<and> doff = hm_data_off m ! ?di"
  let ?lookup = "if i_data_live (id s0) ! ?di \<noteq> 0
    then bindS (elem_at ''data length'' (hm_data_len m) ?di) (\<lambda>l. bindS (elem_at ''data offset'' (hm_data_off m) ?di) (\<lambda>off. ret (l, off)))
    else ret (0, 0)"
  assume s0: "sane_at m ht gs pc (h - 3) s0" and "\<not> length (i_data_live (id s0)) \<le> ?di"
  then have di: "?di < length (i_data_live s0)" by simp
  have d: "data_sane m s0" using s0 by (rule sane_data)
  have "?P s0" using s0 sane_mem [OF s0] by simp
  moreover have "triple ?P ?lookup (\<lambda>r s. ?P s \<and> ?seg (fst r) (snd r)) (stops X)"
    using d di by (simp add: elem_at_def data_sane_def) (auto simp: triple_def bindS_def)
  ultimately have l: "triple (\<lambda>s. s = s0) ?lookup (\<lambda>r s. ?P s \<and> ?seg (fst r) (snd r)) (stops X)" by (rule triple_at [rotated])
  have seg: "triple (\<lambda>s. ?P s \<and> b) c Q E" if "b \<Longrightarrow> triple ?P c Q E" for b c Q E using that by (cases b) (auto simp: triple_def)
  show "triple (\<lambda>s. s = s0) (bindS ?lookup (\<lambda>(dlen, doff).
      if (ucast (ucast src :: u32) + ucast (ucast n :: u32) :: u64) > ucast dlen \<or>
         (ucast (ucast dst :: u32) + ucast (ucast n :: u32) :: u64) > ucast (i_mem_size (id s0)) then trap ST_TRAP_MEM_OOB
      else whenS (hm_data_blob m \<noteq> []) (forS [0..<unat (ucast n :: u32)] (\<lambda>i.
        bindS (elem_at ''data blob'' (hm_data_blob m) (unat (doff + ucast src + of_nat i))) (\<lambda>v. mem_set (unat (ucast dst + of_nat i :: u32)) v)))))
    (\<lambda>_. sane_at m ht gs pc (h - 3)) (stops X)"
  proof (rule triple_bindS [OF l], unfold case_prod_beta id_apply, intro seg triple_if triple_trap)
    fix r :: "u32 \<times> u32"
    assume "?seg (fst r) (snd r)" "\<not> ((ucast (ucast src :: u32) + ucast (ucast n :: u32) :: u64) > ucast (fst r) \<or>
      (ucast (ucast dst :: u32) + ucast (ucast n :: u32) :: u64) > ucast (i_mem_size s0))"
    then show "triple ?P (whenS (hm_data_blob m \<noteq> []) (forS [0..<unat (ucast n :: u32)] (\<lambda>i.
        bindS (elem_at ''data blob'' (hm_data_blob m) (unat (snd r + ucast src + of_nat i))) (\<lambda>v. mem_set (unat (ucast dst + of_nat i :: u32)) v))))
      (\<lambda>_. sane_at m ht gs pc (h - 3)) (stops X)"
      by (intro init_bytes_triple [OF d di, of "fst r" "snd r"]) simp_all
  qed simp_all
qed simp_all

lemma data_drop_triple: "triple (sane_at m ht gs pc h) (do_data_drop ins) (\<lambda>_. sane_at m ht gs pc h) (stops X)"
  unfolding do_data_drop_def
  by (intro triple_get triple_if triple_trap triple_modify) (auto simp: sane_at_def sane_def data_sane_def)

section \<open>Instructions with a fixed effect\<close>

lemma sane_frame:
  assumes "sane_at m ht gs pc h s"
  shows "unat (i_fp s) + slots (hd gs) + nat h \<le> length (i_stack s)" and "length (i_stack s) \<le> 4096" and "0 \<le> h"
  using assms by (auto simp: sane_at_def sane_def)

lemma frame_index:
  assumes "sane_at m ht gs pc h s" and "unat (a :: u16) < slots (hd gs)"
  shows "unat (i_fp s + ucast a) < length (i_stack s)"
proof -
  note f = sane_frame [OF assms(1)]
  have "unat (i_fp s + ucast a) = unat (i_fp s) + unat a"
    using f assms(2) unat_add_small [of "i_fp s" "unat a"] by simp
  then show ?thesis using f assms(2) by simp
qed

lemma pop_two_triple:
  assumes "2 \<le> h" and "\<And>a b. triple (sane_at m ht gs pc (h - 2)) (f a b) Q (stops X)"
  shows "triple (sane_at m ht gs pc h) (pop_two f) Q (stops X)"
proof -
  have h: "1 \<le> h" "1 \<le> h - 1" "h - 1 - 1 = h - 2" using assms(1) by simp_all
  show ?thesis
    unfolding pop_two_def using assms(2) h(3)
    by (intro triple_bindS [OF pop_triple [OF h(1)]] triple_bindS [OF pop_triple [OF h(2)]]) simp
qed

lemma push_pair_triple: "triple (sane_at m ht gs pc h) (push_pair r) (\<lambda>_. sane_at m ht gs pc (h + 2)) (stops X)"
  using triple_thenS [OF push_triple push_triple] by (simp add: push_pair_def add.assoc)

lemma push_triple_eq: "k = h + 1 \<Longrightarrow> triple (sane_at m ht gs pc h) (cu_push v) (\<lambda>_. sane_at m ht gs pc k) (stops X)"
  by (simp add: push_triple)

lemma pop_triple_eq: "1 \<le> h \<Longrightarrow> k = h - 1 \<Longrightarrow> triple (sane_at m ht gs pc h) cu_pop (\<lambda>_. sane_at m ht gs pc k) (stops X)"
  by (simp add: pop_triple)

lemma alu2_trap: "alu2 x a b = Some (Inl t) \<Longrightarrow> t \<in> {ST_TRAP_DIV_BY_ZERO, ST_TRAP_INT_OVERFLOW}"
  by (auto simp: alu2_def alu64_def alu32_def split: if_splits)

lemma binop_triple:
  assumes "2 \<le> h"
  shows "triple (sane_at m ht gs pc h)
    (pop_two (\<lambda>a b. case alu2 x a b of Some (Inr v) \<Rightarrow> cu_push v | Some (Inl t) \<Rightarrow> trap t | None \<Rightarrow> trap ST_UNSUPPORTED_OP))
    (\<lambda>_. sane_at m ht gs pc (h - 1)) (stops X)"
proof (rule pop_two_triple [OF assms])
  fix a b
  show "triple (sane_at m ht gs pc (h - 2)) (case alu2 x a b of Some (Inr v) \<Rightarrow> cu_push v | Some (Inl t) \<Rightarrow> trap t | None \<Rightarrow> trap ST_UNSUPPORTED_OP)
      (\<lambda>_. sane_at m ht gs pc (h - 1)) (stops X)"
    using alu2_trap [of x a b] by (auto split: option.split sum.split intro!: triple_trap push_triple_eq)
qed

text \<open>The widths \<open>OP_CLZ\<close> is emitted with; any other width may loop forever.\<close>

definition clz_width :: "cuop \<Rightarrow> bool" where
  "clz_width ins \<longleftrightarrow> (cu_op ins = OP_CLZ \<longrightarrow> cu_a ins \<in> {0, 32, 64})"

lemma clz_triple:
  assumes "1 \<le> h" and "cu_a ins \<in> {0, 32, 64}"
  shows "triple (sane_at m ht gs pc h) (do_clz ins) (\<lambda>_. sane_at m ht gs pc h) (stops X)"
proof -
  have "triple (sane_at m ht gs pc (h - 1)) (case clz (cu_a ins) v of Some n \<Rightarrow> cu_push n | None \<Rightarrow> fail (UB ''clz''))
      (\<lambda>_. sane_at m ht gs pc h) (stops X)" for v
    using clz_value [OF assms(2) refl, of v] push_triple_eq [of h "h - 1" m ht gs pc] by auto
  then show ?thesis unfolding do_clz_def by (rule triple_bindS [OF pop_triple [OF assms(1)]])
qed

lemma global_get_triple: "triple (sane_at m ht gs pc h) (do_global_get ins) (\<lambda>_. sane_at m ht gs pc (h + 1)) (stops X)"
  unfolding do_global_get_def by (intro triple_get triple_if triple_trap triple_at [OF push_triple]) simp_all

lemma global_set_triple:
  assumes "1 \<le> h"
  shows "triple (sane_at m ht gs pc h) (do_global_set ins) (\<lambda>_. sane_at m ht gs pc (h - 1)) (stops X)"
proof -
  have "triple (sane_at m ht gs pc h) (bindS cu_pop (\<lambda>v. modifyS (\<lambda>s. s\<lparr>i_globals := xs v\<rparr>)))
      (\<lambda>_. sane_at m ht gs pc (h - 1)) (stops X)" for xs
    by (intro triple_bindS [OF pop_triple [OF assms]] triple_modify) (simp add: sane_at_def sane_def)
  then show ?thesis unfolding do_global_set_def
    by (intro triple_get triple_if triple_trap triple_at [of "sane_at m ht gs pc h"]) simp_all
qed

lemma local_get_triple:
  assumes "unat (cu_a ins) < slots (hd gs)"
  shows "triple (sane_at m ht gs pc h) (bindS (getS i_fp) (\<lambda>fp. bindS (stack_at (fp + ucast (cu_a ins))) cu_push))
    (\<lambda>_. sane_at m ht gs pc (h + 1)) (stops X)"
proof (rule triple_get)
  fix s0 assume s0: "sane_at m ht gs pc h s0"
  have "triple (\<lambda>s. s = s0) (stack_at (i_fp s0 + ucast (cu_a ins))) (\<lambda>_. sane_at m ht gs pc h) (stops X)"
    using frame_index [OF s0 assms] s0 by (auto simp: triple_def stack_at_def bindS_def)
  then show "triple (\<lambda>s. s = s0) (bindS (stack_at (i_fp s0 + ucast (cu_a ins))) cu_push) (\<lambda>_. sane_at m ht gs pc (h + 1)) (stops X)"
    by (rule triple_bindS) (rule push_triple)
qed

lemma local_set_triple:
  assumes "unat (cu_a ins) < slots (hd gs)" and "1 \<le> h"
  shows "triple (sane_at m ht gs pc h) (bindS cu_pop (\<lambda>v. bindS (getS i_fp) (\<lambda>fp. stack_set (fp + ucast (cu_a ins)) v)))
    (\<lambda>_. sane_at m ht gs pc (h - 1)) (stops X)"
proof (intro triple_bindS [OF pop_triple [OF assms(2)]] triple_get)
  fix v s0 assume s0: "sane_at m ht gs pc (h - 1) s0"
  then show "triple (\<lambda>s. s = s0) (stack_set (i_fp s0 + ucast (cu_a ins)) v) (\<lambda>_. sane_at m ht gs pc (h - 1)) (stops X)"
    using frame_index [OF s0 assms(1)] sane_stack_upd [OF s0] by (auto simp: triple_def stack_set_def bindS_def)
qed

lemma index_in_frame:
  assumes "index_checks (ctx_of m g) ins = Inr ()" and "cu_op ins = OP_LOCAL_GET \<or> cu_op ins = OP_LOCAL_SET"
  shows "unat (cu_a ins) < slots g"
proof -
  have "cu_a ins < fm_n_params g + fm_n_locals g"
    using assms by (auto simp: index_checks_def ctx_of_def split: if_splits)
  then have "unat (cu_a ins) < unat (fm_n_params g + fm_n_locals g)" by (simp add: word_less_nat_alt)
  also have "\<dots> \<le> slots g" by (simp add: slots_def unat_word_ariths)
  finally show ?thesis .
qed

lemma binops_distinct:
  "x \<in> binops \<Longrightarrow> x \<noteq> OP_I64_CONST \<and> x \<noteq> OP_LOCAL_GET \<and> x \<noteq> OP_LOCAL_SET"
  by (auto simp: binops_def)

text \<open>An instruction of fixed effect at a sufficient height leaves the height the verifier computes.\<close>

lemma fixed_triple:
  assumes f: "fixed_effect (cu_op ins) = Some (need, delta, e)" and h: "need \<le> h"
    and i: "index_checks (ctx_of m (hd gs)) ins = Inr ()" and c: "clz_width ins"
  shows "triple (sane_at m ht gs pc h) (execute m ins) (\<lambda>_. sane_at m ht gs pc (h + delta)) (stops X)"
proof -
  note ex = execute_def Let_def binops_def
  have pop: "triple (sane_at m ht gs pc h) (bindS cu_pop k) Q (stops X)"
    if "1 \<le> h" "\<And>v. triple (sane_at m ht gs pc (h - 1)) (k v) Q (stops X)" for k Q h and X :: "inst \<Rightarrow> bool"
    using that by (intro triple_bindS [OF pop_triple]) auto
  consider (const) "cu_op ins = OP_I64_CONST" "need = 0" "delta = 1"
    | (get) "cu_op ins = OP_LOCAL_GET" "need = 0" "delta = 1"
    | (set) "cu_op ins = OP_LOCAL_SET" "need = 1" "delta = -1"
    | (bin) "cu_op ins \<in> binops" "need = 2" "delta = -1"
    | (un) "cu_op ins \<in> {OP_I64_EQZ, OP_I32_EQZ, OP_I32_WRAP_I64, OP_I64_EXTEND_I32_S, OP_I64_EXTEND_I32_U}" "need = 1" "delta = 0"
    | (mul) "cu_op ins = OP_I64_MUL_WIDE_S \<or> cu_op ins = OP_I64_MUL_WIDE_U" "need = 2" "delta = 0"
    | (wide) "cu_op ins = OP_I64_ADD128 \<or> cu_op ins = OP_I64_SUB128" "need = 4" "delta = -2"
    | (drop) "cu_op ins = OP_DROP" "need = 1" "delta = -1"
    | (gget) "cu_op ins = OP_GLOBAL_GET" "need = 0" "delta = 1"
    | (gset) "cu_op ins = OP_GLOBAL_SET" "need = 1" "delta = -1"
    | (sel) "cu_op ins = OP_SELECT" "need = 3" "delta = -2"
    | (load) "cu_op ins = OP_LOAD" "need = 1" "delta = 0"
    | (store) "cu_op ins = OP_STORE" "need = 2" "delta = -2"
    | (size) "cu_op ins = OP_MEMORY_SIZE" "need = 0" "delta = 1"
    | (grow) "cu_op ins = OP_MEMORY_GROW" "need = 1" "delta = 0"
    | (bulk) "cu_op ins \<in> {OP_MEMORY_COPY, OP_MEMORY_FILL, OP_MEMORY_INIT}" "need = 3" "delta = -3"
    | (ddrop) "cu_op ins = OP_DATA_DROP" "need = 0" "delta = 0"
    | (clz) "cu_op ins = OP_CLZ" "need = 1" "delta = 0"
    using f by (auto simp: fixed_effect_def split: if_splits)
  then show ?thesis
  proof cases
    case const
    then have "unat (cu_b ins) < length (hm_consts m)" using i by (auto simp: index_checks_def ctx_of_def split: if_splits)
    then show ?thesis using const by (simp add: ex) (intro triple_bindS [OF elem_at_triple] push_triple)
  next
    case get
    then show ?thesis using local_get_triple [OF index_in_frame [OF i]] by (simp add: ex)
  next
    case set
    then show ?thesis using local_set_triple [OF index_in_frame [OF i]] h by (simp add: ex)
  next
    case bin
    then show ?thesis using binop_triple [of h] binops_distinct h by (simp add: execute_def Let_def)
  next
    case un
    have "triple (sane_at m ht gs pc h) (bindS cu_pop (\<lambda>a. case alu1 (cu_op ins) a of Some v \<Rightarrow> cu_push v | None \<Rightarrow> trap ST_UNSUPPORTED_OP))
        (\<lambda>_. sane_at m ht gs pc h) (stops X)"
      using h un by (intro pop) (auto split: option.split intro!: push_triple_eq triple_trap)
    then show ?thesis using un by (auto simp: ex)
  next
    case mul
    have "triple (sane_at m ht gs pc h) (pop_two (\<lambda>a b. push_pair (k a b))) (\<lambda>_. sane_at m ht gs pc h) (stops X)" for k
      using h mul push_pair_triple [of m ht gs pc "h - 2"] by (intro pop_two_triple) auto
    then show ?thesis using mul by (auto simp: ex)
  next
    case wide
    have "triple (sane_at m ht gs pc h) (pop_two (\<lambda>a b. pop_two (\<lambda>c d. push_pair (k a b c d)))) (\<lambda>_. sane_at m ht gs pc (h - 2)) (stops X)" for k
      using h wide push_pair_triple [of m ht gs pc "h - 2 - 2"] by (intro pop_two_triple) auto
    then show ?thesis using wide by (auto simp: ex)
  next
    case drop
    have "triple (sane_at m ht gs pc h) (bindS cu_pop (\<lambda>_. ret ())) (\<lambda>_. sane_at m ht gs pc (h - 1)) (stops X)"
      using h drop by (intro pop triple_ret) auto
    then show ?thesis using drop by (simp add: ex)
  next
    case sel
    have "triple (sane_at m ht gs pc h) (bindS cu_pop (\<lambda>c. bindS cu_pop (\<lambda>b. bindS cu_pop (\<lambda>a. cu_push (k a b c)))))
        (\<lambda>_. sane_at m ht gs pc (h - 2)) (stops X)" for k
      using h sel by (intro pop push_triple_eq) auto
    then show ?thesis using sel by (simp add: ex)
  next
    case size
    have "triple (sane_at m ht gs pc h) (bindS (getS i_mem_size) (\<lambda>sz. cu_push (k sz))) (\<lambda>_. sane_at m ht gs pc (h + 1)) (stops X)" for k
      by (intro triple_get triple_at [OF push_triple])
    then show ?thesis using size by (simp add: ex)
  next
    case clz
    then show ?thesis using clz_triple [of h ins] h c by (simp add: ex clz_width_def)
  qed (use h global_get_triple global_set_triple load_triple store_triple grow_triple copy_triple fill_triple init_triple data_drop_triple
      in \<open>auto simp: ex\<close>)
qed

end
