(* ===== verification/Interp_Control.thy ===== *)
theory Interp_Control
  imports Interp_Safe
begin

text \<open>
  Branches, calls and returns keep the frames in agreement with the heights, so every step of verified
  code leads to a state that can run on, stops with a status, or waits for the host.
\<close>

section \<open>States that can run\<close>

definition running :: "host_module \<Rightarrow> heights \<Rightarrow> inst \<Rightarrow> bool" where
  "running m ht s \<longleftrightarrow> (\<exists>gs h. sane m ht gs h s \<and> at_height ht (hd gs) (i_pc s) h)"

text \<open>A host call awaits its answer: with its one result, the height will be that of the next instruction.\<close>

definition awaiting :: "host_module \<Rightarrow> heights \<Rightarrow> inst \<Rightarrow> bool" where
  "awaiting m ht s \<longleftrightarrow>
     (\<exists>gs h. sane m ht gs h s \<and> at_height ht (hd gs) (i_pc s) (h + 1)) \<and> hb_n_args (i_mb s) \<le> 16"

definition goes_on :: "host_module \<Rightarrow> heights \<Rightarrow> (stop + unit) \<times> inst \<Rightarrow> bool" where
  "goes_on m ht r \<longleftrightarrow> (case r of (Inl e, t) \<Rightarrow> stops (awaiting m ht) e t | (Inr _, t) \<Rightarrow> running m ht t)"

text \<open>
  What the verifier does not check and the translator ensures: code that fits the program counter, tail
  calls that return as many results as their caller, calls of functions with code, host calls of one
  result, table entries with code and with the signature their fingerprint says, and the widths of
  \<open>OP_CLZ\<close>.
\<close>

definition ins_runnable :: "host_module \<Rightarrow> func_meta \<Rightarrow> cuop \<Rightarrow> bool" where
  "ins_runnable m g ins \<longleftrightarrow>
     clz_width ins \<and> (cu_op ins = OP_CALL_HOST \<longrightarrow> drop_bit 8 (cu_a ins) AND 0xFF = 1) \<and>
     (cu_op ins \<in> {OP_CALL, OP_RETURN_CALL} \<longrightarrow> unat (cu_b ins) < length (hm_funcs m) \<longrightarrow> code_fn m (hm_funcs m ! unat (cu_b ins))) \<and>
     (cu_op ins = OP_RETURN_CALL \<longrightarrow> unat (cu_b ins) < length (hm_funcs m) \<longrightarrow>
        fm_n_results (hm_funcs m ! unat (cu_b ins)) = fm_n_results g)"

definition table_runnable :: "host_module \<Rightarrow> bool" where
  "table_runnable m \<longleftrightarrow>
     (\<forall>fi \<in> set (hm_table m). fi \<noteq> TABLE_NULL \<longrightarrow> unat fi < length (hm_funcs m) \<longrightarrow>
        code_fn m (hm_funcs m ! unat fi) \<and>
        (hm_func_typeidx m \<noteq> [] \<longrightarrow> unat fi < length (hm_func_typeidx m) \<and>
          (unat (hm_func_typeidx m ! unat fi) < length (hm_type_fp m) \<longrightarrow>
             uint (hm_type_fp m ! unat (hm_func_typeidx m ! unat fi) AND 0xFF) = int (unat (fm_n_params (hm_funcs m ! unat fi))) \<and>
             uint (drop_bit 8 (hm_type_fp m ! unat (hm_func_typeidx m ! unat fi)) AND 0xFF) =
               int (unat (fm_n_results (hm_funcs m ! unat fi))))))"

definition runnable :: "host_module \<Rightarrow> heights \<Rightarrow> bool" where
  "runnable m ht \<longleftrightarrow>
     length (hm_code m) < 2 ^ 32 \<and> table_runnable m \<and>
     (\<forall>g. code_fn m g \<longrightarrow> fn_shape m g \<and> well_heighted m g (ht g) \<and>
       (\<forall>p < unat (fm_code_len g). ins_runnable m g (hm_code m ! (unat (fm_code_off g) + p))))"

section \<open>Moving slots and pushing locals\<close>

lemma move_run:
  assumes "\<forall>i \<in> set is. unat (src + of_nat i) < length (i_stack s) \<and> unat (dst + of_nat i) < length (i_stack s)"
  shows "\<exists>xs. length xs = length (i_stack s) \<and>
    forS is (\<lambda>i. bindS (stack_at (src + of_nat i)) (stack_set (dst + of_nat i))) s = (Inr (), s\<lparr>i_stack := xs\<rparr>)"
  using assms
proof (induction "is" arbitrary: s)
  case Nil
  then show ?case by (intro exI [of _ "i_stack s"]) simp
next
  case (Cons i "is")
  let ?s = "s\<lparr>i_stack := (i_stack s)[unat (dst + of_nat i) := i_stack s ! unat (src + of_nat i)]\<rparr>"
  obtain xs where "length xs = length (i_stack ?s)"
    "forS is (\<lambda>i. bindS (stack_at (src + of_nat i)) (stack_set (dst + of_nat i))) ?s = (Inr (), ?s\<lparr>i_stack := xs\<rparr>)"
    using Cons.IH [of ?s] Cons.prems by auto
  moreover have "bindS (stack_at (src + of_nat i)) (stack_set (dst + of_nat i)) s = (Inr (), ?s)"
    using Cons.prems by (simp add: stack_at_def stack_set_def bindS_def)
  ultimately show ?case by (intro exI [of _ xs]) simp
qed

lemma move_slots_run:
  assumes "unat dst + n \<le> length (i_stack s)" and "unat src + n \<le> length (i_stack s)" and "length (i_stack s) \<le> 4096"
  shows "\<exists>xs. length xs = length (i_stack s) \<and> move_slots dst src n s = (Inr (), s\<lparr>i_stack := xs\<rparr>)"
proof -
  have "unat (a + of_nat i) < length (i_stack s)" if "i < n" "unat a + n \<le> length (i_stack s)" for a :: u32 and i
    using that assms(3) unat_add_small [of a i] by simp
  then show ?thesis unfolding move_slots_def Let_def using assms(1,2) by (auto intro!: move_run)
qed

lemma push_zeros_run:
  assumes "unat (i_sp s) \<le> length (i_stack s)" and "length (i_stack s) \<le> 4096"
  shows "(\<exists>t. forS (replicate k ()) (\<lambda>_. cu_push 0) s = (Inl (Trap ST_TRAP_STACK_OVERFLOW), t)) \<or>
    (\<exists>xs. length xs = length (i_stack s) \<and> unat (i_sp s) + k \<le> length (i_stack s) \<and>
       forS (replicate k ()) (\<lambda>_. cu_push 0) s = (Inr (), s\<lparr>i_stack := xs, i_sp := i_sp s + of_nat k\<rparr>))"
  using assms
proof (induction k arbitrary: s)
  case 0
  then show ?case by (intro disjI2 exI [of _ "i_stack s"]) simp
next
  case (Suc k)
  show ?case
  proof (cases "unat (i_sp s) < length (i_stack s)")
    case False
    then have "cu_push 0 s = (Inl (Trap ST_TRAP_STACK_OVERFLOW), s)" by (simp add: cu_push_def trap_def bindS_def)
    then show ?thesis by (intro disjI1 exI [of _ s]) simp
  next
    case True
    let ?s = "s\<lparr>i_stack := (i_stack s)[unat (i_sp s) := 0], i_sp := i_sp s + 1\<rparr>"
    have u: "unat (i_sp s + 1) = unat (i_sp s) + 1" using unat_add_small [of "i_sp s" 1] True Suc.prems by simp
    have p: "cu_push 0 s = (Inr (), ?s)" using True by (simp add: cu_push_def stack_set_def thenS_def bindS_def)
    from Suc.IH [of ?s] consider t where "forS (replicate k ()) (\<lambda>_. cu_push 0) ?s = (Inl (Trap ST_TRAP_STACK_OVERFLOW), t)"
      | xs where "length xs = length (i_stack s)" "unat (i_sp s) + Suc k \<le> length (i_stack s)"
        "forS (replicate k ()) (\<lambda>_. cu_push 0) ?s = (Inr (), ?s\<lparr>i_stack := xs, i_sp := i_sp s + 1 + of_nat k\<rparr>)"
      using True Suc.prems u by auto
    then show ?thesis
    proof cases
      case (1 t)
      then show ?thesis using p by (intro disjI1 exI [of _ t]) simp
    next
      case (2 xs)
      then show ?thesis using p by (intro disjI2 exI [of _ xs]) (simp add: add.assoc)
    qed
  qed
qed

section \<open>Instructions that fall through or branch\<close>

definition after :: "host_module \<Rightarrow> heights \<Rightarrow> unit act \<Rightarrow> func_meta list \<Rightarrow> u32 \<Rightarrow> int \<Rightarrow> bool" where
  "after m ht c gs pc h \<longleftrightarrow> triple (sane_at m ht gs pc h) c (\<lambda>_. running m ht) (stops (awaiting m ht))"

lemma triple_after:
  assumes "triple (sane_at m ht gs pc h) c (\<lambda>_. sane_at m ht gs pc h') (stops (awaiting m ht))" and "at_height ht (hd gs) pc h'"
  shows "after m ht c gs pc h"
  unfolding after_def using assms(1) by (rule triple_weaken) (use assms(2) in \<open>auto simp: running_def sane_at_def\<close>)

lemma unat_plus_small: "unat (a :: u32) + unat b \<le> 65536 \<Longrightarrow> unat (a + b) = unat a + unat b"
  by (subst unat_add_lem [THEN iffD1]) simp_all

lemma running_pc: "sane_at m ht gs pc h s \<Longrightarrow> at_height ht (hd gs) pc' h \<Longrightarrow> running m ht (s\<lparr>i_pc := pc'\<rparr>)"
  unfolding running_def by (rule exI [of _ gs], rule exI [of _ h]) (simp add: sane_at_def sane_def)

lemma running_at: "sane_at m ht gs pc h s \<Longrightarrow> at_height ht (hd gs) pc h \<Longrightarrow> running m ht s"
  unfolding running_def sane_at_def by blast

lemma sane_fuel: "sane_at m ht gs pc h s \<Longrightarrow> sane_at m ht gs pc h (s\<lparr>i_fuel := k\<rparr>)"
  by (simp add: sane_at_def sane_def)

lemma after_goes_on: "after m ht c gs pc h \<Longrightarrow> sane_at m ht gs pc h s \<Longrightarrow> goes_on m ht (c s)"
  by (simp add: after_def triple_def goes_on_def)

lemma sane_stack_top: "sane_at m ht gs pc h s \<Longrightarrow> unat (i_sp s) \<le> length (i_stack s) \<and> length (i_stack s) \<le> 4096"
  by (simp add: sane_at_def sane_def)

lemma unwind_triple:
  assumes "0 \<le> d" "d \<le> h" "unat (cu_b ins) = slots (hd gs) + nat d"
  shows "triple (sane_at m ht gs pc h) (do_unwind ins) (\<lambda>_. sane_at m ht gs pc d) (stops X)"
  unfolding triple_def
proof (intro allI impI)
  fix s assume s: "sane_at m ht gs pc h s"
  let ?dest = "i_fp s + cu_b ins" and ?k = "ucast (cu_a ins) :: u32"
  have sp: "unat (i_sp s) = unat (i_fp s) + slots (hd gs) + nat h" and top: "unat (i_sp s) \<le> length (i_stack s)" "length (i_stack s) \<le> 4096"
    using s by (simp_all add: sane_at_def sane_def)
  have dest: "unat ?dest = unat (i_fp s) + slots (hd gs) + nat d"
    using unat_plus_small [of "i_fp s" "cu_b ins"] sp top assms(3) nat_mono [OF assms(2)] by simp
  then have le: "unat ?dest \<le> unat (i_sp s)" using sp nat_mono [OF assms(2)] by simp
  have fin: "sane_at m ht gs pc d (s\<lparr>i_stack := xs, i_sp := ?dest\<rparr>)" if "length xs = length (i_stack s)" for xs
    using s that dest le assms(1) by (simp add: sane_at_def sane_def)
  show "case do_unwind ins s of (Inl e, t) \<Rightarrow> stops X e t | (Inr x, t) \<Rightarrow> sane_at m ht gs pc d t"
  proof (cases "?k > i_sp s \<or> ?dest < ?k \<or> ?dest > 4096")
    case True
    then show ?thesis by (simp add: do_unwind_def Let_def trap_def stops_def)
  next
    case False
    then have k: "?k \<le> i_sp s" "?k \<le> ?dest" by (auto simp: not_less)
    then have "unat (?dest - ?k) + unat ?k \<le> length (i_stack s)" "unat (i_sp s - ?k) + unat ?k \<le> length (i_stack s)"
      using le top by (simp_all add: unat_sub word_le_nat_alt)
    then obtain xs where xs: "length xs = length (i_stack s)"
      "move_slots (?dest - ?k) (i_sp s - ?k) (unat ?k) s = (Inr (), s\<lparr>i_stack := xs\<rparr>)"
      using move_slots_run [of "?dest - ?k" "unat ?k" s "i_sp s - ?k"] top by auto
    have "do_unwind ins s = (Inr (), s\<lparr>i_stack := (if ?dest - ?k \<noteq> i_sp s - ?k then xs else i_stack s), i_sp := ?dest\<rparr>)"
      using False xs(2) by (simp add: do_unwind_def Let_def whenS_def)
    then show ?thesis using fin [of "if ?dest - ?k \<noteq> i_sp s - ?k then xs else i_stack s"] xs(1) by simp
  qed
qed

lemma br_after:
  assumes "at_height ht (hd gs) (cu_b ins) h"
  shows "after m ht (do_br ins) gs pc h"
  unfolding after_def do_br_def
proof (rule triple_get)
  fix s0 assume s0: "sane_at m ht gs pc h s0"
  let ?P = "sane_at m ht gs pc h"
  have "triple ?P (thenS (modifyS (\<lambda>s. s\<lparr>i_fuel := i_fuel s - FUEL_BACKEDGE\<rparr>))
      (bindS (getS i_fuel) (\<lambda>fuel. whenS (fuel \<le> 0) (trap ST_OUT_OF_FUEL)))) (\<lambda>_. ?P) (stops (awaiting m ht))"
    by (intro triple_thenS [of _ _ ?P] triple_modify triple_get triple_when triple_trap) (simp_all add: sane_fuel)
  then have "triple ?P (whenS b (thenS (modifyS (\<lambda>s. s\<lparr>i_fuel := i_fuel s - FUEL_BACKEDGE\<rparr>))
      (bindS (getS i_fuel) (\<lambda>fuel. whenS (fuel \<le> 0) (trap ST_OUT_OF_FUEL))))) (\<lambda>_. ?P) (stops (awaiting m ht))" for b
    by (rule triple_when)
  then show "triple (\<lambda>s. s = s0)
      (thenS (whenS (cu_b ins \<le> i_pc (id s0)) (thenS (modifyS (\<lambda>s. s\<lparr>i_fuel := i_fuel s - FUEL_BACKEDGE\<rparr>))
         (bindS (getS i_fuel) (\<lambda>fuel. whenS (fuel \<le> 0) (trap ST_OUT_OF_FUEL)))))
        (modifyS (\<lambda>s. s\<lparr>i_pc := cu_b ins\<rparr>))) (\<lambda>_. running m ht) (stops (awaiting m ht))"
    using s0 assms by (intro triple_at [of ?P] triple_thenS [of ?P _ ?P] triple_modify running_pc) auto
qed

lemma br_if_not_after:
  assumes "1 \<le> h" "at_height ht (hd gs) (cu_b ins) (h - 1)" "at_height ht (hd gs) pc (h - 1)"
  shows "after m ht (do_br_if_not ins) gs pc h"
  unfolding after_def do_br_if_not_def
proof (intro triple_bindS [OF pop_triple [OF assms(1)]] triple_when triple_modify)
  fix v s assume s: "sane_at m ht gs pc (h - 1) s"
  show "running m ht s" using s assms(3) by (rule running_at)
  show "running m ht (s\<lparr>i_pc := cu_b ins\<rparr>)" using s assms(2) by (rule running_pc)
qed

section \<open>Calls and returns\<close>

lemma push_locals_run:
  assumes "unat (i_sp s) \<le> length (i_stack s)" and "length (i_stack s) \<le> 4096"
  obtains t where "push_locals f s = (Inl (Trap ST_TRAP_STACK_OVERFLOW), t)"
    | xs where "length xs = length (i_stack s)" "unat (i_sp s) + unat (fm_n_locals f) \<le> length (i_stack s)"
        "push_locals f s = (Inr (), s\<lparr>i_stack := xs, i_sp := i_sp s + ucast (fm_n_locals f)\<rparr>)"
  using push_zeros_run [OF assms, of "unat (fm_n_locals f)"] unfolding push_locals_def by auto

lemma entry_height: "runnable m ht \<Longrightarrow> code_fn m f \<Longrightarrow> at_height ht f (fm_code_off f) 0"
  unfolding runnable_def at_height_def by (rule exI [of _ 0]) (auto simp: fn_shape_def well_heighted_def unat_gt_0)

text \<open>The state at the entry of a function, whose frame has been put on the chain.\<close>

lemma entered_running:
  assumes "runnable m ht" "code_fn m f" "frames_sane m ht (f # gs) s" "unat (i_sp s) = unat (i_fp s) + slots f"
    "unat (i_sp s) \<le> length (i_stack s)" "length (i_stack s) \<le> 4096" "mem_sane s" "data_sane m s" "length (hb_args (i_mb s)) = 16"
    "i_pc s = fm_code_off f"
  shows "running m ht s"
  unfolding running_def
  by (rule exI [of _ "f # gs"], rule exI [of _ 0]) (use assms entry_height [of m ht f] in \<open>auto simp: sane_def\<close>)

lemma take_Suc_update: "n < length xs \<Longrightarrow> rev (take (Suc n) (xs[n := x])) = x # rev (take n xs)"
  by (simp add: take_Suc_conv_app_nth)

text \<open>A new frame on the chain.\<close>

lemma frames_sane_push:
  assumes fs: "frames_sane m ht gs s" and f: "code_fn m f" and c: "i_csp s < FRAME_CAP"
    and fr: "fr_ret_pc fr = i_pc s" "fr_fp fr = i_fp s" "fr_n_results fr = fm_n_results f"
    and h: "0 \<le> h'" "at_height ht (hd gs) (i_pc s) h'"
    and b: "unat (fr_sp_base fr) + unat (fm_n_results f) = unat (i_fp s) + slots (hd gs) + nat h'"
    and t: "i_csp t = i_csp s + 1" "i_frames t = (i_frames s)[unat (i_csp s) := fr]" "i_fp t = fr_sp_base fr"
  shows "frames_sane m ht (f # gs) t"
proof -
  have csp: "unat (i_csp s) < 256" using c by (simp add: word_less_nat_alt)
  then have csp': "unat (i_csp s + 1) = Suc (unat (i_csp s))" using unat_add_small [of "i_csp s" 1] by simp
  obtain g gs' where gs: "gs = g # gs'" using fs by (cases gs) (auto simp: frames_sane_def)
  have "rev (take (Suc (unat (i_csp s))) ((i_frames s)[unat (i_csp s) := fr])) = fr # rev (take (unat (i_csp s)) (i_frames s))"
    using fs csp by (intro take_Suc_update) (simp add: frames_sane_def)
  then show ?thesis using fs f fr h b t csp csp' gs by (auto simp: frames_sane_def)
qed

lemma nat_height: "int p \<le> h \<Longrightarrow> nat (h - int p + int r) + p = nat h + r"
  by linarith

lemma enter_after:
  assumes "runnable m ht" "code_fn m f" "int (unat (fm_n_params f)) \<le> h"
    "at_height ht (hd gs) pc (h - int (unat (fm_n_params f)) + int (unat (fm_n_results f)))"
  shows "after m ht (enter f) gs pc h"
  unfolding after_def triple_def
proof (intro allI impI)
  fix s assume s: "sane_at m ht gs pc h s"
  let ?np = "ucast (fm_n_params f) :: u32" and ?h' = "h - int (unat (fm_n_params f)) + int (unat (fm_n_results f))"
  let ?base = "i_sp s - ?np"
  let ?fr = "\<lparr>fr_ret_pc = i_pc s, fr_fp = i_fp s, fr_sp_base = ?base, fr_n_results = fm_n_results f\<rparr>"
  let ?s = "s\<lparr>i_frames := (i_frames s)[unat (i_csp s) := ?fr], i_csp := i_csp s + 1, i_peak_csp := max (i_peak_csp s) (i_csp s + 1), i_fp := ?base\<rparr>"
  have fs: "frames_sane m ht gs s" and sp: "unat (i_sp s) = unat (i_fp s) + slots (hd gs) + nat h" and h: "0 \<le> h" and pc: "i_pc s = pc"
    and top: "unat (i_sp s) \<le> length (i_stack s)" "length (i_stack s) \<le> 4096"
    and rest: "mem_sane s" "data_sane m s" "length (hb_args (i_mb s)) = 16"
    using s by (simp_all add: sane_at_def sane_def)
  have np: "unat (fm_n_params f) \<le> nat h" using nat_mono [OF assms(3)] unfolding nat_int .
  then have le: "?np \<le> i_sp s" using sp by (simp add: word_le_nat_alt)
  then have base: "unat ?base = unat (i_sp s) - unat (fm_n_params f)" by (simp add: unat_sub)
  have cap: "length (i_frames s) = 256" using fs by (simp add: frames_sane_def)
  have run: "enter f s = thenS (push_locals f) (modifyS (\<lambda>s. s\<lparr>i_pc := fm_code_off f\<rparr>)) ?s" if "i_csp s < 256"
  proof -
    have "unat (i_csp s) < length (i_frames s)" using that cap by (simp add: word_less_nat_alt)
    moreover have "\<not> 256 \<le> i_csp s" "\<not> i_sp s < ?np" using that le by auto
    ultimately show ?thesis by (simp add: enter_def Let_def frame_set_def)
  qed
  show "case enter f s of (Inl e, t) \<Rightarrow> stops (awaiting m ht) e t | (Inr x, t) \<Rightarrow> running m ht t"
  proof (cases "i_csp s < 256")
    case False
    then have "256 \<le> i_csp s" by simp
    then show ?thesis by (simp add: enter_def trap_def stops_def)
  next
    case True
    have fs': "frames_sane m ht (f # gs) ?s"
      using assms(3,4) np base sp h pc nat_height [OF assms(3), of "unat (fm_n_results f)"] by (intro frames_sane_push [OF fs assms(2) True, of ?fr ?h']) auto
    from push_locals_run [of ?s f] top consider t where "push_locals f ?s = (Inl (Trap ST_TRAP_STACK_OVERFLOW), t)"
      | xs where "length xs = length (i_stack s)" "unat (i_sp s) + unat (fm_n_locals f) \<le> length (i_stack s)"
        "push_locals f ?s = (Inr (), ?s\<lparr>i_stack := xs, i_sp := i_sp s + ucast (fm_n_locals f)\<rparr>)"
      by auto
    then show ?thesis
    proof cases
      case (1 t)
      then show ?thesis using run [OF True] by (simp add: stops_def)
    next
      case (2 xs)
      let ?t = "?s\<lparr>i_stack := xs, i_sp := i_sp s + ucast (fm_n_locals f), i_pc := fm_code_off f\<rparr>"
      have "unat (i_sp s + ucast (fm_n_locals f)) = unat (i_sp s) + unat (fm_n_locals f)"
        using unat_plus_small [of "i_sp s" "ucast (fm_n_locals f)"] 2(2) top by simp
      then have "running m ht ?t"
        using fs' 2 top rest base np sp
        by (intro entered_running [OF assms(1,2), of gs]) (auto simp: slots_def mem_sane_def data_sane_def)
      then show ?thesis using run [OF True] 2(3) by simp
    qed
  qed
qed

text \<open>The frame of the current function, and the frames below it.\<close>

lemma frames_sane_top:
  assumes "frames_sane m ht gs s"
  obtains c where "unat (i_csp s) = Suc c" "unat (i_csp s - 1) = c" "c < length (i_frames s)" "i_csp s \<noteq> 0"
    "chain ht (i_frames s ! c # rev (take c (i_frames s))) gs (unat (i_fp s))" "length gs = Suc c"
proof -
  have len: "length gs = unat (i_csp s)" "gs \<noteq> []" "length gs \<le> length (i_frames s)"
    and ch: "chain ht (rev (take (unat (i_csp s)) (i_frames s))) gs (unat (i_fp s))"
    using assms by (simp_all add: frames_sane_def)
  then obtain c where c: "unat (i_csp s) = Suc c" by (cases "unat (i_csp s)") auto
  then have "i_csp s \<noteq> 0" by auto
  then have "unat (i_csp s - 1) = c" using c by (simp add: unat_minus_one)
  then show ?thesis using that c len ch \<open>i_csp s \<noteq> 0\<close> by (simp add: take_Suc_conv_app_nth)
qed

lemma chain_top: "chain ht (fr # frs) gs b \<Longrightarrow> unat (fr_sp_base fr) = b \<and> fr_n_results fr = fm_n_results (hd gs)"
  by (cases "(ht, fr # frs, gs, b)" rule: chain.cases) auto

lemma chain_swap:
  assumes "chain ht (fr # frs) (g # gs) b" and "fm_n_results f = fm_n_results g"
  shows "chain ht (fr\<lparr>fr_n_results := fm_n_results f\<rparr> # frs) (f # gs) b"
  using assms by (cases "(ht, fr # frs, g # gs, b)" rule: chain.cases) auto

lemma return_call_after:
  assumes "runnable m ht" "unat (cu_b ins) < length (hm_funcs m)" "code_fn m f" "int (unat (fm_n_params f)) \<le> h"
    "f = hm_funcs m ! unat (cu_b ins)" "fm_n_results f = fm_n_results (hd gs)"
  shows "after m ht (do_return_call m ins) gs pc h"
  unfolding after_def triple_def
proof (intro allI impI)
  fix s assume s: "sane_at m ht gs pc h s"
  let ?np = "ucast (fm_n_params f) :: u32"
  have fs: "frames_sane m ht gs s" and sp: "unat (i_sp s) = unat (i_fp s) + slots (hd gs) + nat h" and h: "0 \<le> h"
    and top: "unat (i_sp s) \<le> length (i_stack s)" "length (i_stack s) \<le> 4096"
    and rest: "mem_sane s" "data_sane m s" "length (hb_args (i_mb s)) = 16"
    using s by (simp_all add: sane_at_def sane_def)
  have np: "unat (fm_n_params f) \<le> nat h" using nat_mono [OF assms(4)] unfolding nat_int .
  then have le: "?np \<le> i_sp s" using sp by (simp add: word_le_nat_alt)
  from frames_sane_top [OF fs] obtain c where c: "unat (i_csp s) = Suc c" "unat (i_csp s - 1) = c" "c < length (i_frames s)" "i_csp s \<noteq> 0"
    "chain ht (i_frames s ! c # rev (take c (i_frames s))) gs (unat (i_fp s))" "length gs = Suc c" .
  obtain g gs' where gs: "gs = g # gs'" using c(6) by (cases gs) auto
  obtain xs where xs: "length xs = length (i_stack s)"
    "move_slots (i_fp s) (i_sp s - ?np) (unat (fm_n_params f)) s = (Inr (), s\<lparr>i_stack := xs\<rparr>)"
    using move_slots_run [of "i_fp s" "unat (fm_n_params f)" s "i_sp s - ?np"] top np sp le by (auto simp: unat_sub)
  let ?s = "s\<lparr>i_stack := xs, i_sp := i_fp s + ?np\<rparr>"
  have fp: "unat (i_fp s + ?np) = unat (i_fp s) + unat (fm_n_params f)"
    using unat_plus_small [of "i_fp s" ?np] top np sp by simp
  have run: "do_return_call m ins s =
      thenS (push_locals f) (thenS (whenS (i_csp s > 0)
          (bindS (frame_at (i_csp s - 1)) (\<lambda>fr. frame_set (i_csp s - 1) (fr\<lparr>fr_n_results := fm_n_results f\<rparr>))))
        (modifyS (\<lambda>s. s\<lparr>i_pc := fm_code_off f\<rparr>))) ?s"
    using assms(2) leD [OF le] xs(2) unfolding do_return_call_def assms(5) [symmetric] Let_def by simp
  from push_locals_run [of ?s f] top np sp fp xs(1) consider t where "push_locals f ?s = (Inl (Trap ST_TRAP_STACK_OVERFLOW), t)"
    | ys where "length ys = length (i_stack s)" "unat (i_sp ?s) + unat (fm_n_locals f) \<le> length (i_stack s)"
      "push_locals f ?s = (Inr (), ?s\<lparr>i_stack := ys, i_sp := i_sp ?s + ucast (fm_n_locals f)\<rparr>)"
    by auto
  then show "case do_return_call m ins s of (Inl e, t) \<Rightarrow> stops (awaiting m ht) e t | (Inr x, t) \<Rightarrow> running m ht t"
  proof cases
    case (1 t)
    then show ?thesis using run by (simp add: stops_def)
  next
    case (2 ys)
    let ?t = "s\<lparr>i_stack := ys, i_sp := i_sp ?s + ucast (fm_n_locals f),
      i_frames := (i_frames s)[c := (i_frames s ! c)\<lparr>fr_n_results := fm_n_results f\<rparr>], i_pc := fm_code_off f\<rparr>"
    have sum: "unat (i_sp ?s + ucast (fm_n_locals f)) = unat (i_sp ?s) + unat (fm_n_locals f)"
      using unat_plus_small [of "i_sp ?s" "ucast (fm_n_locals f)"] 2(2) top by simp
    have "chain ht (rev (take (unat (i_csp ?t)) (i_frames ?t))) (f # gs') (unat (i_fp ?t))"
      using chain_swap [of ht "i_frames s ! c" _ g gs' _ f] c gs assms(6) by (simp add: take_Suc_update)
    then have "frames_sane m ht (f # gs') ?t" using fs gs assms(3) by (simp add: frames_sane_def)
    then have "running m ht ?t" using 2 top rest sum fp
      by (intro entered_running [OF assms(1,3), of gs']) (auto simp: slots_def mem_sane_def data_sane_def)
    moreover have "do_return_call m ins s = (Inr (), ?t)"
      unfolding run using 2(3) c by (simp add: whenS_def frame_at_def frame_set_def word_gt_0)
    ultimately show ?thesis by simp
  qed
qed

lemma return_after:
  assumes "int (unat (fm_n_results (hd gs))) \<le> h"
  shows "after m ht do_return gs pc h"
  unfolding after_def triple_def
proof (intro allI impI)
  fix s assume s: "sane_at m ht gs pc h s"
  have fs: "frames_sane m ht gs s" and sp: "unat (i_sp s) = unat (i_fp s) + slots (hd gs) + nat h" and h: "0 \<le> h"
    and top: "unat (i_sp s) \<le> length (i_stack s)" "length (i_stack s) \<le> 4096"
    and rest: "mem_sane s" "data_sane m s" "length (hb_args (i_mb s)) = 16"
    using s by (simp_all add: sane_at_def sane_def)
  from frames_sane_top [OF fs] obtain c where c: "unat (i_csp s) = Suc c" "unat (i_csp s - 1) = c" "c < length (i_frames s)" "i_csp s \<noteq> 0"
    "chain ht (i_frames s ! c # rev (take c (i_frames s))) gs (unat (i_fp s))" "length gs = Suc c" .
  let ?fr = "i_frames s ! c" and ?nr = "ucast (fm_n_results (hd gs)) :: u32"
  have fr: "unat (fr_sp_base ?fr) = unat (i_fp s)" "fr_n_results ?fr = fm_n_results (hd gs)" using chain_top [OF c(5)] by auto
  then have base: "fr_sp_base ?fr = i_fp s" by (simp add: word_unat_eq_iff)
  have nr: "unat (fm_n_results (hd gs)) \<le> nat h" using nat_mono [OF assms] unfolding nat_int .
  then have le: "?nr \<le> i_sp s" using sp by (simp add: word_le_nat_alt)
  let ?u = "s\<lparr>i_csp := i_csp s - 1\<rparr>"
  obtain xs where xs: "length xs = length (i_stack s)"
    "move_slots (i_fp s) (i_sp s - ?nr) (unat (fm_n_results (hd gs))) ?u = (Inr (), ?u\<lparr>i_stack := xs\<rparr>)"
    using move_slots_run [of "i_fp s" "unat (fm_n_results (hd gs))" ?u "i_sp s - ?nr"] top nr sp le by (auto simp: unat_sub)
  let ?t = "s\<lparr>i_csp := i_csp s - 1, i_stack := xs, i_sp := i_fp s + ?nr, i_fp := fr_fp ?fr\<rparr>"
  have run: "do_return s = (if i_csp s - 1 = 0 then trap ST_OK else modifyS (\<lambda>s. s\<lparr>i_pc := fr_ret_pc ?fr\<rparr>)) ?t"
    using c fr(2) leD [OF le] xs(2) base by (simp add: do_return_def Let_def frame_at_def)
  show "case do_return s of (Inl e, t) \<Rightarrow> stops (awaiting m ht) e t | (Inr x, t) \<Rightarrow> running m ht t"
  proof (cases c)
    case 0
    then have "i_csp s - 1 = 0" using c(2) by (simp add: word_unat_eq_iff)
    then show ?thesis using run by (simp add: trap_def stops_def)
  next
    case (Suc d)
    then have nz: "i_csp s - 1 \<noteq> 0" using c(2) by (auto simp: word_unat_eq_iff)
    obtain g g' gs' where gs: "gs = g # g' # gs'" using c(6) Suc by (cases gs; cases "tl gs") auto
    from c(5) gs obtain h' where h': "0 \<le> h'" "at_height ht g' (fr_ret_pc ?fr) h'"
      "unat (i_fp s) + unat (fm_n_results g) = unat (fr_fp ?fr) + slots g' + nat h'"
      "chain ht (rev (take c (i_frames s))) (g' # gs') (unat (fr_fp ?fr))"
      by auto
    have "unat (i_fp s + ?nr) = unat (i_fp s) + unat (fm_n_results (hd gs))"
      using unat_plus_small [of "i_fp s" ?nr] top nr sp by simp
    then have "sane_at m ht (g' # gs') (i_pc s) h' ?t"
      using fs h' gs c rest top xs(1) nr sp by (auto simp: sane_at_def sane_def frames_sane_def mem_sane_def data_sane_def)
    then have "running m ht (?t\<lparr>i_pc := fr_ret_pc ?fr\<rparr>)" using h'(2) by (intro running_pc) auto
    then show ?thesis using run nz by simp
  qed
qed

lemma call_after:
  assumes "runnable m ht" "f = hm_funcs m ! unat (cu_b ins)" "code_fn m f" "int (unat (fm_n_params f)) \<le> h"
    "at_height ht (hd gs) pc (h - int (unat (fm_n_params f)) + int (unat (fm_n_results f)))"
  shows "after m ht (do_call m ins) gs pc h"
  unfolding do_call_def assms(2) [symmetric] after_def
  by (intro triple_if triple_trap enter_after [OF assms(1,3-5), unfolded after_def]) simp_all

lemma elem_at_bind: "i < length xs \<Longrightarrow> bindS (elem_at w xs i) k = k (xs ! i)"
  by (rule ext) (simp add: elem_at_def)

lemma call_indirect_after:
  assumes r: "runnable m ht" and t: "unat (cu_b ins) < length (hm_type_fp m)" and h: "0 \<le> np" "1 + np \<le> h"
    and np: "np = uint (hm_type_fp m ! unat (cu_b ins) AND 0xFF)" and nr: "nr = uint (drop_bit 8 (hm_type_fp m ! unat (cu_b ins)) AND 0xFF)"
    and pc: "at_height ht (hd gs) pc (h - 1 - np + nr)"
  shows "after m ht (do_call_indirect m ins) gs pc h"
  unfolding after_def do_call_indirect_def Let_def
proof (intro triple_bindS [OF pop_triple] triple_if triple_trap)
  show "1 \<le> h" using h by simp
next
  fix v
  let ?fi = "hm_table m ! unat (ucast v :: u32)" and ?f = "hm_funcs m ! unat (hm_table m ! unat (ucast v :: u32))"
  let ?ty = "unat (hm_func_typeidx m ! unat ?fi)"
  assume "\<not> length (hm_table m) \<le> unat (ucast v :: u32)" and fi: "\<not> (?fi = TABLE_NULL \<or> length (hm_funcs m) \<le> unat ?fi)"
    and ty: "hm_func_typeidx m \<noteq> [] \<and> unat (cu_b ins) < length (hm_type_fp m)"
  then have "?fi \<in> set (hm_table m)" by simp
  then have tr: "code_fn m ?f" "unat ?fi < length (hm_func_typeidx m)"
    "?ty < length (hm_type_fp m) \<Longrightarrow>
       uint (hm_type_fp m ! ?ty AND 0xFF) = int (unat (fm_n_params ?f)) \<and>
       uint (drop_bit 8 (hm_type_fp m ! ?ty) AND 0xFF) = int (unat (fm_n_results ?f))"
    using r fi ty unfolding runnable_def table_runnable_def by (meson not_le)+
  have "triple (sane_at m ht gs pc (h - 1)) (enter ?f) (\<lambda>_. running m ht) (stops (awaiting m ht))"
    if "?ty < length (hm_type_fp m)" "hm_type_fp m ! ?ty = hm_type_fp m ! unat (cu_b ins)"
    using tr(3) that h pc unfolding np nr by (intro enter_after [OF r tr(1), unfolded after_def]) auto
  then show "triple (sane_at m ht gs pc (h - 1)) (bindS (elem_at ''function type'' (hm_func_typeidx m) (unat ?fi)) (\<lambda>have.
      if length (hm_type_fp m) \<le> unat have \<or> hm_type_fp m ! unat have \<noteq> hm_type_fp m ! unat (cu_b ins)
      then trap ST_TRAP_INDIRECT_CALL else enter ?f)) (\<lambda>_. running m ht) (stops (awaiting m ht))"
    unfolding elem_at_bind [OF tr(2)] by (intro triple_if triple_trap) auto
qed simp_all

text \<open>The arguments of a host call are copied to the mailbox; only the mailbox changes.\<close>

lemma mailbox_args_run:
  assumes "\<forall>i \<in> set is. unat (a + of_nat i) < length (i_stack s)"
    and F: "\<And>i v s. F i v s = (Inr (), s\<lparr>i_mb := (i_mb s)\<lparr>hb_args := (hb_args (i_mb s))[i := v]\<rparr>\<rparr>)"
  shows "\<exists>xs. length xs = length (hb_args (i_mb s)) \<and>
    forS is (\<lambda>i. bindS (stack_at (a + of_nat i)) (F i)) s = (Inr (), s\<lparr>i_mb := (i_mb s)\<lparr>hb_args := xs\<rparr>\<rparr>)"
  using assms(1)
proof (induction "is" arbitrary: s)
  case Nil
  then show ?case by (intro exI [of _ "hb_args (i_mb s)"]) simp
next
  case (Cons i "is")
  let ?s = "s\<lparr>i_mb := (i_mb s)\<lparr>hb_args := (hb_args (i_mb s))[i := i_stack s ! unat (a + of_nat i)]\<rparr>\<rparr>"
  obtain xs where "length xs = length (hb_args (i_mb ?s))"
    "forS is (\<lambda>i. bindS (stack_at (a + of_nat i)) (F i)) ?s = (Inr (), ?s\<lparr>i_mb := (i_mb ?s)\<lparr>hb_args := xs\<rparr>\<rparr>)"
    using Cons.IH [of ?s] Cons.prems by auto
  moreover have "bindS (stack_at (a + of_nat i)) (F i) s = (Inr (), ?s)"
    using Cons.prems by (simp add: stack_at_def F)
  ultimately show ?case by (intro exI [of _ xs]) simp
qed

lemma call_host_after:
  assumes np: "np = cu_a ins AND 0xFF" and nr: "drop_bit 8 (cu_a ins) AND 0xFF = 1" and h: "int (unat np) \<le> h"
    and pc: "at_height ht (hd gs) pc (h - int (unat np) + 1)"
  shows "after m ht (do_call_host ins) gs pc h"
  unfolding after_def triple_def
proof (intro allI impI)
  fix s assume s: "sane_at m ht gs pc h s"
  have fs: "frames_sane m ht gs s" and sp: "unat (i_sp s) = unat (i_fp s) + slots (hd gs) + nat h" and h0: "0 \<le> h" and ipc: "i_pc s = pc"
    and top: "unat (i_sp s) \<le> length (i_stack s)" "length (i_stack s) \<le> 4096"
    and rest: "mem_sane s" "data_sane m s" "length (hb_args (i_mb s)) = 16"
    using s by (simp_all add: sane_at_def sane_def)
  have np': "unat np \<le> nat h" using nat_mono [OF h] unfolding nat_int .
  then have le: "ucast np \<le> i_sp s" using sp by (simp add: word_le_nat_alt)
  then have sub: "unat (i_sp s - ucast np) = unat (i_sp s) - unat np" by (simp add: unat_sub)
  let ?s = "s\<lparr>i_mb := (i_mb s)\<lparr>hb_fn_id := cu_b ins, hb_n_args := np, hb_n_results := 1\<rparr>\<rparr>"
  have "unat (i_sp s - ucast np + of_nat i) < length (i_stack ?s)" if "i < unat np" for i
    using unat_add_small [of "i_sp s - ucast np" i] that sub top sp np' by simp
  then have "\<forall>i \<in> set [0..<unat np]. unat (i_sp s - ucast np + of_nat i) < length (i_stack ?s)" by simp
  from mailbox_args_run [OF this, of "\<lambda>i v. modifyS (\<lambda>s. s\<lparr>i_mb := (i_mb s)\<lparr>hb_args := (hb_args (i_mb s))[i := v]\<rparr>\<rparr>)"] obtain xs where xs: "length xs = length (hb_args (i_mb s))"
    "forS [0..<unat np] (\<lambda>i. bindS (stack_at (i_sp s - ucast np + of_nat i)) (\<lambda>v.
        modifyS (\<lambda>s. s\<lparr>i_mb := (i_mb s)\<lparr>hb_args := (hb_args (i_mb s))[i := v]\<rparr>\<rparr>))) ?s = (Inr (), ?s\<lparr>i_mb := (i_mb ?s)\<lparr>hb_args := xs\<rparr>\<rparr>)"
    by auto
  let ?t = "?s\<lparr>i_mb := (i_mb ?s)\<lparr>hb_args := xs\<rparr>, i_sp := i_sp s - ucast np, i_host_fn := cu_b ins, i_host_n_args := np, i_host_n_results := 1\<rparr>"
  have "sane m ht gs (h - int (unat np)) ?t"
    using fs sp h0 top rest sub np' xs(1) h by (auto simp: sane_def frames_sane_def mem_sane_def data_sane_def nat_diff_distrib)
  then have "awaiting m ht ?t" if "np \<le> 16"
    unfolding awaiting_def using pc ipc that by (intro conjI exI [of _ gs] exI [of _ "h - int (unat np)"]) simp_all
  moreover have "do_call_host ins s = (if np > 16 then trap ST_UNSUPPORTED_OP s else (Inl (Trap ST_HOSTCALL_PENDING), ?t))"
    unfolding do_call_host_def np [symmetric] nr Let_def using xs(2) leD [OF le] by (simp add: trap_def)
  ultimately show "case do_call_host ins s of (Inl e, t) \<Rightarrow> stops (awaiting m ht) e t | (Inr x, t) \<Rightarrow> running m ht t"
    by (auto simp: trap_def stops_def not_less)
qed

section \<open>One step\<close>

lemma fixed_distinct:
  assumes "fixed_effect x = None"
  shows "x \<noteq> OP_I64_CONST" "x \<noteq> OP_LOCAL_GET" "x \<noteq> OP_LOCAL_SET" "x \<notin> binops"
    "x \<notin> {OP_I64_EQZ, OP_I32_EQZ, OP_I32_WRAP_I64, OP_I64_EXTEND_I32_S, OP_I64_EXTEND_I32_U}"
    "x \<noteq> OP_DROP" "x \<noteq> OP_SELECT" "x \<noteq> OP_I64_MUL_WIDE_U" "x \<noteq> OP_I64_MUL_WIDE_S" "x \<noteq> OP_I64_ADD128" "x \<noteq> OP_I64_SUB128"
    "x \<noteq> OP_GLOBAL_GET" "x \<noteq> OP_GLOBAL_SET"
  using assms by (auto simp: fixed_effect_def split: if_splits)

lemma control_not_binops:
  "OP_UNWIND \<notin> binops" "OP_BR \<notin> binops" "OP_BR_IF_NOT \<notin> binops" "OP_CALL \<notin> binops" "OP_RETURN_CALL \<notin> binops" "OP_RETURN \<notin> binops"
  "OP_END_FUNC \<notin> binops" "OP_UNREACHABLE \<notin> binops" "OP_CALL_HOST \<notin> binops" "OP_CALL_INDIRECT \<notin> binops"
  by (simp_all add: binops_def)

lemma call_effect_Inr:
  "call_effect sg extra h e1 e2 = Inr r \<longleftrightarrow> (\<exists>np nr. sg = Some (np, nr) \<and> extra + np \<le> h \<and> r = (True, h - extra - np + nr, None))"
  by (auto simp: call_effect_def split: option.splits)

lemma sint_nonneg: "0 \<le> sint (w :: u32) \<Longrightarrow> sint w = uint w"
proof transfer
  fix w :: int
  assume "0 \<le> signed_take_bit (LENGTH(32) - Suc 0) w"
  then have "\<not> bit w 31" using signed_take_bit_nonnegative_iff [of 31 w] by simp
  then show "signed_take_bit (LENGTH(32) - Suc 0) w = take_bit LENGTH(32) w"
    using signed_take_bit_eq_take_bit_minus [of 31 w] by simp
qed

lemma execute_after:
  assumes r: "runnable m ht" and g: "code_fn m (hd gs)" and ins: "ins_runnable m (hd gs) ins"
    and ef: "cuop_effect (ctx_of m (hd gs)) ins h = Inr (fall, nh, tgt)"
    and fl: "fall \<Longrightarrow> at_height ht (hd gs) pc nh" and tg: "\<And>t th. tgt = Some (t, th) \<Longrightarrow> at_height ht (hd gs) t th"
  shows "after m ht (execute m ins) gs pc h"
proof -
  have sw: "switch_effect (ctx_of m (hd gs)) ins h = Inr (fall, nh, tgt)" and ix: "index_checks (ctx_of m (hd gs)) ins = Inr ()"
    using ef by (auto simp: cuop_effect_def rbind_Inr_iff)
  show ?thesis
  proof (cases "fixed_effect (cu_op ins)")
    case (Some e)
    obtain need delta msg where e: "e = (need, delta, msg)" by (cases e)
    then have "need \<le> h" "nh = h + delta" fall using sw Some by (auto simp: switch_effect_def split: if_splits)
    then show ?thesis using fixed_triple [OF Some [unfolded e] _ ix] ins fl by (intro triple_after [of _ _ _ _ _ _ nh]) (auto simp: ins_runnable_def)
  next
    case None
    note d = fixed_distinct [OF None]
    note ex = execute_def Let_def control_not_binops
    let ?fn = "hm_funcs m ! unat (cu_b ins)"
    consider (unwind) "cu_op ins = OP_UNWIND"
        "0 \<le> nh" "nh \<le> h" fall "nh = sint (cu_b ins) - int (unat (fm_n_params (hd gs))) - int (unat (fm_n_locals (hd gs)))"
      | (br) "cu_op ins = OP_BR" "tgt = Some (cu_b ins, h)"
      | (br_if_not) "cu_op ins = OP_BR_IF_NOT" "1 \<le> h" "nh = h - 1" fall "tgt = Some (cu_b ins, h - 1)"
      | (call) "cu_op ins = OP_CALL" "unat (cu_b ins) < length (hm_funcs m)" "int (unat (fm_n_params ?fn)) \<le> h" fall
        "nh = h - int (unat (fm_n_params ?fn)) + int (unat (fm_n_results ?fn))"
      | (return_call) "cu_op ins = OP_RETURN_CALL" "unat (cu_b ins) < length (hm_funcs m)" "int (unat (fm_n_params ?fn)) \<le> h"
      | (return) "cu_op ins = OP_RETURN \<or> cu_op ins = OP_END_FUNC" "int (unat (fm_n_results (hd gs))) \<le> h"
      | (unreachable) "cu_op ins = OP_UNREACHABLE"
      | (host) "cu_op ins = OP_CALL_HOST" "int (unat (cu_a ins AND 0xFF)) \<le> h" fall
        "nh = h - int (unat (cu_a ins AND 0xFF)) + int (unat (drop_bit 8 (cu_a ins) AND 0xFF))"
      | (indirect) np where "cu_op ins = OP_CALL_INDIRECT" "unat (cu_b ins) < length (hm_type_fp m)" "0 \<le> np" "1 + np \<le> h" fall
        "np = uint (hm_type_fp m ! unat (cu_b ins) AND 0xFF)"
        "nh = h - 1 - np + uint (drop_bit 8 (hm_type_fp m ! unat (cu_b ins)) AND 0xFF)"
      using sw None by (auto simp: switch_effect_def Let_def call_effect_Inr ctx_of_def split: if_splits option.splits)
    then show ?thesis
    proof cases
      case unwind
      have "sint (cu_b ins) = uint (cu_b ins)" using unwind(2,5) by (intro sint_nonneg) linarith
      then have "int (unat (cu_b ins)) = int (slots (hd gs) + nat nh)" using unwind by (simp add: slots_def)
      then have "unat (cu_b ins) = slots (hd gs) + nat nh" by (simp only: of_nat_eq_iff)
      then have "after m ht (do_unwind ins) gs pc h" using unwind fl by (intro triple_after [of _ _ _ _ _ _ nh] unwind_triple) auto
      then show ?thesis using unwind(1) d by (simp add: execute_def)
    next
      case br
      then show ?thesis using br_after tg by (simp add: ex)
    next
      case br_if_not
      then show ?thesis using br_if_not_after fl tg by (simp add: ex)
    next
      case call
      then have "code_fn m ?fn" using ins by (simp add: ins_runnable_def)
      then show ?thesis using call call_after [OF r refl] fl by (simp add: ex)
    next
      case return_call
      then have "code_fn m ?fn" "fm_n_results ?fn = fm_n_results (hd gs)" using ins by (simp_all add: ins_runnable_def)
      then show ?thesis using return_call return_call_after [OF r] by (simp add: ex)
    next
      case return
      then show ?thesis using return_after by (auto simp: ex)
    next
      case unreachable
      then show ?thesis by (simp add: ex after_def triple_trap)
    next
      case host
      then show ?thesis using call_host_after [OF refl] fl ins by (simp add: ex ins_runnable_def)
    next
      case (indirect np)
      then show ?thesis using call_indirect_after [OF r] fl by (simp add: ex)
    qed
  qed
qed

lemma step_ok:
  assumes r: "runnable m ht" and s: "running m ht s"
  shows "goes_on m ht (step m s)"
proof -
  from s obtain gs h where sn: "sane m ht gs h s" and at: "at_height ht (hd gs) (i_pc s) h" by (auto simp: running_def)
  let ?g = "hd gs"
  have g: "code_fn m ?g" using sn by (cases gs) (auto simp: sane_def frames_sane_def)
  from at obtain p where p: "p < unat (fm_code_len ?g)" "unat (i_pc s) = unat (fm_code_off ?g) + p" "ht ?g p = Some h"
    by (auto simp: at_height_def)
  let ?ins = "hm_code m ! unat (i_pc s)"
  have wh: "well_heighted m ?g (ht ?g)" and shape: "fn_shape m ?g" and len: "length (hm_code m) < 2 ^ 32"
    and ins: "ins_runnable m ?g ?ins"
    using r g p by (auto simp: runnable_def)
  have bound: "unat (fm_code_off ?g) + unat (fm_code_len ?g) < 2 ^ 32" using shape len by (simp add: fn_shape_def)
  have "unat (i_pc s) < length (hm_code m)" using p shape by (simp add: fn_shape_def)
  then have fe: "fetch m s = (Inr ?ins, s\<lparr>i_pc := i_pc s + 1, i_profile := map_option (count_opcode (cu_op ?ins)) (i_profile s)\<rparr>)"
    (is "_ = (_, ?t)") by (simp add: fetch_def Let_def)
  have nx: "unat (i_pc s + 1) = unat (fm_code_off ?g) + (p + 1)"
    using p bound by (subst unat_add_lem [THEN iffD1]) simp_all
  obtain fall nh tgt where ef: "cuop_effect (ctx_of m ?g) ?ins h = Inr (fall, nh, tgt)"
    and fl: "fall \<Longrightarrow> p + 1 < unat (fm_code_len ?g) \<and> ht ?g (p + 1) = Some nh"
    and tg: "\<And>t th. tgt = Some (t, th) \<Longrightarrow> unat (t - fm_code_off ?g) < unat (fm_code_len ?g) \<and> ht ?g (unat (t - fm_code_off ?g)) = Some th"
    using p(2) by (rule_tac well_heightedD [OF wh p(1,3)]) (simp only:)
  have "unat t = unat (fm_code_off ?g) + unat (t - fm_code_off ?g)" if "unat (t - fm_code_off ?g) < unat (fm_code_len ?g)" for t
  proof -
    have "unat (fm_code_off ?g + (t - fm_code_off ?g)) = unat (fm_code_off ?g) + unat (t - fm_code_off ?g)"
      using that bound by (intro unat_add_lem [THEN iffD1]) simp
    then show ?thesis by simp
  qed
  then have tg': "at_height ht ?g t th" if "tgt = Some (t, th)" for t th using tg [OF that] unfolding at_height_def by blast
  have fl': "at_height ht ?g (i_pc s + 1) nh" if fall using fl [OF that] nx unfolding at_height_def by blast
  have "sane_at m ht gs (i_pc s + 1) h ?t" using sn by (simp add: sane_at_def sane_def)
  moreover have "after m ht (execute m ?ins) gs (i_pc s + 1) h" by (rule execute_after [OF r g ins ef fl' tg'])
  ultimately have "goes_on m ht (execute m ?ins ?t)" by (intro after_goes_on)
  moreover have "\<not> i_sp t > 4096" if "running m ht t" for t
    using that by (auto simp: running_def sane_def word_less_nat_alt not_less)
  moreover have "step m s = (case execute m ?ins ?t of (Inl e, t) \<Rightarrow> (Inl e, t)
      | (Inr _, t) \<Rightarrow> if i_sp t > 4096 then (Inl (Trap ST_TRAP_STACK_OVERFLOW), t) else (Inr (), t))"
    using fe by (simp add: step_def thenS_def bindS_def whenS_def trap_def split: prod.splits sum.splits)
  ultimately show ?thesis by (auto simp: goes_on_def split: prod.splits sum.splits)
qed

text \<open>Any number of steps: never undefined, and what is left can run on or be resumed.\<close>

lemma run_instance_ok:
  assumes "runnable m ht" and "running m ht s" and "run_instance m n s = (e, t)"
  shows "\<exists>st. e = Trap st \<and> (st = ST_RUNNING \<longrightarrow> running m ht t) \<and> (st = ST_HOSTCALL_PENDING \<longrightarrow> awaiting m ht t)"
  using assms(2,3)
proof (induction n arbitrary: s)
  case 0
  then show ?case by auto
next
  case (Suc n)
  then show ?case using step_ok [OF assms(1) Suc.prems(1)]
    by (auto simp: goes_on_def stops_def split: prod.splits sum.splits)
qed

end
