(* ===== verification/Interp_Ends.thy ===== *)
theory Interp_Ends
  imports Interp_Safe
begin

text \<open>
  When the interpreter ends. Backward branches use up fuel, a return leaves a frame and everything else
  moves the program counter forward, so code without calls ends whatever it computes. The bound is a
  potential that every step lowers.
\<close>

section \<open>Steps that only move forward\<close>

definition same_control :: "inst \<Rightarrow> inst \<Rightarrow> bool" where
  "same_control s t \<longleftrightarrow> i_pc t = i_pc s \<and> i_fuel t = i_fuel s \<and> i_csp t = i_csp s"

lemma same_control_preorder [simp]: "reflp same_control" "transp same_control"
  by (auto simp: same_control_def reflp_def transp_def)

text \<open>A computation that leaves the control registers alone and never stops as if it were still running.\<close>

definition straight :: "'a act \<Rightarrow> bool" where
  "straight c \<longleftrightarrow> keeps same_control c \<and> (\<forall>s. fst (c s) \<noteq> Inl (Trap ST_RUNNING))"

named_theorems straight_rules

lemma straight_basic [straight_rules]:
  "straight (ret x)" "e \<noteq> Trap ST_RUNNING \<Longrightarrow> straight (fail e)" "straight (getS f)" "st \<noteq> ST_RUNNING \<Longrightarrow> straight (trap st)"
  by (simp_all add: straight_def trap_def keeps_refl)

lemma bindS_first_error: "fst (bindS c k s) = Inl e \<Longrightarrow> fst (c s) = Inl e \<or> (\<exists>x t. fst (k x t) = Inl e)"
  by (cases "c s"; cases "fst (c s)") auto

lemma straight_bind [straight_rules]: "straight c \<Longrightarrow> (\<And>x. straight (k x)) \<Longrightarrow> straight (bindS c k)"
  unfolding straight_def by (auto intro!: keeps_bindS dest!: bindS_first_error)

lemma straight_then [straight_rules]: "straight c \<Longrightarrow> straight k \<Longrightarrow> straight (thenS c k)"
  unfolding thenS_def by (rule straight_bind)

lemma straight_for [straight_rules]: "(\<And>x. straight (k x)) \<Longrightarrow> straight (forS xs k)"
  by (induction xs) (simp_all add: straight_basic straight_then)

lemma straight_if [straight_rules]: "straight c \<Longrightarrow> straight k \<Longrightarrow> straight (if b then c else k)"
  by simp

lemma straight_when [straight_rules]: "straight c \<Longrightarrow> straight (whenS b c)"
  by (simp add: whenS_def straight_basic)

lemma straight_modify: "(\<And>s. same_control s (f s)) \<Longrightarrow> straight (modifyS f)"
  by (simp add: straight_def keeps_def)

lemma straight_prod [straight_rules]: "(\<And>a b. straight (k a b)) \<Longrightarrow> straight (case x of (a, b) \<Rightarrow> k a b)"
  by (cases x) simp

lemma straight_access [straight_rules]:
  "straight (stack_at i)" "straight (stack_set i v)" "straight (mem_get j)" "straight (mem_set j b)" "straight (elem_at w xs j)"
  by (auto simp: straight_def keeps_def same_control_def stack_at_def stack_set_def mem_get_def mem_set_def elem_at_def)

lemma straight_push_pop [straight_rules]: "straight (cu_push v)" "straight cu_pop"
  unfolding cu_push_def cu_pop_def by (intro straight_rules straight_modify; simp add: same_control_def)+

lemma straight_memory [straight_rules]:
  "straight (mem_load_le ea n)" "straight (mem_store_le ea n v)" "straight (move_slots dst src k)"
  by (induction n) (auto simp: mem_store_le_def move_slots_def Let_def intro!: straight_rules)

lemma straight_instr [straight_rules]:
  "straight (do_load ins)" "straight (do_store ins)" "straight do_grow" "straight do_copy" "straight do_fill"
  "straight (do_init m ins)" "straight (do_data_drop ins)" "straight (do_unwind ins)"
  "straight (do_global_get ins)" "straight (do_global_set ins)" "straight (do_call_host ins)"
  unfolding do_load_def do_store_def do_grow_def do_copy_def do_fill_def do_init_def do_data_drop_def do_unwind_def
    do_global_get_def do_global_set_def do_call_host_def Let_def
  by (intro straight_rules straight_modify; simp add: same_control_def)+

lemma straight_option [straight_rules]: "(\<And>v. straight (k v)) \<Longrightarrow> straight e \<Longrightarrow> straight (case x of Some v \<Rightarrow> k v | None \<Rightarrow> e)"
  by (cases x) simp_all

lemma alu_status: "alu64 x a b = Some (Inl st) \<Longrightarrow> st \<noteq> ST_RUNNING" "alu32 x c d = Some (Inl st) \<Longrightarrow> st \<noteq> ST_RUNNING"
  unfolding alu64_def alu32_def by (simp_all split: if_split_asm)

lemma alu2_status: "alu2 x a b = Some (Inl st) \<Longrightarrow> st \<noteq> ST_RUNNING"
proof -
  have "map_sum id f z = Inl st \<longleftrightarrow> z = Inl st" for f :: "u32 \<Rightarrow> u64" and z by (cases z) auto
  then show "alu2 x a b = Some (Inl st) \<Longrightarrow> st \<noteq> ST_RUNNING"
    unfolding alu2_def by (auto split: option.splits dest: alu_status)
qed

lemma straight_alu [straight_rules]:
  "straight (case alu2 x a b of Some (Inr v) \<Rightarrow> cu_push v | Some (Inl t) \<Rightarrow> trap t | None \<Rightarrow> trap ST_UNSUPPORTED_OP)"
  by (auto split: option.split sum.split intro!: straight_rules dest: alu2_status)

lemma straight_helpers [straight_rules]:
  "(\<And>a b. straight (k a b)) \<Longrightarrow> straight (pop_two k)" "straight (push_pair r)" "straight (do_clz ins)" "straight (count_unsupported x)"
  unfolding pop_two_def push_pair_def do_clz_def count_unsupported_def by (intro straight_rules straight_modify; simp add: same_control_def)+

section \<open>The potential\<close>

text \<open>No calls, and conditional branches only forward.\<close>

definition call_free :: "host_module \<Rightarrow> bool" where
  "call_free m \<longleftrightarrow>
     int (length (hm_code m)) < 4294967296 \<and>
     list_all (\<lambda>(pc, ins). cu_op ins \<notin> {OP_CALL, OP_RETURN_CALL, OP_CALL_INDIRECT} \<and> (cu_op ins = OP_BR_IF_NOT \<longrightarrow> pc < unat (cu_b ins)))
       (enumerate 0 (hm_code m))"

definition potential :: "host_module \<Rightarrow> inst \<Rightarrow> nat" where
  "potential m s = (nat (i_fuel s) + unat (i_csp s)) * (length (hm_code m) + 1) + (length (hm_code m) - unat (i_pc s))"

lemma execute_straight:
  assumes "cu_op ins \<notin> {OP_CALL, OP_RETURN_CALL, OP_CALL_INDIRECT, OP_BR, OP_BR_IF_NOT, OP_RETURN, OP_END_FUNC}"
  shows "straight (execute m ins)"
  unfolding execute_def Let_def by (rule straight_if, intro straight_rules)+ (use assms in \<open>auto intro!: straight_rules\<close>)

lemma straight_post: "straight c \<Longrightarrow> c s = (r, t) \<Longrightarrow> same_control s t \<and> r \<noteq> Inl (Trap ST_RUNNING)"
  unfolding straight_def by (metis fst_conv keepsD)

lemma br_post:
  assumes "do_br ins s = (r, t)"
  shows "r \<noteq> Inl (Trap ST_RUNNING) \<and> i_csp t = i_csp s \<and>
    (r = Inr () \<longrightarrow> i_fuel t = i_fuel s \<and> i_pc s < i_pc t \<or> i_fuel t = i_fuel s - 1 \<and> 0 < i_fuel t)"
  using assms by (cases "cu_b ins \<le> i_pc s"; cases "i_fuel s \<le> 1") (auto simp: do_br_def whenS_def trap_def)

lemma br_if_not_post:
  assumes "do_br_if_not ins s = (r, t)"
  shows "r \<noteq> Inl (Trap ST_RUNNING) \<and> i_csp t = i_csp s \<and> i_fuel t = i_fuel s \<and> (i_pc t = i_pc s \<or> i_pc t = cu_b ins)"
proof -
  obtain q u where q: "cu_pop s = (q, u)" by fastforce
  from straight_post [OF straight_push_pop(2) q] show ?thesis
    using assms q by (cases q) (auto simp: do_br_if_not_def whenS_def same_control_def split: if_splits)
qed

lemma return_post:
  assumes "do_return s = (r, t)"
  shows "r \<noteq> Inl (Trap ST_RUNNING) \<and> i_fuel t = i_fuel s \<and> (r = Inr () \<longrightarrow> i_csp s \<noteq> 0 \<and> i_csp t = i_csp s - 1)"
proof (cases "i_csp s = 0")
  case True
  then show ?thesis using assms by (auto simp: do_return_def trap_def)
next
  case False
  let ?u = "s\<lparr>i_csp := i_csp s - 1\<rparr>"
  let ?fr = "i_frames s ! unat (i_csp s - 1)"
  let ?nr = "ucast (fr_n_results ?fr) :: u32"
  show ?thesis
  proof (cases "unat (i_csp s - 1) < length (i_frames s) \<and> \<not> i_sp s < ?nr")
    case True
    obtain q v where q: "move_slots (fr_sp_base ?fr) (i_sp s - ?nr) (unat ?nr) ?u = (q, v)" by fastforce
    from straight_post [OF straight_memory(3) q] have "same_control ?u v" "q \<noteq> Inl (Trap ST_RUNNING)" by auto
    then show ?thesis using assms True False q
      by (cases q) (auto simp: do_return_def Let_def frame_at_def same_control_def trap_def split: if_splits)
  next
    case 2: False
    then show ?thesis using assms False
      by (cases "unat (i_csp s - 1) < length (i_frames s)") (auto simp: do_return_def Let_def frame_at_def trap_def)
  qed
qed

lemma potential_forward:
  "i_fuel t = i_fuel s \<Longrightarrow> i_csp t = i_csp s \<Longrightarrow> unat (i_pc s) < unat (i_pc t) \<Longrightarrow> unat (i_pc s) < length (hm_code m) \<Longrightarrow>
   potential m t < potential m s"
  by (simp add: potential_def)

lemma potential_spent:
  assumes "nat (i_fuel t) + unat (i_csp t) < nat (i_fuel s) + unat (i_csp s)"
  shows "potential m t < potential m s"
proof -
  let ?L = "length (hm_code m)"
  have "(nat (i_fuel t) + unat (i_csp t)) * (?L + 1) + (?L + 1) \<le> (nat (i_fuel s) + unat (i_csp s)) * (?L + 1)"
    using mult_le_mono1 [OF Suc_leI [OF assms], of "?L + 1"] by simp
  then show ?thesis unfolding potential_def by linarith
qed

lemma step_potential:
  assumes m: "call_free m" and st: "step m s = (r, t)"
  shows "r \<noteq> Inl (Trap ST_RUNNING) \<and> (r = Inr () \<longrightarrow> potential m t < potential m s)"
proof (cases "unat (i_pc s) < length (hm_code m)")
  case False
  then show ?thesis using st by (auto simp: step_def fetch_def trap_def)
next
  case True
  let ?ins = "hm_code m ! unat (i_pc s)"
  let ?u = "s\<lparr>i_pc := i_pc s + 1, i_profile := map_option (count_opcode (cu_op ?ins)) (i_profile s)\<rparr>"
  have fe: "fetch m s = (Inr ?ins, ?u)" using True by (simp add: fetch_def Let_def)
  have nx: "unat (i_pc s + 1) = Suc (unat (i_pc s))"
    using m True by (subst unat_add_lem [THEN iffD1]) (simp_all add: call_free_def)
  have ok: "cu_op ?ins \<notin> {OP_CALL, OP_RETURN_CALL, OP_CALL_INDIRECT}" "cu_op ?ins = OP_BR_IF_NOT \<Longrightarrow> unat (i_pc s) < unat (cu_b ?ins)"
    using m True by (auto simp: call_free_def list_all_length nth_enumerate_eq)
  obtain q v where ex: "execute m ?ins ?u = (q, v)" by fastforce
  have "q \<noteq> Inl (Trap ST_RUNNING) \<and> (q = Inr () \<longrightarrow> potential m v < potential m s)"
  proof -
    consider (br) "cu_op ?ins = OP_BR" | (cond) "cu_op ?ins = OP_BR_IF_NOT" | (return) "cu_op ?ins = OP_RETURN \<or> cu_op ?ins = OP_END_FUNC"
      | (other) "cu_op ?ins \<notin> {OP_CALL, OP_RETURN_CALL, OP_CALL_INDIRECT, OP_BR, OP_BR_IF_NOT, OP_RETURN, OP_END_FUNC}"
      using ok(1) by auto
    then show ?thesis
    proof cases
      case br
      then have "do_br ?ins ?u = (q, v)" using ex by (simp add: execute_def binops_def)
      from br_post [OF this] show ?thesis
        using True nx by (auto intro: potential_forward potential_spent simp: word_less_nat_alt)
    next
      case cond
      then have "do_br_if_not ?ins ?u = (q, v)" using ex by (simp add: execute_def binops_def)
      from br_if_not_post [OF this] show ?thesis using True nx ok(2) [OF cond] by (auto intro!: potential_forward)
    next
      case return
      then have "do_return ?u = (q, v)" using ex by (auto simp: execute_def binops_def)
      from return_post [OF this] show ?thesis by (auto intro!: potential_spent simp: unat_minus_one unat_gt_0 unat_eq_zero)
    next
      case other
      from straight_post [OF execute_straight [OF other] ex] show ?thesis
        using True nx by (auto intro!: potential_forward simp: same_control_def)
    qed
  qed
  moreover have "step m s = (case q of Inl e \<Rightarrow> (Inl e, v)
      | Inr _ \<Rightarrow> if i_sp v > 4096 then (Inl (Trap ST_TRAP_STACK_OVERFLOW), v) else (Inr (), v))"
    using fe ex by (cases q) (simp_all add: step_def thenS_def whenS_def trap_def)
  ultimately show ?thesis using st by (auto split: sum.splits if_splits)
qed

section \<open>Properties\<close>

definition spin_module :: host_module where
  "spin_module = empty_module\<lparr>hm_code := [mk_op OP_BR 0 0, mk_op OP_END_FUNC 0 0]\<rparr>"

definition spin_inst :: inst where
  "spin_inst =
     \<lparr>i_pc = 0, i_sp = 0, i_fp = 0, i_csp = 1, i_fuel = 3, i_peak_csp = 1, i_stack = [0],
      i_frames = [\<lparr>fr_ret_pc = 0, fr_fp = 0, fr_sp_base = 0, fr_n_results = 0\<rparr>], i_globals = [], i_mem = [0], i_mem_size = 0,
      i_mem_max = 0, i_data_live = [],
      i_mb = \<lparr>hb_fn_id = 0, hb_n_args = 0, hb_n_results = 0, hb_args = replicate 16 0, hb_results = [0]\<rparr>,
      i_host_fn = 0, i_host_n_args = 0, i_host_n_results = 0, i_profile = None\<rparr>"

lemma spin_call_free: "call_free spin_module"
  by code_simp

lemma spin_potential: "potential spin_module spin_inst < 15"
  by code_simp



end
