(* ===== verification/Interp_Memory.thy ===== *)
theory Interp_Memory
  imports Interp_Ends
begin

text \<open>
  Loads and stores of the interpreter: what a store writes, a load of the same width reads back, and no
  other byte changes.
\<close>

unbundle bit_operations_syntax

definition store_bytes :: "nat \<Rightarrow> nat \<Rightarrow> u64 \<Rightarrow> u8 list \<Rightarrow> u8 list" where
  "store_bytes ea n v mem = fold (\<lambda>i mem. mem[ea + i := ucast (drop_bit (8 * i) v)]) [0..<n] mem"

lemma length_store_bytes [simp]: "length (store_bytes ea n v mem) = length mem"
proof (induction n)
  case (Suc n)
  then show ?case by (simp add: store_bytes_def)
qed (simp add: store_bytes_def)

lemma store_bytes_Suc: "store_bytes ea (Suc n) v mem = (store_bytes ea n v mem)[ea + n := ucast (drop_bit (8 * n) v)]"
  by (simp add: store_bytes_def)

lemma store_bytes_nth:
  assumes "ea + n \<le> length mem" and "j < length mem"
  shows "store_bytes ea n v mem ! j = (if ea \<le> j \<and> j < ea + n then ucast (drop_bit (8 * (j - ea)) v) else mem ! j)"
  using assms(1)
proof (induction n)
  case (Suc n)
  then show ?case using assms(2) by (auto simp: store_bytes_Suc nth_list_update less_Suc_eq)
qed (auto simp: store_bytes_def)

lemma store_run:
  assumes "ea + n \<le> length (i_mem s)"
  shows "mem_store_le ea n v s = (Inr (), s\<lparr>i_mem := store_bytes ea n v (i_mem s)\<rparr>)"
proof -
  have "forS [k..<n] (\<lambda>i. mem_set (ea + i) (ucast (drop_bit (8 * i) v))) s =
      (Inr (), s\<lparr>i_mem := fold (\<lambda>i mem. mem[ea + i := ucast (drop_bit (8 * i) v)]) [k..<n] (i_mem s)\<rparr>)"
    if "ea + n \<le> length (i_mem s)" for k s
    using that
  proof (induction "n - k" arbitrary: k s)
    case (Suc d)
    then have k: "[k..<n] = k # [Suc k..<n]" by (simp add: upt_conv_Cons)
    have "mem_set (ea + k) (ucast (drop_bit (8 * k) v)) s = (Inr (), s\<lparr>i_mem := (i_mem s)[ea + k := ucast (drop_bit (8 * k) v)]\<rparr>)"
      using Suc by (simp add: mem_set_def)
    then show ?case using Suc.hyps(1) [of "Suc k" "s\<lparr>i_mem := (i_mem s)[ea + k := ucast (drop_bit (8 * k) v)]\<rparr>"] Suc k by simp
  qed simp
  then show ?thesis using assms by (simp add: mem_store_le_def store_bytes_def)
qed

lemma load_run:
  assumes "ea + n \<le> length (i_mem s)" and "\<And>i. i < n \<Longrightarrow> i_mem s ! (ea + i) = ucast (drop_bit (8 * i) v)"
  shows "mem_load_le ea n s = (Inr (take_bit (8 * n) v), s)"
  using assms
proof (induction n)
  case (Suc n)
  have "take_bit (8 * n) v OR push_bit (8 * n) (ucast (ucast (drop_bit (8 * n) v) :: u8)) = take_bit (8 * Suc n) v"
    by (rule bit_word_eqI) (auto simp: bit_simps)
  then show ?case using Suc by (simp add: mem_get_def)
qed simp

section \<open>Properties\<close>

text \<open>
  C37. Stores and loads agree. Storing \<open>n\<close> bytes of a value at an address inside the memory succeeds, changes
  exactly those bytes and nothing else of the state, and loading \<open>n\<close> bytes from there gives back the
  value cut to \<open>n\<close> bytes.
\<close>

theorem store_load_round_trip:
  assumes "ea + n \<le> length (i_mem s)"
  shows "\<exists>mem. mem_store_le ea n v s = (Inr (), s\<lparr>i_mem := mem\<rparr>) \<and> length mem = length (i_mem s) \<and>
    (\<forall>j < length mem. j < ea \<or> ea + n \<le> j \<longrightarrow> mem ! j = i_mem s ! j) \<and>
    mem_load_le ea n (s\<lparr>i_mem := mem\<rparr>) = (Inr (take_bit (8 * n) v), s\<lparr>i_mem := mem\<rparr>)"
proof (intro exI [of _ "store_bytes ea n v (i_mem s)"] conjI)
  let ?mem = "store_bytes ea n v (i_mem s)"
  show "mem_store_le ea n v s = (Inr (), s\<lparr>i_mem := ?mem\<rparr>)" by (rule store_run [OF assms])
  show "\<forall>j < length ?mem. j < ea \<or> ea + n \<le> j \<longrightarrow> ?mem ! j = i_mem s ! j" using store_bytes_nth [OF assms] by auto
  show "mem_load_le ea n (s\<lparr>i_mem := ?mem\<rparr>) = (Inr (take_bit (8 * n) v), s\<lparr>i_mem := ?mem\<rparr>)"
    using assms store_bytes_nth [OF assms] by (intro load_run) auto
qed simp

lemma store_load_round_trip_witness:
  "\<exists>mem. mem_store_le 1 2 0x1234 (spin_inst\<lparr>i_mem := [9, 9, 9, 9]\<rparr>) = (Inr (), spin_inst\<lparr>i_mem := mem\<rparr>) \<and>
     fst (mem_load_le 1 2 (spin_inst\<lparr>i_mem := mem\<rparr>)) = Inr 0x1234 \<and> mem ! 3 = 9"
  using store_load_round_trip [where ea = 1 and n = 2 and s = "spin_inst\<lparr>i_mem := [9, 9, 9, 9]\<rparr>" and v = "0x1234"] by (auto simp: take_bit_eq_mod)

end
