(* ===== verification/Run_Cpu.thy ===== *)
theory Run_Cpu
  imports Interp
begin

text \<open>
  The CPU driver \<open>run_cpu\<close> of \<open>src/run.cpp\<close>: it sets up the stack and the frames for a call, runs the
  interpreter, serves the host calls and runs on. The host function is a parameter: it sees the
  mailbox and the guest memory, may change both, and has a state of its own. The outer loop has no
  bound in the source; here it has fuel, and \<open>None\<close> is a run that has not ended within it.
\<close>

text \<open>The answer of a host function: \<open>true\<close>, \<open>false\<close> with its error, or a call that does not return in a defined way.\<close>

datatype host_answer = Served | Refused string | Host_Undefined string

type_synonym 'h host_fn = "'h \<Rightarrow> u8 list \<Rightarrow> host_mailbox \<Rightarrow> host_answer \<times> 'h \<times> u8 list \<times> host_mailbox"

record run_result =
  rr_status :: status
  rr_results :: "u64 list"
  rr_peak_csp :: u32
  rr_steps_bound :: nat
  rr_error :: string

definition default_result :: run_result where
  "default_result =
     \<lparr>rr_status = ST_UNSUPPORTED_OP, rr_results = [], rr_peak_csp = 0, rr_steps_bound = 0, rr_error = []\<rparr>"

section \<open>The default host function\<close>

definition import_label :: "host_module \<Rightarrow> u32 \<Rightarrow> string" where
  "import_label m fn_id =
     (case List.find (\<lambda>i. i < length (hm_host_fn_id m) \<and> hm_host_fn_id m ! i = fn_id) [0..<unat (hm_n_host_imports m)] of
        None \<Rightarrow> []
      | Some i \<Rightarrow>
          hm_host_import_mod m ! i @ ''::'' @ hm_host_import_name m ! i @
          (if i < length (hm_host_import_env m) \<and> hm_host_import_env m ! i \<noteq> []
           then '' ('' @ hm_host_import_env m ! i @ '')'' else []))"

definition default_host_fn :: "host_module \<Rightarrow> 'h host_fn" where
  "default_host_fn m h mem mb =
     (let l = import_label m (hb_fn_id mb);
          label = (if l = [] then ''fn_id='' @ dec (unat (hb_fn_id mb)) else l)
      in (Refused (''unimplemented host function: '' @ label), h, mem, mb))"

section \<open>Setting up a call\<close>

text \<open>\<open>stack[st.sp++] = v\<close>: unlike the interpreter's push, without a check.\<close>

definition raw_push :: "u64 \<Rightarrow> unit act" where
  "raw_push v = bindS (getS i_sp) (\<lambda>sp. thenS (stack_set sp v) (modifyS (\<lambda>s. s\<lparr>i_sp := sp + 1\<rparr>)))"

definition empty_mailbox :: host_mailbox where
  "empty_mailbox = \<lparr>hb_fn_id = 0, hb_n_args = 0, hb_n_results = 0, hb_args = replicate 16 0, hb_results = [0]\<rparr>"

definition init_inst :: "host_module \<Rightarrow> func_meta \<Rightarrow> run_profile option \<Rightarrow> inst" where
  "init_inst m f prof =
     \<lparr>i_pc = fm_code_off f, i_sp = 0, i_fp = 0, i_csp = 1, i_fuel = 1000000000000, i_peak_csp = 1,
      i_stack = replicate (unat STACK_CAP) 0,
      i_frames = \<lparr>fr_ret_pc = 0, fr_fp = 0, fr_sp_base = 0, fr_n_results = fm_n_results f\<rparr> #
        replicate (unat FRAME_CAP - 1) \<lparr>fr_ret_pc = 0, fr_fp = 0, fr_sp_base = 0, fr_n_results = 0\<rparr>,
      i_globals = hm_globals m, i_mem = (if hm_memory m = [] then [0] else hm_memory m),
      i_mem_size = hm_mem_size m, i_mem_max = (if hm_memory m = [] then 0 else of_nat (length (hm_memory m))),
      i_data_live = hm_data_live m, i_mb = empty_mailbox, i_host_fn = 0, i_host_n_args = 0, i_host_n_results = 0,
      i_profile = prof\<rparr>"

definition setup_call :: "func_meta \<Rightarrow> u64 list \<Rightarrow> unit act" where
  "setup_call f args = thenS (forS args raw_push) (forS (replicate (unat (fm_n_locals f)) ()) (\<lambda>_. raw_push 0))"

section \<open>The loop\<close>

text \<open>The results of a host call go to the stack; the mailbox has room for one.\<close>

definition take_results :: "unit act" where
  "take_results =
     bindS (getS i_mb) (\<lambda>mb.
       forS [0..<unat (hb_n_results mb)] (\<lambda>i.
         bindS (getS i_sp) (\<lambda>sp.
           if sp \<ge> STACK_CAP then trap ST_TRAP_STACK_OVERFLOW
           else bindS (elem_at ''mailbox results'' (hb_results mb) i) raw_push)))"

text \<open>
  What the loop ends with: undefined behaviour, a result returned from inside the loop, or the status
  of the instance. Each call of \<open>run_instance\<close> gets a copy of the memory view, with the size the
  module had at the start.
\<close>

datatype cpu_end = Broken string | Early run_result | Ended status

fun cpu_loop :: "nat \<Rightarrow> host_module \<Rightarrow> nat \<Rightarrow> 'h host_fn \<Rightarrow> status \<times> inst \<times> 'h \<Rightarrow> (cpu_end \<times> inst \<times> 'h) option" where
  "cpu_loop 0 m max_steps host st = None"
| "cpu_loop (Suc fuel) m max_steps host (status, s, h) =
     (let resume = (\<lambda>s h.
        case run_instance m max_steps (s\<lparr>i_mem_size := hm_mem_size m\<rparr>) of
          (UB e, t) \<Rightarrow> Some (Broken e, t, h)
        | (Trap st, t) \<Rightarrow> cpu_loop fuel m max_steps host (st, t, h))
      in
      if status = ST_HOSTCALL_PENDING then
        (case host h (i_mem s) (i_mb s) of
           (Host_Undefined e, h', mem', mb') \<Rightarrow> Some (Broken e, s\<lparr>i_mem := mem', i_mb := mb'\<rparr>, h')
         | (Refused err, h', mem', mb') \<Rightarrow>
             Some (Early (default_result\<lparr>rr_error := err, rr_peak_csp := i_peak_csp s, rr_steps_bound := max_steps\<rparr>),
               s\<lparr>i_mem := mem', i_mb := mb'\<rparr>, h')
         | (Served, h', mem', mb') \<Rightarrow>
             (case take_results (s\<lparr>i_mem := mem', i_mb := mb'\<rparr>) of
                (Inl (UB e), t) \<Rightarrow> Some (Broken e, t, h')
              | (Inl (Trap st), t) \<Rightarrow> Some (Early (default_result\<lparr>rr_status := st\<rparr>), t, h')
              | (Inr _, t) \<Rightarrow> resume t h'))
      else if status \<noteq> ST_RUNNING then Some (Ended status, s, h)
      else resume s h)"

text \<open>The module after the run: globals, memory and data flags were changed in place.\<close>

definition write_back :: "host_module \<Rightarrow> inst \<Rightarrow> host_module" where
  "write_back m s =
     m\<lparr>hm_globals := i_globals s, hm_memory := (if hm_memory m = [] then [] else i_mem s), hm_data_live := i_data_live s\<rparr>"

definition run_cpu ::
  "nat \<Rightarrow> host_module \<Rightarrow> u32 \<Rightarrow> u64 list \<Rightarrow> nat \<Rightarrow> 'h host_fn \<Rightarrow> run_profile option \<Rightarrow> 'h \<Rightarrow>
   (string + run_result \<times> host_module \<times> run_profile option \<times> 'h) option" where
  "run_cpu fuel m func_idx args max_steps host prof h =
     (if unat func_idx \<ge> length (hm_funcs m) then Some (Inr (default_result, m, prof, h))
      else
        let f = hm_funcs m ! unat func_idx in
        if length args \<noteq> unat (fm_n_params f) then Some (Inr (default_result, m, prof, h))
        else
          case setup_call f args (init_inst m f prof) of
            (Inl (UB e), _) \<Rightarrow> Some (Inl e)
          | (Inl (Trap st), _) \<Rightarrow> Some (Inl ''no trap in the setup'')
          | (Inr _, s) \<Rightarrow>
              (case cpu_loop fuel m max_steps host (ST_RUNNING, s, h) of
                 None \<Rightarrow> None
               | Some (Broken e, _) \<Rightarrow> Some (Inl e)
               | Some (Early r, t, h') \<Rightarrow> Some (Inr (r, write_back m t, i_profile t, h'))
               | Some (Ended st, t, h') \<Rightarrow>
                   let m' = (write_back m t)\<lparr>hm_mem_size := i_mem_size t\<rparr>;
                       r = \<lparr>rr_status = st, rr_results = [], rr_peak_csp = i_peak_csp t, rr_steps_bound = max_steps, rr_error = []\<rparr>
                   in if st \<noteq> ST_OK then Some (Inr (r, m', i_profile t, h'))
                      else if unat (fm_n_results f) > length (i_stack t) then Some (Inl ''result read'')
                      else Some (Inr (r\<lparr>rr_results := take (unat (fm_n_results f)) (i_stack t)\<rparr>, m', i_profile t, h'))))"

end
