(* ===== verification/Run_Cpu_Safe.thy ===== *)
theory Run_Cpu_Safe
  imports Interp_Control Run_Cpu
begin

text \<open>
  The driver on verified modules. \<open>verify_cuop\<close> gives heights to every function; with the conditions
  the verifier leaves open (\<open>code_checks\<close>, \<open>image_ok\<close>, \<open>entry_ok\<close>) and a host that keeps its contract,
  \<open>run_cpu\<close> never indexes an array out of range.
\<close>

section \<open>Sizes never change\<close>

text \<open>No instruction changes the size of the stack or of the memory allocation.\<close>

definition same_sizes :: "inst \<Rightarrow> inst \<Rightarrow> bool" where
  "same_sizes s t \<longleftrightarrow> length (i_stack t) = length (i_stack s) \<and> length (i_mem t) = length (i_mem s)"

lemma same_sizes_preorder [simp]: "reflp same_sizes" "transp same_sizes"
  by (auto simp: same_sizes_def reflp_def transp_def)

definition fixed_size :: "'a act \<Rightarrow> bool" where
  "fixed_size c \<longleftrightarrow> keeps same_sizes c"

named_theorems size_rules

lemma fixed_size_basic [size_rules]:
  "fixed_size (ret x)" "fixed_size (fail e)" "fixed_size (getS f)" "fixed_size (trap st)"
  by (simp_all add: fixed_size_def trap_def keeps_refl)

lemma fixed_size_bind [size_rules]: "fixed_size c \<Longrightarrow> (\<And>x. fixed_size (k x)) \<Longrightarrow> fixed_size (bindS c k)"
  unfolding fixed_size_def by (rule keeps_bindS) simp_all

lemma fixed_size_then [size_rules]: "fixed_size c \<Longrightarrow> fixed_size k \<Longrightarrow> fixed_size (thenS c k)"
  unfolding fixed_size_def by (rule keeps_thenS) simp_all

lemma fixed_size_for [size_rules]: "(\<And>x. fixed_size (k x)) \<Longrightarrow> fixed_size (forS xs k)"
  unfolding fixed_size_def by (rule keeps_forS) simp_all

lemma fixed_size_if [size_rules]: "fixed_size c \<Longrightarrow> fixed_size k \<Longrightarrow> fixed_size (if b then c else k)"
  by simp

lemma fixed_size_when [size_rules]: "fixed_size c \<Longrightarrow> fixed_size (whenS b c)"
  by (simp add: whenS_def fixed_size_basic)

lemma fixed_size_modify: "(\<And>s. same_sizes s (f s)) \<Longrightarrow> fixed_size (modifyS f)"
  by (simp add: fixed_size_def keeps_def)

lemma fixed_size_prod [size_rules]: "(\<And>a b. fixed_size (k a b)) \<Longrightarrow> fixed_size (case x of (a, b) \<Rightarrow> k a b)"
  by (cases x) simp

lemma fixed_size_access [size_rules]:
  "fixed_size (stack_at i)" "fixed_size (stack_set i v)" "fixed_size (mem_get j)" "fixed_size (mem_set j b)"
  "fixed_size (frame_at i)" "fixed_size (frame_set i f)" "fixed_size (elem_at w xs j)"
  by (auto simp: fixed_size_def keeps_def same_sizes_def stack_at_def stack_set_def mem_get_def mem_set_def frame_at_def frame_set_def elem_at_def)

lemma fixed_size_push_pop [size_rules]: "fixed_size (cu_push v)" "fixed_size cu_pop"
  unfolding cu_push_def cu_pop_def by (intro size_rules fixed_size_modify; simp add: same_sizes_def)+

lemma fixed_size_memory [size_rules]:
  "fixed_size (mem_load_le ea n)" "fixed_size (mem_store_le ea n v)" "fixed_size (move_slots dst src k)"
  by (induction n) (auto simp: mem_store_le_def move_slots_def Let_def intro!: size_rules)

lemma fixed_size_instr [size_rules]:
  "fixed_size (do_load ins)" "fixed_size (do_store ins)" "fixed_size do_grow" "fixed_size do_copy" "fixed_size do_fill"
  "fixed_size (do_init m ins)" "fixed_size (do_data_drop ins)" "fixed_size (do_unwind ins)" "fixed_size (do_br ins)"
  "fixed_size (do_br_if_not ins)" "fixed_size (do_global_get ins)" "fixed_size (do_global_set ins)"
  unfolding do_load_def do_store_def do_grow_def do_copy_def do_fill_def do_init_def do_data_drop_def do_unwind_def do_br_def
    do_br_if_not_def do_global_get_def do_global_set_def Let_def
  by (intro size_rules fixed_size_modify; simp add: same_sizes_def)+

lemma fixed_size_call [size_rules]:
  "fixed_size (enter f)" "fixed_size (do_call m ins)" "fixed_size (do_return_call m ins)" "fixed_size do_return"
  "fixed_size (do_call_indirect m ins)" "fixed_size (do_call_host ins)"
  unfolding do_call_def enter_def do_return_call_def do_return_def do_call_indirect_def do_call_host_def push_locals_def Let_def
  by (intro size_rules fixed_size_modify; simp add: same_sizes_def)+

lemma fixed_size_option [size_rules]: "(\<And>v. fixed_size (k v)) \<Longrightarrow> fixed_size e \<Longrightarrow> fixed_size (case x of Some v \<Rightarrow> k v | None \<Rightarrow> e)"
  by (cases x) simp_all

lemma fixed_size_sum [size_rules]: "(\<And>v. fixed_size (k v)) \<Longrightarrow> (\<And>v. fixed_size (e v)) \<Longrightarrow> fixed_size (case x of Inl v \<Rightarrow> e v | Inr v \<Rightarrow> k v)"
  by (cases x) simp_all

lemma fixed_size_helpers [size_rules]:
  "(\<And>a b. fixed_size (k a b)) \<Longrightarrow> fixed_size (pop_two k)" "fixed_size (push_pair r)" "fixed_size (do_clz ins)" "fixed_size (count_unsupported x)"
  unfolding pop_two_def push_pair_def do_clz_def count_unsupported_def by (intro size_rules fixed_size_modify; simp add: same_sizes_def)+

lemma fixed_size_execute [size_rules]: "fixed_size (execute m ins)"
  unfolding execute_def Let_def by (intro size_rules)

lemma fixed_size_step: "fixed_size (step m)"
  unfolding step_def fetch_def Let_def by (intro size_rules fixed_size_modify) (simp add: same_sizes_def)

lemma run_instance_sizes: "run_instance m n s = (e, t) \<Longrightarrow> same_sizes s t"
proof (induction n arbitrary: s)
  case 0
  then show ?case by (simp add: same_sizes_def)
next
  case (Suc n)
  obtain r u where u: "step m s = (r, u)" by fastforce
  then have "same_sizes s u" by (rule keepsD [OF fixed_size_step [unfolded fixed_size_def]])
  then show ?case using Suc u by (cases r) (auto simp: same_sizes_def)
qed

section \<open>From the verifier to the heights\<close>

lemma verify_fn_result: "verify_fn m i f = Inr g \<Longrightarrow> \<exists>x. g = f\<lparr>fm_max_stack := x\<rparr>"
  unfolding verify_fn_def Let_def by (auto split: if_splits option.splits sum.splits)

lemma verify_fns_Inr:
  "verify_fns m i fs = Inr fs' \<Longrightarrow> length fs' = length fs \<and> (\<forall>k < length fs. verify_fn m (i + k) (fs ! k) = Inr (fs' ! k))"
proof (induction fs arbitrary: i fs')
  case (Cons f fs)
  then obtain f' fs'' where "verify_fn m i f = Inr f'" "verify_fns m (i + 1) fs = Inr fs''" "fs' = f' # fs''"
    by (auto simp: rbind_Inr_iff)
  then show ?case using Cons.IH [of "i + 1" fs''] by (auto simp: nth_Cons split: nat.split)
qed simp

text \<open>The verifier changes \<open>max_stack\<close> only, which no height depends on.\<close>

lemma verified_heights:
  assumes "verify_cuop m0 = Inr m" and "code_fn m g"
  shows "fn_shape m g \<and> (\<exists>H. well_heighted m g H)"
proof -
  obtain fs where fs: "verify_fns m0 0 (hm_funcs m0) = Inr fs" and m: "m = m0\<lparr>hm_funcs := fs\<rparr>"
    using assms(1) by (auto simp: verify_cuop_def rbind_Inr_iff split: if_splits)
  note v = verify_fns_Inr [OF fs]
  have same: "fm_n_params (fs ! k) = fm_n_params (hm_funcs m0 ! k) \<and> fm_n_results (fs ! k) = fm_n_results (hm_funcs m0 ! k)"
    if "k < length (hm_funcs m0)" for k using v that verify_fn_result by fastforce
  obtain k where k: "k < length fs" "g = fs ! k" using assms(2) m by (auto simp: code_fn_def in_set_conv_nth)
  let ?f = "hm_funcs m0 ! k"
  have vk: "verify_fn m0 k ?f = Inr g" using v k by simp
  then obtain x where g: "g = ?f\<lparr>fm_max_stack := x\<rparr>" using verify_fn_result by blast
  have len: "fm_code_len ?f \<noteq> 0" using assms(2) g by (simp add: code_fn_def)
  have shape: "fn_shape m0 ?f" using vk len by (rule verify_fn_Inr_shape)
  have "\<exists>r. verify_work m0 ?f = Some (Inr r)"
    using vk unfolding verify_fn_shape [OF shape] by (auto split: option.splits sum.splits)
  then obtain H where H: "well_heighted m0 ?f H" using verify_work_iff(2) [OF shape] by blast
  have "ctx_of m g = ctx_of m0 ?f" unfolding ctx_of_def using v same by (auto simp: m g)
  then show ?thesis using shape H by (auto simp: fn_shape_def well_heighted_def g m)
qed

definition heights_of :: "host_module \<Rightarrow> heights" where
  "heights_of m g = (SOME H. well_heighted m g H)"

text \<open>What the verifier does not check, as a test on the module.\<close>

definition code_checks :: "host_module \<Rightarrow> bool" where
  "code_checks m \<longleftrightarrow>
     int (length (hm_code m)) < 4294967296 \<and> table_runnable m \<and>
     list_all (\<lambda>g. fm_code_len g \<noteq> 0 \<longrightarrow> list_all (ins_runnable m g) (take (unat (fm_code_len g)) (drop (unat (fm_code_off g)) (hm_code m))))
       (hm_funcs m)"

lemma verified_runnable:
  assumes "verify_cuop m0 = Inr m" and "code_checks m"
  shows "runnable m (heights_of m)"
proof -
  have "ins_runnable m g (hm_code m ! (unat (fm_code_off g) + p))"
    if g: "code_fn m g" and p: "p < unat (fm_code_len g)" and s: "fn_shape m g" for g p
  proof -
    have "list_all (ins_runnable m g) (take (unat (fm_code_len g)) (drop (unat (fm_code_off g)) (hm_code m)))"
      using assms(2) g by (auto simp: code_checks_def code_fn_def list_all_iff)
    then show ?thesis using p s by (auto simp: list_all_length fn_shape_def)
  qed
  moreover have "well_heighted m g (heights_of m g)" if "code_fn m g" for g
    unfolding heights_of_def by (rule someI_ex [OF conjunct2 [OF verified_heights [OF assms(1) that]]])
  ultimately show ?thesis using verified_heights [OF assms(1)] assms(2) by (auto simp: runnable_def code_checks_def)
qed

lemma running_mem_size: "running m ht s \<Longrightarrow> unat k \<le> length (i_mem s) \<Longrightarrow> running m ht (s\<lparr>i_mem_size := k\<rparr>)"
proof -
  assume "running m ht s" and k: "unat k \<le> length (i_mem s)"
  then obtain gs h where "sane m ht gs h s" "at_height ht (hd gs) (i_pc s) h" by (auto simp: running_def)
  then show ?thesis unfolding running_def using k by (intro exI [of _ gs] exI [of _ h]) (simp add: sane_def mem_sane_def)
qed

section \<open>The initial state\<close>

lemma raw_pushes:
  assumes "unat (i_sp s) + length xs \<le> length (i_stack s)" and "length (i_stack s) \<le> 4096"
  shows "\<exists>ys. length ys = length (i_stack s) \<and>
    forS xs (\<lambda>x. raw_push (g x)) s = (Inr (), s\<lparr>i_stack := ys, i_sp := i_sp s + of_nat (length xs)\<rparr>)"
  using assms
proof (induction xs arbitrary: s)
  case Nil
  then show ?case by (intro exI [of _ "i_stack s"]) simp
next
  case (Cons x xs)
  let ?s = "s\<lparr>i_stack := (i_stack s)[unat (i_sp s) := g x], i_sp := i_sp s + 1\<rparr>"
  have "unat (i_sp s + 1) = unat (i_sp s) + 1" using unat_add_small [of "i_sp s" 1] Cons.prems by simp
  then obtain ys where "length ys = length (i_stack s)"
    "forS xs (\<lambda>x. raw_push (g x)) ?s = (Inr (), ?s\<lparr>i_stack := ys, i_sp := i_sp s + 1 + of_nat (length xs)\<rparr>)"
    using Cons.IH [of ?s] Cons.prems by auto
  moreover have "raw_push (g x) s = (Inr (), ?s)" using Cons.prems by (simp add: raw_push_def stack_set_def)
  ultimately show ?case by (intro exI [of _ ys]) (simp add: add.assoc)
qed

definition image_ok :: "host_module \<Rightarrow> bool" where
  "image_ok m \<longleftrightarrow>
     unat (hm_mem_size m) \<le> length (hm_memory m) \<and>
     length (hm_data_off m) = length (hm_data_live m) \<and> length (hm_data_len m) = length (hm_data_live m) \<and>
     list_all (\<lambda>(off, len). unat off + unat len \<le> length (hm_data_blob m)) (zip (hm_data_off m) (hm_data_len m)) \<and>
     int (length (hm_data_blob m)) < 4294967296"

definition entry_ok :: "func_meta \<Rightarrow> bool" where
  "entry_ok f \<longleftrightarrow> fm_code_len f \<noteq> 0 \<and> int (slots f) \<le> 4096 \<and> fm_n_results f \<le> 4096"

lemma setup_running:
  assumes r: "runnable m ht" and im: "image_ok m" and f: "f \<in> set (hm_funcs m)" "entry_ok f" and a: "length args = unat (fm_n_params f)"
  obtains s where "setup_call f args (init_inst m f prof) = (Inr (), s)" "running m ht s" "length (i_stack s) = 4096"
    "i_mem s = (if hm_memory m = [] then [0] else hm_memory m)" "i_mem_size s = hm_mem_size m"
proof -
  let ?i = "init_inst m f prof"
  have "slots f \<le> 4096" using f(2) unfolding entry_ok_def by linarith
  then have sz: "length args + unat (fm_n_locals f) \<le> 4096" using a by (simp add: slots_def)
  have len: "length (i_stack ?i) = 4096" "i_sp ?i = 0" by (simp_all add: init_inst_def)
  obtain xs where xs: "length xs = 4096" "forS args raw_push ?i = (Inr (), ?i\<lparr>i_stack := xs, i_sp := of_nat (length args)\<rparr>)"
    using raw_pushes [of ?i args id] sz len by auto
  let ?j = "?i\<lparr>i_stack := xs, i_sp := of_nat (length args)\<rparr>"
  have n: "unat (of_nat (length args) :: u32) = length args" using sz unat_add_small [of 0 "length args"] by simp
  obtain ys where ys: "length ys = 4096"
    "forS (replicate (unat (fm_n_locals f)) ()) (\<lambda>_. raw_push 0) ?j =
      (Inr (), ?j\<lparr>i_stack := ys, i_sp := of_nat (length args) + of_nat (unat (fm_n_locals f))\<rparr>)"
    using raw_pushes [of ?j "replicate (unat (fm_n_locals f)) ()" "\<lambda>_. 0"] sz xs(1) n by auto
  let ?s = "?j\<lparr>i_stack := ys, i_sp := of_nat (length args) + of_nat (unat (fm_n_locals f))\<rparr>"
  have sp: "unat (i_sp ?s) = slots f"
    using unat_add_small [of "of_nat (length args)" "unat (fm_n_locals f)"] sz n a by (simp add: slots_def)
  have fn: "code_fn m f" using f by (simp add: code_fn_def entry_ok_def)
  have "frames_sane m ht [f] ?s" using fn by (simp add: frames_sane_def init_inst_def)
  moreover have "data_sane m ?s"
    using im by (auto simp: data_sane_def image_ok_def init_inst_def list_all_length)
  moreover have "mem_sane ?s" using im by (auto simp: mem_sane_def init_inst_def image_ok_def unat_of_nat)
  ultimately have "sane m ht [f] 0 ?s"
    using sp sz a ys(1) by (simp add: sane_def slots_def init_inst_def empty_mailbox_def)
  then have "running m ht ?s"
    unfolding running_def using entry_height [OF r fn] by (intro exI [of _ "[f]"] exI [of _ 0]) (simp add: init_inst_def)
  moreover have "setup_call f args ?i = (Inr (), ?s)" using xs(2) ys(2) by (simp add: setup_call_def)
  ultimately show ?thesis using that [of ?s] ys(1) by (simp add: init_inst_def)
qed

section \<open>The contract of a host function\<close>

text \<open>
  What the driver relies on when it serves a host call: the host keeps the size of the guest memory, a
  served call has exactly one result in the mailbox, and the host stays defined. \<open>ok\<close> is an invariant
  of the host's own state, relative to the size of the memory.
\<close>

locale host_contract =
  fixes host :: "'h host_fn" and ok :: "'h \<Rightarrow> nat \<Rightarrow> bool"
  assumes serves:
    "ok h (length mem) \<Longrightarrow> length (hb_args mb) = 16 \<Longrightarrow> unat (hb_n_args mb) \<le> 16 \<Longrightarrow> host h mem mb = (r, h', mem', mb') \<Longrightarrow>
     ok h' (length mem) \<and> length mem' = length mem \<and> (\<forall>e. r \<noteq> Host_Undefined e) \<and>
     (r = Served \<longrightarrow> hb_n_results mb' = 1 \<and> hb_results mb' \<noteq> [] \<and> length (hb_args mb') = 16)"
begin

text \<open>A served call resumes a state that can run.\<close>

lemma served_running:
  assumes p: "awaiting m ht s" and ok: "ok h (length (i_mem s))" and host: "host h (i_mem s) (i_mb s) = (Served, h', mem', mb')"
    and m: "unat (hm_mem_size m) \<le> length (i_mem s)" and st: "length (i_stack s) = 4096"
    and t: "take_results (s\<lparr>i_mem := mem', i_mb := mb'\<rparr>) = (r, t)"
  shows "(r = Inl (Trap ST_TRAP_STACK_OVERFLOW) \<or> r = Inr () \<and> running m ht (t\<lparr>i_mem_size := hm_mem_size m\<rparr>)) \<and>
    length (i_mem t) = length (i_mem s) \<and> length (i_stack t) = 4096"
proof -
  from p obtain gs h where sn: "sane m ht gs h s" and at: "at_height ht (hd gs) (i_pc s) (h + 1)" and na: "hb_n_args (i_mb s) \<le> 16"
    by (auto simp: awaiting_def)
  have args: "length (hb_args (i_mb s)) = 16" using sn by (simp add: sane_def)
  have "unat (hb_n_args (i_mb s)) \<le> 16" using na by (simp add: word_le_nat_alt)
  from serves [OF ok args this host] have mb': "hb_n_results mb' = 1" "hb_results mb' \<noteq> []" "length (hb_args mb') = 16"
    and mem': "length mem' = length (i_mem s)" by simp_all
  let ?s = "s\<lparr>i_mem := mem', i_mb := mb'\<rparr>"
  show ?thesis
  proof (cases "i_sp s \<ge> 4096")
    case True
    then have "take_results ?s = (Inl (Trap ST_TRAP_STACK_OVERFLOW), ?s)" using mb' by (simp add: take_results_def trap_def)
    then show ?thesis using t mem' st by simp
  next
    case False
    then have sp: "unat (i_sp s) < 4096" by (simp add: word_le_nat_alt not_le)
    then have sp': "unat (i_sp s + 1) = unat (i_sp s) + 1" using unat_add_small [of "i_sp s" 1] by simp
    let ?t = "?s\<lparr>i_stack := (i_stack s)[unat (i_sp s) := hb_results mb' ! 0], i_sp := i_sp s + 1\<rparr>"
    have run: "take_results ?s = (Inr (), ?t)"
      using False mb' sp st by (simp add: take_results_def elem_at_def raw_push_def stack_set_def)
    have "sane m ht gs (h + 1) (?t\<lparr>i_mem_size := hm_mem_size m\<rparr>)"
      using sn sp sp' mb' mem' m st by (auto simp: sane_def frames_sane_def mem_sane_def data_sane_def nat_add_distrib)
    then have "running m ht (?t\<lparr>i_mem_size := hm_mem_size m\<rparr>)" unfolding running_def using at by (intro exI [of _ gs] exI [of _ "h + 1"]) simp
    then show ?thesis using run t mem' st by auto
  qed
qed

lemma cpu_loop_safe:
  assumes r: "runnable m ht" and m: "unat (hm_mem_size m) \<le> length (i_mem s)" and st: "length (i_stack s) = 4096"
    and ok: "ok h (length (i_mem s))"
    and run: "status = ST_RUNNING \<Longrightarrow> running m ht (s\<lparr>i_mem_size := hm_mem_size m\<rparr>)" and pend: "status = ST_HOSTCALL_PENDING \<Longrightarrow> awaiting m ht s"
    and loop: "cpu_loop fuel m max_steps host (status, s, h) = Some (en, t, h')"
  shows "(\<forall>e. en \<noteq> Broken e) \<and> length (i_stack t) = 4096 \<and> length (i_mem t) = length (i_mem s)"
  using m st ok run pend loop
proof (induction fuel arbitrary: status s h)
  case 0
  then show ?case by simp
next
  case (Suc fuel)
  have resume: ?case if run: "running m ht (u\<lparr>i_mem_size := hm_mem_size m\<rparr>)" and sz: "length (i_stack u) = 4096" "length (i_mem u) = length (i_mem s)"
    and ok: "ok k (length (i_mem s))"
    and loop: "(case run_instance m max_steps (u\<lparr>i_mem_size := hm_mem_size m\<rparr>) of
        (UB e, t) \<Rightarrow> Some (Broken e, t, k) | (Trap st, t) \<Rightarrow> cpu_loop fuel m max_steps host (st, t, k)) = Some (en, t, h')" for u k
  proof -
    obtain e v where v: "run_instance m max_steps (u\<lparr>i_mem_size := hm_mem_size m\<rparr>) = (e, v)" by fastforce
    from run_instance_ok [OF r run v] obtain st' where e: "e = Trap st'" and st': "st' = ST_RUNNING \<Longrightarrow> running m ht v"
      "st' = ST_HOSTCALL_PENDING \<Longrightarrow> awaiting m ht v" by blast
    have sv: "length (i_stack v) = 4096" "length (i_mem v) = length (i_mem s)" using run_instance_sizes [OF v] sz by (simp_all add: same_sizes_def)
    show ?thesis using Suc.IH [of v k st'] sv Suc.prems(1) ok st' running_mem_size loop v e by auto
  qed
  show ?case
  proof (cases "status = ST_HOSTCALL_PENDING")
    case True
    obtain a k mem' mb' where host: "host h (i_mem s) (i_mb s) = (a, k, mem', mb')" by (metis prod_cases4)
    have p: "awaiting m ht s" using Suc.prems(5) True by simp
    then have na: "length (hb_args (i_mb s)) = 16" "unat (hb_n_args (i_mb s)) \<le> 16"
      by (auto simp: awaiting_def sane_def word_le_nat_alt)
    note sv = serves [OF Suc.prems(3) na host]
    show ?thesis
    proof (cases a)
      case Served
      obtain q u where u: "take_results (s\<lparr>i_mem := mem', i_mb := mb'\<rparr>) = (q, u)" by fastforce
      note sr = served_running [OF p Suc.prems(3) host [unfolded Served] Suc.prems(1,2) u]
      show ?thesis
      proof (cases q)
        case (Inl e)
        then show ?thesis using Suc.prems(6) True host Served u sr by auto
      next
        case (Inr x)
        then show ?thesis using Suc.prems(6) True host Served u sr sv by (intro resume [of u k]) auto
      qed
    qed (use Suc.prems(2,6) True host sv in auto)
  next
    case False
    then show ?thesis using Suc.prems resume [of s h] by (auto split: if_splits)
  qed
qed

lemma run_cpu_defined:
  assumes r: "runnable m ht" and im: "image_ok m" and fi: "unat fi < length (hm_funcs m) \<Longrightarrow> entry_ok (hm_funcs m ! unat fi)"
    and ok: "ok h (length (if hm_memory m = [] then [0 :: u8] else hm_memory m))"
  shows "run_cpu fuel m fi args max_steps host prof h \<noteq> Some (Inl e)"
proof (cases "unat fi \<ge> length (hm_funcs m) \<or> length args \<noteq> unat (fm_n_params (hm_funcs m ! unat fi))")
  case True
  then show ?thesis by (auto simp: run_cpu_def Let_def)
next
  case False
  let ?f = "hm_funcs m ! unat fi"
  have f: "?f \<in> set (hm_funcs m)" "entry_ok ?f" using False fi by simp_all
  from setup_running [OF r im f, of args prof] False obtain s where s: "setup_call ?f args (init_inst m ?f prof) = (Inr (), s)" "running m ht s"
    "length (i_stack s) = 4096" "i_mem s = (if hm_memory m = [] then [0] else hm_memory m)" "i_mem_size s = hm_mem_size m"
    by auto
  have mem: "unat (hm_mem_size m) \<le> length (i_mem s)" using im s(4) by (auto simp: image_ok_def)
  have nr: "unat (fm_n_results ?f) \<le> 4096" using f(2) by (simp add: entry_ok_def word_le_nat_alt)
  have "(\<forall>e. en \<noteq> Broken e) \<and> length (i_stack t) = 4096 \<and> length (i_mem t) = length (i_mem s)"
    if "cpu_loop fuel m max_steps host (ST_RUNNING, s, h) = Some (en, t, h')" for en t h'
    using s ok running_mem_size [OF s(2) mem] by (intro cpu_loop_safe [OF r mem s(3) _ _ _ that]) auto
  then show ?thesis using False s(1) nr
    by (auto simp: run_cpu_def Let_def split: option.splits prod.splits cpu_end.splits if_splits)
qed

end

text \<open>The default host function refuses every call, so it keeps the contract.\<close>

interpretation refusing: host_contract "default_host_fn m" "\<lambda>_ _. True" for m
  by unfold_locales (auto simp: default_host_fn_def Let_def)

end
