(* ===== verification/Run_Cpu_Limits.thy ===== *)
theory Run_Cpu_Limits
  imports Run_Cpu_Safe
begin

text \<open>
  Two limits of the driver: a tail call uses no fuel and an exhausted step limit only starts the next
  round, so a verified module may run forever; and every round starts with the memory size of the
  module, so the memory a guest has grown shrinks again when the driver takes over.
\<close>

section \<open>A tail call to itself\<close>

definition forever_fn :: func_meta where
  "forever_fn = \<lparr>fm_code_off = 0, fm_code_len = 2, fm_n_params = 0, fm_n_results = 0, fm_n_locals = 0, fm_max_stack = 0\<rparr>"

definition forever_module :: host_module where
  "forever_module = empty_module\<lparr>hm_code := [mk_op OP_RETURN_CALL 0 0, mk_op OP_END_FUNC 0 0], hm_funcs := [forever_fn]\<rparr>"

definition forever_frame :: frame where
  "forever_frame = \<lparr>fr_ret_pc = 0, fr_fp = 0, fr_sp_base = 0, fr_n_results = 0\<rparr>"

lemma forever_step:
  assumes "i_pc s = 0" "i_sp s = 0" "i_fp s = 0" "i_csp s = 1" "i_profile s = None" "i_frames s = forever_frame # fs"
  shows "step forever_module s = (Inr (), s)"
proof -
  have "s\<lparr>i_pc := 0, i_sp := 0, i_frames := i_frames s, i_profile := None\<rparr> = s" using assms by simp
  then show ?thesis using assms
    by (simp add: step_def fetch_def forever_module_def execute_def binops_def do_return_call_def move_slots_def push_locals_def
        forever_fn_def forever_frame_def frame_at_def frame_set_def whenS_def word_gt_0)
qed

lemma forever_verified: "verify_cuop forever_module = Inr forever_module"
  by code_simp

lemma forever_loop:
  assumes "i_pc s = 0" "i_sp s = 0" "i_fp s = 0" "i_csp s = 1" "i_profile s = None" "i_frames s = forever_frame # fs" "i_mem_size s = 0"
  shows "cpu_loop fuel forever_module max_steps host (ST_RUNNING, s, h) = None"
proof (induction fuel)
  case (Suc fuel)
  have "run_instance forever_module n s = (Trap ST_RUNNING, s)" for n
    using forever_step [OF assms(1-6)] by (induction n) simp_all
  moreover have "s\<lparr>i_mem_size := hm_mem_size forever_module\<rparr> = s" using assms(7) by (simp add: forever_module_def empty_module_def)
  ultimately show ?case using Suc by simp
qed simp

section \<open>Growing the memory\<close>

text \<open>\<open>i64.const 1; memory.grow; drop; memory.size; end\<close> with one page of two.\<close>

definition growing_fn :: func_meta where
  "growing_fn = \<lparr>fm_code_off = 0, fm_code_len = 5, fm_n_params = 0, fm_n_results = 1, fm_n_locals = 0, fm_max_stack = 1\<rparr>"

definition growing_module :: "u8 list \<Rightarrow> host_module" where
  "growing_module mem = empty_module
     \<lparr>hm_code := [mk_op OP_I64_CONST 0 0, mk_op OP_MEMORY_GROW 0 0, mk_op OP_DROP 0 0, mk_op OP_MEMORY_SIZE 0 0, mk_op OP_END_FUNC 1 0],
      hm_consts := [1], hm_funcs := [growing_fn], hm_memory := mem, hm_mem_size := 65536, hm_mem_max := 131072\<rparr>"

lemma growing_fields [simp]:
  "hm_code (growing_module mem) = [mk_op OP_I64_CONST 0 0, mk_op OP_MEMORY_GROW 0 0, mk_op OP_DROP 0 0, mk_op OP_MEMORY_SIZE 0 0, mk_op OP_END_FUNC 1 0]"
  "hm_consts (growing_module mem) = [1]" "hm_funcs (growing_module mem) = [growing_fn]" "hm_memory (growing_module mem) = mem"
  "hm_mem_size (growing_module mem) = 65536" "hm_globals (growing_module mem) = []" "hm_data_live (growing_module mem) = []"
  by (simp_all add: growing_module_def empty_module_def)

lemmas run_defs = step_def fetch_def execute_def binops_def elem_at_def cu_push_def cu_pop_def stack_at_def stack_set_def whenS_def Let_def
  bindS_def thenS_def

text \<open>The first three instructions grow the memory to two pages.\<close>

lemma growing_head:
  assumes "length (i_stack s) = 4096" "i_pc s = 0" "i_sp s = 0" "i_mem_size s = 65536" "i_mem_max s = 131072" "i_profile s = None"
  shows "run_instance (growing_module mem) (Suc (Suc (Suc n))) s =
    run_instance (growing_module mem) n (s\<lparr>i_pc := 3, i_sp := 0, i_stack := (i_stack s)[0 := 1], i_mem_size := 131072\<rparr>)"
proof -
  let ?m = "growing_module mem"
  let ?s1 = "s\<lparr>i_pc := 1, i_sp := 1, i_stack := (i_stack s)[0 := 1]\<rparr>"
  let ?s2 = "s\<lparr>i_pc := 2, i_sp := 1, i_mem_size := 131072, i_stack := (i_stack s)[0 := 1]\<rparr>"
  have ne: "i_stack s \<noteq> []" using assms(1) by (metis list.size(3) zero_neq_numeral)
  let ?s3 = "s\<lparr>i_pc := 3, i_sp := 0, i_stack := (i_stack s)[0 := 1], i_mem_size := 131072\<rparr>"
  have pr: "?s1\<lparr>i_profile := None\<rparr> = ?s1" "?s2\<lparr>i_profile := None\<rparr> = ?s2" "?s3\<lparr>i_profile := None\<rparr> = ?s3" using assms by simp_all
  have "step ?m s = (Inr (), ?s1\<lparr>i_profile := None\<rparr>)" using assms ne by (simp add: run_defs)
  moreover have "step ?m ?s1 = (Inr (), ?s2\<lparr>i_profile := None\<rparr>)" using assms ne by (simp add: run_defs do_grow_def)
  moreover have "step ?m ?s2 = (Inr (), ?s3\<lparr>i_profile := None\<rparr>)" using assms ne by (simp add: run_defs)
  ultimately show ?thesis unfolding pr by simp
qed

lemma growing_tail:
  assumes "length (i_stack s) = 4096" "i_pc s = 3" "i_sp s = 0" "i_fp s = 0" "i_csp s = 1" "i_profile s = None"
    "i_frames s = \<lparr>fr_ret_pc = 0, fr_fp = 0, fr_sp_base = 0, fr_n_results = 1\<rparr> # fs"
  shows "run_instance (growing_module mem) (Suc (Suc n)) s =
    (Trap ST_OK, s\<lparr>i_pc := 5, i_sp := 1, i_csp := 0, i_stack := (i_stack s)[0 := ucast (i_mem_size s div 65536)]\<rparr>)"
proof -
  let ?m = "growing_module mem" and ?v = "ucast (i_mem_size s div 65536) :: u64"
  let ?s1 = "s\<lparr>i_pc := 4, i_sp := 1, i_stack := (i_stack s)[0 := ?v]\<rparr>"
  let ?s2 = "s\<lparr>i_pc := 5, i_sp := 1, i_csp := 0, i_stack := (i_stack s)[0 := ?v]\<rparr>"
  have ne: "i_stack s \<noteq> []" using assms(1) by (metis list.size(3) zero_neq_numeral)
  have pr: "?s1\<lparr>i_profile := None\<rparr> = ?s1" "?s2\<lparr>i_fp := 0, i_profile := None\<rparr> = ?s2" using assms by simp_all
  have "step ?m s = (Inr (), ?s1\<lparr>i_profile := None\<rparr>)" using assms ne by (simp add: run_defs)
  moreover have "step ?m ?s1 = (Inl (Trap ST_OK), ?s2\<lparr>i_fp := 0, i_profile := None\<rparr>)"
    using assms ne by (simp add: run_defs do_return_def frame_at_def move_slots_def trap_def)
  ultimately show ?thesis unfolding pr by simp
qed

text \<open>The instance at the start of the run.\<close>

lemma growing_start:
  assumes "length mem = 131072"
  defines "s \<equiv> init_inst (growing_module mem) growing_fn None"
  shows "length (i_stack s) = 4096" "i_pc s = 0" "i_sp s = 0" "i_fp s = 0" "i_csp s = 1" "i_mem_size s = 65536" "i_mem_max s = 131072"
    "i_profile s = None" "i_frames s = \<lparr>fr_ret_pc = 0, fr_fp = 0, fr_sp_base = 0, fr_n_results = 1\<rparr> #
       replicate 255 \<lparr>fr_ret_pc = 0, fr_fp = 0, fr_sp_base = 0, fr_n_results = 0\<rparr>"
  using assms by (auto simp: s_def init_inst_def growing_fn_def)

lemma growing_verified: "verify_cuop (growing_module mem) = Inr (growing_module mem)"
  by code_simp

lemma growing_run:
  assumes "length mem = 131072"
  defines "s \<equiv> init_inst (growing_module mem) growing_fn None"
  shows "cpu_loop 3 (growing_module mem) 10 host (ST_RUNNING, s, h) =
      Some (Ended ST_OK, s\<lparr>i_pc := 5, i_sp := 1, i_csp := 0, i_mem_size := 131072, i_stack := (i_stack s)[0 := 2]\<rparr>, h)"
    and "cpu_loop 3 (growing_module mem) 3 host (ST_RUNNING, s, h) =
      Some (Ended ST_OK, s\<lparr>i_pc := 5, i_sp := 1, i_csp := 0, i_mem_size := 65536, i_stack := (i_stack s)[0 := 1]\<rparr>, h)"
proof -
  let ?m = "growing_module mem"
  note st = growing_start [OF assms(1), folded s_def]
  let ?t = "s\<lparr>i_pc := 3, i_sp := 0, i_stack := (i_stack s)[0 := 1], i_mem_size := 131072\<rparr>"
  have id: "s\<lparr>i_mem_size := 65536\<rparr> = s" using st by simp
  have head: "run_instance ?m (Suc (Suc (Suc n))) s = run_instance ?m n ?t" for n
    using st by (intro growing_head) simp_all
  have tail: "run_instance ?m (Suc (Suc n)) (?t\<lparr>i_mem_size := k\<rparr>) =
      (Trap ST_OK, s\<lparr>i_pc := 5, i_sp := 1, i_csp := 0, i_mem_size := k, i_stack := (i_stack s)[0 := ucast (k div 65536)]\<rparr>)" for n k
    using st growing_tail [of "?t\<lparr>i_mem_size := k\<rparr>"] by (simp del: run_instance.simps)
  have "run_instance ?m 10 s =
      (Trap ST_OK, s\<lparr>i_pc := 5, i_sp := 1, i_csp := 0, i_mem_size := 131072, i_stack := (i_stack s)[0 := 2]\<rparr>)"
    using head [of 7] tail [of 5 131072] by (simp del: run_instance.simps)
  then show "cpu_loop 3 ?m 10 host (ST_RUNNING, s, h) =
      Some (Ended ST_OK, s\<lparr>i_pc := 5, i_sp := 1, i_csp := 0, i_mem_size := 131072, i_stack := (i_stack s)[0 := 2]\<rparr>, h)"
    using id by (simp add: numeral_3_eq_3 del: run_instance.simps)
  have "run_instance ?m 3 s = (Trap ST_RUNNING, ?t)" using head [of 0] by (simp add: numeral_3_eq_3)
  moreover have "run_instance ?m 3 (?t\<lparr>i_mem_size := 65536\<rparr>) =
      (Trap ST_OK, s\<lparr>i_pc := 5, i_sp := 1, i_csp := 0, i_mem_size := 65536, i_stack := (i_stack s)[0 := 1]\<rparr>)"
    using tail [of 1 65536] by (simp add: numeral_3_eq_3 del: run_instance.simps)
  ultimately show "cpu_loop 3 ?m 3 host (ST_RUNNING, s, h) =
      Some (Ended ST_OK, s\<lparr>i_pc := 5, i_sp := 1, i_csp := 0, i_mem_size := 65536, i_stack := (i_stack s)[0 := 1]\<rparr>, h)"
    using id by (simp add: numeral_3_eq_3)
qed

section \<open>Properties\<close>

text \<open>
  C39. Neither the fuel nor the step limit bounds a run. The module whose one function tail-calls itself passes
  the verifier, and running it never returns: for every bound on the rounds of the driver, every step
  limit and every host the run has not ended. Fuel is charged for backward branches only, and a round
  that exhausts its step limit is followed by the next.
\<close>

theorem tail_call_runs_forever:
  "verify_cuop forever_module = Inr forever_module \<and> run_cpu fuel forever_module 0 [] max_steps host None h = None"
proof -
  let ?s = "init_inst forever_module forever_fn None"
  have "cpu_loop fuel forever_module max_steps host (ST_RUNNING, ?s, h) = None"
    by (rule forever_loop) (simp_all add: init_inst_def forever_module_def empty_module_def forever_fn_def forever_frame_def)
  moreover have "setup_call forever_fn [] ?s = (Inr (), ?s)" by (simp add: setup_call_def forever_fn_def)
  moreover have "hm_funcs forever_module = [forever_fn]" by (simp add: forever_module_def)
  ultimately show ?thesis using forever_verified by (simp add: run_cpu_def Let_def forever_fn_def)
qed

text \<open>
  C38. The step limit changes what a program computes. The same verified module grows its memory from one page
  to two and returns its size: with a limit of ten steps the result is 2, with a limit of three it is 1,
  because the second round starts with the size the module had before the run, and the grown memory is
  lost. The same happens after every host call.
\<close>

theorem step_limit_loses_memory:
  assumes "length mem = 131072"
  shows "verify_cuop (growing_module mem) = Inr (growing_module mem) \<and>
    map_option (map_sum id (\<lambda>(r, m, _). (rr_status r, rr_results r, hm_mem_size m)))
      (run_cpu 3 (growing_module mem) 0 [] 10 host None h) = Some (Inr (ST_OK, [2], 131072)) \<and>
    map_option (map_sum id (\<lambda>(r, m, _). (rr_status r, rr_results r, hm_mem_size m)))
      (run_cpu 3 (growing_module mem) 0 [] 3 host None h) = Some (Inr (ST_OK, [1], 65536))"
proof -
  let ?s = "init_inst (growing_module mem) growing_fn None"
  have sc: "setup_call growing_fn [] ?s = (Inr (), ?s)" by (simp add: setup_call_def growing_fn_def)
  have len: "length (i_stack ?s) = 4096" by (rule growing_start(1) [OF assms])
  then obtain x xs where st: "i_stack ?s = x # xs" by (cases "i_stack ?s") auto
  have "unat (fm_n_results growing_fn) = 1" "unat (fm_n_params growing_fn) = 0" by (simp_all add: growing_fn_def)
  then show ?thesis
    using growing_verified growing_run [OF assms, of host h] sc st len by (simp add: run_cpu_def Let_def)
qed

lemma step_limit_loses_memory_witness:
  "map_option (map_sum id (\<lambda>(r, m, _). (rr_status r, rr_results r, hm_mem_size m)))
     (run_cpu 3 (growing_module (replicate 131072 0)) 0 [] 3 (default_host_fn empty_module) None ()) = Some (Inr (ST_OK, [1], 65536))"
  using step_limit_loses_memory [of "replicate 131072 0" "default_host_fn empty_module" "()"] by simp

end
