(* ===== verification/Contract_Run.thy ===== *)
theory Contract_Run
  imports Ffi Run_Cpu Dispatch Profiles
begin

text \<open>
  Running a contract: the C interface of the runtime (\<open>src/capi.cpp\<close>, \<open>tools/contract-tests/src/capi.rs\<close>)
  and \<open>run_cuwasm_profile\<close> (\<open>tools/contract-tests/src/lib.rs\<close>), which loads a module, runs an export with
  the host dispatcher and returns its result with the profile. Loader, verifier, driver and dispatcher
  are those of the other theories.
\<close>

section \<open>C strings\<close>

definition c_str :: "u8 list \<Rightarrow> string" where
  "c_str buf = map (\<lambda>b. char_of (unat b)) (takeWhile (\<lambda>b. b \<noteq> 0) buf)"

text \<open>\<open>strncpy\<close> into a buffer of \<open>cap\<close> bytes, which is padded and terminated.\<close>

definition copy_err :: "u8 list \<Rightarrow> nat \<Rightarrow> string \<Rightarrow> u8 list" where
  "copy_err err cap msg =
     (if cap = 0 then err
      else
        let src = takeWhile (\<lambda>b. b \<noteq> 0) (bytes_of msg); body = take (cap - 1) src
        in body @ replicate (cap - 1 - length body) 0 @ [0] @ drop cap err)"

section \<open>Loading\<close>

text \<open>The buffer for the error is always there; \<open>Inl\<close> is a null result with the error in the buffer.\<close>

definition cuwasm_module_load ::
  "bool \<Rightarrow> (error \<Rightarrow> string) \<Rightarrow> env_root \<Rightarrow> (u8 list \<Rightarrow> (string + payload) list) \<Rightarrow> u8 list option \<Rightarrow> nat \<Rightarrow> u8 list \<Rightarrow> nat
     \<Rightarrow> (u8 list + host_module) ffi" where
  "cuwasm_module_load debug render root parse_all wasm len err err_cap =
     (if wasm = None \<and> len \<noteq> 0 then ret (Inl (copy_err err err_cap ''null wasm''))
      else
        bindS (load_wasm debug render root parse_all wasm len) (\<lambda>r.
          case r of
            Inl e \<Rightarrow> ret (Inl (copy_err err err_cap e))
          | Inr m \<Rightarrow>
              (case verify_cuop m of
                 Inl e \<Rightarrow> ret (Inl (copy_err err err_cap e))
               | Inr m' \<Rightarrow> ret (Inr m'))))"

definition find_export :: "host_module \<Rightarrow> string \<Rightarrow> int" where
  "find_export m name =
     (case List.find (\<lambda>e. fst e = name) (hm_exports m) of
        Some e \<Rightarrow> sint (snd e)
      | None \<Rightarrow> -1)"

definition cuwasm_module_memory :: "host_module \<Rightarrow> u8 list option" where
  "cuwasm_module_memory m = (if hm_memory m = [] then None else Some (hm_memory m))"

section \<open>Host calls through the C interface\<close>

text \<open>
  A callback of the C interface works on its context, on the guest memory its context points to, on a
  mailbox and on the buffer for an error. \<open>Inl\<close> is a call that does not return in a defined way.
\<close>

type_synonym 'c capi_host_fn = "'c \<Rightarrow> u8 list \<Rightarrow> mailbox \<Rightarrow> u8 list \<Rightarrow> nat \<Rightarrow> derr + int \<times> 'c \<times> u8 list \<times> mailbox \<times> u8 list"

definition bridge_mailbox :: "host_mailbox \<Rightarrow> mailbox" where
  "bridge_mailbox mb =
     (let n = min (unat (hb_n_args mb)) 16 in
      \<lparr>mb_fn_id = hb_fn_id mb, mb_n_args = hb_n_args mb, mb_n_results = hb_n_results mb,
       mb_args = take n (hb_args mb) @ replicate (16 - n) 0, mb_results = [0]\<rparr>)"

definition capi_host_bridge :: "host_module \<Rightarrow> 'c capi_host_fn option \<Rightarrow> 'c host_fn" where
  "capi_host_bridge m fn c mem mb =
     (case fn of
        None \<Rightarrow> default_host_fn m c mem mb
      | Some f \<Rightarrow>
          (case f c mem (bridge_mailbox mb) (replicate 256 0) 256 of
             Inl e \<Rightarrow> (Host_Undefined ''host callback'', c, mem, mb)
           | Inr (rc, c', mem', cmb, buf) \<Rightarrow>
               if rc = 0 then (Refused (c_str buf), c', mem', mb)
               else
                 (Served, c', mem',
                  mb\<lparr>hb_n_results := mb_n_results cmb,
                     hb_results := (if mb_n_results cmb > 0 then mb_results cmb ! 0 # drop 1 (hb_results mb) else hb_results mb)\<rparr>)))"

text \<open>
  The dispatcher as a callback. Its pointer \<open>mem\<close> goes to the memory of the module, which the driver
  changes in place; it is null for a module without memory.
\<close>

definition dispatch_fn ::
  "env_root \<Rightarrow> val_ops \<Rightarrow> ('h, 'sc) host_ops \<Rightarrow> (derr \<Rightarrow> u8 list) \<Rightarrow> bool \<Rightarrow> 'h dispatch_ctx capi_host_fn" where
  "dispatch_fn root V H render has_mem c mem mb buf cap =
     (case host_dispatch root V H render (Some (c\<lparr>dc_mem := (if has_mem then mem else [])\<rparr>)) (Some mb) (Some buf) cap of
        Inl e \<Rightarrow> Inl e
      | Inr (rc, c', mb', buf') \<Rightarrow>
          Inr (rc, the c', if has_mem then dc_mem (the c') else mem, the mb', the buf'))"

section \<open>Running\<close>

record capi_run_result =
  cr_status :: u16
  cr_results :: "u64 list"
  cr_n_results :: u32
  cr_error :: "u8 list"

fun status_code :: "status \<Rightarrow> u16" where
  "status_code ST_RUNNING = 0"
| "status_code ST_OK = 1"
| "status_code ST_TRAP_UNREACHABLE = 2"
| "status_code ST_TRAP_STACK_OVERFLOW = 3"
| "status_code ST_TRAP_CALL_DEPTH = 4"
| "status_code ST_OUT_OF_FUEL = 5"
| "status_code ST_UNSUPPORTED_OP = 6"
| "status_code ST_TRAP_DIV_BY_ZERO = 7"
| "status_code ST_TRAP_INT_OVERFLOW = 8"
| "status_code ST_TRAP_MEM_OOB = 9"
| "status_code ST_TRAP_INDIRECT_CALL = 10"
| "status_code ST_HOSTCALL_PENDING = 11"

definition zero_profile :: run_profile where
  "zero_profile =
     \<lparr>rp_opcode_counts = replicate (unat CUWASM_OP_COUNT) 0, rp_unsupported_opcode_counts = replicate (unat CUWASM_OP_COUNT) 0,
      rp_total_ops = 0\<rparr>"

text \<open>The results beyond the eighth are dropped, but counted in \<open>n_results\<close>.\<close>

definition fill_results :: "u64 list \<Rightarrow> u64 list \<Rightarrow> u64 list" where
  "fill_results rs buf = take 8 rs @ drop (length (take 8 rs)) buf"

definition cuwasm_module_run ::
  "nat \<Rightarrow> host_module \<Rightarrow> u32 \<Rightarrow> u64 list \<Rightarrow> nat \<Rightarrow> 'c capi_host_fn option \<Rightarrow> 'c \<Rightarrow> capi_run_result \<Rightarrow>
   (string + int \<times> capi_run_result \<times> run_profile \<times> host_module \<times> 'c) option" where
  "cuwasm_module_run fuel m func_idx args max_steps host c out =
     (case run_cpu fuel m func_idx args max_steps (capi_host_bridge m host) (Some zero_profile) c of
        None \<Rightarrow> None
      | Some (Inl e) \<Rightarrow> Some (Inl e)
      | Some (Inr (r, m', prof, c')) \<Rightarrow>
          Some (Inr
            (if rr_status r = ST_OK then 0 else 1,
             out\<lparr>cr_status := status_code (rr_status r), cr_n_results := of_nat (length (rr_results r)),
                 cr_results := fill_results (rr_results r) (cr_results out),
                 cr_error := copy_err (cr_error out) (length (cr_error out)) (rr_error r)\<rparr>,
             the prof, m', c')))"

section \<open>\<open>run_cuwasm_profile\<close>\<close>

text \<open>Every way not to return a value: the panics of the function, and undefined behaviour.\<close>

datatype run_failure =
    Panic_Load string
  | Panic_Translate "u8 list"
  | Panic_Nul
  | Panic_Export string
  | Panic_Arg derr
  | Panic_Run u16 "u8 list"
  | Panic_Results u32
  | Panic_Result derr
  | Run_Undefined string

text \<open>\<open>RunProfileOut\<close> with the traces, which the merging of profiles does not use.\<close>

record traced_profile = run_profile_out +
  pr_traces :: "host_call_trace list"

text \<open>The arguments become relative handles, in order.\<close>

fun relative_args :: "val_ops \<Rightarrow> u64 list \<Rightarrow> ('h dispatch_ctx, derr, u64 list) es" where
  "relative_args V [] = ret []"
| "relative_args V (a # as) = bindS (to_relative V a) (\<lambda>r. bindS (relative_args V as) (\<lambda>rs. ret (r # rs)))"

definition start_ctx :: "'h \<Rightarrow> host_module \<Rightarrow> 'h dispatch_ctx" where
  "start_ctx host m =
     \<lparr>dc_host = host, dc_mem = (case cuwasm_module_memory m of None \<Rightarrow> [] | Some mem \<Rightarrow> mem), dc_mem_size = hm_mem_size m,
      dc_relative = [], dc_calls = [], dc_traces = []\<rparr>"

definition empty_run_result :: capi_run_result where
  "empty_run_result = \<lparr>cr_status = 0, cr_results = replicate 8 0, cr_n_results = 0, cr_error = replicate 256 0\<rparr>"

text \<open>
  After the run: the status, the number of results, and the result as a value of the host. The host is
  shared with the caller, so its state is returned too.
\<close>

definition contract_result ::
  "val_ops \<Rightarrow> int \<Rightarrow> capi_run_result \<Rightarrow> run_profile \<Rightarrow> 'h dispatch_ctx \<Rightarrow> run_failure + u64 \<times> traced_profile \<times> 'h" where
  "contract_result V rc out prof c =
     (if rc \<noteq> 0 then Inl (Panic_Run (cr_status out) (cr_error out))
      else
        rbind
          (if cr_n_results out = 0 then Inr (void_val V)
           else if cr_n_results out \<noteq> 1 then Inl (Panic_Results (cr_n_results out))
           else case to_absolute V c (cr_results out ! 0) of Inl e \<Rightarrow> Inl (Panic_Result e) | Inr v \<Rightarrow> Inr v)
          (\<lambda>got. Inr (got,
             \<lparr>pr_host_calls = dc_calls c, pr_opcode_counts = rp_opcode_counts prof,
              pr_unsupported_opcode_counts = rp_unsupported_opcode_counts prof, pr_total_ops = rp_total_ops prof,
              pr_traces = dc_traces c\<rparr>, dc_host c)))"

definition run_module ::
  "nat \<Rightarrow> env_root \<Rightarrow> val_ops \<Rightarrow> ('h, 'sc) host_ops \<Rightarrow> (derr \<Rightarrow> u8 list) \<Rightarrow> host_module \<Rightarrow> u32 \<Rightarrow> u64 list \<Rightarrow> 'h \<Rightarrow>
   (run_failure + u64 \<times> traced_profile \<times> 'h) option" where
  "run_module fuel root V H render_host m fi args host =
     (case relative_args V args (start_ctx host m) of
        (Inl e, _) \<Rightarrow> Some (Inl (Panic_Arg e))
      | (Inr payloads, c) \<Rightarrow>
          (case cuwasm_module_run fuel m fi payloads 10000000
              (Some (dispatch_fn root V H render_host (hm_memory m \<noteq> []))) c empty_run_result of
             None \<Rightarrow> None
           | Some (Inl e) \<Rightarrow> Some (Inl (Run_Undefined e))
           | Some (Inr (rc, out, prof, m', c')) \<Rightarrow> Some (contract_result V rc out prof c')))"

definition run_cuwasm_profile ::
  "nat \<Rightarrow> bool \<Rightarrow> (error \<Rightarrow> string) \<Rightarrow> env_root \<Rightarrow> (u8 list \<Rightarrow> (string + payload) list) \<Rightarrow> val_ops \<Rightarrow> ('h, 'sc) host_ops \<Rightarrow>
   (derr \<Rightarrow> u8 list) \<Rightarrow> 'h \<Rightarrow> u8 list \<Rightarrow> string \<Rightarrow> u64 list \<Rightarrow> heap \<Rightarrow> (run_failure + u64 \<times> traced_profile \<times> 'h) option" where
  "run_cuwasm_profile fuel debug render root parse_all V H render_host host wasm export args hp =
     (case cuwasm_module_load debug render root parse_all (Some wasm) (length wasm) (replicate 256 0) 256 hp of
        (Inl (FPanic e), _) \<Rightarrow> Some (Inl (Panic_Load e))
      | (Inl (Undefined e), _) \<Rightarrow> Some (Inl (Run_Undefined e))
      | (Inr (Inl err), _) \<Rightarrow> Some (Inl (Panic_Translate err))
      | (Inr (Inr m), _) \<Rightarrow>
          if CHR 0x00 \<in> set export then Some (Inl Panic_Nul)
          else
            let fi = find_export m export in
            if fi < 0 then Some (Inl (Panic_Export export))
            else run_module fuel root V H render_host m (of_int fi) args host)"

end
