(* ===== verification/Contract_Safe.thy ===== *)
theory Contract_Safe
  imports Contract_Run Run_Cpu_Safe Dispatch_Memory Ffi_Safe Translate_Linked
begin

text \<open>
  A contract run as a whole: the dispatcher keeps the contract that the driver expects of a host, so a
  loaded and verified module runs to its result without undefined behaviour anywhere between the
  loader and the dispatcher.
\<close>

section \<open>The dispatcher answers with one result\<close>

lemma finish_call_one:
  "finish_call V res (c, mb) = (Inr u, (d, mb')) \<Longrightarrow> mb_n_results mb' = 1 \<and> length (mb_results mb') = length (mb_results mb)"
  by (cases res) (auto simp: finish_call_def set_result_def on_ctx_def bindS_Inr_iff split: if_splits prod.splits)

lemma trace_call_same: "trace_call V H name (c, mb) = (r, (d, mb')) \<Longrightarrow> mb' = mb"
  by (auto simp: trace_call_def on_ctx_def split: prod.splits)

lemma dispatch_one:
  assumes "dispatch root V H (c, mb) = (Inr u, (d, mb'))"
  shows "mb_n_results mb' = 1 \<and> length (mb_results mb') = length (mb_results mb)"
proof -
  let ?name = "call_name root mb"
  let ?arm = "if ?name \<in> set memory_calls then memory_call V H mb ?name else plain_call root V H mb ?name"
  obtain out x where "(case out of Value res \<Rightarrow> thenS (finish_call V res) (trace_call V H ?name)
      | Raw raw \<Rightarrow> thenS (finish_raw raw) (trace_call V H ?name) | Untraced \<Rightarrow> finish_call V None) (x, mb) = (Inr u, (d, mb'))"
    using assms unfolding dispatch_def call_name_def [symmetric]
    by (auto simp: Let_def on_ctx_def bindS_Inr_iff thenS_Inr_iff split: prod.splits)
  then show ?thesis
    by (cases out) (auto simp: thenS_Inr_iff finish_raw_def set_result_def dest!: finish_call_one trace_call_same)
qed

text \<open>The dispatcher behind the C interface keeps the contract of a host function.\<close>

definition ctx_fits :: "bool \<Rightarrow> 'h dispatch_ctx \<Rightarrow> nat \<Rightarrow> bool" where
  "ctx_fits has_mem c n \<longleftrightarrow> unat (dc_mem_size c) \<le> (if has_mem then n else 0)"

lemma dispatch_fn_post:
  assumes fits: "ctx_fits has_mem c (length mem)" and args: "unat (mb_n_args mb) \<le> length (mb_args mb)"
    and run: "dispatch_fn root V H render has_mem c mem mb buf cap = r"
  shows "\<exists>rc c' mem' mb' buf'. r = Inr (rc, c', mem', mb', buf') \<and> ctx_fits has_mem c' (length mem) \<and> length mem' = length mem \<and>
    (rc \<noteq> 0 \<longrightarrow> mb_n_results mb' = 1 \<and> length (mb_results mb') = length (mb_results mb))"
proof -
  let ?c = "c\<lparr>dc_mem := (if has_mem then mem else [])\<rparr>"
  obtain q d mb' where d: "dispatch root V H (?c, mb) = (q, (d, mb'))" by (metis surj_pair)
  have "mem_ok ?c" using fits by (simp add: mem_ok_def ctx_fits_def split: if_splits)
  from dispatch_post [OF this args d] have w: "length (dc_mem d) = length (dc_mem ?c)" "dc_mem_size d = dc_mem_size c"
    and calm: "\<And>e. q = Inl e \<Longrightarrow> calm e" by (auto simp: Let_def within_def)
  have fits': "ctx_fits has_mem d (length mem)" using fits w(2) by (simp add: ctx_fits_def)
  show ?thesis
  proof (cases q)
    case (Inl e)
    then show ?thesis using run d calm [OF Inl] w fits' by (cases e) (auto simp: dispatch_fn_def host_dispatch_def)
  next
    case (Inr u)
    then show ?thesis using run d w fits' dispatch_one [of root V H ?c mb u d mb'] by (auto simp: dispatch_fn_def host_dispatch_def)
  qed
qed

interpretation served: host_contract "capi_host_bridge m (Some (dispatch_fn root V H render has_mem))" "ctx_fits has_mem"
  for m root V H render has_mem
proof
  fix c mem mb r c' mem' mb'
  assume fits: "ctx_fits has_mem c (length mem)" and n: "length (hb_args mb) = 16" "unat (hb_n_args mb) \<le> 16"
    and run: "capi_host_bridge m (Some (dispatch_fn root V H render has_mem)) c mem mb = (r, c', mem', mb')"
  have "unat (mb_n_args (bridge_mailbox mb)) \<le> length (mb_args (bridge_mailbox mb))" using n by (simp add: bridge_mailbox_def Let_def)
  from dispatch_fn_post [OF fits this refl] obtain rc d mem'' cmb buf where
    "dispatch_fn root V H render has_mem c mem (bridge_mailbox mb) (replicate 256 0) 256 = Inr (rc, d, mem'', cmb, buf)"
    "ctx_fits has_mem d (length mem)" "length mem'' = length mem"
    "rc \<noteq> 0 \<longrightarrow> mb_n_results cmb = 1 \<and> length (mb_results cmb) = length (mb_results (bridge_mailbox mb))"
    by blast
  then show "ctx_fits has_mem c' (length mem) \<and> length mem' = length mem \<and> (\<forall>e. r \<noteq> Host_Undefined e) \<and>
     (r = Served \<longrightarrow> hb_n_results mb' = 1 \<and> hb_results mb' \<noteq> [] \<and> length (hb_args mb') = 16)"
    using run n(1) by (auto simp: capi_host_bridge_def split: if_splits)
qed

section \<open>A whole run\<close>

lemma relative_args_fits: "relative_args V as c = (r, d) \<Longrightarrow> dc_mem_size d = dc_mem_size c"
proof (induction "as" arbitrary: c r)
  case (Cons a "as")
  obtain q x where q: "to_relative V a c = (q, x)" by fastforce
  then have "dc_mem_size x = dc_mem_size c" by (auto simp: to_relative_def Let_def split: if_splits)
  moreover obtain q' y where "relative_args V as x = (q', y)" by fastforce
  ultimately show ?case using Cons.IH [of x q'] Cons.prems q by (cases q; cases q') auto
qed simp

lemma run_module_defined:
  assumes "verify_cuop m0 = Inr m" and "code_checks m" and im: "image_ok m"
    and "unat fi < length (hm_funcs m) \<Longrightarrow> entry_ok (hm_funcs m ! unat fi)"
  shows "run_module fuel root V H render_host m fi args host \<noteq> Some (Inl (Run_Undefined e))"
proof -
  obtain q c where q: "relative_args V args (start_ctx host m) = (q, c)" by fastforce
  have "ctx_fits (hm_memory m \<noteq> []) c (length (if hm_memory m = [] then [0] else hm_memory m))"
    using relative_args_fits [OF q] im by (auto simp: ctx_fits_def start_ctx_def image_ok_def)
  from served.run_cpu_defined [OF verified_runnable [OF assms(1,2)] im assms(4) this]
  have "run_cpu fuel m fi payloads ms (capi_host_bridge m' (Some (dispatch_fn root V H render_host (hm_memory m \<noteq> [])))) prof c \<noteq> Some (Inl e)"
    for payloads ms m' prof e .
  then show ?thesis using q
    by (auto simp: run_module_def cuwasm_module_run_def contract_result_def rbind_def split: sum.splits option.splits if_splits)
qed

text \<open>The image of a translated module is in order, and the verifier does not change it.\<close>

lemma translated_image_ok:
  assumes "translate_wasm root parse_all bytes = Inr m0" and "length (hm_data_blob m0) < 2 ^ 32" and "verify_cuop m0 = Inr m"
  shows "image_ok m"
proof -
  obtain fs where m: "m = m0\<lparr>hm_funcs := fs\<rparr>" using assms(3) by (auto simp: verify_cuop_def rbind_Inr_iff split: if_splits)
  obtain s where "finish s = Inr m0" using assms(1) by (auto simp: translate_wasm_def rbind_Inr_iff)
  then obtain d where d: "\<not> (ts_has_memory s \<and> ts_mem_min s > cap_pages s)" "data_inv (unat (mem_max_of s)) (ts_pending_data s) d"
    "hm_memory m0 = ds_memory d" "hm_data_blob m0 = ds_blob d" "hm_data_off m0 = ds_off d" "hm_data_len m0 = ds_len d"
    "hm_data_live m0 = ds_live d" "hm_mem_size m0 = mem_size_of s" "hm_mem_max m0 = mem_max_of s"
    by (rule finish_data)
  have "unat (ds_off d ! n) + unat (ds_len d ! n) \<le> length (ds_blob d)" if "n < length (ts_pending_data s)" for n
    using data_offsets(3) [OF d(2) _ that] assms(2) d(4) by simp
  then show ?thesis using d mem_bounds(1) [OF d(1)] assms(2)
    by (auto simp: image_ok_def m data_inv_def list_all_length)
qed

section \<open>Translated modules can run\<close>

text \<open>
  What is left for a contract to fulfil, as a test on the translated module: the table holds no imports,
  an import returns one value (the dispatcher always answers with one), and tail calls keep the number of
  results, which WebAssembly demands of them.
\<close>

definition link_checks :: "host_module \<Rightarrow> bool" where
  "link_checks m \<longleftrightarrow>
     list_all (\<lambda>fi. fi = TABLE_NULL \<or> length (hm_host_fn_id m) \<le> unat fi) (hm_table m) \<and>
     list_all (\<lambda>f. fm_n_results f = 1) (take (length (hm_host_fn_id m)) (hm_funcs m)) \<and>
     list_all (\<lambda>g. list_all (\<lambda>x. cu_op x = OP_RETURN_CALL \<longrightarrow> unat (cu_b x) < length (hm_funcs m) \<longrightarrow>
         fm_n_results (hm_funcs m ! unat (cu_b x)) = fm_n_results g)
       (take (unat (fm_code_len g)) (drop (unat (fm_code_off g)) (hm_code m)))) (hm_funcs m)"

definition entry_fits :: "host_module \<Rightarrow> u32 \<Rightarrow> bool" where
  "entry_fits m fi \<longleftrightarrow> length (hm_host_fn_id m) \<le> unat fi \<and> int (slots (hm_funcs m ! unat fi)) \<le> 4096"

text \<open>The verifier keeps everything of a function but \<open>max_stack\<close>, and it refuses an empty body.\<close>

lemma verify_cuop_Inr:
  assumes "verify_cuop m0 = Inr m"
  obtains fs where "m = m0\<lparr>hm_funcs := fs\<rparr>" and "length fs = length (hm_funcs m0)"
    and "\<forall>k < length fs. \<exists>x. fs ! k = (hm_funcs m0 ! k)\<lparr>fm_max_stack := x\<rparr>"
    and "\<forall>k < length fs. unat (hm_n_host_imports m0) \<le> k \<longrightarrow> code_fn m (fs ! k)"
proof -
  obtain fs where fs: "verify_fns m0 0 (hm_funcs m0) = Inr fs" and m: "m = m0\<lparr>hm_funcs := fs\<rparr>"
    using assms by (auto simp: verify_cuop_def rbind_Inr_iff split: if_splits)
  note v = verify_fns_Inr [OF fs]
  have r: "\<exists>x. fs ! k = (hm_funcs m0 ! k)\<lparr>fm_max_stack := x\<rparr>" if "k < length fs" for k
    using v that verify_fn_result by fastforce
  have "fm_code_len (fs ! k) \<noteq> 0" if k: "k < length fs" "unat (hm_n_host_imports m0) \<le> k" for k
  proof -
    have "verify_fn m0 k (hm_funcs m0 ! k) = Inr (fs ! k)" using v k by simp
    then have "fm_code_len (hm_funcs m0 ! k) \<noteq> 0" using k(2) by (auto simp: verify_fn_def Let_def split: if_splits)
    then show ?thesis using r [OF k(1)] by auto
  qed
  then have "code_fn m (fs ! k)" if "k < length fs" "unat (hm_n_host_imports m0) \<le> k" for k
    using that by (simp add: code_fn_def m)
  then show thesis using that m v r by blast
qed

lemma linked_code_checks:
  assumes t: "translate_wasm root parse_all bytes = Inr m0" and i: "imports_first (parse_all bytes)" and sh: "short m0"
    and v: "verify_cuop m0 = Inr m" and k: "link_checks m0"
  shows "code_checks m"
proof -
  obtain fs where m: "m = m0\<lparr>hm_funcs := fs\<rparr>" and len: "length fs = length (hm_funcs m0)"
    and r: "\<And>k. k < length fs \<Longrightarrow> \<exists>x. fs ! k = (hm_funcs m0 ! k)\<lparr>fm_max_stack := x\<rparr>"
    and c: "\<And>k. k < length fs \<Longrightarrow> unat (hm_n_host_imports m0) \<le> k \<Longrightarrow> code_fn m (fs ! k)"
    by (rule verify_cuop_Inr [OF v]) blast
  have lens: "length (hm_code m0) < 2 ^ 32" "length (hm_host_fn_id m0) < 2 ^ 32" using sh by (simp_all add: short_def)
  note l = translated_linked [OF t i lens]
  have n: "unat (hm_n_host_imports m0) = length (hm_host_fn_id m0)" using translate_parallel [OF t] lens(2) by simp
  have same: "fm_n_params (fs ! k) = fm_n_params (hm_funcs m0 ! k)" "fm_n_results (fs ! k) = fm_n_results (hm_funcs m0 ! k)"
    "fm_code_off (fs ! k) = fm_code_off (hm_funcs m0 ! k)" "fm_code_len (fs ! k) = fm_code_len (hm_funcs m0 ! k)" if "k < length fs" for k
    using r [OF that] by auto
  have one: "fm_n_results (hm_funcs m0 ! j) = 1" if "j < length (hm_host_fn_id m0)" for j
    using k l(3) that by (auto simp: link_checks_def list_all_length)
  have ins: "ins_runnable m (fs ! j) x"
    if x: "linked_ins m0 x" and j: "j < length fs"
      and tc: "cu_op x = OP_RETURN_CALL \<Longrightarrow> unat (cu_b x) < length fs \<Longrightarrow> fm_n_results (fs ! unat (cu_b x)) = fm_n_results (fs ! j)" for x j
  proof -
    have "drop_bit 8 (cu_a x) AND 0xFF = 1" if h: "cu_op x = OP_CALL_HOST"
    proof -
      obtain i where i: "i < length (hm_host_fn_id m0)" "unat (fm_n_params (hm_funcs m0 ! i)) \<le> 8" "unat (fm_n_results (hm_funcs m0 ! i)) \<le> 8"
        "cu_a x = fm_n_params (hm_funcs m0 ! i) OR push_bit 8 (fm_n_results (hm_funcs m0 ! i))"
        using x h by (auto simp: linked_ins_def)
      have "drop_bit 8 (cu_a x) AND 0xFF = fm_n_results (hm_funcs m0 ! i)"
        unfolding i(4) using i(2,3) by (intro packed_arity(2)) linarith+
      then show ?thesis using one [OF i(1)] by simp
    qed
    then show ?thesis using x tc c n by (auto simp: ins_runnable_def linked_ins_def clz_width_def m)
  qed
  have "list_all (ins_runnable m (fs ! j)) (take (unat (fm_code_len (fs ! j))) (drop (unat (fm_code_off (fs ! j))) (hm_code m0)))"
    if j: "j < length fs" for j
  proof -
    let ?xs = "take (unat (fm_code_len (fs ! j))) (drop (unat (fm_code_off (fs ! j))) (hm_code m0))"
    have "list_all (linked_ins m0) ?xs" using l(1) by (auto simp: list_all_iff dest!: in_set_takeD in_set_dropD)
    moreover have "cu_op x = OP_RETURN_CALL \<Longrightarrow> unat (cu_b x) < length fs \<Longrightarrow> fm_n_results (fs ! unat (cu_b x)) = fm_n_results (fs ! j)"
      if "x \<in> set ?xs" for x
      using k that j len nth_mem [of j "hm_funcs m0"] by (auto simp: link_checks_def list_all_iff same)
    ultimately show ?thesis using ins [OF _ j] by (auto simp: list_all_iff)
  qed
  moreover have "table_runnable m"
    using k c n l(2) len by (auto simp: table_runnable_def link_checks_def list_all_iff m same typed_fn_def)
  ultimately show ?thesis using lens(1) by (auto simp: code_checks_def m list_all_length)
qed

lemma entry_fits_ok:
  assumes t: "translate_wasm root parse_all bytes = Inr m0" and i: "imports_first (parse_all bytes)" and sh: "short m0"
    and v: "verify_cuop m0 = Inr m" and e: "entry_fits m0 fi" "unat fi < length (hm_funcs m)"
  shows "entry_ok (hm_funcs m ! unat fi)"
proof -
  obtain fs where m: "m = m0\<lparr>hm_funcs := fs\<rparr>" and len: "length fs = length (hm_funcs m0)"
    and r: "\<And>k. k < length fs \<Longrightarrow> \<exists>x. fs ! k = (hm_funcs m0 ! k)\<lparr>fm_max_stack := x\<rparr>"
    and c: "\<And>k. k < length fs \<Longrightarrow> unat (hm_n_host_imports m0) \<le> k \<Longrightarrow> code_fn m (fs ! k)"
    by (rule verify_cuop_Inr [OF v]) blast
  have lens: "length (hm_code m0) < 2 ^ 32" "length (hm_host_fn_id m0) < 2 ^ 32" using sh by (simp_all add: short_def)
  have n: "unat (hm_n_host_imports m0) = length (hm_host_fn_id m0)" using translate_parallel [OF t] lens(2) by simp
  have fi: "unat fi < length fs" using e(2) by (simp add: m)
  then have "unat (fm_n_results (hm_funcs m0 ! unat fi)) \<le> 8" using translated_linked(2) [OF t i lens] len by (simp add: typed_fn_def)
  moreover have "code_fn m (fs ! unat fi)" using c [OF fi] n e(1) by (simp add: entry_fits_def)
  ultimately show ?thesis using r [OF fi] e(1)
    by (auto simp: entry_ok_def entry_fits_def code_fn_def slots_def m word_le_nat_alt)
qed

text \<open>A loaded module is the translated one, verified.\<close>

lemma module_load_cases:
  assumes "fresh hp" and "\<forall>m0. translate_wasm root parse_all wasm = Inr m0 \<longrightarrow>
      nul_free m0 \<and> short m0 \<and> length (hm_func_typeidx m0) = length (hm_funcs m0)"
  obtains err hp' where "cuwasm_module_load debug render root parse_all (Some wasm) (length wasm) buf cap hp = (Inr (Inl err), hp')"
  | m0 m hp' where "cuwasm_module_load debug render root parse_all (Some wasm) (length wasm) buf cap hp = (Inr (Inr m), hp')"
    "translate_wasm root parse_all wasm = Inr m0" "verify_cuop m0 = Inr m"
proof -
  from load_wasm_exact [of "length wasm" wasm hp root parse_all debug render] assms obtain hp' where
    l: "load_wasm debug render root parse_all (Some wasm) (length wasm) hp =
      (Inr (case translate_wasm root parse_all wasm of
              Inl e \<Rightarrow> Inl (filter (\<lambda>c. c \<noteq> CHR 0x00) (render e)) | Inr m \<Rightarrow> Inr m), hp')" by auto
  show ?thesis
  proof (cases "translate_wasm root parse_all wasm")
    case (Inl e)
    then show ?thesis using l by (intro that(1)) (simp add: cuwasm_module_load_def)
  next
    case (Inr m0)
    then show ?thesis using l that by (cases "verify_cuop m0") (simp_all add: cuwasm_module_load_def)
  qed
qed

text \<open>A typed contract gets through loader and verifier, which change frame sizes only.\<close>

lemma typed_module_loads:
  assumes hp: "fresh hp" and t: "translate_wasm root parse_all wasm = Inr m0"
    and i: "imports_first (parse_all wasm)" and ty: "typed_payloads root (parse_all wasm) start_state"
    and ex: "nul_free m0" "short m0" "length (hm_func_typeidx m0) = length (hm_funcs m0)" "hm_code m0 \<noteq> []"
  shows "\<exists>hp'. hp_blocks hp' = hp_blocks hp \<and>
    ((\<exists>sizes. cuwasm_module_load debug render root parse_all (Some wasm) (length wasm) err cap hp =
        (Inr (Inr (m0\<lparr>hm_funcs := map2 (\<lambda>f n. f\<lparr>fm_max_stack := n\<rparr>) (hm_funcs m0) sizes\<rparr>)), hp') \<and> length sizes = length (hm_funcs m0)) \<or>
     cuwasm_module_load debug render root parse_all (Some wasm) (length wasm) err cap hp =
        (Inr (Inl (copy_err err cap ''max_stack overflow'')), hp'))"
proof -
  obtain hp' where l: "load_wasm debug render root parse_all (Some wasm) (length wasm) hp = (Inr (Inr m0), hp')"
    and b: "hp_blocks hp' = hp_blocks hp"
    using load_wasm_exact [of "length wasm" wasm hp root parse_all debug render] hp t ex(1-3) by auto
  have "(\<exists>fs. verify_cuop m0 = Inr (m0\<lparr>hm_funcs := fs\<rparr>)) \<or> verify_cuop m0 = Inl ''max_stack overflow''"
    using translated_verifies [OF t i ty ex(3,4)] ex(2) by (simp add: short_def)
  then show ?thesis
  proof
    assume "\<exists>fs. verify_cuop m0 = Inr (m0\<lparr>hm_funcs := fs\<rparr>)"
    then obtain m where m: "verify_cuop m0 = Inr m" by blast
    obtain fs where fs: "m = m0\<lparr>hm_funcs := fs\<rparr>" "length fs = length (hm_funcs m0)"
      "\<And>k. k < length fs \<Longrightarrow> \<exists>x. fs ! k = (hm_funcs m0 ! k)\<lparr>fm_max_stack := x\<rparr>"
      by (rule verify_cuop_Inr [OF m]) blast
    have "fs ! k = (hm_funcs m0 ! k)\<lparr>fm_max_stack := fm_max_stack (fs ! k)\<rparr>" if k: "k < length fs" for k
      using fs(3) [OF k] by auto
    then have "fs = map2 (\<lambda>f n. f\<lparr>fm_max_stack := n\<rparr>) (hm_funcs m0) (map fm_max_stack fs)"
      using fs(2) by (intro nth_equalityI) auto
    then show ?thesis using l b m fs by (intro exI [of _ hp'] conjI disjI1 exI [of _ "map fm_max_stack fs"]) (auto simp: cuwasm_module_load_def)
  next
    assume "verify_cuop m0 = Inl ''max_stack overflow''"
    then show ?thesis using l b by (intro exI [of _ hp']) (simp add: cuwasm_module_load_def)
  qed
qed

lemma find_export_member: "find_export m name = i \<Longrightarrow> 0 \<le> i \<Longrightarrow> \<exists>e \<in> set (hm_exports m). fst e = name \<and> of_int i = snd e"
  by (auto simp: find_export_def find_Some_iff split: option.splits)

lemma find_export_index:
  assumes "find_export m name = i" and "0 \<le> i"
  shows "\<exists>e \<in> set (hm_exports m). fst e = name \<and> unat (snd e) = nat i"
proof -
  obtain e where e: "e \<in> set (hm_exports m)" "fst e = name" "of_int i = snd e" using find_export_member [OF assms] by blast
  have "i < 2 ^ 31" using assms(1) sint_lt [where 'a = 32] by (auto simp: find_export_def split: option.splits)
  then have "unat (of_int i :: u32) = nat i" using assms(2) by (simp add: unsigned_of_int take_bit_eq_mod)
  then show ?thesis using e by auto
qed

lemma run_module_loaded: "run_module fuel root V H render_host m fi args host \<noteq> Some (Inl (Panic_Load e))"
  by (auto simp: run_module_def contract_result_def rbind_def split: prod.splits sum.splits option.splits if_splits)

lemma contract_defined:
  assumes hp: "fresh hp" and i: "imports_first (parse_all wasm)"
    and t: "\<forall>m0. translate_wasm root parse_all wasm = Inr m0 \<longrightarrow>
      nul_free m0 \<and> short m0 \<and> length (hm_func_typeidx m0) = length (hm_funcs m0)"
    and c: "\<forall>m0. translate_wasm root parse_all wasm = Inr m0 \<longrightarrow>
      link_checks m0 \<and> (\<forall>e \<in> set (hm_exports m0). fst e = export \<longrightarrow> entry_fits m0 (snd e))"
  shows "run_cuwasm_profile fuel debug render root parse_all V H render_host host wasm export args hp \<notin>
    {Some (Inl (Run_Undefined e)), Some (Inl (Panic_Load e))}"
proof (rule module_load_cases [OF hp t, of debug render "replicate 256 0" 256])
  fix err hp' assume "cuwasm_module_load debug render root parse_all (Some wasm) (length wasm) (replicate 256 0) 256 hp = (Inr (Inl err), hp')"
  then show ?thesis by (simp add: run_cuwasm_profile_def)
next
  fix m0 m hp' assume l: "cuwasm_module_load debug render root parse_all (Some wasm) (length wasm) (replicate 256 0) 256 hp = (Inr (Inr m), hp')"
    and m: "translate_wasm root parse_all wasm = Inr m0" "verify_cuop m0 = Inr m"
  have sh: "short m0" using t m(1) by simp
  then have "length (hm_data_blob m0) < 2 ^ 32" by (simp add: short_def)
  note im = translated_image_ok [OF m(1) this m(2)]
  have cc: "code_checks m" using c m linked_code_checks [OF m(1) i sh] by simp
  have "hm_exports m = hm_exports m0" using m(2) by (auto simp: verify_cuop_def rbind_Inr_iff split: if_splits)
  then have en: "\<And>e. e \<in> set (hm_exports m) \<Longrightarrow> fst e = export \<Longrightarrow> unat (snd e) < length (hm_funcs m) \<Longrightarrow>
      entry_ok (hm_funcs m ! unat (snd e))" using c m entry_fits_ok [OF m(1) i sh m(2)] by simp
  have "run_module fuel root V H render_host m (of_int i) args host \<noteq> Some (Inl (Run_Undefined e))"
    if i: "find_export m export = i" "0 \<le> i" for i
  proof (rule run_module_defined [OF m(2) cc im])
    assume "unat (of_int i :: u32) < length (hm_funcs m)"
    moreover obtain e where "e \<in> set (hm_exports m)" "fst e = export" "of_int i = snd e" using find_export_member [OF i] by blast
    ultimately show "entry_ok (hm_funcs m ! unat (of_int i :: u32))" using en by auto
  qed
  then show ?thesis using l by (simp add: run_cuwasm_profile_def run_module_loaded Let_def)
qed

section \<open>A sample contract\<close>

text \<open>One import of the host, and an export that calls it and returns its result.\<close>

definition calling_payloads :: "(string + payload) list" where
  "calling_payloads =
     [Inr (TypeSection [Inr [CT_Func [] [I64]]]),
      Inr (ImportSection [Inr \<lparr>imp_module = ''x'', imp_name = ''0'', imp_ty = TR_Func 0\<rparr>]),
      Inr (FunctionSection [Inr 0]),
      Inr (ExportSection [Inr \<lparr>ex_name = ''run'', ex_kind = EX_Func, ex_index = 1\<rparr>]),
      Inr (CodeSectionEntry \<lparr>fb_locals = Inr [], fb_operators = Inr [Inr (Call 0), Inr End]\<rparr>)]"

definition calling_module :: host_module where
  "calling_module = empty_module
     \<lparr>hm_code := [mk_op OP_CALL_HOST 256 1, mk_op OP_END_FUNC 1 0],
      hm_funcs :=
        [\<lparr>fm_code_off = 0, fm_code_len = 0, fm_n_params = 0, fm_n_results = 1, fm_n_locals = 0, fm_max_stack = 0\<rparr>,
         \<lparr>fm_code_off = 0, fm_code_len = 2, fm_n_params = 0, fm_n_results = 1, fm_n_locals = 0, fm_max_stack = 0\<rparr>],
      hm_exports := [(''run'', 1)], hm_func_typeidx := [0, 0], hm_type_fp := [4294967552], hm_n_host_imports := 1,
      hm_host_fn_id := [1], hm_host_import_mod := [''x''], hm_host_import_name := [''0''], hm_host_import_env := [''x::0 (obj_cmp)'']\<rparr>"

lemma calling_translates: "translate_wasm sample_root (\<lambda>_. calling_payloads) [] = Inr calling_module"
  by code_simp

lemma calling_exportable:
  "\<forall>m. translate_wasm sample_root (\<lambda>_. calling_payloads) [] = Inr m \<longrightarrow>
     nul_free m \<and> short m \<and> length (hm_func_typeidx m) = length (hm_funcs m)"
proof -
  have "\<forall>n \<in> {length (hm_code calling_module), length (hm_consts calling_module), length (hm_funcs calling_module),
      length (hm_exports calling_module), length (hm_globals calling_module), length (hm_data_blob calling_module),
      length (hm_data_off calling_module), length (hm_table calling_module), length (hm_type_fp calling_module),
      length (hm_host_fn_id calling_module)}. n \<le> 9" by code_simp
  then have "short calling_module" by (simp add: short_def)
  moreover have "nul_free calling_module" "length (hm_func_typeidx calling_module) = length (hm_funcs calling_module)" by code_simp+
  ultimately show ?thesis using calling_translates by simp
qed

lemma calling_checks:
  "imports_first calling_payloads" "link_checks calling_module" "\<forall>e \<in> set (hm_exports calling_module). entry_fits calling_module (snd e)"
  by code_simp+

lemma calling_typed: "typed_payloads sample_root calling_payloads start_state" "hm_code calling_module \<noteq> []"
  by code_simp+

lemma calling_verifies: "\<exists>m. verify_cuop calling_module = Inr m"
proof -
  have "case verify_cuop calling_module of Inl _ \<Rightarrow> False | Inr _ \<Rightarrow> True" by code_simp
  then show ?thesis by (auto split: sum.splits)
qed

end
