(* ===== verification/Gpu_Host.thy ===== *)
theory Gpu_Host
  imports Run_Cpu Contract_Run
begin

text \<open>
  The host that runs beside the interpreter on a GPU (\<open>include/cuwasm/gpu_host.h\<close>): an object heap and a
  key/value ledger in arrays of fixed size, and the dispatcher that serves host calls on them; and the
  runner that executes an export against it (\<open>include/cuwasm/gpu_host_run.h\<close>). An access outside an array
  would be undefined behaviour and is an error value, \<open>Inl\<close>. A pointer to an object is its index in the
  heap.
\<close>

unbundle bit_operations_syntax

section \<open>Values\<close>

abbreviation SOROBAN_TAG_U32VAL :: u8 where "SOROBAN_TAG_U32VAL \<equiv> 4"
abbreviation SOROBAN_TAG_I128SMALL :: u8 where "SOROBAN_TAG_I128SMALL \<equiv> 11"
abbreviation SOROBAN_TAG_I128OBJECT :: u8 where "SOROBAN_TAG_I128OBJECT \<equiv> 69"
abbreviation SOROBAN_TAG_STRING_OBJECT :: u8 where "SOROBAN_TAG_STRING_OBJECT \<equiv> 73"
abbreviation SOROBAN_TAG_SYMBOL_OBJECT :: u8 where "SOROBAN_TAG_SYMBOL_OBJECT \<equiv> 74"
abbreviation SOROBAN_TAG_VEC_OBJECT :: u8 where "SOROBAN_TAG_VEC_OBJECT \<equiv> 75"
abbreviation SOROBAN_TAG_MAP_OBJECT :: u8 where "SOROBAN_TAG_MAP_OBJECT \<equiv> 76"
abbreviation SOROBAN_TAG_ADDRESS_OBJECT :: u8 where "SOROBAN_TAG_ADDRESS_OBJECT \<equiv> 77"

abbreviation SOROBAN_TRUE :: u64 where "SOROBAN_TRUE \<equiv> 1"
abbreviation SOROBAN_FALSE :: u64 where "SOROBAN_FALSE \<equiv> 0"
abbreviation SOROBAN_VOID :: u64 where "SOROBAN_VOID \<equiv> 2"

abbreviation GPU_OBJ_CAP :: nat where "GPU_OBJ_CAP \<equiv> 32"
abbreviation GPU_OBJ_BYTES :: nat where "GPU_OBJ_BYTES \<equiv> 32"
abbreviation GPU_VEC_ELEMS :: nat where "GPU_VEC_ELEMS \<equiv> 4"
abbreviation GPU_STORAGE_CAP :: nat where "GPU_STORAGE_CAP \<equiv> 16"
abbreviation GPU_KV_KEY_MAX :: nat where "GPU_KV_KEY_MAX \<equiv> 128"
abbreviation GPU_KV_VAL_MAX :: nat where "GPU_KV_VAL_MAX \<equiv> 32"

definition soroban_make_obj :: "u32 \<Rightarrow> u8 \<Rightarrow> u64" where
  "soroban_make_obj handle tag = push_bit 32 (ucast handle) OR ucast tag"

definition soroban_tag :: "u64 \<Rightarrow> u8" where
  "soroban_tag raw = ucast (raw AND 0xFF)"

definition soroban_handle :: "u64 \<Rightarrow> u32" where
  "soroban_handle raw = ucast (drop_bit 32 raw)"

definition soroban_i128_small :: "u64 \<Rightarrow> u64" where
  "soroban_i128_small n = push_bit 8 n OR ucast SOROBAN_TAG_I128SMALL"

section \<open>Arrays\<close>

definition arr_get :: "'a list \<Rightarrow> nat \<Rightarrow> string + 'a" where
  "arr_get xs i = (if i < length xs then Inr (xs ! i) else Inl ''read outside an array'')"

definition arr_set :: "'a list \<Rightarrow> nat \<Rightarrow> 'a \<Rightarrow> string + 'a list" where
  "arr_set xs i x = (if i < length xs then Inr (xs[i := x]) else Inl ''write outside an array'')"

text \<open>The loops \<open>for (i < n) dst[i] = src[i]\<close>, which leave the rest of \<open>dst\<close> as it is.\<close>

definition arr_copy :: "'a list \<Rightarrow> 'a list \<Rightarrow> nat \<Rightarrow> string + 'a list" where
  "arr_copy dst src n =
     (if n \<le> length dst \<and> n \<le> length src then Inr (take n src @ drop n dst) else Inl ''copy outside an array'')"

definition kv_write_u64 :: "u64 \<Rightarrow> u8 list" where
  "kv_write_u64 v = to_le 8 v"

definition kv_read_u64 :: "u8 list \<Rightarrow> string + u64" where
  "kv_read_u64 src = (if 8 \<le> length src then Inr (from_le (take 8 src)) else Inl ''read outside an array'')"

section \<open>Object heap\<close>

record gpu_obj =
  go_tag :: u8
  go_len :: u32
  go_data :: "u8 list"
  go_elems :: "u64 list"

record gpu_heap =
  gh_entries :: "gpu_obj list"
  gh_count :: u32

definition zero_data :: "u8 list" where
  "zero_data = replicate GPU_OBJ_BYTES 0"

definition zero_elems :: "u64 list" where
  "zero_elems = replicate GPU_VEC_ELEMS 0"

definition obj_alloc :: "gpu_heap \<Rightarrow> u8 \<Rightarrow> u32 \<Rightarrow> u8 list option \<Rightarrow> string + u64 \<times> gpu_heap" where
  "obj_alloc heap tag len data =
     (if unat (gh_count heap) \<ge> GPU_OBJ_CAP then Inr (SOROBAN_VOID, heap)
      else
        let h = gh_count heap in
        rbind (case data of
                 None \<Rightarrow> Inr zero_data
               | Some src \<Rightarrow> arr_copy zero_data src (min (unat len) GPU_OBJ_BYTES)) (\<lambda>d.
        rbind (arr_set (gh_entries heap) (unat h) \<lparr>go_tag = tag, go_len = len, go_data = d, go_elems = zero_elems\<rparr>) (\<lambda>es.
        Inr (soroban_make_obj h tag, \<lparr>gh_entries = es, gh_count = h + 1\<rparr>))))"

definition obj_get :: "gpu_heap \<Rightarrow> u64 \<Rightarrow> nat option" where
  "obj_get heap raw = (let h = soroban_handle raw in if h \<ge> gh_count heap then None else Some (unat h))"

definition obj_entry :: "gpu_heap \<Rightarrow> u64 \<Rightarrow> string + gpu_obj option" where
  "obj_entry heap raw =
     (case obj_get heap raw of
        None \<Rightarrow> Inr None
      | Some h \<Rightarrow> rbind (arr_get (gh_entries heap) h) (\<lambda>e. Inr (Some e)))"

definition gpu_heap_reset :: "gpu_heap \<Rightarrow> gpu_heap" where
  "gpu_heap_reset heap =
     \<lparr>gh_entries = map (\<lambda>_. \<lparr>go_tag = 0, go_len = 0, go_data = zero_data, go_elems = zero_elems\<rparr>) (gh_entries heap),
      gh_count = 0\<rparr>"

section \<open>Ledger\<close>

record gpu_storage =
  gs_keys :: "u8 list list"
  gs_key_lens :: "u32 list"
  gs_values :: "u8 list list"
  gs_val_lens :: "u32 list"
  gs_count :: u32

fun bytes_eq_at :: "u8 list \<Rightarrow> u8 list \<Rightarrow> nat list \<Rightarrow> string + bool" where
  "bytes_eq_at a b [] = Inr True"
| "bytes_eq_at a b (i # is) =
     rbind (arr_get a i) (\<lambda>x. rbind (arr_get b i) (\<lambda>y. if x \<noteq> y then Inr False else bytes_eq_at a b is))"

definition kv_bytes_eq :: "u8 list \<Rightarrow> u8 list \<Rightarrow> u32 \<Rightarrow> string + bool" where
  "kv_bytes_eq a b n = bytes_eq_at a b [0..<unat n]"

fun kv_scan :: "gpu_storage \<Rightarrow> u8 list \<Rightarrow> u32 \<Rightarrow> nat list \<Rightarrow> string + nat option" where
  "kv_scan store key klen [] = Inr None"
| "kv_scan store key klen (i # is) =
     rbind (arr_get (gs_key_lens store) i) (\<lambda>l.
       if l \<noteq> klen then kv_scan store key klen is
       else
         rbind (arr_get (gs_keys store) i) (\<lambda>k.
         rbind (kv_bytes_eq k key klen) (\<lambda>eq. if eq then Inr (Some i) else kv_scan store key klen is)))"

definition kv_find :: "gpu_storage \<Rightarrow> u8 list \<Rightarrow> u32 \<Rightarrow> string + nat option" where
  "kv_find store key klen = kv_scan store key klen [0..<unat (gs_count store)]"

text \<open>The bytes of an address: those of its object, or zeros.\<close>

definition address_bytes :: "gpu_heap \<Rightarrow> u64 \<Rightarrow> string + u8 list" where
  "address_bytes heap v =
     rbind (obj_entry heap v) (\<lambda>a.
       case a of
         None \<Rightarrow> Inr (replicate 32 0)
       | Some e \<Rightarrow> arr_copy (replicate 32 0) (go_data e) 32)"

text \<open>
  The canonical key: the bytes written to the buffer so far, or \<open>None\<close> when it is full (\<open>return false\<close>).
\<close>

definition canon_elem :: "gpu_heap \<Rightarrow> u64 \<Rightarrow> u8 list \<Rightarrow> string + u8 list option" where
  "canon_elem heap ev out =
     (if soroban_tag ev = SOROBAN_TAG_ADDRESS_OBJECT then
        (if length out + 32 > GPU_KV_KEY_MAX then Inr None
         else rbind (address_bytes heap ev) (\<lambda>bs. Inr (Some (out @ bs))))
      else if length out + 8 > GPU_KV_KEY_MAX then Inr None
      else Inr (Some (out @ kv_write_u64 ev)))"

fun canon_elems :: "gpu_heap \<Rightarrow> u64 list \<Rightarrow> u8 list \<Rightarrow> string + u8 list option" where
  "canon_elems heap [] out = Inr (Some out)"
| "canon_elems heap (ev # evs) out =
     rbind (canon_elem heap ev out) (\<lambda>r. case r of None \<Rightarrow> Inr None | Some out \<Rightarrow> canon_elems heap evs out)"

definition kv_canon_key :: "gpu_heap \<Rightarrow> u64 \<Rightarrow> u8 \<Rightarrow> string + u8 list option" where
  "kv_canon_key heap key_val stype =
     (if soroban_tag key_val = SOROBAN_TAG_VEC_OBJECT then
        rbind (obj_entry heap key_val) (\<lambda>r.
          case r of
            None \<Rightarrow> Inr None
          | Some e \<Rightarrow>
              let ne = min (unat (go_len e)) GPU_VEC_ELEMS in
              if ne \<le> length (go_elems e) then canon_elems heap (take ne (go_elems e)) [stype]
              else Inl ''read outside an array'')
      else canon_elem heap key_val [stype])"

definition gpu_kv_put_raw :: "gpu_storage \<Rightarrow> u8 list \<Rightarrow> u32 \<Rightarrow> u8 list \<Rightarrow> u32 \<Rightarrow> string + gpu_storage" where
  "gpu_kv_put_raw store key klen val vlen =
     rbind (kv_find store key klen) (\<lambda>found.
     rbind (case found of
              Some idx \<Rightarrow> Inr (Some (idx, store))
            | None \<Rightarrow>
                if unat (gs_count store) \<ge> GPU_STORAGE_CAP then Inr None
                else
                  let idx = unat (gs_count store) in
                  rbind (arr_get (gs_keys store) idx) (\<lambda>row.
                  rbind (arr_copy row key (min (unat klen) GPU_KV_KEY_MAX)) (\<lambda>row'.
                  rbind (arr_set (gs_keys store) idx row') (\<lambda>keys.
                  rbind (arr_set (gs_key_lens store) idx klen) (\<lambda>lens.
                  Inr (Some (idx, store\<lparr>gs_count := gs_count store + 1, gs_keys := keys, gs_key_lens := lens\<rparr>))))))) (\<lambda>slot.
       case slot of
         None \<Rightarrow> Inr store
       | Some (idx, store) \<Rightarrow>
           let n = min (unat vlen) GPU_KV_VAL_MAX in
           rbind (arr_get (gs_values store) idx) (\<lambda>row.
           rbind (arr_copy row val n) (\<lambda>row'.
           rbind (arr_set (gs_values store) idx row') (\<lambda>vals.
           rbind (arr_set (gs_val_lens store) idx (of_nat n)) (\<lambda>lens.
           Inr (store\<lparr>gs_values := vals, gs_val_lens := lens\<rparr>)))))))"

definition gpu_kv_put_u64 :: "gpu_storage \<Rightarrow> u8 list \<Rightarrow> u32 \<Rightarrow> u64 \<Rightarrow> string + gpu_storage" where
  "gpu_kv_put_u64 store key klen val = gpu_kv_put_raw store key klen (kv_write_u64 val) 8"

definition SYM_ADMIN :: u64 where "SYM_ADMIN = 0xca72bb30e"
definition SYM_BALANCE :: u64 where "SYM_BALANCE = 0xd9b19b3a2a0e"

definition gpu_seed_admin :: "gpu_storage \<Rightarrow> u8 list \<Rightarrow> string + gpu_storage" where
  "gpu_seed_admin store admin_pk = gpu_kv_put_raw store (2 # kv_write_u64 SYM_ADMIN) 9 admin_pk 32"

definition gpu_seed_balance :: "gpu_storage \<Rightarrow> u8 list \<Rightarrow> u64 \<Rightarrow> string + gpu_storage" where
  "gpu_seed_balance store addr_pk amount =
     rbind (arr_copy (replicate 32 0) addr_pk 32) (\<lambda>pk.
     gpu_kv_put_u64 store (1 # kv_write_u64 SYM_BALANCE @ pk) 41 (soroban_i128_small amount))"

section \<open>Dispatch\<close>

record gpu_state =
  gp_heap :: gpu_heap
  gp_storage :: gpu_storage

text \<open>\<open>mb.n_results = 1; mb.results[0] = v;\<close> the array has one element.\<close>

definition answer :: "u64 \<Rightarrow> gpu_state \<Rightarrow> host_mailbox \<Rightarrow> string + bool \<times> gpu_state \<times> host_mailbox" where
  "answer v st mb = Inr (True, st, mb\<lparr>hb_n_results := 1, hb_results := v # tl (hb_results mb)\<rparr>)"

definition answer_obj :: "string + u64 \<times> gpu_heap \<Rightarrow> gpu_state \<Rightarrow> host_mailbox \<Rightarrow> string + bool \<times> gpu_state \<times> host_mailbox" where
  "answer_obj r st mb = rbind r (\<lambda>(v, heap). answer v (st\<lparr>gp_heap := heap\<rparr>) mb)"

definition arg_at :: "host_mailbox \<Rightarrow> nat \<Rightarrow> string + u64" where
  "arg_at mb i = arr_get (hb_args mb) i"

definition arg_hi :: "host_mailbox \<Rightarrow> nat \<Rightarrow> string + u32" where
  "arg_hi mb i = rbind (arg_at mb i) (\<lambda>v. Inr (ucast (drop_bit 32 v)))"

definition new_from_memory ::
  "u8 \<Rightarrow> gpu_state \<Rightarrow> host_mailbox \<Rightarrow> u8 list option \<Rightarrow> u32 \<Rightarrow> string + bool \<times> gpu_state \<times> host_mailbox" where
  "new_from_memory tag st mb mem mem_size =
     rbind (arg_hi mb 0) (\<lambda>ptr.
     rbind (arg_hi mb 1) (\<lambda>len.
     let src = (case mem of
                  None \<Rightarrow> None
                | Some bs \<Rightarrow> if unat ptr + unat len \<le> unat mem_size then Some (drop (unat ptr) bs) else None)
     in answer_obj (obj_alloc (gp_heap st) tag len src) st mb))"

text \<open>One element of a vector from linear memory; the offset is computed in 32 bits.\<close>

definition vec_elem :: "u8 list \<Rightarrow> u32 \<Rightarrow> u32 \<Rightarrow> nat \<Rightarrow> u64 list \<Rightarrow> string + u64 list" where
  "vec_elem bs mem_size ptr i elems =
     (let off = ptr + of_nat i * 8 in
      if unat off + 8 \<le> unat mem_size then
        rbind (kv_read_u64 (drop (unat off) bs)) (\<lambda>v. arr_set elems i v)
      else Inr elems)"

text \<open>The elements go to the object the new handle names, if it names one.\<close>

definition vec_fill :: "gpu_heap \<Rightarrow> u64 \<Rightarrow> u8 list option \<Rightarrow> u32 \<Rightarrow> u32 \<Rightarrow> u32 \<Rightarrow> string + gpu_heap" where
  "vec_fill heap raw mem mem_size ptr n =
     (case (obj_get heap raw, mem) of
        (Some h, Some bs) \<Rightarrow>
          rbind (arr_get (gh_entries heap) h) (\<lambda>e.
          rbind (rfold (vec_elem bs mem_size ptr) [0..<min (unat n) GPU_VEC_ELEMS] (go_elems e)) (\<lambda>elems.
          rbind (arr_set (gh_entries heap) h (e\<lparr>go_len := n, go_elems := elems\<rparr>)) (\<lambda>es.
          Inr (heap\<lparr>gh_entries := es\<rparr>))))
      | _ \<Rightarrow> Inr heap)"

definition vec_new ::
  "gpu_state \<Rightarrow> host_mailbox \<Rightarrow> u8 list option \<Rightarrow> u32 \<Rightarrow> string + bool \<times> gpu_state \<times> host_mailbox" where
  "vec_new st mb mem mem_size =
     rbind (arg_hi mb 0) (\<lambda>ptr.
     rbind (arg_hi mb 1) (\<lambda>n.
     rbind (obj_alloc (gp_heap st) SOROBAN_TAG_VEC_OBJECT n None) (\<lambda>(raw, heap).
     rbind (vec_fill heap raw mem mem_size ptr n) (\<lambda>heap.
     answer raw (st\<lparr>gp_heap := heap\<rparr>) mb))))"

definition from_i128 :: "gpu_state \<Rightarrow> host_mailbox \<Rightarrow> string + bool \<times> gpu_state \<times> host_mailbox" where
  "from_i128 st mb =
     rbind (arg_at mb 1) (\<lambda>lo. rbind (arg_at mb 0) (\<lambda>hi.
     answer_obj (obj_alloc (gp_heap st) SOROBAN_TAG_I128OBJECT 16 (Some (to_le 8 lo @ to_le 8 hi))) st mb))"

text \<open>The lower or upper half of an i128 object; 0 for anything else.\<close>

definition i128_half :: "nat \<Rightarrow> gpu_state \<Rightarrow> host_mailbox \<Rightarrow> string + bool \<times> gpu_state \<times> host_mailbox" where
  "i128_half off st mb =
     rbind (arg_at mb 0) (\<lambda>v.
     rbind (obj_entry (gp_heap st) v) (\<lambda>r.
     rbind (case r of
              Some e \<Rightarrow> if go_tag e = SOROBAN_TAG_I128OBJECT then kv_read_u64 (drop off (go_data e)) else Inr 0
            | None \<Rightarrow> Inr 0) (\<lambda>w.
     answer w st mb)))"

definition find_key :: "gpu_state \<Rightarrow> u64 \<Rightarrow> u8 \<Rightarrow> string + nat option" where
  "find_key st key stype =
     rbind (kv_canon_key (gp_heap st) key stype) (\<lambda>k.
       case k of None \<Rightarrow> Inr None | Some keybuf \<Rightarrow> kv_find (gp_storage st) keybuf (of_nat (length keybuf)))"

definition has_data :: "gpu_state \<Rightarrow> host_mailbox \<Rightarrow> string + bool \<times> gpu_state \<times> host_mailbox" where
  "has_data st mb =
     rbind (arg_at mb 1) (\<lambda>t. rbind (arg_at mb 0) (\<lambda>key.
     rbind (find_key st key (ucast t)) (\<lambda>idx.
     answer (if idx = None then SOROBAN_FALSE else SOROBAN_TRUE) st mb)))"

definition get_data :: "gpu_state \<Rightarrow> host_mailbox \<Rightarrow> string + bool \<times> gpu_state \<times> host_mailbox" where
  "get_data st mb =
     rbind (arg_at mb 1) (\<lambda>t. rbind (arg_at mb 0) (\<lambda>key.
     rbind (find_key st key (ucast t)) (\<lambda>found.
       case found of
         None \<Rightarrow> answer SOROBAN_VOID st mb
       | Some idx \<Rightarrow>
           rbind (arr_get (gs_val_lens (gp_storage st)) idx) (\<lambda>len.
           rbind (arr_get (gs_values (gp_storage st)) idx) (\<lambda>row.
             if len = 32 then answer_obj (obj_alloc (gp_heap st) SOROBAN_TAG_ADDRESS_OBJECT 32 (Some row)) st mb
             else if len \<ge> 8 then rbind (kv_read_u64 row) (\<lambda>v. answer v st mb)
             else answer SOROBAN_VOID st mb)))))"

definition put_data :: "gpu_state \<Rightarrow> host_mailbox \<Rightarrow> string + bool \<times> gpu_state \<times> host_mailbox" where
  "put_data st mb =
     rbind (arg_at mb 2) (\<lambda>t. rbind (arg_at mb 0) (\<lambda>key.
     rbind (kv_canon_key (gp_heap st) key (ucast t)) (\<lambda>k.
       case k of
         None \<Rightarrow> answer SOROBAN_VOID st mb
       | Some keybuf \<Rightarrow>
           rbind (arg_at mb 1) (\<lambda>v.
           rbind (if soroban_tag v = SOROBAN_TAG_ADDRESS_OBJECT
                  then rbind (address_bytes (gp_heap st) v) (\<lambda>pk.
                    gpu_kv_put_raw (gp_storage st) keybuf (of_nat (length keybuf)) pk 32)
                  else gpu_kv_put_u64 (gp_storage st) keybuf (of_nat (length keybuf)) v) (\<lambda>storage.
           answer SOROBAN_VOID (st\<lparr>gp_storage := storage\<rparr>) mb)))))"

definition gpu_host_dispatch ::
  "gpu_state \<Rightarrow> host_mailbox \<Rightarrow> u8 list option \<Rightarrow> u32 \<Rightarrow> string + bool \<times> gpu_state \<times> host_mailbox" where
  "gpu_host_dispatch st mb mem mem_size =
     (let fn = unat (hb_fn_id mb) in
      if fn = 137 then new_from_memory SOROBAN_TAG_STRING_OBJECT st mb mem mem_size
      else if fn = 138 then new_from_memory SOROBAN_TAG_SYMBOL_OBJECT st mb mem mem_size
      else if fn = 93 then vec_new st mb mem mem_size
      else if fn = 72 then answer_obj (obj_alloc (gp_heap st) SOROBAN_TAG_MAP_OBJECT 0 None) st mb
      else if fn = 73 then answer SOROBAN_VOID st mb
      else if fn = 17 then from_i128 st mb
      else if fn = 18 then i128_half 0 st mb
      else if fn = 19 then i128_half 8 st mb
      else if fn = 96 then has_data st mb
      else if fn = 97 then get_data st mb
      else if fn = 95 then put_data st mb
      else if fn \<in> {103, 104, 182, 2} then answer SOROBAN_VOID st mb
      else if fn = 4 then answer (push_bit 8 100 OR ucast SOROBAN_TAG_U32VAL) st mb
      else if fn = 8 then answer_obj (obj_alloc (gp_heap st) SOROBAN_TAG_ADDRESS_OBJECT 0 None) st mb
      else Inr (False, st, mb))"

section \<open>The runner\<close>

record gpu_run =
  gr_status :: status
  gr_result :: u64
  gr_error :: string

definition default_gpu_run :: gpu_run where
  "default_gpu_run = \<lparr>gr_status = ST_UNSUPPORTED_OP, gr_result = 0, gr_error = []\<rparr>"

text \<open>
  A round of the loop: the interpreter, then one host call. Every round passes the memory view with the
  size the module had at the start; the dispatcher gets the size the interpreter reported.
\<close>

fun gpu_loop :: "nat \<Rightarrow> host_module \<Rightarrow> nat \<Rightarrow> inst \<times> gpu_state \<Rightarrow> (string + (gpu_run + status) \<times> inst \<times> gpu_state) option" where
  "gpu_loop 0 m max_steps st = None"
| "gpu_loop (Suc fuel) m max_steps (s, hs) =
     (case run_instance m max_steps (s\<lparr>i_mem_size := hm_mem_size m\<rparr>) of
        (UB e, t) \<Rightarrow> Some (Inl e)
      | (Trap status, t) \<Rightarrow>
          if status \<noteq> ST_HOSTCALL_PENDING then Some (Inr (Inr status, t, hs))
          else
            (case gpu_host_dispatch hs (i_mb t) (Some (i_mem t)) (i_mem_size t) of
               Inl e \<Rightarrow> Some (Inl e)
             | Inr (False, hs', mb) \<Rightarrow> Some (Inr (Inl (default_gpu_run\<lparr>gr_error := ''unsupported host fn''\<rparr>), t\<lparr>i_mb := mb\<rparr>, hs'))
             | Inr (True, hs', mb) \<Rightarrow>
                 (case take_results (t\<lparr>i_mb := mb\<rparr>) of
                    (Inl (UB e), u) \<Rightarrow> Some (Inl e)
                  | (Inl (Trap status), u) \<Rightarrow> Some (Inr (Inl (default_gpu_run\<lparr>gr_status := status\<rparr>), u, hs'))
                  | (Inr _, u) \<Rightarrow> gpu_loop fuel m max_steps (u, hs'))))"

definition run_gpu_host ::
  "nat \<Rightarrow> host_module \<Rightarrow> string \<Rightarrow> u64 list \<Rightarrow> gpu_state \<Rightarrow> nat \<Rightarrow> (string + gpu_run \<times> host_module \<times> gpu_state) option" where
  "run_gpu_host fuel m export args hs max_steps =
     (let fi = find_export m export in
      if fi < 0 then Some (Inr (default_gpu_run\<lparr>gr_error := ''export not found''\<rparr>, m, hs))
      else
        case arr_get (hm_funcs m) (nat fi) of
          Inl e \<Rightarrow> Some (Inl e)
        | Inr f \<Rightarrow>
            if length args \<noteq> unat (fm_n_params f) then Some (Inr (default_gpu_run\<lparr>gr_error := ''argc mismatch''\<rparr>, m, hs))
            else
              (case setup_call f args ((init_inst m f None)\<lparr>i_fuel := sint (of_nat max_steps :: u64)\<rparr>) of
                 (Inl (UB e), _) \<Rightarrow> Some (Inl e)
               | (Inl (Trap st), _) \<Rightarrow> Some (Inl ''no trap in the setup'')
               | (Inr _, s) \<Rightarrow>
                   (case gpu_loop fuel m max_steps (s, hs) of
                      None \<Rightarrow> None
                    | Some (Inl e) \<Rightarrow> Some (Inl e)
                    | Some (Inr (Inl r, t, hs')) \<Rightarrow> Some (Inr (r, write_back m t, hs'))
                    | Some (Inr (Inr status, t, hs')) \<Rightarrow>
                        Some (rbind (if unat (fm_n_results f) > 0 \<and> i_sp t > 0 then arr_get (i_stack t) 0 else Inr 0) (\<lambda>res. Inr
                          (\<lparr>gr_status = status, gr_result = res, gr_error = []\<rparr>, (write_back m t)\<lparr>hm_mem_size := i_mem_size t\<rparr>, hs'))))))"

section \<open>Snapshots and seeds\<close>

type_synonym module_image = "u8 list \<times> u64 list \<times> u8 list \<times> u32"

definition snapshot_module :: "host_module \<Rightarrow> module_image" where
  "snapshot_module m = (hm_memory m, hm_globals m, hm_data_live m, hm_mem_size m)"

definition restore_module :: "host_module \<Rightarrow> module_image \<Rightarrow> host_module" where
  "restore_module m = (\<lambda>(mem, globals, live, mem_size).
     m\<lparr>hm_memory := mem, hm_globals := globals, hm_data_live := live, hm_mem_size := mem_size\<rparr>)"

definition fill_pk :: "u8 \<Rightarrow> u8 list" where
  "fill_pk b = replicate 32 b"

text \<open>The objects of a seed, allocated in order in a heap that was reset.\<close>

fun alloc_all :: "(u8 \<times> u32 \<times> u8 list) list \<Rightarrow> gpu_heap \<Rightarrow> string + gpu_heap" where
  "alloc_all [] heap = Inr heap"
| "alloc_all ((tag, len, data) # os) heap = rbind (obj_alloc heap tag len (Some data)) (\<lambda>(_, heap). alloc_all os heap)"

definition seed_heap :: "gpu_state \<Rightarrow> (u8 \<times> u32 \<times> u8 list) list \<Rightarrow> string + gpu_state" where
  "seed_heap hs os = rbind (alloc_all os (gpu_heap_reset (gp_heap hs))) (\<lambda>heap. Inr (hs\<lparr>gp_heap := heap\<rparr>))"

definition amount_bytes :: "u64 \<Rightarrow> u8 list" where
  "amount_bytes amount = kv_write_u64 amount @ replicate 8 0"

definition seed_mint_args :: "gpu_state \<Rightarrow> u8 list \<Rightarrow> u64 \<Rightarrow> string + gpu_state" where
  "seed_mint_args hs alice amount =
     seed_heap hs [(SOROBAN_TAG_ADDRESS_OBJECT, 32, alice), (SOROBAN_TAG_I128OBJECT, 16, amount_bytes amount)]"

definition seed_balance_args :: "gpu_state \<Rightarrow> u8 list \<Rightarrow> string + gpu_state" where
  "seed_balance_args hs addr = seed_heap hs [(SOROBAN_TAG_ADDRESS_OBJECT, 32, addr)]"

definition seed_transfer_args :: "gpu_state \<Rightarrow> u8 list \<Rightarrow> u8 list \<Rightarrow> u64 \<Rightarrow> string + gpu_state" where
  "seed_transfer_args hs src dst amount =
     seed_heap hs [(SOROBAN_TAG_ADDRESS_OBJECT, 32, src), (SOROBAN_TAG_ADDRESS_OBJECT, 32, dst),
       (SOROBAN_TAG_I128OBJECT, 16, amount_bytes amount)]"

end
