(* ===== verification/Gpu_Host_Correct.thy ===== *)
theory Gpu_Host_Correct
  imports Gpu_Host Dispatch_Safe Run_Cpu_Safe
begin

text \<open>
  The GPU host. Its ledger implements a finite map of at most sixteen keys; its dispatcher stays inside
  its arrays and keeps them in shape, so it meets the contract of a host function and the runner over it
  is defined; what a contract stores it reads back.
\<close>

section \<open>Arrays\<close>

lemma arr_simps [simp]:
  "i < length xs \<Longrightarrow> arr_get xs i = Inr (xs ! i)"
  "i < length xs \<Longrightarrow> arr_set xs i x = Inr (xs[i := x])"
  "n \<le> length dst \<Longrightarrow> n \<le> length src \<Longrightarrow> arr_copy dst src n = Inr (take n src @ drop n dst)"
  by (simp_all add: arr_get_def arr_set_def arr_copy_def)

lemma length_kv_write_u64 [simp]: "length (kv_write_u64 v) = 8"
  by (simp add: kv_write_u64_def)

lemma kv_read_write [simp]: "kv_read_u64 (kv_write_u64 v @ rest) = Inr v"
  by (simp add: kv_read_u64_def kv_write_u64_def)

lemma kv_read_some: "8 \<le> length src \<Longrightarrow> \<exists>v. kv_read_u64 src = Inr v"
  by (simp add: kv_read_u64_def)

section \<open>The ledger as a map\<close>

definition store_ok :: "gpu_storage \<Rightarrow> bool" where
  "store_ok s \<longleftrightarrow>
     length (gs_keys s) = GPU_STORAGE_CAP \<and> length (gs_key_lens s) = GPU_STORAGE_CAP \<and>
     length (gs_values s) = GPU_STORAGE_CAP \<and> length (gs_val_lens s) = GPU_STORAGE_CAP \<and>
     unat (gs_count s) \<le> GPU_STORAGE_CAP \<and>
     list_all (\<lambda>k. length k = GPU_KV_KEY_MAX) (gs_keys s) \<and> list_all (\<lambda>l. unat l \<le> GPU_KV_KEY_MAX) (gs_key_lens s) \<and>
     list_all (\<lambda>v. length v = GPU_KV_VAL_MAX) (gs_values s) \<and> list_all (\<lambda>l. unat l \<le> GPU_KV_VAL_MAX) (gs_val_lens s)"

definition key_at :: "gpu_storage \<Rightarrow> nat \<Rightarrow> u8 list" where
  "key_at s i = take (unat (gs_key_lens s ! i)) (gs_keys s ! i)"

definition val_at :: "gpu_storage \<Rightarrow> nat \<Rightarrow> u8 list" where
  "val_at s i = take (unat (gs_val_lens s ! i)) (gs_values s ! i)"

definition store_map :: "gpu_storage \<Rightarrow> u8 list \<rightharpoonup> u8 list" where
  "store_map s = map_of (map (\<lambda>i. (key_at s i, val_at s i)) [0..<unat (gs_count s)])"

text \<open>The rows of a well-formed ledger, used or not.\<close>

lemma store_rows:
  assumes "store_ok s" and "i < GPU_STORAGE_CAP"
  shows "length (gs_keys s ! i) = GPU_KV_KEY_MAX" "unat (gs_key_lens s ! i) \<le> GPU_KV_KEY_MAX"
    "length (gs_values s ! i) = GPU_KV_VAL_MAX" "unat (gs_val_lens s ! i) \<le> GPU_KV_VAL_MAX"
    "length (key_at s i) = unat (gs_key_lens s ! i)" "length (val_at s i) = unat (gs_val_lens s ! i)"
  using assms by (auto simp: store_ok_def list_all_length key_at_def val_at_def)

lemma bytes_eq_at_in_range:
  "\<forall>i \<in> set is. i < length a \<and> i < length b \<Longrightarrow> bytes_eq_at a b is = Inr (\<forall>i \<in> set is. a ! i = b ! i)"
  by (induction "is") auto

lemma kv_bytes_eq_take:
  "unat n \<le> length a \<Longrightarrow> length b = unat n \<Longrightarrow> kv_bytes_eq a b n = Inr (take (unat n) a = b)"
  by (simp add: kv_bytes_eq_def bytes_eq_at_in_range list_eq_iff_nth_eq) auto

lemma kv_scan_find:
  assumes "store_ok s" and "length key = unat klen" and "\<forall>i \<in> set is. i < GPU_STORAGE_CAP"
  shows "kv_scan s key klen is = Inr (List.find (\<lambda>i. key_at s i = key) is)"
  using assms(3)
proof (induction "is")
  case (Cons i "is")
  note rows = store_rows [OF assms(1), of i]
  have i: "i < length (gs_key_lens s)" "i < length (gs_keys s)" using assms(1) Cons.prems by (simp_all add: store_ok_def)
  show ?case
  proof (cases "gs_key_lens s ! i = klen")
    case True
    then have "unat klen \<le> length (gs_keys s ! i)" using rows(1,2) Cons.prems by simp
    then show ?thesis using Cons i True assms(2) by (simp add: kv_bytes_eq_take key_at_def)
  next
    case False
    then have "key_at s i \<noteq> key" using rows(5) Cons.prems assms(2) by (auto simp: word_unat_eq_iff)
    then show ?thesis using Cons i False by simp
  qed
qed simp

lemma kv_find_eq:
  assumes "store_ok s" and "length key = unat klen"
  shows "kv_find s key klen = Inr (List.find (\<lambda>i. key_at s i = key) [0..<unat (gs_count s)])"
  unfolding kv_find_def using assms by (intro kv_scan_find) (auto simp: store_ok_def)

text \<open>A lookup in a table of rows is the search for the first row with the key.\<close>

lemma map_of_find: "map_of (map (\<lambda>i. (f i, g i)) is) k = map_option g (List.find (\<lambda>i. f i = k) is)"
  by (induction "is") auto

lemma store_map_find: "store_map s key = map_option (val_at s) (List.find (\<lambda>i. key_at s i = key) [0..<unat (gs_count s)])"
  by (simp add: store_map_def map_of_find)

lemma kv_find_cases:
  assumes "store_ok s" and "length key = unat klen"
  obtains (absent) "kv_find s key klen = Inr None" "store_map s key = None"
  | (present) i where "kv_find s key klen = Inr (Some i)" "i < unat (gs_count s)" "key_at s i = key" "store_map s key = Some (val_at s i)"
proof (cases "List.find (\<lambda>i. key_at s i = key) [0..<unat (gs_count s)]")
  case None
  then show thesis using absent kv_find_eq [OF assms] by (simp add: store_map_find)
next
  case (Some i)
  then have "i < unat (gs_count s)" "key_at s i = key" by (auto simp: find_Some_iff)
  then show thesis using Some present kv_find_eq [OF assms] by (simp add: store_map_find)
qed

text \<open>The two writes of a put: a new key in the first free row, and the value in a row.\<close>

definition new_key :: "gpu_storage \<Rightarrow> u8 list \<Rightarrow> gpu_storage" where
  "new_key s key =
     (let c = unat (gs_count s) in
      s\<lparr>gs_count := gs_count s + 1, gs_keys := (gs_keys s)[c := key @ drop (length key) (gs_keys s ! c)],
        gs_key_lens := (gs_key_lens s)[c := of_nat (length key)]\<rparr>)"

definition write_value :: "gpu_storage \<Rightarrow> nat \<Rightarrow> u8 list \<Rightarrow> gpu_storage" where
  "write_value s i bs =
     s\<lparr>gs_values := (gs_values s)[i := bs @ drop (length bs) (gs_values s ! i)],
       gs_val_lens := (gs_val_lens s)[i := of_nat (length bs)]\<rparr>"

lemma write_value_ok: "store_ok s \<Longrightarrow> i < GPU_STORAGE_CAP \<Longrightarrow> length bs \<le> GPU_KV_VAL_MAX \<Longrightarrow> store_ok (write_value s i bs)"
  using store_rows(3) [of s i] by (simp add: store_ok_def write_value_def list_all_update unat_of_nat)

lemma write_value_rows:
  assumes "store_ok s" and "i < GPU_STORAGE_CAP" and "length bs \<le> GPU_KV_VAL_MAX"
  shows "gs_count (write_value s i bs) = gs_count s" "key_at (write_value s i bs) j = key_at s j"
    "val_at (write_value s i bs) j = (if j = i then bs else val_at s j)"
  using assms by (simp_all add: store_ok_def write_value_def key_at_def val_at_def unat_of_nat)

lemma new_key_ok:
  assumes "store_ok s" and "unat (gs_count s) < GPU_STORAGE_CAP" and "length key \<le> GPU_KV_KEY_MAX"
  shows "store_ok (new_key s key)" "unat (gs_count (new_key s key)) = unat (gs_count s) + 1"
proof -
  show c: "unat (gs_count (new_key s key)) = unat (gs_count s) + 1"
    using assms(2) unat_add_small [of "gs_count s" 1] by (simp add: new_key_def Let_def)
  show "store_ok (new_key s key)"
    using assms c store_rows(1) [of s "unat (gs_count s)"] by (simp add: store_ok_def new_key_def Let_def list_all_update unat_of_nat)
qed

lemma new_key_rows:
  assumes "store_ok s" and "unat (gs_count s) < GPU_STORAGE_CAP" and "length key \<le> GPU_KV_KEY_MAX"
  shows "key_at (new_key s key) j = (if j = unat (gs_count s) then key else key_at s j)" "val_at (new_key s key) j = val_at s j"
  using assms by (simp_all add: store_ok_def new_key_def Let_def key_at_def val_at_def unat_of_nat)

lemma put_present:
  assumes "store_ok s" and "kv_find s key klen = Inr (Some i)" and "i < GPU_STORAGE_CAP" and "min (unat vlen) GPU_KV_VAL_MAX \<le> length val"
  shows "gpu_kv_put_raw s key klen val vlen = Inr (write_value s i (take (min (unat vlen) GPU_KV_VAL_MAX) val))"
proof -
  have i: "i < length (gs_values s)" "i < length (gs_val_lens s)" using assms by (simp_all add: store_ok_def)
  show ?thesis using assms i store_rows(3) [OF assms(1,3)]
    by (simp add: gpu_kv_put_raw_def Let_def write_value_def min_def split: if_splits)
qed

lemma put_absent:
  assumes "store_ok s" and "kv_find s key klen = Inr None" and "length key = unat klen" and "length key \<le> GPU_KV_KEY_MAX"
    and "min (unat vlen) GPU_KV_VAL_MAX \<le> length val"
  shows "gpu_kv_put_raw s key klen val vlen =
    Inr (if unat (gs_count s) \<ge> GPU_STORAGE_CAP then s
      else write_value (new_key s key) (unat (gs_count s)) (take (min (unat vlen) GPU_KV_VAL_MAX) val))"
proof (cases "unat (gs_count s) < GPU_STORAGE_CAP")
  case True
  let ?c = "unat (gs_count s)"
  have c: "?c < length (gs_values s)" "?c < length (gs_val_lens s)" "?c < length (gs_keys s)" "?c < length (gs_key_lens s)"
    using assms(1) True by (simp_all add: store_ok_def)
  have "klen = of_nat (length key)" using assms(3) by simp
  then show ?thesis using assms True c store_rows(1,3) [OF assms(1) True]
    by (simp add: gpu_kv_put_raw_def Let_def write_value_def new_key_def min_def split: if_splits)
qed (use assms(2) in \<open>simp add: gpu_kv_put_raw_def\<close>)

text \<open>
  The ledger's invariant, and what a put promises of the map: sixteen keys at most, and a value of 32
  bytes at most; a new key for a full ledger is ignored.
\<close>

definition ledger_ok :: "gpu_storage \<Rightarrow> bool" where
  "ledger_ok s \<longleftrightarrow> store_ok s \<and> distinct (map (key_at s) [0..<unat (gs_count s)])"

definition ledger_put :: "(u8 list \<rightharpoonup> u8 list) \<Rightarrow> u8 list \<Rightarrow> u8 list \<Rightarrow> (u8 list \<rightharpoonup> u8 list)" where
  "ledger_put l key val =
     (if key \<in> dom l \<or> card (dom l) < GPU_STORAGE_CAP then l(key \<mapsto> take GPU_KV_VAL_MAX val) else l)"

lemma store_map_size: "ledger_ok s \<Longrightarrow> card (dom (store_map s)) = unat (gs_count s)"
proof -
  assume "ledger_ok s"
  then have "card (set (map (key_at s) [0..<unat (gs_count s)])) = unat (gs_count s)"
    by (simp add: ledger_ok_def distinct_card del: set_map set_upt)
  then show ?thesis by (simp add: store_map_def dom_map_of_conv_image_fst image_image)
qed

lemma store_map_write_value:
  assumes s: "store_ok s" and i: "i < unat (gs_count s)" and bs: "length bs \<le> GPU_KV_VAL_MAX" and d: "distinct (map (key_at s) [0..<unat (gs_count s)])"
  shows "store_map (write_value s i bs) = (store_map s)(key_at s i \<mapsto> bs)"
proof
  fix k
  have "i < GPU_STORAGE_CAP" using s i by (simp add: store_ok_def)
  note rows = write_value_rows [OF s this bs]
  let ?find = "\<lambda>k. List.find (\<lambda>j. key_at s j = k) [0..<unat (gs_count s)]"
  have inj: "key_at s j = key_at s i \<Longrightarrow> j < unat (gs_count s) \<Longrightarrow> j = i" for j
    using d i by (auto simp: distinct_map inj_on_def)
  have "key_at s j \<noteq> key_at s i" if "j < i" for j using inj [of j] that i by auto
  then have "?find (key_at s i) = Some i" using i by (auto simp: find_Some_iff)
  moreover have "?find k = Some i \<longrightarrow> k = key_at s i" by (auto simp: find_Some_iff)
  ultimately show "store_map (write_value s i bs) k = ((store_map s)(key_at s i \<mapsto> bs)) k"
    unfolding store_map_find by (cases "?find k") (auto simp: rows)
qed

lemma store_map_new_key:
  assumes s: "store_ok s" and c: "unat (gs_count s) < GPU_STORAGE_CAP" and key: "length key \<le> GPU_KV_KEY_MAX"
    and bs: "length bs \<le> GPU_KV_VAL_MAX" and new: "store_map s key = None"
  shows "store_map (write_value (new_key s key) (unat (gs_count s)) bs) = (store_map s)(key \<mapsto> bs)"
proof -
  let ?row = "\<lambda>i. (key_at s i, val_at s i)"
  note rows = write_value_rows [OF new_key_ok(1) [OF s c key] c bs] new_key_rows [OF s c key]
  have "store_map (write_value (new_key s key) (unat (gs_count s)) bs) = map_of (map ?row [0..<unat (gs_count s)] @ [(key, bs)])"
    unfolding store_map_def rows new_key_ok(2) [OF s c key] by (rule arg_cong [of _ _ map_of]) auto
  also have "\<dots> = (store_map s)(key \<mapsto> bs)"
    using new by (auto simp: store_map_def map_add_def split: option.split)
  finally show ?thesis .
qed

lemma put_refines_map:
  assumes s: "ledger_ok s" and key: "length key = unat klen" "length key \<le> GPU_KV_KEY_MAX" and val: "length val = unat vlen"
  shows "\<exists>t. gpu_kv_put_raw s key klen val vlen = Inr t \<and> ledger_ok t \<and> store_map t = ledger_put (store_map s) key val"
proof -
  have so: "store_ok s" and d: "distinct (map (key_at s) [0..<unat (gs_count s)])" and c: "unat (gs_count s) \<le> GPU_STORAGE_CAP"
    using s by (simp_all add: ledger_ok_def store_ok_def)
  let ?bs = "take GPU_KV_VAL_MAX val"
  have bs: "take (min (unat vlen) GPU_KV_VAL_MAX) val = ?bs" "length ?bs \<le> GPU_KV_VAL_MAX" using val by (simp_all add: min_def)
  show ?thesis
  proof (cases rule: kv_find_cases [OF so key(1), case_names absent present])
    case absent
    show ?thesis
    proof (cases "unat (gs_count s) < GPU_STORAGE_CAP")
      case True
      let ?t = "write_value (new_key s key) (unat (gs_count s)) ?bs"
      note rows = write_value_rows [OF new_key_ok(1) [OF so True key(2)] True bs(2)] new_key_rows [OF so True key(2)]
      have "key \<notin> key_at s ` {0..<unat (gs_count s)}"
        using absent(2) by (auto simp: store_map_find find_None_iff)
      then have "ledger_ok ?t" using d write_value_ok new_key_ok [OF so True key(2)] True bs(2)
        by (auto simp: ledger_ok_def rows distinct_map inj_on_def)
      then show ?thesis using put_absent [OF so absent(1) key] val bs True absent(2) store_map_new_key [OF so True key(2) bs(2)] store_map_size [OF s]
        by (auto simp: ledger_put_def)
    next
      case False
      then show ?thesis using put_absent [OF so absent(1) key] val s absent(2) store_map_size [OF s] by (auto simp: ledger_put_def)
    qed
  next
    case (present i)
    have i: "i < GPU_STORAGE_CAP" using present(2) c by simp
    note rows = write_value_rows [OF so i bs(2)]
    have "ledger_ok (write_value s i ?bs)" using d write_value_ok [OF so i bs(2)] by (simp add: ledger_ok_def rows cong: map_cong)
    then show ?thesis using put_present [OF so present(1) i] val bs store_map_write_value [OF so present(2) bs(2) d] present(3,4)
      by (auto simp: ledger_put_def)
  qed
qed

section \<open>The dispatcher stays inside its arrays\<close>

definition yields :: "('a \<Rightarrow> bool) \<Rightarrow> 'e + 'a \<Rightarrow> bool" where
  "yields P r \<longleftrightarrow> (\<exists>x. r = Inr x \<and> P x)"

lemma yields_Inr [simp]: "yields P (Inr x) \<longleftrightarrow> P x"
  by (simp add: yields_def)

lemma yields_rbind: "yields Q r \<Longrightarrow> (\<And>x. Q x \<Longrightarrow> yields P (f x)) \<Longrightarrow> yields P (rbind r f)"
  by (auto simp: yields_def)

lemma yields_mono: "yields Q r \<Longrightarrow> (\<And>x. Q x \<Longrightarrow> P x) \<Longrightarrow> yields P r"
  by (auto simp: yields_def)

lemma yields_rfold: "P s \<Longrightarrow> (\<And>x s. x \<in> set xs \<Longrightarrow> P s \<Longrightarrow> yields P (f x s)) \<Longrightarrow> yields P (rfold f xs s)"
  by (induction xs arbitrary: s) (auto intro: yields_rbind)

definition obj_ok :: "gpu_obj \<Rightarrow> bool" where
  "obj_ok e \<longleftrightarrow> length (go_data e) = GPU_OBJ_BYTES \<and> length (go_elems e) = GPU_VEC_ELEMS"

definition heap_ok :: "gpu_heap \<Rightarrow> bool" where
  "heap_ok h \<longleftrightarrow> length (gh_entries h) = GPU_OBJ_CAP \<and> unat (gh_count h) \<le> GPU_OBJ_CAP \<and> list_all obj_ok (gh_entries h)"

definition gpu_ok :: "gpu_state \<Rightarrow> bool" where
  "gpu_ok st \<longleftrightarrow> heap_ok (gp_heap st) \<and> ledger_ok (gp_storage st)"

lemma heap_reset_ok: "heap_ok h \<Longrightarrow> heap_ok (gpu_heap_reset h)"
  by (simp add: heap_ok_def gpu_heap_reset_def list_all_length obj_ok_def zero_data_def zero_elems_def)

text \<open>An allocation: the next handle and its object, or nothing in a full heap.\<close>

lemma obj_alloc_room:
  assumes "heap_ok h" and "unat (gh_count h) < GPU_OBJ_CAP" and "\<And>src. data = Some src \<Longrightarrow> min (unat len) GPU_OBJ_BYTES \<le> length src"
  shows "obj_alloc h tag len data = Inr (soroban_make_obj (gh_count h) tag,
    \<lparr>gh_entries = (gh_entries h)[unat (gh_count h) :=
       \<lparr>go_tag = tag, go_len = len,
        go_data = (case data of None \<Rightarrow> zero_data
          | Some src \<Rightarrow> take (min (unat len) GPU_OBJ_BYTES) src @ drop (min (unat len) GPU_OBJ_BYTES) zero_data),
        go_elems = zero_elems\<rparr>],
     gh_count = gh_count h + 1\<rparr>)"
  using assms by (cases data) (simp_all add: obj_alloc_def Let_def heap_ok_def zero_data_def)

lemma obj_alloc_full: "unat (gh_count h) \<ge> GPU_OBJ_CAP \<Longrightarrow> obj_alloc h tag len data = Inr (SOROBAN_VOID, h)"
  by (simp add: obj_alloc_def)

lemma obj_alloc_yields:
  assumes "heap_ok h" and "\<And>src. data = Some src \<Longrightarrow> min (unat len) GPU_OBJ_BYTES \<le> length src"
  shows "yields (\<lambda>(v, h'). heap_ok h') (obj_alloc h tag len data)"
proof (cases "unat (gh_count h) < GPU_OBJ_CAP")
  case True
  then have "unat (gh_count h + 1) = unat (gh_count h) + 1" using unat_add_small [of "gh_count h" 1] by simp
  then show ?thesis using True assms
    by (auto simp: obj_alloc_room heap_ok_def obj_ok_def zero_data_def zero_elems_def min_def intro!: list_all_update split: option.split)
qed (use assms(1) in \<open>simp add: obj_alloc_full\<close>)

lemma obj_get_bound: "obj_get h raw = Some i \<Longrightarrow> i < unat (gh_count h)"
  by (auto simp: obj_get_def Let_def not_le word_less_nat_alt split: if_splits)

lemma obj_entry_yields: "heap_ok h \<Longrightarrow> yields (\<lambda>r. \<forall>e. r = Some e \<longrightarrow> obj_ok e) (obj_entry h raw)"
  using obj_get_bound [of h raw] by (auto simp: obj_entry_def heap_ok_def list_all_length split: option.split)

lemma address_bytes_yields: "heap_ok h \<Longrightarrow> yields (\<lambda>bs. length bs = 32) (address_bytes h v)"
  unfolding address_bytes_def by (rule yields_rbind, erule obj_entry_yields) (auto simp: obj_ok_def split: option.split)

abbreviation key_fits :: "u8 list option \<Rightarrow> bool" where
  "key_fits r \<equiv> \<forall>k. r = Some k \<longrightarrow> length k \<le> GPU_KV_KEY_MAX"

lemma canon_elem_yields: "heap_ok h \<Longrightarrow> yields key_fits (canon_elem h ev out)"
  unfolding canon_elem_def by (auto intro!: yields_rbind [OF address_bytes_yields])

lemma canon_elems_yields: "heap_ok h \<Longrightarrow> length out \<le> GPU_KV_KEY_MAX \<Longrightarrow> yields key_fits (canon_elems h evs out)"
  by (induction evs arbitrary: out) (auto intro!: yields_rbind [OF canon_elem_yields] split: option.split)

lemma kv_canon_key_yields: "heap_ok h \<Longrightarrow> yields key_fits (kv_canon_key h key stype)"
  unfolding kv_canon_key_def Let_def
  by (auto intro!: yields_rbind [OF obj_entry_yields] canon_elem_yields canon_elems_yields simp: obj_ok_def split: option.split)

lemma put_yields:
  assumes "ledger_ok s" and "length key \<le> GPU_KV_KEY_MAX"
  shows "yields ledger_ok (gpu_kv_put_u64 s key (of_nat (length key)) v)"
    "length bs = 32 \<Longrightarrow> yields ledger_ok (gpu_kv_put_raw s key (of_nat (length key)) bs 32)"
  using put_refines_map [OF assms(1) _ assms(2), of "of_nat (length key)" "kv_write_u64 v" 8]
    put_refines_map [OF assms(1) _ assms(2), of "of_nat (length key)" bs 32] assms(2)
  by (auto simp: gpu_kv_put_u64_def yields_def unat_of_nat)

lemma find_key_yields:
  assumes "gpu_ok st"
  shows "yields (\<lambda>r. \<forall>i. r = Some i \<longrightarrow> i < GPU_STORAGE_CAP) (find_key st key stype)"
proof -
  have "yields (\<lambda>r. \<forall>i. r = Some i \<longrightarrow> i < GPU_STORAGE_CAP) (kv_find (gp_storage st) k (of_nat (length k)))" if "length k \<le> GPU_KV_KEY_MAX" for k
  proof -
    have "store_ok (gp_storage st)" using assms by (simp add: gpu_ok_def ledger_ok_def)
    then show ?thesis using that by (auto simp: kv_find_eq unat_of_nat find_Some_iff store_ok_def)
  qed
  then show ?thesis using assms unfolding find_key_def
    by (auto intro!: yields_rbind [OF kv_canon_key_yields] simp: gpu_ok_def split: option.split)
qed

text \<open>A handler answers one result, in a state in shape, and leaves the arguments.\<close>

definition answered :: "host_mailbox \<Rightarrow> bool \<times> gpu_state \<times> host_mailbox \<Rightarrow> bool" where
  "answered mb r \<longleftrightarrow> (case r of (b, st', mb') \<Rightarrow>
     b \<and> gpu_ok st' \<and> hb_args mb' = hb_args mb \<and> hb_n_results mb' = 1 \<and> hb_results mb' \<noteq> [])"

lemma answer_yields: "gpu_ok st \<Longrightarrow> yields (answered mb) (answer v st mb)"
  by (simp add: answer_def answered_def)

lemma answer_obj_yields:
  "gpu_ok st \<Longrightarrow> (\<And>src. data = Some src \<Longrightarrow> min (unat len) GPU_OBJ_BYTES \<le> length src) \<Longrightarrow>
   yields (answered mb) (answer_obj (obj_alloc (gp_heap st) tag len data) st mb)"
  unfolding answer_obj_def
  by (rule yields_rbind [OF obj_alloc_yields]) (auto simp: gpu_ok_def intro!: answer_yields)

lemma arg_simps [simp]:
  "i < length (hb_args mb) \<Longrightarrow> arg_at mb i = Inr (hb_args mb ! i)"
  "i < length (hb_args mb) \<Longrightarrow> arg_hi mb i = Inr (ucast (drop_bit 32 (hb_args mb ! i)))"
  by (simp_all add: arg_at_def arg_hi_def)

lemma new_from_memory_yields:
  assumes "gpu_ok st" and "length (hb_args mb) = 16" and "\<And>bs. mem = Some bs \<Longrightarrow> unat msize \<le> length bs"
  shows "yields (answered mb) (new_from_memory tag st mb mem msize)"
  using assms by (auto simp: new_from_memory_def Let_def intro!: answer_obj_yields split: option.splits if_splits)

lemma vec_elem_yields:
  "unat msize \<le> length bs \<Longrightarrow> i < length elems \<Longrightarrow> yields (\<lambda>xs. length xs = length elems) (vec_elem bs msize ptr i elems)"
  by (auto simp: vec_elem_def Let_def intro!: yields_rbind [of "\<lambda>_. True"]) (auto simp: yields_def kv_read_u64_def)

lemma vec_fill_yields:
  assumes h: "heap_ok h" and mem: "\<And>bs. mem = Some bs \<Longrightarrow> unat msize \<le> length bs"
  shows "yields heap_ok (vec_fill h raw mem msize ptr n)"
proof (cases "obj_get h raw")
  case (Some i)
  have fill: "yields (\<lambda>xs. length xs = GPU_VEC_ELEMS) (rfold (vec_elem bs msize ptr) [0..<min n GPU_VEC_ELEMS] es)"
    if "unat msize \<le> length bs" "length es = GPU_VEC_ELEMS" for bs n es
    using that by (intro yields_rfold) (auto intro: yields_mono [OF vec_elem_yields])
  have i: "i < length (gh_entries h)" "obj_ok (gh_entries h ! i)"
    using h obj_get_bound [OF Some] by (auto simp: heap_ok_def list_all_length)
  then show ?thesis using Some h mem
    by (auto intro!: yields_rbind [OF fill] list_all_update simp: vec_fill_def obj_ok_def heap_ok_def split: option.split)
qed (use h in \<open>simp add: vec_fill_def\<close>)

lemma vec_new_yields:
  assumes st: "gpu_ok st" and mb: "length (hb_args mb) = 16" and mem: "\<And>bs. mem = Some bs \<Longrightarrow> unat msize \<le> length bs"
  shows "yields (answered mb) (vec_new st mb mem msize)"
proof -
  have alloc: "yields (\<lambda>(v, h). heap_ok h) (obj_alloc (gp_heap st) SOROBAN_TAG_VEC_OBJECT n None)" for n
    using st by (intro obj_alloc_yields) (simp_all add: gpu_ok_def)
  show ?thesis using st mb unfolding vec_new_def
    by (auto intro!: yields_rbind [OF alloc] yields_rbind [OF vec_fill_yields] answer_yields simp: gpu_ok_def mem)
qed

lemma i128_yields:
  assumes "gpu_ok st" and "length (hb_args mb) = 16"
  shows "yields (answered mb) (from_i128 st mb)" "off \<le> 24 \<Longrightarrow> yields (answered mb) (i128_half off st mb)"
proof -
  show "yields (answered mb) (from_i128 st mb)" using assms by (auto simp: from_i128_def intro!: answer_obj_yields)
  assume "off \<le> 24"
  then have half: "yields (\<lambda>_. True) (case r of Some e \<Rightarrow> if go_tag e = SOROBAN_TAG_I128OBJECT then kv_read_u64 (drop off (go_data e)) else Inr 0
      | None \<Rightarrow> Inr 0)" if "\<forall>e. r = Some e \<longrightarrow> obj_ok e" for r
    using that by (auto simp: obj_ok_def kv_read_u64_def split: option.split)
  have "heap_ok (gp_heap st)" using assms(1) by (simp add: gpu_ok_def)
  then show "yields (answered mb) (i128_half off st mb)" using assms unfolding i128_half_def
    by (simp, intro yields_rbind [OF obj_entry_yields] yields_rbind [OF half] answer_yields)
qed

lemma data_yields:
  assumes st: "gpu_ok st" and mb: "length (hb_args mb) = 16"
  shows "yields (answered mb) (has_data st mb)" "yields (answered mb) (get_data st mb)" "yields (answered mb) (put_data st mb)"
proof -
  note find = yields_rbind [OF find_key_yields [OF st]]
  show "yields (answered mb) (has_data st mb)" using assms by (auto simp: has_data_def intro!: find answer_yields)
  have so: "store_ok (gp_storage st)" using st by (simp add: gpu_ok_def ledger_ok_def)
  then have rows: "i < length (gs_val_lens (gp_storage st))" "i < length (gs_values (gp_storage st))" "length (gs_values (gp_storage st) ! i) = 32"
    if "i < GPU_STORAGE_CAP" for i using that store_rows(3) [OF so] by (simp_all add: store_ok_def)
  have "yields (\<lambda>_. True) (kv_read_u64 (gs_values (gp_storage st) ! i))" if "i < GPU_STORAGE_CAP" for i
    using rows(3) [OF that] by (simp add: kv_read_u64_def)
  then show "yields (answered mb) (get_data st mb)" using assms rows
    by (auto simp: get_data_def intro!: find answer_yields answer_obj_yields yields_rbind [of "\<lambda>_. True"] split: option.split)
  show "yields (answered mb) (put_data st mb)" using assms
    by (auto simp: put_data_def gpu_ok_def intro!: yields_rbind [OF kv_canon_key_yields] yields_rbind [of ledger_ok] yields_rbind [OF address_bytes_yields]
        put_yields answer_yields split: option.split)
qed

lemma yields_if: "(c \<Longrightarrow> yields P r) \<Longrightarrow> (\<not> c \<Longrightarrow> yields P q) \<Longrightarrow> yields P (if c then r else q)"
  by simp

lemma gpu_host_dispatch_yields:
  assumes "gpu_ok st" and "length (hb_args mb) = 16" and "\<And>bs. mem = Some bs \<Longrightarrow> unat msize \<le> length bs"
  shows "yields (\<lambda>r. answered mb r \<or> r = (False, st, mb)) (gpu_host_dispatch st mb mem msize)"
proof -
  note served = new_from_memory_yields [OF assms] vec_new_yields [OF assms] i128_yields [OF assms(1,2)] data_yields [OF assms(1,2)]
    answer_yields [OF assms(1)] answer_obj_yields [OF assms(1)]
  show ?thesis unfolding gpu_host_dispatch_def Let_def by (intro yields_if served [THEN yields_mono]) simp_all
qed

section \<open>The runner\<close>

text \<open>The dispatcher as a host function, for a memory of which \<open>msize\<close> bytes are in use.\<close>

definition gpu_host_fn :: "u32 \<Rightarrow> gpu_state host_fn" where
  "gpu_host_fn msize hs mem mb =
     (case gpu_host_dispatch hs mb (Some mem) msize of
        Inl e \<Rightarrow> (Host_Undefined e, hs, mem, mb)
      | Inr (True, hs', mb') \<Rightarrow> (Served, hs', mem, mb')
      | Inr (False, hs', mb') \<Rightarrow> (Refused ''unsupported host fn'', hs', mem, mb'))"

interpretation gpu: host_contract "gpu_host_fn msize" "\<lambda>hs n. gpu_ok hs \<and> unat msize \<le> n" for msize
proof
  fix hs hs' :: gpu_state and mem mem' :: "u8 list" and mb mb' :: host_mailbox and r
  assume ok: "gpu_ok hs \<and> unat msize \<le> length mem" and mb: "length (hb_args mb) = 16" and f: "gpu_host_fn msize hs mem mb = (r, hs', mem', mb')"
  have "yields (\<lambda>r. answered mb r \<or> r = (False, hs, mb)) (gpu_host_dispatch hs mb (Some mem) msize)"
    using ok mb by (intro gpu_host_dispatch_yields) simp_all
  then obtain b hs'' mb'' where "gpu_host_dispatch hs mb (Some mem) msize = Inr (b, hs'', mb'')"
    and "answered mb (b, hs'', mb'') \<or> (b, hs'', mb'') = (False, hs, mb)" by (auto simp: yields_def)
  then show "(gpu_ok hs' \<and> unat msize \<le> length mem) \<and> length mem' = length mem \<and> (\<forall>e. r \<noteq> Host_Undefined e) \<and>
      (r = Served \<longrightarrow> hb_n_results mb' = 1 \<and> hb_results mb' \<noteq> [] \<and> length (hb_args mb') = 16)"
    using ok mb f by (cases b) (auto simp: gpu_host_fn_def answered_def)
qed

lemma gpu_loop_safe:
  assumes r: "runnable m ht" and m: "unat (hm_mem_size m) \<le> length (i_mem s)" and st: "length (i_stack s) = 4096" and ok: "gpu_ok hs"
    and run: "running m ht (s\<lparr>i_mem_size := hm_mem_size m\<rparr>)" and loop: "gpu_loop fuel m max_steps (s, hs) = Some r"
  shows "yields (\<lambda>(en, t, hs'). length (i_stack t) = 4096 \<and> length (i_mem t) = length (i_mem s) \<and> gpu_ok hs') r"
  using m st ok run loop
proof (induction fuel arbitrary: s hs)
  case 0
  then show ?case by simp
next
  case (Suc fuel)
  obtain e v where v: "run_instance m max_steps (s\<lparr>i_mem_size := hm_mem_size m\<rparr>) = (e, v)" by fastforce
  from run_instance_ok [OF r Suc.prems(4) v] obtain st where e: "e = Trap st" and pend: "st = ST_HOSTCALL_PENDING \<Longrightarrow> awaiting m ht v" by blast
  have sz: "length (i_stack v) = 4096" "length (i_mem v) = length (i_mem s)" using run_instance_sizes [OF v] Suc.prems(2) by (simp_all add: same_sizes_def)
  show ?case
  proof (cases "st = ST_HOSTCALL_PENDING")
    case False
    then show ?thesis using Suc.prems(3,5) v e sz by auto
  next
    case True
    then have p: "awaiting m ht v" by (rule pend)
    then have aw: "length (hb_args (i_mb v)) = 16" "unat (i_mem_size v) \<le> length (i_mem v)" "unat (hb_n_args (i_mb v)) \<le> 16"
      by (auto simp: awaiting_def sane_def mem_sane_def word_le_nat_alt)
    have "yields (\<lambda>r. answered (i_mb v) r \<or> r = (False, hs, i_mb v)) (gpu_host_dispatch hs (i_mb v) (Some (i_mem v)) (i_mem_size v))"
      using aw Suc.prems(3) by (intro gpu_host_dispatch_yields) simp_all
    then obtain b hs' mb' where d: "gpu_host_dispatch hs (i_mb v) (Some (i_mem v)) (i_mem_size v) = Inr (b, hs', mb')"
      and b: "answered (i_mb v) (b, hs', mb') \<or> (b, hs', mb') = (False, hs, i_mb v)" by (auto simp: yields_def)
    show ?thesis
    proof (cases b)
      case False
      then show ?thesis using Suc.prems(3,5) v e True d b sz by (auto simp: answered_def)
    next
      case served: True
      have ok': "gpu_ok hs'" using b served by (auto simp: answered_def)
      have h: "gpu_host_fn (i_mem_size v) hs (i_mem v) (i_mb v) = (Served, hs', i_mem v, mb')" using d served by (simp add: gpu_host_fn_def)
      obtain q u where u: "take_results (v\<lparr>i_mem := i_mem v, i_mb := mb'\<rparr>) = (q, u)" by fastforce
      have "unat (hm_mem_size m) \<le> length (i_mem v)" using Suc.prems(1) sz by simp
      from gpu.served_running [OF p _ h this sz(1) u] Suc.prems(3) aw
      have sr: "q = Inl (Trap ST_TRAP_STACK_OVERFLOW) \<or> q = Inr () \<and> running m ht (u\<lparr>i_mem_size := hm_mem_size m\<rparr>)"
        "length (i_mem u) = length (i_mem s)" "length (i_stack u) = 4096" using sz by auto
      show ?thesis
      proof (cases q)
        case (Inl a)
        then show ?thesis using Suc.prems(5) v e True d served u sr ok' by auto
      next
        case (Inr a)
        then show ?thesis using Suc.IH [of u hs'] Suc.prems(1,5) v e True d served u sr ok' by auto
      qed
    qed
  qed
qed

lemma raw_push_fuel: "raw_push x (s\<lparr>i_fuel := k\<rparr>) = apsnd (\<lambda>t. t\<lparr>i_fuel := k\<rparr>) (raw_push x s)"
  by (cases "unat (i_sp s) < length (i_stack s)") (simp_all add: raw_push_def stack_set_def)

lemma raw_pushes_fuel: "forS xs (\<lambda>x. raw_push (g x)) (s\<lparr>i_fuel := k\<rparr>) = apsnd (\<lambda>t. t\<lparr>i_fuel := k\<rparr>) (forS xs (\<lambda>x. raw_push (g x)) s)"
proof (induction xs arbitrary: s)
  case (Cons x xs)
  obtain r t where "raw_push (g x) s = (r, t)" by fastforce
  then show ?case using Cons.IH [of t] raw_push_fuel [where x = "g x" and s = s and k = k] by (cases r) simp_all
qed simp

lemma setup_call_fuel: "setup_call f args (s\<lparr>i_fuel := k\<rparr>) = apsnd (\<lambda>t. t\<lparr>i_fuel := k\<rparr>) (setup_call f args s)"
proof -
  obtain r t where t: "forS args raw_push s = (r, t)" by fastforce
  then show ?thesis
    using raw_pushes_fuel [where xs = args and g = id and s = s and k = k] 
      raw_pushes_fuel [where xs = "replicate (unat (fm_n_locals f)) ()" and g = "\<lambda>_. 0" and s = t and k = k]
    by (cases r) (simp_all add: setup_call_def)
qed

lemma running_fuel: "running m ht s \<Longrightarrow> running m ht (s\<lparr>i_fuel := k\<rparr>)"
  by (auto simp: running_def sane_def frames_sane_def mem_sane_def data_sane_def)

text \<open>The export names a function with code that fits the stack.\<close>

definition gpu_entry_ok :: "host_module \<Rightarrow> string \<Rightarrow> bool" where
  "gpu_entry_ok m export \<longleftrightarrow>
     (let fi = find_export m export in fi \<ge> 0 \<longrightarrow> nat fi < length (hm_funcs m) \<and> entry_ok (hm_funcs m ! nat fi))"

lemma run_gpu_host_safe:
  assumes r: "runnable m ht" and im: "image_ok m" and en: "gpu_entry_ok m export" and ok: "gpu_ok hs"
    and run: "run_gpu_host fuel m export args hs max_steps = Some r"
  shows "yields (\<lambda>(_, _, hs'). gpu_ok hs') r"
proof -
  let ?fi = "find_export m export"
  let ?f = "hm_funcs m ! nat ?fi"
  consider "?fi < 0" | "?fi \<ge> 0" "length args \<noteq> unat (fm_n_params ?f)" | "?fi \<ge> 0" "length args = unat (fm_n_params ?f)" by linarith
  then show ?thesis
  proof cases
    case 3
    then have f: "?f \<in> set (hm_funcs m)" "entry_ok ?f" "nat ?fi < length (hm_funcs m)" using en by (simp_all add: gpu_entry_ok_def Let_def)
    from setup_running [OF r im f(1,2) 3(2), of None] obtain s where s: "setup_call ?f args (init_inst m ?f None) = (Inr (), s)" "running m ht s"
      "length (i_stack s) = 4096" "i_mem s = (if hm_memory m = [] then [0] else hm_memory m)" "i_mem_size s = hm_mem_size m" by auto
    let ?s = "s\<lparr>i_fuel := sint (of_nat max_steps :: u64)\<rparr>"
    have mem: "unat (hm_mem_size m) \<le> length (i_mem ?s)" using im s(4) by (auto simp: image_ok_def)
    have "running m ht (?s\<lparr>i_mem_size := hm_mem_size m\<rparr>)" using running_mem_size [OF running_fuel [OF s(2)] mem] .
    then have "yields (\<lambda>(en, t, hs'). length (i_stack t) = 4096 \<and> length (i_mem t) = length (i_mem ?s) \<and> gpu_ok hs') q"
      if "gpu_loop fuel m max_steps (?s, hs) = Some q" for q
      using s(3) by (intro gpu_loop_safe [OF r mem _ ok _ that]) simp_all
    then show ?thesis using run 3 f(3) s(1)
      by (auto simp: run_gpu_host_def setup_call_fuel yields_def split: option.splits sum.splits if_splits)
  qed (use run en ok in \<open>auto simp: run_gpu_host_def gpu_entry_ok_def Let_def\<close>)
qed

section \<open>What a contract stores it reads back\<close>

lemma soroban_tag_take_bit: "soroban_tag raw = ucast (take_bit 8 raw)"
  by (simp add: soroban_tag_def take_bit_eq_mask mask_eq_exp_minus_1)

lemma make_obj_parts [simp]: "soroban_handle (soroban_make_obj h t) = h" "soroban_tag (soroban_make_obj h t) = t"
  by (rule bit_word_eqI; auto simp: soroban_handle_def soroban_tag_take_bit soroban_make_obj_def bit_simps dest: bit_imp_le_length)+

lemma i128_small_tag [simp]: "soroban_tag (soroban_i128_small n) = SOROBAN_TAG_I128SMALL"
proof -
  have "take_bit 8 (soroban_i128_small n) = 11"
    by (simp add: soroban_i128_small_def take_bit_or take_bit_push_bit)
  then show ?thesis by (simp add: soroban_tag_take_bit)
qed

text \<open>
  A value stands for itself, except that the handle of an address stands for the address: what the guest
  holds after reading it back is another handle.
\<close>

definition same_value :: "gpu_heap \<Rightarrow> u64 \<Rightarrow> gpu_heap \<Rightarrow> u64 \<Rightarrow> bool" where
  "same_value h v h' w \<longleftrightarrow>
     (if soroban_tag v = SOROBAN_TAG_ADDRESS_OBJECT
      then soroban_tag w = SOROBAN_TAG_ADDRESS_OBJECT \<and> address_bytes h' w = address_bytes h v else w = v)"

text \<open>The bytes that stand for a value in the ledger.\<close>

definition value_bytes :: "gpu_heap \<Rightarrow> u64 \<Rightarrow> string + u8 list" where
  "value_bytes h v = (if soroban_tag v = SOROBAN_TAG_ADDRESS_OBJECT then address_bytes h v else Inr (kv_write_u64 v))"

lemma value_bytes_yields: "heap_ok h \<Longrightarrow> yields (\<lambda>bs. length bs \<le> GPU_KV_VAL_MAX) (value_bytes h v)"
  unfolding value_bytes_def by (auto intro!: yields_mono [OF address_bytes_yields])

lemma canon_key_length:
  assumes "heap_ok h" and "kv_canon_key h key stype = Inr (Some kb)"
  shows "length kb = unat (of_nat (length kb) :: u32)" "length kb \<le> GPU_KV_KEY_MAX"
  using kv_canon_key_yields [OF assms(1), of key stype] assms(2) by (simp_all add: unat_of_nat)

lemma put_data_stores:
  assumes st: "gpu_ok st" and mb: "length (hb_args mb) = 16"
    and k: "kv_canon_key (gp_heap st) (hb_args mb ! 0) (ucast (hb_args mb ! 2)) = Inr (Some kb)"
    and v: "value_bytes (gp_heap st) (hb_args mb ! 1) = Inr bs"
  shows "\<exists>store. put_data st mb = answer SOROBAN_VOID (st\<lparr>gp_storage := store\<rparr>) mb \<and> ledger_ok store \<and>
    store_map store = ledger_put (store_map (gp_storage st)) kb bs"
proof -
  have h: "heap_ok (gp_heap st)" and l: "ledger_ok (gp_storage st)" using st by (simp_all add: gpu_ok_def)
  note kb = canon_key_length [OF h k]
  show ?thesis
  proof (cases "soroban_tag (hb_args mb ! 1) = SOROBAN_TAG_ADDRESS_OBJECT")
    case True
    then have a: "address_bytes (gp_heap st) (hb_args mb ! 1) = Inr bs" using v by (simp add: value_bytes_def)
    then have "length bs = 32" using address_bytes_yields [OF h, of "hb_args mb ! 1"] by simp
    then obtain t where "gpu_kv_put_raw (gp_storage st) kb (of_nat (length kb)) bs 32 = Inr t" "ledger_ok t"
      "store_map t = ledger_put (store_map (gp_storage st)) kb bs" using put_refines_map [OF l kb, of bs 32] by auto
    then show ?thesis using mb k a True by (intro exI [of _ t]) (simp add: put_data_def)
  next
    case False
    then have b: "bs = kv_write_u64 (hb_args mb ! 1)" using v by (simp add: value_bytes_def)
    then obtain t where "gpu_kv_put_raw (gp_storage st) kb (of_nat (length kb)) bs 8 = Inr t" "ledger_ok t"
      "store_map t = ledger_put (store_map (gp_storage st)) kb bs" using put_refines_map [OF l kb, of bs 8] by auto
    then show ?thesis using mb k False b by (intro exI [of _ t]) (simp add: put_data_def gpu_kv_put_u64_def)
  qed
qed

lemma get_data_reads:
  assumes st: "gpu_ok st" and mb: "length (hb_args mb) = 16"
    and k: "kv_canon_key (gp_heap st) (hb_args mb ! 0) (ucast (hb_args mb ! 1)) = Inr (Some kb)"
    and s: "store_map (gp_storage st) kb = Some bs" and v: "value_bytes h0 v = Inr bs" "heap_ok h0"
    and room: "soroban_tag v = SOROBAN_TAG_ADDRESS_OBJECT \<Longrightarrow> unat (gh_count (gp_heap st)) < GPU_OBJ_CAP"
  shows "\<exists>w h'. get_data st mb = answer w (st\<lparr>gp_heap := h'\<rparr>) mb \<and> same_value h0 v h' w"
proof -
  let ?s = "gp_storage st" and ?h = "gp_heap st"
  have h: "heap_ok ?h" and so: "store_ok ?s" using st by (simp_all add: gpu_ok_def ledger_ok_def)
  obtain i where i: "kv_find ?s kb (of_nat (length kb)) = Inr (Some i)" "i < unat (gs_count ?s)" "val_at ?s i = bs"
    using s by (cases rule: kv_find_cases [OF so canon_key_length(1) [OF h k]]) auto
  have i16: "i < GPU_STORAGE_CAP" using i(2) so by (simp add: store_ok_def)
  then have il: "i < length (gs_val_lens ?s)" "i < length (gs_values ?s)" using so by (simp_all add: store_ok_def)
  note rows = store_rows [OF so i16]
  have len: "unat (gs_val_lens ?s ! i) = length bs" using rows(6) i(3) by simp
  then have "take (length bs) (gs_values ?s ! i) = bs" using i(3) by (simp add: val_at_def)
  then have row: "gs_values ?s ! i = bs @ drop (length bs) (gs_values ?s ! i)" by (metis append_take_drop_id)
  have f: "find_key st (hb_args mb ! 0) (ucast (hb_args mb ! 1)) = Inr (Some i)" using k i(1) by (simp add: find_key_def)
  show ?thesis
  proof (cases "soroban_tag v = SOROBAN_TAG_ADDRESS_OBJECT")
    case False
    then have bs: "bs = kv_write_u64 v" using v(1) by (simp add: value_bytes_def)
    then have l8: "gs_val_lens ?s ! i = 8" using len by (simp add: word_unat_eq_iff)
    have "kv_read_u64 (gs_values ?s ! i) = Inr v" using row bs kv_read_write by metis
    then show ?thesis using False f il l8 mb by (auto simp: get_data_def same_value_def intro!: exI [of _ ?h])
  next
    case True
    then have a: "address_bytes h0 v = Inr bs" using v(1) by (simp add: value_bytes_def)
    then have lb: "length bs = 32" using address_bytes_yields [OF v(2), of v] by simp
    then have l32: "gs_val_lens ?s ! i = 32" using len by (simp add: word_unat_eq_iff)
    have r: "gs_values ?s ! i = bs" using row rows(3) lb by simp
    let ?e = "\<lparr>go_tag = SOROBAN_TAG_ADDRESS_OBJECT, go_len = 32, go_data = bs, go_elems = zero_elems\<rparr>"
    let ?h' = "\<lparr>gh_entries = (gh_entries ?h)[unat (gh_count ?h) := ?e], gh_count = gh_count ?h + 1\<rparr>"
    let ?w = "soroban_make_obj (gh_count ?h) SOROBAN_TAG_ADDRESS_OBJECT"
    have al: "obj_alloc ?h SOROBAN_TAG_ADDRESS_OBJECT 32 (Some bs) = Inr (?w, ?h')"
      using obj_alloc_room [OF h room [OF True], of "Some bs" 32] lb by (simp add: zero_data_def)
    have "unat (gh_count ?h + 1) = unat (gh_count ?h) + 1" using room [OF True] unat_add_small [of "gh_count ?h" 1] by simp
    then have "obj_entry ?h' ?w = Inr (Some ?e)"
      using h room [OF True] by (simp add: obj_entry_def obj_get_def Let_def word_le_nat_alt heap_ok_def)
    then have "address_bytes ?h' ?w = Inr bs" using lb by (simp add: address_bytes_def)
    then show ?thesis using True f il l32 mb r al a
      by (intro exI [of _ ?w] exI [of _ ?h']) (simp add: get_data_def answer_obj_def same_value_def)
  qed
qed

section \<open>Properties\<close>

definition empty_ledger :: gpu_storage where
  "empty_ledger =
     \<lparr>gs_keys = replicate GPU_STORAGE_CAP (replicate GPU_KV_KEY_MAX 0), gs_key_lens = replicate GPU_STORAGE_CAP 0,
      gs_values = replicate GPU_STORAGE_CAP (replicate GPU_KV_VAL_MAX 0), gs_val_lens = replicate GPU_STORAGE_CAP 0, gs_count = 0\<rparr>"

definition empty_objects :: gpu_heap where
  "empty_objects =
     \<lparr>gh_entries = replicate GPU_OBJ_CAP \<lparr>go_tag = 0, go_len = 0, go_data = zero_data, go_elems = zero_elems\<rparr>, gh_count = 0\<rparr>"

definition empty_gpu :: gpu_state where
  "empty_gpu = \<lparr>gp_heap = empty_objects, gp_storage = empty_ledger\<rparr>"

lemma empty_gpu_ok: "ledger_ok empty_ledger" "gpu_ok empty_gpu"
  by (simp_all add: gpu_ok_def ledger_ok_def store_ok_def empty_gpu_def empty_ledger_def empty_objects_def heap_ok_def obj_ok_def
      list_all_length zero_data_def zero_elems_def)

text \<open>
  C32. The ledger of the GPU host refines a finite map. A lookup finds the row of a key exactly if the map
  holds the key, and then the row has its value; a put of a key of at most 128 bytes updates the map at the
  first 32 bytes of the value, keeps every other key, and keeps the invariant (no key twice, all lengths
  inside their arrays); a new key for a ledger with sixteen keys is dropped. No access leaves the arrays.
\<close>

theorem gpu_ledger_refines_map:
  assumes "ledger_ok s" and "length key = unat klen" and "length key \<le> GPU_KV_KEY_MAX" and "length val = unat vlen"
  shows "(\<exists>t. gpu_kv_put_raw s key klen val vlen = Inr t \<and> ledger_ok t \<and> store_map t = ledger_put (store_map s) key val) \<and>
    (\<exists>r. kv_find s key klen = Inr r \<and> map_option (val_at s) r = store_map s key)"
proof -
  have "store_ok s" using assms(1) by (simp add: ledger_ok_def)
  then have "\<exists>r. kv_find s key klen = Inr r \<and> map_option (val_at s) r = store_map s key"
    using assms(2) by (simp add: kv_find_eq store_map_find)
  then show ?thesis using put_refines_map [OF assms] by simp
qed

theorem gpu_ledger_refines_map_witness:
  "(\<exists>t. gpu_kv_put_raw empty_ledger [1, 2] 2 [7] 1 = Inr t \<and> ledger_ok t \<and> store_map t = [[1, 2] \<mapsto> [7]]) \<and>
   (\<exists>r. kv_find empty_ledger [1, 2] 2 = Inr r \<and> map_option (val_at empty_ledger) r = store_map empty_ledger [1, 2])"
proof -
  have "store_map empty_ledger = Map.empty" by (simp add: store_map_def empty_ledger_def)
  then show ?thesis using gpu_ledger_refines_map [OF empty_gpu_ok(1), of "[1, 2]" 2 "[7]" 1] by (simp add: ledger_put_def)
qed

text \<open>
  C33. What a contract stores it reads back. After \<open>put_contract_data\<close> of any value under a key that fits,
  \<open>get_contract_data\<close> of that key and storage type answers the value: the same 64 bits, or, for an address,
  a handle of a new object with the same 32 bytes. This needs the key in the ledger or room for it, and for
  an address room in the object heap. The put answers void and leaves the object heap alone.
\<close>

theorem gpu_put_then_get:
  assumes "gpu_ok st" and "hb_fn_id put = 95" and "hb_fn_id get = 97" and "length (hb_args put) = 16" and "length (hb_args get) = 16"
    and "hb_args get ! 0 = hb_args put ! 0" and "hb_args get ! 1 = hb_args put ! 2"
    and "kv_canon_key (gp_heap st) (hb_args put ! 0) (ucast (hb_args put ! 2)) = Inr (Some kb)"
    and "kb \<in> dom (store_map (gp_storage st)) \<or> unat (gs_count (gp_storage st)) < GPU_STORAGE_CAP"
    and "soroban_tag (hb_args put ! 1) = SOROBAN_TAG_ADDRESS_OBJECT \<Longrightarrow> unat (gh_count (gp_heap st)) < GPU_OBJ_CAP"
  shows "\<exists>st' w h'. gpu_host_dispatch st put mem msize = answer SOROBAN_VOID st' put \<and> gp_heap st' = gp_heap st \<and>
    gpu_host_dispatch st' get mem' msize' = answer w (st'\<lparr>gp_heap := h'\<rparr>) get \<and> same_value (gp_heap st) (hb_args put ! 1) h' w"
proof -
  have h: "heap_ok (gp_heap st)" and l: "ledger_ok (gp_storage st)" using assms(1) by (simp_all add: gpu_ok_def)
  obtain bs where bs: "value_bytes (gp_heap st) (hb_args put ! 1) = Inr bs" "length bs \<le> GPU_KV_VAL_MAX"
    using value_bytes_yields [OF h] by (auto simp: yields_def)
  obtain store where p: "put_data st put = answer SOROBAN_VOID (st\<lparr>gp_storage := store\<rparr>) put" "ledger_ok store"
    "store_map store = ledger_put (store_map (gp_storage st)) kb bs" using put_data_stores [OF assms(1,4,8) bs(1)] by blast
  let ?st = "st\<lparr>gp_storage := store\<rparr>"
  have "store_map store kb = Some bs" using p(3) bs(2) assms(9) store_map_size [OF l] by (auto simp: ledger_put_def)
  moreover have "gpu_ok ?st" using h p(2) by (simp add: gpu_ok_def)
  ultimately obtain w h' where "get_data ?st get = answer w (?st\<lparr>gp_heap := h'\<rparr>) get" "same_value (gp_heap st) (hb_args put ! 1) h' w"
    using get_data_reads [of ?st get kb bs "gp_heap st" "hb_args put ! 1"] assms(5-8,10) bs(1) h by auto
  then show ?thesis using p(1) assms(2,3) by (intro exI [of _ ?st]) (auto simp: gpu_host_dispatch_def)
qed

definition sample_mailbox :: "u32 \<Rightarrow> u64 list \<Rightarrow> host_mailbox" where
  "sample_mailbox fn args =
     \<lparr>hb_fn_id = fn, hb_n_args = of_nat (length args), hb_n_results = 0, hb_args = args @ replicate (16 - length args) 0, hb_results = [0]\<rparr>"

theorem gpu_put_then_get_witness:
  "\<exists>st' h'. gpu_host_dispatch empty_gpu (sample_mailbox 95 [SYM_ADMIN, 1003, 2]) None 0 = answer SOROBAN_VOID st' (sample_mailbox 95 [SYM_ADMIN, 1003, 2]) \<and>
     gpu_host_dispatch st' (sample_mailbox 97 [SYM_ADMIN, 2]) None 0 = answer 1003 (st'\<lparr>gp_heap := h'\<rparr>) (sample_mailbox 97 [SYM_ADMIN, 2])"
proof -
  have t: "soroban_tag SYM_ADMIN = 14" "soroban_tag 1003 = 235" by (simp_all add: soroban_tag_def SYM_ADMIN_def)
  have k: "kv_canon_key (gp_heap empty_gpu) SYM_ADMIN 2 = Inr (Some (2 # kv_write_u64 SYM_ADMIN))"
    by (simp add: kv_canon_key_def canon_elem_def t)
  have c: "unat (gs_count (gp_storage empty_gpu)) = 0" by (simp add: empty_gpu_def empty_ledger_def)
  show ?thesis
    using gpu_put_then_get [OF empty_gpu_ok(2), of "sample_mailbox 95 [SYM_ADMIN, 1003, 2]" "sample_mailbox 97 [SYM_ADMIN, 2]"
        "2 # kv_write_u64 SYM_ADMIN" None 0 None 0] k c
    by (auto simp: sample_mailbox_def t same_value_def)
qed

section \<open>Seeds\<close>

lemma seed_heap_ok:
  assumes "gpu_ok hs" and "\<forall>(tag, len, data) \<in> set os. min (unat len) GPU_OBJ_BYTES \<le> length data"
  shows "yields gpu_ok (seed_heap hs os)"
proof -
  have "yields heap_ok (alloc_all os h)" if "heap_ok h" for h
    using that assms(2)
  proof (induction os arbitrary: h)
    case (Cons x os)
    obtain tag len data where x: "x = (tag, len, data)" by (metis prod_cases3)
    have "yields (\<lambda>(v, h'). heap_ok h') (obj_alloc h tag len (Some data))" using Cons.prems x by (intro obj_alloc_yields) auto
    then show ?case using Cons x by (auto intro!: yields_rbind)
  qed simp
  then have "yields heap_ok (alloc_all os (gpu_heap_reset (gp_heap hs)))" using assms(1) heap_reset_ok by (simp add: gpu_ok_def)
  then show ?thesis unfolding seed_heap_def by (rule yields_rbind) (use assms(1) in \<open>simp add: gpu_ok_def\<close>)
qed

lemma seeds_ok:
  assumes "gpu_ok hs" and "length a = 32" and "length b = 32"
  shows "yields gpu_ok (seed_mint_args hs a n)" "yields gpu_ok (seed_balance_args hs a)" "yields gpu_ok (seed_transfer_args hs a b n)"
  unfolding seed_mint_args_def seed_balance_args_def seed_transfer_args_def
  by (rule seed_heap_ok [OF assms(1)]; use assms(2,3) in \<open>simp add: amount_bytes_def\<close>)+

text \<open>The seeded balance has the key that a guest builds: a vector of the symbol and the address, persistent.\<close>

lemma balance_key:
  assumes "soroban_tag vec = SOROBAN_TAG_VEC_OBJECT" and "obj_entry h vec = Inr (Some e)" and "go_len e = 2"
    and "go_elems e = SYM_BALANCE # a # rest" and "soroban_tag a = SOROBAN_TAG_ADDRESS_OBJECT" and "address_bytes h a = Inr pk"
  shows "kv_canon_key h vec 1 = Inr (Some (1 # kv_write_u64 SYM_BALANCE @ pk))"
proof -
  have "soroban_tag SYM_BALANCE = 14" by (simp add: soroban_tag_def SYM_BALANCE_def)
  then show ?thesis using assms by (simp add: kv_canon_key_def canon_elem_def)
qed

text \<open>
  C34. A seeded balance is the balance the token contract reads. After \<open>gpu_seed_balance\<close> for an address, in
  a ledger with room, \<open>get_contract_data\<close> with a persistent key that is any vector object of the symbol
  \<open>Balance\<close> and an address object with those 32 bytes, whatever handles they have, answers the seeded amount as a small i128.
\<close>

theorem seeded_balance_read:
  assumes "gpu_ok st" and "length pk = 32" and "unat (gs_count (gp_storage st)) < GPU_STORAGE_CAP"
    and "hb_fn_id mb = 97" and "length (hb_args mb) = 16" and "hb_args mb ! 1 = 1"
    and "soroban_tag (hb_args mb ! 0) = SOROBAN_TAG_VEC_OBJECT" and "obj_entry (gp_heap st) (hb_args mb ! 0) = Inr (Some e)"
    and "go_len e = 2" and "go_elems e = SYM_BALANCE # a # rest"
    and "soroban_tag a = SOROBAN_TAG_ADDRESS_OBJECT" and "address_bytes (gp_heap st) a = Inr pk"
  shows "\<exists>store h'. gpu_seed_balance (gp_storage st) pk amount = Inr store \<and>
    gpu_host_dispatch (st\<lparr>gp_storage := store\<rparr>) mb mem msize =
      answer (soroban_i128_small amount) (st\<lparr>gp_storage := store, gp_heap := h'\<rparr>) mb"
proof -
  let ?k = "1 # kv_write_u64 SYM_BALANCE @ pk" and ?v = "soroban_i128_small amount"
  have l: "ledger_ok (gp_storage st)" and h: "heap_ok (gp_heap st)" using assms(1) by (simp_all add: gpu_ok_def)
  obtain store where s: "gpu_seed_balance (gp_storage st) pk amount = Inr store" "ledger_ok store"
    "store_map store = ledger_put (store_map (gp_storage st)) ?k (kv_write_u64 ?v)"
    using put_refines_map [OF l, of ?k 41 "kv_write_u64 ?v" 8] assms(2) by (auto simp: gpu_seed_balance_def gpu_kv_put_u64_def)
  let ?st = "st\<lparr>gp_storage := store\<rparr>"
  have "store_map store ?k = Some (kv_write_u64 ?v)" using s(3) assms(3) store_map_size [OF l] by (simp add: ledger_put_def)
  moreover have "gpu_ok ?st" using h s(2) by (simp add: gpu_ok_def)
  moreover have "value_bytes (gp_heap st) ?v = Inr (kv_write_u64 ?v)" by (simp add: value_bytes_def)
  ultimately obtain w h' where "get_data ?st mb = answer w (?st\<lparr>gp_heap := h'\<rparr>) mb" "same_value (gp_heap st) ?v h' w"
    using get_data_reads [of ?st mb ?k _ "gp_heap st" ?v] balance_key [OF assms(7-12)] assms(5,6) h by auto
  then show ?thesis using s(1) assms(4) by (intro exI [of _ store] exI [of _ h']) (simp add: gpu_host_dispatch_def same_value_def)
qed

definition token_heap :: gpu_heap where
  "token_heap = empty_objects\<lparr>gh_count := 2, gh_entries := (gh_entries empty_objects)
     [0 := \<lparr>go_tag = SOROBAN_TAG_ADDRESS_OBJECT, go_len = 32, go_data = fill_pk 7, go_elems = zero_elems\<rparr>,
      1 := \<lparr>go_tag = SOROBAN_TAG_VEC_OBJECT, go_len = 2, go_data = zero_data,
        go_elems = [SYM_BALANCE, soroban_make_obj 0 SOROBAN_TAG_ADDRESS_OBJECT, 0, 0]\<rparr>]\<rparr>"

theorem seeded_balance_read_witness:
  "\<exists>store h'. gpu_seed_balance empty_ledger (fill_pk 7) 1000 = Inr store \<and>
     gpu_host_dispatch (empty_gpu\<lparr>gp_heap := token_heap, gp_storage := store\<rparr>)
       (sample_mailbox 97 [soroban_make_obj 1 SOROBAN_TAG_VEC_OBJECT, 1]) None 0 =
     answer (soroban_i128_small 1000) (empty_gpu\<lparr>gp_storage := store, gp_heap := h'\<rparr>)
       (sample_mailbox 97 [soroban_make_obj 1 SOROBAN_TAG_VEC_OBJECT, 1])"
proof -
  let ?st = "empty_gpu\<lparr>gp_heap := token_heap\<rparr>" and ?mb = "sample_mailbox 97 [soroban_make_obj 1 SOROBAN_TAG_VEC_OBJECT, 1]"
  let ?e = "\<lparr>go_tag = SOROBAN_TAG_VEC_OBJECT, go_len = 2, go_data = zero_data,
    go_elems = [SYM_BALANCE, soroban_make_obj 0 SOROBAN_TAG_ADDRESS_OBJECT, 0, 0]\<rparr>"
  have "list_all obj_ok (gh_entries token_heap)" unfolding token_heap_def
    by (simp add: empty_objects_def, intro list_all_update) (simp_all add: obj_ok_def list_all_length zero_data_def zero_elems_def fill_pk_def)
  then have ok: "gpu_ok ?st" using empty_gpu_ok(1)
    by (simp add: gpu_ok_def heap_ok_def token_heap_def empty_objects_def empty_gpu_def)
  have e: "obj_entry token_heap (soroban_make_obj 1 SOROBAN_TAG_VEC_OBJECT) = Inr (Some ?e)"
    and a: "address_bytes token_heap (soroban_make_obj 0 SOROBAN_TAG_ADDRESS_OBJECT) = Inr (fill_pk 7)"
    by (simp_all add: obj_entry_def obj_get_def address_bytes_def token_heap_def empty_objects_def fill_pk_def word_le_nat_alt)
  have "unat (gs_count (gp_storage ?st)) < GPU_STORAGE_CAP" by (simp add: empty_gpu_def empty_ledger_def)
  from seeded_balance_read [OF ok _ this, of "fill_pk 7" ?mb ?e "soroban_make_obj 0 SOROBAN_TAG_ADDRESS_OBJECT" "[0, 0]" 1000 None 0]
  show ?thesis using e a by (simp add: sample_mailbox_def fill_pk_def empty_gpu_def)
qed

section \<open>Limits\<close>

text \<open>
  A full object heap. \<open>obj_alloc\<close> answers void, whose handle part is 0, and \<open>vec_new\<close> does not test the answer:
  it writes arity and elements of the new vector into object 0.
\<close>

lemma full_heap_overwrites:
  assumes "heap_ok (gp_heap st)" and "unat (gh_count (gp_heap st)) = GPU_OBJ_CAP" and "length (hb_args mb) = 16"
    and "ucast (drop_bit 32 (hb_args mb ! 1)) = (0 :: u32)"
  shows "vec_new st mb (Some mem) msize =
    answer SOROBAN_VOID (st\<lparr>gp_heap := gp_heap st\<lparr>gh_entries := (gh_entries (gp_heap st))[0 := (gh_entries (gp_heap st) ! 0)\<lparr>go_len := 0\<rparr>]\<rparr>\<rparr>) mb"
proof -
  have "soroban_handle SOROBAN_VOID = 0" by (simp add: soroban_handle_def)
  moreover have "gh_count (gp_heap st) \<noteq> 0" using assms(2) by auto
  ultimately have "obj_get (gp_heap st) SOROBAN_VOID = Some 0" by (simp add: obj_get_def word_le_nat_alt unat_eq_0)
  then show ?thesis using assms by (simp add: vec_new_def vec_fill_def obj_alloc_full heap_ok_def)
qed

text \<open>Canonical keys collide: a vector of one value has the key of the value alone.\<close>

lemma canon_key_collides:
  assumes "heap_ok h" and "obj_entry h vec = Inr (Some e)" and "soroban_tag vec = SOROBAN_TAG_VEC_OBJECT" and "go_len e = 1"
    and "soroban_tag (go_elems e ! 0) \<noteq> SOROBAN_TAG_VEC_OBJECT"
  shows "kv_canon_key h vec stype = kv_canon_key h (go_elems e ! 0) stype"
proof -
  have "length (go_elems e) = 4" using obj_entry_yields [OF assms(1), of vec] assms(2) by (simp add: obj_ok_def)
  then obtain v vs where v: "go_elems e = v # vs" by (cases "go_elems e") auto
  have "rbind (canon_elem h v [stype]) (case_option (Inr None) (canon_elems h [])) = canon_elem h v [stype]"
    by (auto simp: rbind_def split: sum.split option.split)
  then show ?thesis using assms(2-5) v \<open>length (go_elems e) = 4\<close> by (simp add: kv_canon_key_def)
qed

text \<open>The ledger sequence 100 is shifted by 8 bits, where the guest, like the dispatcher itself, reads a U32 from the upper 32 bits.\<close>

lemma ledger_sequence_reads_zero:
  assumes "hb_fn_id mb = 4"
  shows "\<exists>v. gpu_host_dispatch st mb mem msize = answer v st mb \<and> soroban_tag v = SOROBAN_TAG_U32VAL \<and> (ucast (drop_bit 32 v) :: u32) = 0"
  using assms by (intro exI [of _ "push_bit 8 100 OR 4"]) (simp add: gpu_host_dispatch_def soroban_tag_def)

text \<open>A snapshot restores what a run changed of a module.\<close>

lemma restore_snapshot:
  "restore_module ((write_back m t)\<lparr>hm_mem_size := n\<rparr>) (snapshot_module m) = m"
  by (simp add: restore_module_def snapshot_module_def write_back_def)

end
