(* ===== verification/Tools.thy ===== *)
theory Tools
  imports Wasm_Profile Catalog
begin

text \<open>
  The command line tools around the components: \<open>oracle.rs\<close>, \<open>wat2wasm.rs\<close>, and the \<open>main\<close> functions of
  \<open>wastprep.rs\<close> and \<open>wasm-profile.rs\<close> (all under \<open>tools/src/bin\<close>). A tool reads and writes files, prints
  lines, and ends by returning, by an exit code or by a panic. The operating system's files, the WAT
  assembler, the JSON printer, the interpreter \<open>wasmi\<close> and Rust's debug format of a string are parameters.
\<close>

section \<open>Processes\<close>

datatype exit = Exit int | Panicked string

record 'fs console =
  co_fs :: 'fs
  co_out :: "string list"
  co_err :: "string list"

type_synonym ('fs, 'a) tool = "('fs console, exit, 'a) es"

text \<open>The calls of \<open>std::fs\<close>; an error is its text.\<close>

record 'fs fs_ops =
  fo_read :: "string \<Rightarrow> 'fs \<Rightarrow> string + u8 list"
  fo_read_to_string :: "string \<Rightarrow> 'fs \<Rightarrow> string + string"
  fo_write :: "string \<Rightarrow> u8 list \<Rightarrow> 'fs \<Rightarrow> (string + unit) \<times> 'fs"
  fo_create_dir_all :: "string \<Rightarrow> 'fs \<Rightarrow> (string + unit) \<times> 'fs"
  fo_len :: "string \<Rightarrow> 'fs \<Rightarrow> string + nat"

definition println :: "string \<Rightarrow> ('fs console, 'e, unit) es" where
  "println s = modifyS (\<lambda>c. c\<lparr>co_out := co_out c @ [s]\<rparr>)"

definition eprintln :: "string \<Rightarrow> ('fs console, 'e, unit) es" where
  "eprintln s = modifyS (\<lambda>c. c\<lparr>co_err := co_err c @ [s]\<rparr>)"

text \<open>A message on the error output and the end of the process.\<close>

definition exit_with :: "string \<Rightarrow> int \<Rightarrow> ('fs, 'a) tool" where
  "exit_with msg code = thenS (eprintln msg) (fail (Exit code))"

definition or_exit :: "(string \<Rightarrow> string) \<Rightarrow> int \<Rightarrow> string + 'a \<Rightarrow> ('fs, 'a) tool" where
  "or_exit msg code r = (case r of Inl e \<Rightarrow> exit_with (msg e) code | Inr x \<Rightarrow> ret x)"

definition or_panic :: "string \<Rightarrow> string + 'a \<Rightarrow> ('fs, 'a) tool" where
  "or_panic msg r = (case r of Inl e \<Rightarrow> fail (Panicked msg) | Inr x \<Rightarrow> ret x)"

definition look :: "('fs \<Rightarrow> 'a) \<Rightarrow> ('fs console, 'e, 'a) es" where
  "look f = getS (\<lambda>c. f (co_fs c))"

definition act :: "('fs \<Rightarrow> 'a \<times> 'fs) \<Rightarrow> ('fs console, 'e, 'a) es" where
  "act f c = (case f (co_fs c) of (x, fs) \<Rightarrow> (Inr x, c\<lparr>co_fs := fs\<rparr>))"

text \<open>\<open>Path::join\<close> with a relative path.\<close>

definition path_join :: "string \<Rightarrow> string \<Rightarrow> string" where
  "path_join d n = (if d = [] \<or> last d = CHR ''/'' then d @ n else d @ ''/'' @ n)"

section \<open>wat2wasm\<close>

definition wat2wasm_main :: "'fs fs_ops \<Rightarrow> (string \<Rightarrow> string + u8 list) \<Rightarrow> string list \<Rightarrow> ('fs, unit) tool" where
  "wat2wasm_main F parse_str args =
     (if length args \<noteq> 3 then exit_with ''usage: wat2wasm <input.wat> <output.wasm>'' 2
      else
        bindS (look (fo_read_to_string F (args ! 1))) (\<lambda>r.
        bindS (or_exit (\<lambda>e. ''read '' @ args ! 1 @ '': '' @ e) 1 r) (\<lambda>wat.
        bindS (or_exit (\<lambda>e. ''parse wat: '' @ e) 1 (parse_str wat)) (\<lambda>wasm.
        bindS (act (fo_write F (args ! 2) wasm)) (\<lambda>w.
        or_exit (\<lambda>e. ''write '' @ args ! 2 @ '': '' @ e) 1 w)))))"

section \<open>wastprep\<close>

definition write_module ::
  "'fs fs_ops \<Rightarrow> (string \<Rightarrow> string + u8 list) \<Rightarrow> string \<Rightarrow> nat \<times> string \<Rightarrow> ('fs, unit) tool" where
  "write_module F parse_str out_dir = (\<lambda>(i, wat).
     bindS (or_exit (\<lambda>e. ''wat parse module '' @ dec i @ '': '' @ e) 1 (parse_str wat)) (\<lambda>wasm.
     let path = path_join out_dir (''mod'' @ dec i @ ''.wasm'') in
     bindS (act (fo_write F path wasm)) (\<lambda>w.
     thenS (or_panic ''write module'' w) (
     bindS (look (fo_len F path)) (\<lambda>l.
     bindS (or_panic ''metadata'' l) (\<lambda>n.
     eprintln (''wrote '' @ path @ '' ('' @ dec n @ '' bytes)'')))))))"

definition scan :: "prep_error + 'a \<Rightarrow> ('fs, 'a) tool" where
  "scan r = or_panic ''byte index is not a char boundary'' (map_err (\<lambda>_. []) r)"

definition wastprep_main ::
  "'fs fs_ops \<Rightarrow> (string \<Rightarrow> string + u8 list) \<Rightarrow> (assertion list \<Rightarrow> string) \<Rightarrow> string list \<Rightarrow> ('fs, unit) tool" where
  "wastprep_main F parse_str to_json args =
     (if length args \<noteq> 3 then exit_with ''usage: wastprep <in.wast> <out-dir>'' 2
      else
        bindS (look (fo_read_to_string F (args ! 1))) (\<lambda>r.
        bindS (or_panic ''read wast'' r) (\<lambda>src.
        bindS (act (fo_create_dir_all F (args ! 2))) (\<lambda>d.
        thenS (or_panic ''create_dir_all'' d) (
        bindS (scan (extract_modules src)) (\<lambda>modules.
        thenS (if modules = [] then exit_with ''no modules found'' 1 else ret ()) (
        thenS (forS (enumerate 0 modules) (write_module F parse_str (args ! 2))) (
        bindS (scan (parse_assertions src)) (\<lambda>assertions.
        let json_path = path_join (args ! 2) ''assertions.json'' in
        bindS (act (fo_write F json_path (bytes_of (to_json assertions)))) (\<lambda>w.
        thenS (or_panic ''write assertions'' w) (
        thenS (eprintln (''wrote '' @ json_path @ '' ('' @ dec (length assertions) @ '' assertions, '' @
          dec (length modules) @ '' modules)'')) (
        if length assertions \<noteq> 60
        then exit_with (''warning: expected 60 assertions, got '' @ dec (length assertions)) 1
        else ret ()))))))))))))"

section \<open>wasm-profile\<close>

definition print_inventory :: "(string list \<Rightarrow> string) \<Rightarrow> string \<Rightarrow> u8 list \<Rightarrow> inventory \<Rightarrow> string list" where
  "print_inventory debug_strs path bytes s =
     [''file: '' @ path,
      ''bytes: '' @ dec (length bytes),
      ''memory: '' @ iv_mem s,
      ''funcs: '' @ dec (unat (iv_n_funcs s)) @ ''  globals: '' @ dec (unat (iv_n_globals s)) @ ''  tables: '' @
        dec (unat (iv_n_tables s)) @ ''  data: '' @ dec (unat (iv_n_data s)) @ ''  elem: '' @ dec (unat (iv_n_elem s)) @
        ''  start: '' @ show_bool (iv_has_start s),
      ''float_ops: '' @ dec (unat (iv_float_ops s)) @ ''  simd_ops: '' @ dec (unat (iv_simd_ops s)),
      ''customs: '' @ debug_strs (iv_customs s),
      ''imports ('' @ dec (length (iv_imports s)) @ ''):''] @
     map (\<lambda>(m, n, k). ''  '' @ m @ ''::'' @ n @ ''  '' @ k) (iv_imports s) @
     [''exports ('' @ dec (length (iv_exports s)) @ ''):''] @
     map (\<lambda>(n, k). ''  '' @ n @ ''  '' @ k) (iv_exports s) @
     [''opcodes ('' @ dec (length (ranked s)) @ '' unique, '' @ dec (unat (ranked_total s)) @ '' total):''] @
     map (\<lambda>(n, c). ''  '' @ pad_left 6 (dec (unat c)) @ ''  '' @ n) (ranked s) @ ['''']"

definition profile_tool ::
  "'fs fs_ops \<Rightarrow> (u8 list \<Rightarrow> (string + prof_payload) list) \<Rightarrow> (string list \<Rightarrow> string) \<Rightarrow> string \<Rightarrow> ('fs, unit) tool" where
  "profile_tool F parse_all debug_strs path =
     bindS (look (fo_read F path)) (\<lambda>r.
     bindS (or_panic ''read wasm'' r) (\<lambda>bytes.
     case profile (parse_all bytes) of
       Inl (ExpectFailed what) \<Rightarrow> fail (Panicked what)
     | Inr s \<Rightarrow> forS (print_inventory debug_strs path bytes s) println))"

text \<open>The arguments without the name of the program.\<close>

definition wasm_profile_main ::
  "'fs fs_ops \<Rightarrow> (u8 list \<Rightarrow> (string + prof_payload) list) \<Rightarrow> (string list \<Rightarrow> string) \<Rightarrow> string list \<Rightarrow> ('fs, unit) tool" where
  "wasm_profile_main F parse_all debug_strs args =
     (if drop 1 args = [] then exit_with ''usage: wasm-profile <a.wasm>...'' 2
      else forS (drop 1 args) (profile_tool F parse_all debug_strs))"

section \<open>oracle\<close>

text \<open>What the oracle calls of \<open>wasmi\<close>; the operations on a store return it updated.\<close>

record ('cfg, 'eng, 'm, 'st, 'lnk, 'pre, 'inst, 'f) wasmi =
  wi_default :: 'cfg
  wi_tail_call :: "bool \<Rightarrow> 'cfg \<Rightarrow> 'cfg"
  wi_engine :: "'cfg \<Rightarrow> 'eng"
  wi_module :: "'eng \<Rightarrow> u8 list \<Rightarrow> string + 'm"
  wi_store :: "'eng \<Rightarrow> 'st"
  wi_linker :: "'eng \<Rightarrow> 'lnk"
  wi_instantiate :: "'lnk \<Rightarrow> 'm \<Rightarrow> 'st \<Rightarrow> (string + 'pre) \<times> 'st"
  wi_start :: "'pre \<Rightarrow> 'st \<Rightarrow> (string + 'inst) \<times> 'st"
  wi_typed_func :: "'inst \<Rightarrow> string \<Rightarrow> 'st \<Rightarrow> string + 'f"
  wi_call :: "'f \<Rightarrow> u64 \<Rightarrow> 'st \<Rightarrow> (string + u64) \<times> 'st"

datatype verdict = Verdict_Ok u64 | Unsupported string | Trapped string

text \<open>The line that is printed for a verdict.\<close>

definition ok_line :: "string \<Rightarrow> string" where
  "ok_line s = ''{\"status\": \"ok\", \"results\": ['' @ s @ '']}''"

definition verdict_line :: "(string \<Rightarrow> string) \<Rightarrow> verdict \<Rightarrow> string" where
  "verdict_line debug_str v =
     (case v of
        Verdict_Ok r \<Rightarrow> ok_line (show_int (sint r))
      | Unsupported e \<Rightarrow> ''{\"status\": \"unsupported_op\", \"results\": [], \"error\": '' @ debug_str e @ ''}''
      | Trapped e \<Rightarrow> ''{\"status\": \"trap_unreachable\", \"results\": [], \"error\": '' @ debug_str e @ ''}'')"

definition oracle_verdict :: "('cfg, 'eng, 'm, 'st, 'lnk, 'pre, 'inst, 'f) wasmi \<Rightarrow> u8 list \<Rightarrow> string \<Rightarrow> u64 \<Rightarrow> verdict" where
  "oracle_verdict W wasm export n =
     (let engine = wi_engine W (wi_tail_call W True (wi_default W)) in
      case wi_module W engine wasm of
        Inl e \<Rightarrow> Unsupported e
      | Inr m \<Rightarrow>
          (case wi_instantiate W (wi_linker W engine) m (wi_store W engine) of
             (Inl e, _) \<Rightarrow> Trapped e
           | (Inr pre, st) \<Rightarrow>
               (case wi_start W pre st of
                  (Inl e, _) \<Rightarrow> Trapped e
                | (Inr inst, st) \<Rightarrow>
                    (case wi_typed_func W inst export st of
                       Inl e \<Rightarrow> Unsupported e
                     | Inr f \<Rightarrow> (case wi_call W f n st of (Inl e, _) \<Rightarrow> Trapped e | (Inr v, _) \<Rightarrow> Verdict_Ok v)))))"

fun parse_args :: "string list \<Rightarrow> ('fs, int list) tool" where
  "parse_args [] = ret []"
| "parse_args (a # as) =
     (case parse_i64 a of
        None \<Rightarrow> exit_with (''bad arg '' @ a) 2
      | Some n \<Rightarrow> bindS (parse_args as) (\<lambda>ns. ret (n # ns)))"

definition report :: "(string \<Rightarrow> string) \<Rightarrow> verdict \<Rightarrow> ('fs, unit) tool" where
  "report debug_str v =
     thenS (println (verdict_line debug_str v)) (case v of Verdict_Ok _ \<Rightarrow> ret () | _ \<Rightarrow> fail (Exit 1))"

definition oracle_main ::
  "'fs fs_ops \<Rightarrow> ('cfg, 'eng, 'm, 'st, 'lnk, 'pre, 'inst, 'f) wasmi \<Rightarrow> (string \<Rightarrow> string) \<Rightarrow> string list \<Rightarrow> ('fs, unit) tool" where
  "oracle_main F W debug_str args =
     (if length args < 3 then exit_with ''usage: cuwasm-oracle <module.wasm> <export> [i64 args...]'' 2
      else
        bindS (look (fo_read F (args ! 1))) (\<lambda>r.
        bindS (or_exit (\<lambda>e. ''read: '' @ e) 1 r) (\<lambda>wasm.
        bindS (parse_args (drop 3 args)) (\<lambda>invoke_args.
        if length invoke_args \<noteq> 1 then exit_with ''stage-1 oracle expects a single i64 argument'' 2
        else report debug_str (oracle_verdict W wasm (args ! 2) (of_int (invoke_args ! 0)))))))"

end
