(* ===== verification/Tools_Correct.thy ===== *)
theory Tools_Correct
  imports Tools Wastprep_Correct
begin

text \<open>
  What the exit codes of the tools mean: the oracle succeeds exactly when the export returns a value, and
  the preparation tool only for scripts with sixty assertions.
\<close>

lemmas tool_simps = println_def eprintln_def exit_with_def or_exit_def or_panic_def look_def act_def report_def scan_def

section \<open>Oracle\<close>

lemma parse_args_silent:
  "\<exists>err. parse_args as c = ((case those (map parse_i64 as) of None \<Rightarrow> Inl (Exit 2) | Some ns \<Rightarrow> Inr ns), c\<lparr>co_err := err\<rparr>)"
proof (induction as)
  case Nil
  show ?case by (intro exI [of _ "co_err c"]) simp
next
  case (Cons a as)
  then obtain err where err: "parse_args as c = ((case those (map parse_i64 as) of None \<Rightarrow> Inl (Exit 2) | Some ns \<Rightarrow> Inr ns), c\<lparr>co_err := err\<rparr>)"
    by blast
  show ?case
  proof (cases "parse_i64 a")
    case None
    then show ?thesis by (intro exI [of _ "co_err c @ [''bad arg '' @ a]"]) (simp add: tool_simps thenS_def bindS_def)
  next
    case (Some n)
    then show ?thesis using err by (intro exI [of _ err]) (auto simp: bindS_def split: option.splits)
  qed
qed

definition oracle_call :: "'fs fs_ops \<Rightarrow> string list \<Rightarrow> 'fs \<Rightarrow> (u8 list \<times> int) option" where
  "oracle_call F args fs =
     (if length args = 4 then
        (case (fo_read F (args ! 1) fs, parse_i64 (args ! 3)) of (Inr wasm, Some n) \<Rightarrow> Some (wasm, n) | _ \<Rightarrow> None)
      else None)"

lemma four_args: "length args = 4 \<Longrightarrow> drop 3 args = [args ! 3]"
  by (simp add: Cons_nth_drop_Suc [symmetric])

lemma oracle_main_call:
  assumes "oracle_call F args (co_fs c) = Some (wasm, n)"
  shows "oracle_main F W dbg args c =
    (case oracle_verdict W wasm (args ! 2) (of_int n) of Verdict_Ok v \<Rightarrow> Inr () | _ \<Rightarrow> Inl (Exit 1),
     c\<lparr>co_out := co_out c @ [verdict_line dbg (oracle_verdict W wasm (args ! 2) (of_int n))]\<rparr>)"
proof -
  have "length args = 4" "fo_read F (args ! 1) (co_fs c) = Inr wasm" "parse_i64 (args ! 3) = Some n"
    using assms by (auto simp: oracle_call_def split: if_splits sum.splits option.splits)
  then show ?thesis
    by (cases "oracle_verdict W wasm (args ! 2) (of_int n)") (simp_all add: oracle_main_def tool_simps four_args bindS_def thenS_def)
qed

lemma those_length: "those xs = Some ys \<Longrightarrow> length ys = length xs"
  by (induction xs arbitrary: ys) (auto split: option.splits)

lemma oracle_main_refuses:
  assumes "oracle_call F args (co_fs c) = None"
  shows "\<exists>code err. (code = 1 \<or> code = 2) \<and> oracle_main F W dbg args c = (Inl (Exit code), c\<lparr>co_err := err\<rparr>)"
proof (cases "length args < 3")
  case True
  then show ?thesis by (intro exI [of _ 2] exI [of _ "co_err c @ [''usage: cuwasm-oracle <module.wasm> <export> [i64 args...]'']"])
      (simp add: oracle_main_def tool_simps thenS_def bindS_def)
next
  case args: False
  show ?thesis
  proof (cases "fo_read F (args ! 1) (co_fs c)")
    case (Inl e)
    then show ?thesis using args by (intro exI [of _ 1] exI [of _ "co_err c @ [''read: '' @ e]"])
        (simp add: oracle_main_def tool_simps thenS_def bindS_def)
  next
    case (Inr wasm)
    obtain err where p: "parse_args (drop 3 args) c =
        ((case those (map parse_i64 (drop 3 args)) of None \<Rightarrow> Inl (Exit 2) | Some ns \<Rightarrow> Inr ns), c\<lparr>co_err := err\<rparr>)"
      using parse_args_silent by blast
    have "length ns \<noteq> 1" if "those (map parse_i64 (drop 3 args)) = Some ns" for ns
    proof
      assume "length ns = 1"
      then have len: "length args = 4" using those_length [OF that] args by simp
      show False using assms that Inr len by (auto simp: oracle_call_def four_args split: option.splits)
    qed
    then show ?thesis using args Inr p
      by (intro exI [of _ 2]) (auto simp: oracle_main_def tool_simps thenS_def bindS_def split: option.splits)
  qed
qed

section \<open>Properties\<close>


section \<open>Preparation of a script\<close>

text \<open>A successful run has assembled every module of the script and has found sixty assertions.\<close>

lemma write_module_assembles: "write_module F parse_str d (i, wat) c = (Inr u, c') \<Longrightarrow> \<exists>b. parse_str wat = Inr b"
  by (auto simp: write_module_def tool_simps thenS_def bindS_def split: sum.splits)

lemma write_modules_assemble:
  "forS ms (write_module F parse_str d) c = (Inr u, c') \<Longrightarrow> (i, wat) \<in> set ms \<Longrightarrow> \<exists>b. parse_str wat = Inr b"
proof (induction ms arbitrary: c)
  case (Cons m ms)
  then show ?case by (cases m) (fastforce simp: thenS_Inr_iff dest: write_module_assembles)
qed simp

lemma wastprep_success:
  assumes "wastprep_main F parse_str to_json args c = (Inr (), c')"
  obtains src modules asserts where "length args = 3" "fo_read_to_string F (args ! 1) (co_fs c) = Inr src"
    "extract_modules src = Inr modules" "modules \<noteq> []" "\<forall>m \<in> set modules. \<exists>b. parse_str m = Inr b"
    "parse_assertions src = Inr asserts" "length asserts = 60"
proof -
  from assms have len: "length args = 3" by (auto simp: wastprep_main_def tool_simps thenS_def bindS_def split: if_splits)
  from assms obtain src modules asserts c1 c2 where *: "fo_read_to_string F (args ! 1) (co_fs c) = Inr src" "extract_modules src = Inr modules"
    "modules \<noteq> []" "forS (enumerate 0 modules) (write_module F parse_str (args ! 2)) c1 = (Inr (), c2)"
    "parse_assertions src = Inr asserts" "length asserts = 60"
    by (auto simp: wastprep_main_def tool_simps thenS_Inr_iff bindS_Inr_iff Let_def map_err_def split: if_splits sum.splits)
  have "\<exists>b. parse_str m = Inr b" if m: "m \<in> set modules" for m
  proof -
    have "m \<in> set (map snd (enumerate 0 modules))" using m by (simp only: map_snd_enumerate)
    then obtain e where "m = snd e" "e \<in> set (enumerate 0 modules)" unfolding set_map by (rule imageE)
    then have "(fst e, m) \<in> set (enumerate 0 modules)" by simp
    then show ?thesis using write_modules_assemble [OF *(4)] by blast
  qed
  then show thesis using that len * by blast
qed

end
