(* ===== verification/Catalog_Files.thy ===== *)
theory Catalog_Files
  imports Tools
begin

text \<open>
  The frame of \<open>wast-catalog.rs\<close>: the walk through the directories (\<open>walk_wast\<close>), the list of scripts with
  their names in the catalogue, and the text of the results. A path is the list of its components
  (\<open>Path::components\<close>), names are UTF-8, and a directory is the finite tree that the tool sees of it, its
  entries in the order in which \<open>read_dir\<close> gives them.
\<close>

section \<open>Paths\<close>

type_synonym path = "string list"

fun split_on :: "char \<Rightarrow> string \<Rightarrow> string list" where
  "split_on d [] = [[]]"
| "split_on d (c # cs) =
     (if c = d then [] # split_on d cs
      else case split_on d cs of w # ws \<Rightarrow> (c # w) # ws | [] \<Rightarrow> [[c]])"

definition path_components :: "string \<Rightarrow> path" where
  "path_components s =
     (let ws = split_on (CHR ''/'') s in
      (if starts_with s ''/'' then [''/''] else if hd ws = ''.'' then [''.''] else []) @
      filter (\<lambda>w. w \<noteq> [] \<and> w \<noteq> ''.'') ws)"

definition path_string :: "path \<Rightarrow> string" where
  "path_string p = concat (case p of [] \<Rightarrow> [] | w # ws \<Rightarrow> w # map (\<lambda>v. ''/'' @ v) ws)"

definition file_name :: "path \<Rightarrow> string option" where
  "file_name p = (if p = [] \<or> last p \<in> {''/'', ''.'', ''..''} then None else Some (last p))"

text \<open>\<open>Path::extension\<close>: what follows the last dot, unless the dot is the first character.\<close>

definition extension :: "path \<Rightarrow> string option" where
  "extension p =
     (case file_name p of
        None \<Rightarrow> None
      | Some n \<Rightarrow>
          let after = rev (takeWhile (\<lambda>c. c \<noteq> CHR ''.'') (rev n)) in
          if length n \<le> length after + 1 then None else Some after)"

definition strip_prefix :: "path \<Rightarrow> path \<Rightarrow> path option" where
  "strip_prefix p root = (if take (length root) p = root then Some (drop (length root) p) else None)"

section \<open>Walking\<close>

text \<open>What the tool meets: directories that cannot be read, and entries that cannot be read.\<close>

datatype node = File | Unreadable | Dir "entry list"
  and entry = Bad_Entry | Entry string node

fun rec :: "path \<Rightarrow> node \<Rightarrow> path list \<Rightarrow> path list"
  and rec_entries :: "path \<Rightarrow> entry list \<Rightarrow> path list \<Rightarrow> path list"
  and rec_entry :: "path \<Rightarrow> entry \<Rightarrow> path list \<Rightarrow> path list"
where
  "rec dir File out = out"
| "rec dir Unreadable out = out"
| "rec dir (Dir rd) out = rec_entries dir rd out"
| "rec_entries dir [] out = out"
| "rec_entries dir (e # rd) out = rec_entries dir rd (rec_entry dir e out)"
| "rec_entry dir Bad_Entry out = out"
| "rec_entry dir (Entry name t) out =
     (if t \<noteq> File then rec (dir @ [name]) t out
      else if extension (dir @ [name]) = Some ''wast'' then out @ [dir @ [name]]
      else out)"

definition walk_wast :: "path \<Rightarrow> node \<Rightarrow> path list" where
  "walk_wast root t = sort (rec root t [])"

section \<open>The list of scripts\<close>

definition rel_name :: "path \<Rightarrow> path \<Rightarrow> string" where
  "rel_name root p =
     map (\<lambda>c. if c = CHR 0x5C then CHR ''/'' else c)
       (path_string (case strip_prefix p root of Some q \<Rightarrow> q | None \<Rightarrow> p))"

definition root_files :: "(string \<Rightarrow> node) \<Rightarrow> string \<Rightarrow> (string \<times> path) list" where
  "root_files tree arg = (let root = path_components arg in map (\<lambda>p. (rel_name root p, p)) (walk_wast root (tree arg)))"

definition extra_files :: "(string \<Rightarrow> node) \<Rightarrow> string \<Rightarrow> (string \<times> path) list" where
  "extra_files tree arg =
     (let er = path_components arg; pre = (case file_name er of Some n \<Rightarrow> n | None \<Rightarrow> ''extra'') in
      map (\<lambda>p. (pre @ ''/'' @ rel_name er p, p)) (walk_wast er (tree arg)))"

definition wast_files :: "(string \<Rightarrow> node) \<Rightarrow> string list \<Rightarrow> (string \<times> path) list" where
  "wast_files tree args = root_files tree (args ! 1) @ concat (map (extra_files tree) (drop 3 args))"

section \<open>Results\<close>

definition catalog_body :: "(wast_case \<Rightarrow> string) \<Rightarrow> wast_case list \<Rightarrow> string" where
  "catalog_body to_json cases = concat (map (\<lambda>c. to_json c @ [CHR 0x0A]) cases)"

text \<open>A \<open>BTreeMap\<close> is printed in the order of its keys.\<close>

definition counter_entries :: "string list \<Rightarrow> (string \<Rightarrow> u32 option) \<Rightarrow> (string \<times> nat) list" where
  "counter_entries ks m = map (\<lambda>k. (k, case m k of Some n \<Rightarrow> unat n | None \<Rightarrow> 0)) (sort (remdups ks))"

definition catalog_report ::
  "((string \<times> nat) list \<Rightarrow> string) \<Rightarrow> string \<Rightarrow> nat \<Rightarrow> catalog \<Rightarrow> string list" where
  "catalog_report debug_map jsonl n_files st =
     (case summary (cat_cases st) of
        (kinds, runnable) \<Rightarrow>
          [''catalog: '' @ dec (length (cat_cases st)) @ '' cases, '' @ dec (unat (cat_wasm_n st)) @ '' wasm modules, '' @
             dec (unat (cat_parse_fail st)) @ '' parse-fail files, '' @ dec n_files @ '' wast files -> '' @ jsonl,
           ''catalog kinds: '' @ debug_map (counter_entries (map ca_kind (cat_cases st)) kinds)] @
          map (\<lambda>(f, n). ''  runnable '' @ pad_left 5 (dec n) @ ''  '' @ f)
            (counter_entries (map ca_file (filter (\<lambda>c. ca_kind c \<noteq> ''skip'') (cat_cases st))) runnable))"

text \<open>
  The whole tool. Writing into the output directory succeeds, as in the component itself: the result is
  the contents of that directory with the lines on the error output.
\<close>

definition catalog_main ::
  "(string \<Rightarrow> node) \<Rightarrow> (path \<Rightarrow> string + string) \<Rightarrow> (string \<Rightarrow> string + 'b) \<Rightarrow> ('b \<Rightarrow> string + 'm wast_directive list) \<Rightarrow>
   ('m \<Rightarrow> string + bytes) \<Rightarrow> (wast_case \<Rightarrow> string) \<Rightarrow> ((string \<times> nat) list \<Rightarrow> string) \<Rightarrow> string list \<Rightarrow>
   (string \<rightharpoonup> bytes, unit) tool" where
  "catalog_main tree read new_buf parse encode to_json debug_map args =
     (if length args < 3 then exit_with ''usage: wast-catalog <wast-root> <out-dir> [extra-root...]'' 2
      else
        let files = wast_files tree args;
            st = build_catalog read new_buf parse encode files in
        thenS (act (\<lambda>fs. ((), (fs ++ cat_files st)(''catalog.jsonl'' \<mapsto> bytes_of (catalog_body to_json (cat_cases st)))))) (
        forS (catalog_report debug_map (path_join (args ! 2) ''catalog.jsonl'') (length files) st) eprintln))"

section \<open>The walk finds every script\<close>

text \<open>The scripts below a directory: the entries named \<open>*.wast\<close> that are not directories, however deep.\<close>

inductive script_at :: "path \<Rightarrow> node \<Rightarrow> path \<Rightarrow> bool" where
  here: "Entry name File \<in> set rd \<Longrightarrow> extension (dir @ [name]) = Some ''wast'' \<Longrightarrow> script_at dir (Dir rd) (dir @ [name])"
| below: "Entry name t \<in> set rd \<Longrightarrow> script_at (dir @ [name]) t p \<Longrightarrow> script_at dir (Dir rd) p"

inductive_simps script_at_simps:
  "script_at dir File p"
  "script_at dir Unreadable p"
  "script_at dir (Dir rd) p"

lemma rec_set:
  "set (rec dir t out) = set out \<union> {p. script_at dir t p}"
  "set (rec_entries dir rd out) = set out \<union> {p. script_at dir (Dir rd) p}"
  "set (rec_entry dir e out) = set out \<union> {p. script_at dir (Dir [e]) p}"
  by (induction dir t out and dir rd out and dir e out rule: rec_rec_entries_rec_entry.induct) (auto simp: script_at_simps)

lemma script_at_below: "script_at dir t p \<Longrightarrow> \<exists>q. p = dir @ q"
  by (induction rule: script_at.induct) auto

lemma walk_wast_finds: "set (walk_wast root t) = {p. script_at root t p}" "sorted (walk_wast root t)"
  by (simp_all add: walk_wast_def rec_set)

text \<open>The names in a directory differ, so no script is found twice.\<close>

fun entry_name :: "entry \<Rightarrow> string list" where
  "entry_name Bad_Entry = []"
| "entry_name (Entry name t) = [name]"

fun tidy :: "node \<Rightarrow> bool" and tidy_entries :: "entry list \<Rightarrow> bool" and tidy_entry :: "entry \<Rightarrow> bool" where
  "tidy File \<longleftrightarrow> True"
| "tidy Unreadable \<longleftrightarrow> True"
| "tidy (Dir rd) \<longleftrightarrow> distinct (concat (map entry_name rd)) \<and> tidy_entries rd"
| "tidy_entries [] \<longleftrightarrow> True"
| "tidy_entries (e # rd) \<longleftrightarrow> tidy_entry e \<and> tidy_entries rd"
| "tidy_entry Bad_Entry \<longleftrightarrow> True"
| "tidy_entry (Entry name t) \<longleftrightarrow> tidy t"

lemma rec_append:
  "rec dir t (out1 @ out2) = out1 @ rec dir t out2"
  "rec_entries dir rd (out1 @ out2) = out1 @ rec_entries dir rd out2"
  "rec_entry dir e (out1 @ out2) = out1 @ rec_entry dir e out2"
  by (induction dir t out2 and dir rd out2 and dir e out2 rule: rec_rec_entries_rec_entry.induct) auto

lemma rec_entries_Cons: "rec_entries dir (e # rd) [] = rec_entry dir e [] @ rec_entries dir rd []"
  using rec_append(2) [of dir rd "rec_entry dir e []" "[]"] by simp

lemma entry_named: "Entry name t \<in> set rd \<Longrightarrow> name \<in> set (concat (map entry_name rd))"
  by force

lemma script_below_name:
  assumes "script_at dir (Dir rd) p"
  obtains name q where "name \<in> set (concat (map entry_name rd))" and "p = dir @ name # q"
  using assms
proof cases
  case (here name)
  then show thesis using that [of name "[]"] entry_named by blast
next
  case (below name t)
  then show thesis using that [of name] entry_named script_at_below [of "dir @ [name]" t p] by auto
qed

lemma rec_distinct:
  "tidy t \<Longrightarrow> distinct (rec dir t [])"
  "distinct (concat (map entry_name rd)) \<Longrightarrow> tidy_entries rd \<Longrightarrow> distinct (rec_entries dir rd [])"
  "tidy_entry e \<Longrightarrow> distinct (rec_entry dir e [])"
proof (induction t and rd and e arbitrary: dir and dir and dir rule: tidy_tidy_entries_tidy_entry.induct)
  case (5 e rd)
  have "set (rec_entry dir e []) \<inter> set (rec_entries dir rd []) = {}"
  proof (rule ccontr)
    assume "\<not> ?thesis"
    then obtain p where "script_at dir (Dir [e]) p" "script_at dir (Dir rd) p" unfolding rec_set by auto
    then show False using "5.prems"(1) by (elim script_below_name) auto
  qed
  then show ?case using 5 by (simp add: rec_entries_Cons del: rec_entries.simps)
qed auto

lemma walk_wast_distinct: "tidy t \<Longrightarrow> distinct (walk_wast root t)"
  by (simp add: walk_wast_def rec_distinct)

end
