(* ===== verification/Emit_Profiles.thy ===== *)
theory Emit_Profiles
  imports Contract_Run Tools
begin

text \<open>
  The scenarios of \<open>tools/contract-tests/src/bin/emit-profiles.rs\<close>: three contracts are set up in a test
  host, their exports run in contract frames by \<open>run_cuwasm_profile\<close>, and the merged profiles are written.
  The test host of the Soroban crates, the contracts' bytes and the JSON printer are parameters.
\<close>

section \<open>The test host\<close>

datatype emit_error = Expected string | Run_Failed run_failure | Run_Endless

datatype 'hash sc_address = Contract_Address 'hash | Other_Address

type_synonym ('h, 'a) scene = "('h, emit_error, 'a) es"

text \<open>
  A contract frame runs a closure, which sees the host and the profile captured by reference; a panic of
  the closure is a panic of the call.
\<close>

type_synonym 'h framed = "('h \<times> traced_profile option, emit_error, u64) es"

record ('h, 'hash, 'acct, 'auth) test_host =
  tt_new :: 'h
  tt_set_ledger :: "'h \<Rightarrow> 'h"
  tt_register :: "u8 list \<Rightarrow> 'h \<Rightarrow> u64 \<times> 'h"
  tt_scaddress :: "u64 \<Rightarrow> ('h, string, 'hash sc_address) es"
  tt_account :: "'h \<Rightarrow> 'acct \<times> 'h"
  tt_random :: "'h \<Rightarrow> u8 list \<times> 'h"
  tt_snapshot_auth :: "('h, string, 'auth) es"
  tt_recording_from :: "'auth \<Rightarrow> ('h, string, unit) es"
  tt_recording :: "bool \<Rightarrow> ('h, string, unit) es"
  tt_set_auth :: "'auth \<Rightarrow> ('h, string, unit) es"
  tt_upload :: "u64 \<Rightarrow> ('h, string, u64) es"
  tt_set_source :: "'acct \<Rightarrow> ('h, string, unit) es"
  tt_source_address :: "('h, string, u64 option) es"
  tt_create :: "u64 \<Rightarrow> u64 \<Rightarrow> u64 \<Rightarrow> u64 \<Rightarrow> ('h, string, u64) es"
  tt_small_symbol :: "string \<Rightarrow> u64 option"
  tt_u32_val :: "u32 \<Rightarrow> u64"
  tt_frame :: "'hash \<Rightarrow> u64 \<Rightarrow> 'h framed \<Rightarrow> ('h \<times> traced_profile option, emit_error, string + u64) es"

text \<open>\<open>expect\<close> on the result of a call of the host, and on an option.\<close>

definition expects :: "string \<Rightarrow> ('s, string, 'a) es \<Rightarrow> ('s, emit_error, 'a) es" where
  "expects msg m s = (case m s of (Inl e, t) \<Rightarrow> (Inl (Expected msg), t) | (Inr x, t) \<Rightarrow> (Inr x, t))"

definition expect_some :: "string \<Rightarrow> 'a option \<Rightarrow> ('s, emit_error, 'a) es" where
  "expect_some msg x = (case x of None \<Rightarrow> fail (Expected msg) | Some y \<Rightarrow> ret y)"

definition pureS :: "('s \<Rightarrow> 'a \<times> 's) \<Rightarrow> ('s, 'e, 'a) es" where
  "pureS f s = (case f s of (x, t) \<Rightarrow> (Inr x, t))"

section \<open>Setting up\<close>

definition contract_hash :: "('h, 'hash, 'acct, 'auth) test_host \<Rightarrow> u64 \<Rightarrow> ('h, 'hash) scene" where
  "contract_hash T cid =
     bindS (expects ''scaddress'' (tt_scaddress T cid)) (\<lambda>a.
       case a of Contract_Address h \<Rightarrow> ret h | Other_Address \<Rightarrow> fail (Expected ''expected contract address''))"

definition register_token ::
  "('h, 'hash, 'acct, 'auth) test_host \<Rightarrow> ('h, 'sc) host_ops \<Rightarrow> u8 list \<Rightarrow> ('h, u64) scene" where
  "register_token T H token_wasm =
     bindS (pureS (tt_account T)) (\<lambda>admin.
     bindS (expects ''snapshot auth'' (tt_snapshot_auth T)) (\<lambda>prev_auth.
     thenS (expects ''recording auth'' (tt_recording_from T prev_auth)) (
     bindS (expects ''bytes'' (h_bytes_new H token_wasm)) (\<lambda>bytes.
     bindS (expects ''upload'' (tt_upload T bytes)) (\<lambda>wasm_hash.
     thenS (expects ''source'' (tt_set_source T admin)) (
     bindS (expects ''addr'' (tt_source_address T)) (\<lambda>addr.
     bindS (expect_some ''deployer'' addr) (\<lambda>deployer.
     bindS (pureS (tt_random T)) (\<lambda>salt_bytes.
     bindS (expects ''salt'' (h_bytes_new H salt_bytes)) (\<lambda>salt.
     bindS (expects ''name'' (h_string_new H (bytes_of ''TestToken''))) (\<lambda>name.
     bindS (expects ''symbol'' (h_string_new H (bytes_of ''TT''))) (\<lambda>symbol.
     bindS (expects ''ctor'' (h_vec_new H [deployer, tt_u32_val T 7, name, symbol])) (\<lambda>ctor.
     bindS (expects ''create'' (tt_create T deployer wasm_hash salt ctor)) (\<lambda>cid.
     thenS (expects ''restore auth'' (tt_set_auth T prev_auth)) (ret cid)))))))))))))))"

definition account_address :: "('h, 'hash, 'acct, 'auth) test_host \<Rightarrow> 'acct \<Rightarrow> ('h, u64) scene" where
  "account_address T account =
     thenS (expects ''set_source_account'' (tt_set_source T account)) (
     bindS (expects ''source_account_address'' (tt_source_address T)) (\<lambda>addr.
     expect_some ''account address'' addr))"

text \<open>The halves of a 128-bit value: the upper one signed, the lower one the truncation.\<close>

definition i128_val :: "('h, 'sc) host_ops \<Rightarrow> 128 word \<Rightarrow> ('h, u64) scene" where
  "i128_val H v = expects ''i128'' (h_from_i128 H (ucast (drop_bit 64 v)) (ucast v))"

section \<open>Running in a contract frame\<close>

text \<open>
  The block that \<open>profile_hello\<close> and \<open>profile_increment\<close> write out and \<open>profile_token\<close> has as a macro. The
  runtime is a function of the host, the module, the export and the arguments; it does not return in a
  run without end.
\<close>

type_synonym 'h runtime = "'h \<Rightarrow> u8 list \<Rightarrow> string \<Rightarrow> u64 list \<Rightarrow> (run_failure + u64 \<times> traced_profile \<times> 'h) option"

definition capture :: "'h runtime \<Rightarrow> u8 list \<Rightarrow> string \<Rightarrow> u64 list \<Rightarrow> 'h framed" where
  "capture run wasm export args = (\<lambda>(h, pr).
     case run h wasm export args of
       None \<Rightarrow> (Inl Run_Endless, (h, pr))
     | Some (Inl e) \<Rightarrow> (Inl (Run_Failed e), (h, pr))
     | Some (Inr (v, p, h')) \<Rightarrow> (Inr v, (h', Some p)))"

definition run_capture ::
  "('h, 'hash, 'acct, 'auth) test_host \<Rightarrow> 'h runtime \<Rightarrow> u8 list \<Rightarrow> string \<Rightarrow> 'hash \<Rightarrow> string \<Rightarrow> string \<Rightarrow> u64 list \<Rightarrow> ('h, traced_profile) scene" where
  "run_capture T run wasm what hash sy export args h =
     (case tt_small_symbol T sy of
        None \<Rightarrow> (Inl (Expected ''symbol''), h)
      | Some s \<Rightarrow>
          (case tt_frame T hash s (capture run wasm export args) (h, None) of
             (Inl e, (h', _)) \<Rightarrow> (Inl e, h')
           | (Inr (Inl e), (h', _)) \<Rightarrow> (Inl (Expected what), h')
           | (Inr (Inr v), (h', pr)) \<Rightarrow> (case pr of None \<Rightarrow> (Inl (Expected ''profile''), h') | Some p \<Rightarrow> (Inr p, h'))))"

definition profile_hello ::
  "('h, 'hash, 'acct, 'auth) test_host \<Rightarrow> ('h, 'sc) host_ops \<Rightarrow> 'h runtime \<Rightarrow> u8 list \<Rightarrow> 'hash \<Rightarrow> ('h, traced_profile) scene" where
  "profile_hello T H run hello_wasm hash =
     bindS (expects ''str'' (h_string_new H (bytes_of ''World''))) (\<lambda>arg.
     run_capture T run hello_wasm ''hello frame'' hash ''hello'' ''hello'' [arg])"

definition profile_increment ::
  "('h, 'hash, 'acct, 'auth) test_host \<Rightarrow> 'h runtime \<Rightarrow> u8 list \<Rightarrow> 'hash \<Rightarrow> ('h, traced_profile list) scene" where
  "profile_increment T run increment_wasm hash =
     bindS (run_capture T run increment_wasm ''inc1 frame'' hash ''increment'' ''increment'' []) (\<lambda>p1.
     bindS (run_capture T run increment_wasm ''inc2 frame'' hash ''increment'' ''increment'' []) (\<lambda>p2.
     ret [p1, p2]))"

definition profile_token ::
  "('h, 'hash, 'acct, 'auth) test_host \<Rightarrow> ('h, 'sc) host_ops \<Rightarrow> 'h runtime \<Rightarrow> u8 list \<Rightarrow> 'hash \<Rightarrow> ('h, traced_profile list) scene" where
  "profile_token T H run token_wasm hash =
     thenS (expects ''recording auth'' (tt_recording T True)) (
     bindS (pureS (tt_account T)) (\<lambda>a. bindS (account_address T a) (\<lambda>alice.
     bindS (pureS (tt_account T)) (\<lambda>b. bindS (account_address T b) (\<lambda>bob.
     bindS (i128_val H 1000) (\<lambda>mint_amt.
     bindS (i128_val H 400) (\<lambda>xfer_amt.
     bindS (run_capture T run token_wasm ''mint frame'' hash ''mint'' ''mint'' [alice, mint_amt]) (\<lambda>p1.
     bindS (run_capture T run token_wasm ''balance frame'' hash ''balance'' ''balance'' [alice]) (\<lambda>p2.
     bindS (run_capture T run token_wasm ''transfer frame'' hash ''transfer'' ''transfer'' [alice, bob, xfer_amt]) (\<lambda>p3.
     bindS (run_capture T run token_wasm ''balance frame'' hash ''balance'' ''balance'' [bob]) (\<lambda>p4.
     ret [p1, p2, p3, p4])))))))))))"

section \<open>Main\<close>

record contract_profile =
  cp_contract :: string
  cp_scenarios :: "scenario_profile list"

definition write_profile ::
  "'fs fs_ops \<Rightarrow> (contract_profile \<Rightarrow> string) \<Rightarrow> string \<Rightarrow> contract_profile \<Rightarrow> ('fs console, emit_error, unit) es" where
  "write_profile F to_json path doc =
     bindS (act (fo_write F path (bytes_of (to_json doc)))) (\<lambda>w.
     case w of Inl e \<Rightarrow> fail (Expected ''write profile'') | Inr _ \<Rightarrow> println (''wrote '' @ path))"

text \<open>A scene in a fresh test host.\<close>

definition in_host :: "('h, 'hash, 'acct, 'auth) test_host \<Rightarrow> ('h, 'a) scene \<Rightarrow> ('s, emit_error, 'a) es" where
  "in_host T m = liftS (fst (m (tt_set_ledger T (tt_new T))))"

definition truncated :: "traced_profile list \<Rightarrow> run_profile_out list" where
  "truncated ps = map run_profile_out.truncate ps"

definition emit_main ::
  "'fs fs_ops \<Rightarrow> ('h, 'hash, 'acct, 'auth) test_host \<Rightarrow> ('h, 'sc) host_ops \<Rightarrow> 'h runtime \<Rightarrow> (contract_profile \<Rightarrow> string) \<Rightarrow> string \<Rightarrow>
   u8 list \<Rightarrow> u8 list \<Rightarrow> u8 list \<Rightarrow> ('fs console, emit_error, unit) es" where
  "emit_main F T H run to_json manifest_dir hello_wasm increment_wasm token_wasm =
     thenS (if length opcode_names \<noteq> CUWASM_CAPI_OP_COUNT then fail (Expected ''opcode name table'') else ret ()) (
     let docs = path_join manifest_dir ''../../docs'' in
     bindS (in_host T (
       bindS (pureS (tt_register T hello_wasm)) (\<lambda>cid.
       bindS (contract_hash T cid) (profile_hello T H run hello_wasm)))) (\<lambda>hello_p.
     thenS (write_profile F to_json (path_join docs ''hello_world-run-profile.json'')
       \<lparr>cp_contract = ''soroban_hello_world_contract.wasm'', cp_scenarios = [scenario ''hello'' (truncated [hello_p])]\<rparr>) (
     bindS (in_host T (
       bindS (pureS (tt_register T increment_wasm)) (\<lambda>cid.
       bindS (contract_hash T cid) (profile_increment T run increment_wasm)))) (\<lambda>inc_ps.
     thenS (write_profile F to_json (path_join docs ''increment-run-profile.json'')
       \<lparr>cp_contract = ''soroban_increment_contract.wasm'', cp_scenarios = [scenario ''increment'' (truncated inc_ps)]\<rparr>) (
     bindS (in_host T (
       bindS (register_token T H token_wasm) (\<lambda>cid.
       bindS (contract_hash T cid) (profile_token T H run token_wasm)))) (\<lambda>token_ps.
     write_profile F to_json (path_join docs ''token-run-profile.json'')
       \<lparr>cp_contract = ''soroban_token_contract.wasm'',
        cp_scenarios = [scenario ''mint/balance/transfer/balance'' (truncated token_ps)]\<rparr>))))))"

text \<open>The runtime of the program is \<open>run_cuwasm_profile\<close>.\<close>

definition contract_runtime ::
  "nat \<Rightarrow> bool \<Rightarrow> (error \<Rightarrow> string) \<Rightarrow> env_root \<Rightarrow> (u8 list \<Rightarrow> (string + payload) list) \<Rightarrow> val_ops \<Rightarrow> ('h, 'sc) host_ops \<Rightarrow>
   (derr \<Rightarrow> u8 list) \<Rightarrow> heap \<Rightarrow> 'h runtime" where
  "contract_runtime fuel debug render root parse_all V H render_host hp h wasm export args =
     run_cuwasm_profile fuel debug render root parse_all V H render_host h wasm export args hp"

section \<open>The host spike\<close>

text \<open>
  \<open>tools/host-spike/src/main.rs\<close>: one contract is registered and a number goes into the host and back. The two
  calls and the debug format of an address are parameters.
\<close>

definition spike_line :: "string \<Rightarrow> u64 \<Rightarrow> string" where
  "spike_line addr back =
     ''{\"status\":\"ok\",\"contract\":'' @ addr @ '',\"obj_from_u64\":42,\"obj_to_u64\":'' @ dec (unat back) @ ''}''"

definition host_spike_main ::
  "('h, 'hash, 'acct, 'auth) test_host \<Rightarrow> (u64 \<Rightarrow> ('h, string, u64) es) \<Rightarrow> (u64 \<Rightarrow> ('h, string, u64) es) \<Rightarrow> (u64 \<Rightarrow> string) \<Rightarrow>
   u8 list \<Rightarrow> ('fs console, emit_error, unit) es" where
  "host_spike_main T obj_from_u64 obj_to_u64 show_addr wasm =
     bindS (in_host T (
       bindS (pureS (tt_register T wasm)) (\<lambda>addr.
       bindS (expects ''obj_from_u64'' (obj_from_u64 42)) (\<lambda>obj.
       bindS (expects ''obj_to_u64'' (obj_to_u64 obj)) (\<lambda>back.
       if back \<noteq> 42 then fail (Expected ''round-trip obj_from_u64/obj_to_u64'') else ret (addr, back)))))) (\<lambda>(addr, back).
     println (spike_line (show_addr addr) back))"

section \<open>Results\<close>

lemma opcode_table_complete: "length opcode_names = CUWASM_CAPI_OP_COUNT"
  by (simp add: opcode_names_def CUWASM_CAPI_OP_COUNT_def)

text \<open>A profile that is captured comes from a run that returned.\<close>

lemma capture_Inr:
  "capture run wasm export args (h, pr) = (Inr v, (h', pr')) \<Longrightarrow> \<exists>p. run h wasm export args = Some (Inr (v, p, h')) \<and> pr' = Some p"
  by (auto simp: capture_def split: option.splits sum.splits prod.splits)

text \<open>The spike prints its line, and nothing else, exactly if the number comes back.\<close>

lemma host_spike_reports:
  "host_spike_main T obj_from_u64 obj_to_u64 show_addr wasm c = (Inr (), c') \<Longrightarrow>
   \<exists>addr. c' = c\<lparr>co_out := co_out c @ [spike_line (show_addr addr) 42]\<rparr>"
  by (auto simp: host_spike_main_def bindS_Inr_iff println_def split: if_splits)
    (auto simp: in_host_def bindS_def fst_def split: prod.splits sum.splits if_splits)

end
