(* ===== verification/Spec2Isabelle.thy ===== *)
theory Spec2Isabelle
  imports Wasm_Types CuOp Dataflow Verify Lowering Heights Lowered_Heights Lowered_Function Lowered_Verified
    Lowering_Frame Env_Ids Translate Translate_Safe Translate_Verified Translate_Linked
    Fingerprint Ffi Ffi_Safe Dispatch Dispatch_Safe Dispatch_Memory
    Decimal Wastprep Wastprep_Correct Catalog Catalog_Correct Profiles Profiles_Correct Wasm_Profile Wasm_Profile_Correct
    Interp Interp_Arith Interp_Safe Interp_Control Interp_Ends Interp_Memory Run_Cpu Run_Cpu_Safe Run_Cpu_Limits
    Contract_Run Contract_Safe Gpu_Host Gpu_Host_Correct Tools Tools_Correct Catalog_Files Emit_Profiles
begin

text \<open>
  CuWasm runs WebAssembly contracts on CPUs and GPUs. A contract is translated to a flat bytecode, CuOp,
  by Rust code; a C++ loader takes the module over through a C interface and verifies it; an interpreter
  shared by CPU and GPU executes it and leaves host calls to a driver, which hands them to a dispatcher
  written in Rust again. Around this core are tools that prepare the conformance suite and report
  profiles. This development models these parts and proves what makes them correct, alone and together.

  \<^bold>\<open>The translator\<close> (\<open>tools/src/lib.rs\<close>, \<open>tools/src/env_fn_id.rs\<close>).
  \<^item> \<open>Wasm_Types\<close>: operators, types and payloads as the parser delivers them. The parser itself (wasmparser)
    is a parameter: a function from bytes to payloads or errors.
  \<^item> \<open>CuOp\<close>: instructions (\<open>CuOpC\<close>), function records (\<open>FuncMetaC\<close>), the translated module (\<open>HostModule\<close>), the
    code vector with \<open>emit\<close> and \<open>patch_b\<close>, the constant pool with \<open>intern\<close>.
  \<^item> \<open>Lowering\<close>: \<open>lower_operators\<close>, one definition per helper and per group of arms of its \<open>match\<close>, in a monad of
    state and errors because the Rust code mutates its arguments also when it fails.
  \<^item> \<open>Lowering_Frame\<close>: lowering never panics, touches only its own code, keeps the pool distinct.
  \<^item> \<open>Heights\<close>, \<open>Lowered_Heights\<close>, \<open>Lowered_Function\<close>, \<open>Lowered_Verified\<close>: the heights lowering tracks are those the
    verifier computes, through unreachable code, forward patches, \<open>br_table\<close> and unwinding; so the verifier
    accepts every lowered function.
  \<^item> \<open>Env_Ids\<close>: the two tables of host function ids, of the translator and of the dispatcher, agree.
  \<^item> \<open>Translate\<close>: \<open>translate_wasm\<close>, every section, the stub for a rejected body, the assembly of memory, data
    and table. \<open>Translate_Safe\<close>: no panic, initial memory and table, parallel vectors. \<open>Translate_Verified\<close>: the
    verifier accepts the whole module. \<open>Translate_Linked\<close>: calls, host calls and arities of a translated module are
    consistent. \<open>Fingerprint\<close>: a type fingerprint determines its type.

  \<^bold>\<open>The C interface\<close> (\<open>tools/src/lib.rs\<close>, \<open>src/translate.cpp\<close>). \<open>Ffi\<close> models raw parts on an explicit heap of
  typed blocks, where a wrong layout or a null pointer is undefined behaviour; \<open>Ffi_Safe\<close> proves with an
  ownership discipline that the loader gets the module unchanged and that everything is freed once. The
  locale there states what each kind of block promises; vectors and strings are its interpretations.

  \<^bold>\<open>The verifier\<close> (\<open>src/verify.cpp\<close>). \<open>Dataflow\<close> is a worklist over heights, with its termination, soundness and
  completeness in a locale; \<open>Verify\<close> is \<open>verify_cuop\<close>, an interpretation of it.

  \<^bold>\<open>The interpreter\<close> (\<open>include/cuwasm/interp.h\<close>, \<open>mem.h\<close>, \<open>vmstate.h\<close>, \<open>layout.h\<close>).
  \<^item> \<open>Interp\<close>: every instruction on the state of an instance. A step stops with a status of the source, or with
    \<open>UB\<close> where the C++ code would index an array out of range or loop forever in \<open>OP_CLZ\<close>.
  \<^item> \<open>Interp_Arith\<close>: the 128-bit arithmetic and the count of leading zeros are exact.
  \<^item> \<open>Interp_Safe\<close>, \<open>Interp_Control\<close>: the frames of the active functions agree with the heights of the verifier;
    every instruction keeps this invariant and never reaches \<open>UB\<close>.
  \<^item> \<open>Interp_Ends\<close>: code without calls ends. \<open>Interp_Memory\<close>: loads read back stores.

  \<^bold>\<open>The driver\<close> (\<open>src/run.cpp\<close>). \<open>Run_Cpu\<close> is \<open>run_cpu\<close>; \<open>Run_Cpu_Safe\<close> states the contract of a host function as the
  locale \<open>host_contract\<close>, proves inside it that a verified module runs without undefined behaviour, and
  interprets it on the default host; \<open>Run_Cpu_Limits\<close> proves what the step limit and the fuel do not bound.

  \<^bold>\<open>The dispatcher\<close> (\<open>tools/contract-tests/src/dispatch.rs\<close>). \<open>Dispatch\<close> is the whole handler; the Soroban host and
  its values are parameters. \<open>Dispatch_Safe\<close>: handles and values in guest memory; \<open>Dispatch_Memory\<close>: no call leaves
  the guest memory, calls are logged and traced.

  \<^bold>\<open>Contract runs\<close> (\<open>src/capi.cpp\<close>, \<open>tools/contract-tests/src/lib.rs\<close>, \<open>capi.rs\<close>). \<open>Contract_Run\<close> composes loader,
  verifier, driver and dispatcher into \<open>run_cuwasm_profile\<close>; \<open>Contract_Safe\<close> shows that the dispatcher behind the
  C interface is a \<open>host_contract\<close> and that a linked module can run, and the properties below follow for loading and
  for whole runs.

  \<^bold>\<open>The GPU host\<close> (\<open>include/cuwasm/gpu_host.h\<close>, \<open>gpu_host_run.h\<close>). \<open>Gpu_Host\<close> is the host that runs beside the
  interpreter on a GPU, an object heap and a ledger in arrays of fixed size, with its dispatcher, and the runner
  \<open>run_gpu_host\<close>; an access outside an array is an error value. \<open>Gpu_Host_Correct\<close>: the ledger refines a finite map of
  sixteen keys, stored values and seeded balances read back, the dispatcher keeps the arrays in shape and is another
  \<open>host_contract\<close>, so the runner is defined; and what a full heap, a full ledger and colliding keys do.

  \<^bold>\<open>Tools.\<close> \<open>Wastprep\<close>, \<open>Wastprep_Correct\<close> (\<open>wastprep.rs\<close>) with \<open>Decimal\<close>: extraction of modules and assertions from
  WAST text, over bytes with the panics of slicing. \<open>Catalog\<close>, \<open>Catalog_Correct\<close> (\<open>wast-catalog.rs\<close>): the catalogue
  of cases; \<open>Catalog_Files\<close>: the walk through the directories, which finds every script once, and the report.
  \<open>Profiles\<close>, \<open>Profiles_Correct\<close> (\<open>emit-profiles.rs\<close>): merging of run profiles; \<open>Emit_Profiles\<close>: the scenarios, which
  run contracts in frames of a test host, and \<open>host-spike\<close>. \<open>Wasm_Profile\<close>, \<open>Wasm_Profile_Correct\<close> (\<open>wasm-profile.rs\<close>): the
  inventory of a module. \<open>Tools\<close>: processes that read and write files, print, exit or panic, and the \<open>main\<close>
  functions of \<open>oracle.rs\<close>, \<open>wat2wasm.rs\<close>, \<open>wastprep.rs\<close> and \<open>wasm-profile.rs\<close>; \<open>Tools_Correct\<close>: what their exit
  codes mean.

  \<^bold>\<open>Shared.\<close> \<open>Prelude\<close> holds results and the state-and-error monad with its relational (\<open>keeps\<close>) and Hoare (\<open>triple\<close>)
  rules, decimal printing and word lemmas.

  \<^bold>\<open>Integers, bounds and fuel.\<close> Machine integers are words of their width and wrap as in the source; \<open>int\<close> is used
  where the source computes in wider types without overflow. The worklist of the verifier has fuel for two
  steps per instruction, which is proved to be enough. \<open>run_instance\<close> counts its steps as the source does. The
  outer loops of \<open>run_cpu\<close> and \<open>run_gpu_host\<close> are unbounded in the source; here they have fuel, \<open>None\<close> is a run that has not ended, and
  safety holds for every fuel, while a module that never ends is a theorem. Lengths are assumed to fit 32
  bits exactly where the code casts them (\<open>short\<close>).

  \<^bold>\<open>What the run theorem assumes.\<close> The interpreter relies on more than the verifier checks (\<open>code_checks\<close>): calls and
  table entries name functions with code and of the announced arity, host calls have one result, \<open>OP_CLZ\<close> has
  width 32 or 64, tail calls keep the number of results. \<open>Translate_Linked\<close> derives most of it from the translator,
  for arbitrary bodies. What is left are tests on the translated module, \<open>link_checks\<close> (no imports in the table,
  imports return one value, tail calls keep the number of results) and \<open>entry_fits\<close> (the entry function is not an
  import and fits the stack): neither translator nor verifier ensures them, and the findings say what happens
  without them. They are executable and are evaluated on a sample contract.

  \<^bold>\<open>Not modelled.\<close> Third-party crates (wasmparser, wast, wat, wasmi, serde, the Soroban host) are parameters,
  as are the files of the operating system. The build scripts (compiler and linker flags) and the tests in the sources
  have no logic of their own. CUDA kernels, launchers and benchmarks move data and run the same \<open>run_instance\<close> and
  \<open>gpu_host_dispatch\<close> per thread; the interleaving of the memory of several instances on a GPU is not modelled. Failing
  allocation is not modelled.
\<close>

section \<open>Properties that span the components\<close>

text \<open>
  C1. A contract run is defined from the loader to the dispatcher. Take any WASM binary whose sections are
  in order, any host and any arguments. If the translation succeeds, let its names be free of NUL, its
  lengths fit 32 bits and every declared function have a body; let the table hold no imports, imports return
  one value and tail calls keep the number of results (\<open>link_checks\<close>); and let the exported function not be an
  import and its parameters and locals fit the stack (\<open>entry_fits\<close>). Then \<open>run_cuwasm_profile\<close> never runs into
  undefined behaviour: not in the C interface, where it never panics either, not in the interpreter, whose
  stack, frames, memory, constants and data segments are never indexed out of range, and not in the host
  calls that the dispatcher serves on the guest memory. All other conditions of a safe run are established by
  the translator and the verifier.
\<close>

theorem contract_run_defined:
  assumes "fresh hp" and "imports_first (parse_all wasm)"
    and "\<forall>m0. translate_wasm root parse_all wasm = Inr m0 \<longrightarrow>
      nul_free m0 \<and> short m0 \<and> length (hm_func_typeidx m0) = length (hm_funcs m0)"
    and "\<forall>m0. translate_wasm root parse_all wasm = Inr m0 \<longrightarrow>
      link_checks m0 \<and> (\<forall>e \<in> set (hm_exports m0). fst e = export \<longrightarrow> entry_fits m0 (snd e))"
  shows "run_cuwasm_profile fuel debug render root parse_all V H render_host host wasm export args hp \<notin>
    {Some (Inl (Run_Undefined e)), Some (Inl (Panic_Load e))}"
  by (rule contract_defined [OF assms])

theorem contract_run_defined_witness:
  "\<forall>e. run_cuwasm_profile 50 True (\<lambda>_. []) sample_root (\<lambda>_. calling_payloads) soroban_vals counting_host (\<lambda>_. []) 0 [] ''run'' [] empty_heap \<notin>
     {Some (Inl (Run_Undefined e)), Some (Inl (Panic_Load e))}"
  by (intro allI contract_run_defined [OF empty_fresh calling_checks(1) calling_exportable])
    (use calling_translates calling_checks in simp)

text \<open>
  C3. Loading composes translator, C interface and verifier. If the bodies of a module are typed as
  validation guarantees, its sections are in order, its names are free of NUL, its lengths fit 32 bits and
  every declared function has a body, then \<open>cuwasm_module_load\<close> hands out exactly the module that
  \<open>translate_wasm\<close> produced with nothing but the frame sizes filled in, or refuses it with the text
  \<open>max_stack overflow\<close> in the caller's buffer; no other error is possible. Either way every block the C
  interface allocated is freed and no other block is touched.
\<close>

theorem typed_contract_loads:
  assumes "fresh hp" and "translate_wasm root parse_all wasm = Inr m0"
    and "imports_first (parse_all wasm)" and "typed_payloads root (parse_all wasm) start_state"
    and "nul_free m0" and "short m0" and "length (hm_func_typeidx m0) = length (hm_funcs m0)" and "hm_code m0 \<noteq> []"
  shows "\<exists>hp'. hp_blocks hp' = hp_blocks hp \<and>
    ((\<exists>sizes. cuwasm_module_load debug render root parse_all (Some wasm) (length wasm) err cap hp =
        (Inr (Inr (m0\<lparr>hm_funcs := map2 (\<lambda>f n. f\<lparr>fm_max_stack := n\<rparr>) (hm_funcs m0) sizes\<rparr>)), hp') \<and> length sizes = length (hm_funcs m0)) \<or>
     cuwasm_module_load debug render root parse_all (Some wasm) (length wasm) err cap hp =
        (Inr (Inl (copy_err err cap ''max_stack overflow'')), hp'))"
  using assms by (rule typed_module_loads)

theorem typed_contract_loads_witness:
  "\<exists>hp'. hp_blocks hp' = hp_blocks empty_heap \<and>
    ((\<exists>sizes. cuwasm_module_load True (\<lambda>_. []) sample_root (\<lambda>_. calling_payloads) (Some []) (length ([] :: u8 list)) [] 0 empty_heap =
        (Inr (Inr (calling_module\<lparr>hm_funcs := map2 (\<lambda>f n. f\<lparr>fm_max_stack := n\<rparr>) (hm_funcs calling_module) sizes\<rparr>)), hp') \<and>
        length sizes = length (hm_funcs calling_module)) \<or>
     cuwasm_module_load True (\<lambda>_. []) sample_root (\<lambda>_. calling_payloads) (Some []) (length ([] :: u8 list)) [] 0 empty_heap =
        (Inr (Inl (copy_err [] 0 ''max_stack overflow'')), hp'))"
  by (rule typed_contract_loads [OF empty_fresh calling_translates])
    (use calling_translates calling_exportable calling_checks(1) calling_typed in auto)

text \<open>
  C5. Runs on the GPU host are defined. Take a module that was translated and passed the verifier, with sections in
  order, lengths that fit 32 bits and \<open>link_checks\<close>; let the export, if the module has it, name a function of the
  module that is no import and fits the stack; and let the GPU host be in shape. Then whenever \<open>run_gpu_host\<close>
  returns, it returns in a defined way, for any arguments and any step limit: neither the interpreter nor the
  object heap and the ledger of the host are accessed outside their arrays, and the host is in shape again.
\<close>

theorem gpu_run_defined:
  assumes t: "translate_wasm root parse_all wasm = Inr m0" and i: "imports_first (parse_all wasm)" and sh: "short m0"
    and k: "link_checks m0" and v: "verify_cuop m0 = Inr m"
    and en: "\<forall>e \<in> set (hm_exports m0). fst e = export \<longrightarrow> unat (snd e) < length (hm_funcs m0) \<and> entry_fits m0 (snd e)"
    and ok: "gpu_ok hs"
  shows "pred_option (yields (\<lambda>(_, _, hs'). gpu_ok hs')) (run_gpu_host fuel m export args hs max_steps)"
proof -
  have im: "image_ok m" using translated_image_ok [OF t _ v] sh by (simp add: short_def)
  note rn = verified_runnable [OF v linked_code_checks [OF t i sh v k]]
  have same: "hm_exports m = hm_exports m0" "length (hm_funcs m) = length (hm_funcs m0)"
    by (rule verify_cuop_Inr [OF v]; simp)+
  have "nat fi < length (hm_funcs m) \<and> entry_ok (hm_funcs m ! nat fi)" if "find_export m export = fi" "0 \<le> fi" for fi
    using find_export_index [OF that] en same entry_fits_ok [OF t i sh v] by metis
  then have "gpu_entry_ok m export" by (simp add: gpu_entry_ok_def Let_def)
  from run_gpu_host_safe [OF rn im this ok] show ?thesis by (cases "run_gpu_host fuel m export args hs max_steps") auto
qed

theorem gpu_run_defined_witness:
  "\<exists>m. verify_cuop calling_module = Inr m \<and>
     pred_option (yields (\<lambda>(_, _, hs'). gpu_ok hs')) (run_gpu_host 50 m ''run'' [] empty_gpu 1000)"
proof -
  obtain m where m: "verify_cuop calling_module = Inr m" using calling_verifies by blast
  have "length (hm_funcs calling_module) = 2" "hm_exports calling_module = [(''run'', 1)]" by (simp_all add: calling_module_def)
  then show ?thesis
    using gpu_run_defined [OF calling_translates _ _ calling_checks(2) m, of "''run''" empty_gpu 50 "[]" 1000]
      calling_checks calling_exportable calling_translates empty_gpu_ok(2) m by auto
qed
end
